(* ===== verification/Prelude.thy ===== *)
theory Prelude
  imports Main "HOL-Library.While_Combinator"
begin

text \<open>
  Shared vocabulary of the development: the Go \<open>for\<close> loop as a combinator with its
  invariant, termination and unfolding rules, the strings package functions that the
  sources call, and the automation collections that the component theories extend.

  A Go \<open>string\<close> or \<open>[]byte\<close> is a list of bytes (\<^typ>\<open>string\<close>).
\<close>

named_theorems go_step \<open>equations that execute one step of a modelled loop or handler\<close>
named_theorems go_inv \<open>preservation lemmas of the components' invariants\<close>

section \<open>The Go for loop\<close>

text \<open>
  One iteration of a loop body either falls through to the next test of the condition
  (\<open>Continue\<close>; a Go \<open>continue\<close> statement or the end of the body) or leaves the enclosing
  function (\<open>Return\<close>).  A \<open>break\<close> is a \<open>Return\<close> of what the code after the loop computes.
  \<open>go_for g body fin s\<close> is \<open>for g \<lbrace> body \<rbrace>; return fin\<close>; it is \<^const>\<open>None\<close> exactly when the
  loop runs forever.
\<close>

datatype ('s, 'r) flow = Continue 's | Return 'r

definition go_for :: "('s \<Rightarrow> bool) \<Rightarrow> ('s \<Rightarrow> ('s, 'r) flow) \<Rightarrow> ('s \<Rightarrow> 'r) \<Rightarrow> 's \<Rightarrow> 'r option" where
  "go_for g body fin s =
     map_option (\<lambda>x. case x of Continue t \<Rightarrow> fin t | Return r \<Rightarrow> r)
       (while_option (\<lambda>x. case x of Continue t \<Rightarrow> g t | Return r \<Rightarrow> False)
          (\<lambda>x. case x of Continue t \<Rightarrow> body t | Return r \<Rightarrow> Return r)
          (Continue s))"

lemma go_for_return [simp]:
  "while_option (\<lambda>x. case x of Continue t \<Rightarrow> g t | Return r \<Rightarrow> False) c (Return r) = Some (Return r)"
  by (subst while_option_unfold) simp

lemma go_for_unfold:
  "go_for g body fin s =
     (if g s then (case body s of Continue t \<Rightarrow> go_for g body fin t | Return r \<Rightarrow> Some r)
      else Some (fin s))"
  unfolding go_for_def
  by (subst while_option_unfold) (simp split: flow.split)

text \<open>Partial correctness: an invariant of the body decides what the loop can return.\<close>

lemma go_for_invariant:
  assumes run: "go_for g body fin s = Some r"
    and init: "P s"
    and step: "\<And>s t. P s \<Longrightarrow> g s \<Longrightarrow> body s = Continue t \<Longrightarrow> P t"
    and ret: "\<And>s r. P s \<Longrightarrow> g s \<Longrightarrow> body s = Return r \<Longrightarrow> Q r"
    and exit: "\<And>s. P s \<Longrightarrow> \<not> g s \<Longrightarrow> Q (fin s)"
  shows "Q r"
proof -
  let ?I = "\<lambda>x. case x of Continue t \<Rightarrow> P t | Return r \<Rightarrow> Q r"
  let ?b = "\<lambda>x. case x of Continue t \<Rightarrow> g t | Return r \<Rightarrow> False"
  let ?c = "\<lambda>x. case x of Continue t \<Rightarrow> body t | Return r \<Rightarrow> Return r"
  from run obtain x where x: "while_option ?b ?c (Continue s) = Some x"
    and r: "r = (case x of Continue t \<Rightarrow> fin t | Return r \<Rightarrow> r)"
    by (auto simp: go_for_def)
  have "?I x"
  proof (rule while_option_rule [OF _ x])
    fix y assume "?I y" "?b y"
    then show "?I (?c y)"
      by (auto split: flow.splits dest: step ret)
  qed (simp add: init)
  moreover have "\<not> ?b x" by (rule while_option_stop [OF x])
  ultimately show ?thesis
    by (auto simp: r split: flow.splits intro: exit)
qed

text \<open>Termination: a natural number that every completed iteration decreases.\<close>

lemma go_for_terminates:
  fixes f :: "'s \<Rightarrow> nat"
  assumes init: "P s"
    and step: "\<And>s t. P s \<Longrightarrow> g s \<Longrightarrow> body s = Continue t \<Longrightarrow> P t \<and> f t < f s"
  shows "\<exists>r. go_for g body fin s = Some r"
  using init
proof (induction "f s" arbitrary: s rule: less_induct)
  case less
  show ?case
  proof (cases "g s")
    case False
    then show ?thesis by (subst go_for_unfold) simp
  next
    case True
    then show ?thesis
      using less step [OF less.prems True]
      by (subst go_for_unfold) (auto split: flow.split)
  qed
qed

text \<open>Total correctness, the two rules together.\<close>

lemma go_for_total:
  fixes f :: "'s \<Rightarrow> nat"
  assumes "P s"
    and "\<And>s t. P s \<Longrightarrow> g s \<Longrightarrow> body s = Continue t \<Longrightarrow> P t \<and> f t < f s"
    and "\<And>s r. P s \<Longrightarrow> g s \<Longrightarrow> body s = Return r \<Longrightarrow> Q r"
    and "\<And>s. P s \<Longrightarrow> \<not> g s \<Longrightarrow> Q (fin s)"
  shows "\<exists>r. go_for g body fin s = Some r \<and> Q r"
proof -
  obtain r where r: "go_for g body fin s = Some r"
    using go_for_terminates [where P = P and f = f, OF assms(1,2)] by blast
  have "Q r"
    by (rule go_for_invariant [where P = P, OF r assms(1)]) (use assms in blast)+
  with r show ?thesis by blast
qed

section \<open>Package strings\<close>

definition has_prefix :: "string \<Rightarrow> string \<Rightarrow> bool" where
  "has_prefix s p \<longleftrightarrow> take (length p) s = p"

text \<open>
  The UTF-8 encodings of the runes for which \<open>unicode.IsSpace\<close> holds.  No encoding is a proper
  part of another one, so \<open>TrimSpace\<close> takes them off both ends of the bytes.
\<close>

definition space_runes :: "string list" where
  "space_runes =
     [[CHR '' ''], [CHR 0x09], [CHR 0x0A], [CHR 0x0B], [CHR 0x0C], [CHR 0x0D],
      [CHR 0xC2, CHR 0x85], [CHR 0xC2, CHR 0xA0], [CHR 0xE1, CHR 0x9A, CHR 0x80],
      [CHR 0xE2, CHR 0x80, CHR 0x80], [CHR 0xE2, CHR 0x80, CHR 0x81], [CHR 0xE2, CHR 0x80, CHR 0x82],
      [CHR 0xE2, CHR 0x80, CHR 0x83], [CHR 0xE2, CHR 0x80, CHR 0x84], [CHR 0xE2, CHR 0x80, CHR 0x85],
      [CHR 0xE2, CHR 0x80, CHR 0x86], [CHR 0xE2, CHR 0x80, CHR 0x87], [CHR 0xE2, CHR 0x80, CHR 0x88],
      [CHR 0xE2, CHR 0x80, CHR 0x89], [CHR 0xE2, CHR 0x80, CHR 0x8A], [CHR 0xE2, CHR 0x80, CHR 0xA8],
      [CHR 0xE2, CHR 0x80, CHR 0xA9], [CHR 0xE2, CHR 0x80, CHR 0xAF], [CHR 0xE2, CHR 0x81, CHR 0x9F],
      [CHR 0xE3, CHR 0x80, CHR 0x80]]"

fun strip :: "string list \<Rightarrow> string \<Rightarrow> string" where
  "strip rs [] = []"
| "strip rs (c # cs) =
     (case find (has_prefix (c # cs)) rs of
        None \<Rightarrow> c # cs
      | Some r \<Rightarrow> strip rs (drop (length r - 1) cs))"

definition trim_left :: "string \<Rightarrow> string" where
  "trim_left s = strip space_runes s"

definition trim_right :: "string \<Rightarrow> string" where
  "trim_right s = rev (strip (map rev space_runes) (rev s))"

definition trim_space :: "string \<Rightarrow> string" where
  "trim_space s = trim_right (trim_left s)"

fun contains :: "string \<Rightarrow> string \<Rightarrow> bool" where
  "contains [] p = (p = [])"
| "contains (c # s) p = (has_prefix (c # s) p \<or> contains s p)"

fun join :: "string \<Rightarrow> string list \<Rightarrow> string" where
  "join sep [] = []"
| "join sep [x] = x"
| "join sep (x # y # ys) = x @ sep @ join sep (y # ys)"

definition to_lower_char :: "char \<Rightarrow> char" where
  "to_lower_char c = (if 65 \<le> (of_char c :: nat) \<and> (of_char c :: nat) \<le> 90
     then char_of ((of_char c :: nat) + 32) else c)"

definition to_lower :: "string \<Rightarrow> string" where
  "to_lower s = map to_lower_char s"

text \<open>\<open>strconv.Itoa\<close>.\<close>

definition digit_char :: "nat \<Rightarrow> char" where
  "digit_char d = char_of (48 + d)"

fun nat_text :: "nat \<Rightarrow> string" where
  "nat_text n = (if n < 10 then [digit_char n] else nat_text (n div 10) @ [digit_char (n mod 10)])"

declare nat_text.simps [simp del]

definition int_text :: "int \<Rightarrow> string" where
  "int_text i = (if i < 0 then CHR ''-'' # nat_text (nat (- i)) else nat_text (nat i))"

definition newline :: string where
  "newline = [CHR 0x0A]"

text \<open>Text whose first byte starts no white space is not trimmed on that side.\<close>

lemma has_prefix_hd: "has_prefix s p \<Longrightarrow> p \<noteq> [] \<Longrightarrow> hd p = hd s"
  by (cases p; cases s) (auto simp: has_prefix_def)

lemma strip_id:
  assumes "s \<noteq> []" and "\<forall>r \<in> set rs. r \<noteq> [] \<and> hd r \<noteq> hd s"
  shows "strip rs s = s"
proof (cases s)
  case (Cons c cs)
  have "find (has_prefix (c # cs)) rs = None"
    using assms Cons has_prefix_hd [of "c # cs"] by (auto simp: find_None_iff)
  then show ?thesis using Cons by simp
qed (use assms in simp)

definition space_first :: "char set" where
  "space_first = hd ` set space_runes"

definition space_last :: "char set" where
  "space_last = last ` set space_runes"

lemma space_rune_nonempty: "r \<in> set space_runes \<Longrightarrow> r \<noteq> []"
  by (auto simp: space_runes_def)

lemma trim_left_id: "s = [] \<or> hd s \<notin> space_first \<Longrightarrow> trim_left s = s"
proof (cases "s = []")
  case False
  assume "s = [] \<or> hd s \<notin> space_first"
  then have "\<forall>r \<in> set space_runes. r \<noteq> [] \<and> hd r \<noteq> hd s"
    using False space_rune_nonempty unfolding space_first_def by (metis image_eqI)
  then show ?thesis using strip_id [of s space_runes] False by (simp add: trim_left_def)
qed (simp add: trim_left_def)

lemma trim_right_id: "s = [] \<or> last s \<notin> space_last \<Longrightarrow> trim_right s = s"
proof (cases "s = []")
  case False
  assume "s = [] \<or> last s \<notin> space_last"
  then have "\<forall>r \<in> set (map rev space_runes). r \<noteq> [] \<and> hd r \<noteq> hd (rev s)"
    using False space_rune_nonempty unfolding space_last_def
    by (auto simp: hd_rev) (metis image_eqI)
  then show ?thesis using strip_id [of "rev s" "map rev space_runes"] False by (simp add: trim_right_def)
qed (simp add: trim_right_def)

lemma trim_space_id: "s = [] \<or> (hd s \<notin> space_first \<and> last s \<notin> space_last) \<Longrightarrow> trim_space s = s"
  using trim_left_id trim_right_id by (auto simp: trim_space_def)

section \<open>Options and lists\<close>

lemma case_option_eq_Some:
  "(case x of None \<Rightarrow> None | Some y \<Rightarrow> f y) = Some z \<longleftrightarrow> (\<exists>y. x = Some y \<and> f y = Some z)"
  by (auto split: option.split)

definition or_default :: "string \<Rightarrow> string \<Rightarrow> string" where
  "or_default v d = (if v = [] then d else v)"

lemma or_default_nonempty: "d \<noteq> [] \<Longrightarrow> or_default v d \<noteq> []"
  by (simp add: or_default_def)

lemma snoc_in_shuffles_left: "zs \<in> shuffles xs ys \<Longrightarrow> zs @ [z] \<in> shuffles (xs @ [z]) ys"
proof (induction zs arbitrary: xs ys)
  case Nil
  then show ?case by simp
next
  case (Cons a zs)
  then consider "xs \<noteq> []" "hd xs = a" "zs \<in> shuffles (tl xs) ys"
    | "ys \<noteq> []" "hd ys = a" "zs \<in> shuffles xs (tl ys)"
    by (auto simp: Cons_in_shuffles_iff)
  then show ?case
    by cases (auto simp: Cons_in_shuffles_iff Cons.IH)
qed

lemma snoc_in_shuffles_right: "zs \<in> shuffles xs ys \<Longrightarrow> zs @ [z] \<in> shuffles xs (ys @ [z])"
  by (metis shuffles_commutes snoc_in_shuffles_left)

end
