(* ===== verification/Backends.thy ===== *)
theory Backends
  imports Prelude Complex_Main "HOL-Library.Char_ord" "HOL-Library.List_Lexorder" "HOL-Library.Word"
begin

text \<open>
  \<^verbatim>\<open>broker/backends\<close>: the broker-neutral data model, the error values, the backend
  interfaces and the default request/reply exchange.

  A Go interface value is the record of its methods.  \<open>'w\<close> is the world: everything the
  methods may read or change (the broker, the network, the clock, the context's
  cancellation).  A method takes the world and returns its results with the next world.
  An optional capability (a Go type assertion on the backend) is an \<^typ>\<open>'a option\<close> field.
\<close>

section \<open>Errors\<close>

datatype errno = ECONNRESET | ECONNREFUSED | EPIPE | ECONNABORTED | ErrnoOther string

text \<open>
  \<open>ENew\<close> is \<open>errors.New\<close> or \<open>fmt.Errorf\<close> without \<open>%w\<close>; \<open>EWrap pre e post\<close> is \<open>fmt.Errorf\<close>
  with one \<open>%w\<close> between the texts \<open>pre\<close> and \<open>post\<close>; \<open>ENet\<close> is any error of a driver that
  implements \<open>net.Error\<close>.
\<close>

datatype gerr =
    ENew string
  | EWrap string gerr string
  | ENoMessageAvailable
  | EBrowseUnsupported
  | EReplyMismatch
  | ECanceled
  | EDeadlineExceeded
  | EEOF
  | EUnexpectedEOF
  | ESyscall errno
  | ENet string
  | ERequestSend gerr

fun errno_text :: "errno \<Rightarrow> string" where
  "errno_text ECONNRESET = ''connection reset by peer''"
| "errno_text ECONNREFUSED = ''connection refused''"
| "errno_text EPIPE = ''broken pipe''"
| "errno_text ECONNABORTED = ''software caused connection abort''"
| "errno_text (ErrnoOther s) = s"

fun err_text :: "gerr \<Rightarrow> string" where
  "err_text (ENew s) = s"
| "err_text (EWrap pre e post) = pre @ err_text e @ post"
| "err_text ENoMessageAvailable = ''no message available''"
| "err_text EBrowseUnsupported = ''browse not supported by this backend''"
| "err_text EReplyMismatch = ''reply correlation id does not match request''"
| "err_text ECanceled = ''context canceled''"
| "err_text EDeadlineExceeded = ''context deadline exceeded''"
| "err_text EEOF = ''EOF''"
| "err_text EUnexpectedEOF = ''unexpected EOF''"
| "err_text (ESyscall n) = errno_text n"
| "err_text (ENet s) = s"
| "err_text (ERequestSend e) = ''failed to send request: '' @ err_text e"

text \<open>\<open>errors.Is\<close>: the error itself or anything along its \<open>Unwrap\<close> chain.\<close>

fun errors_is :: "gerr \<Rightarrow> gerr \<Rightarrow> bool" where
  "errors_is (EWrap pre e post) t = (EWrap pre e post = t \<or> errors_is e t)"
| "errors_is (ERequestSend e) t = (ERequestSend e = t \<or> errors_is e t)"
| "errors_is e t = (e = t)"

definition is_err :: "gerr option \<Rightarrow> gerr \<Rightarrow> bool" where
  "is_err oe t = (case oe of None \<Rightarrow> False | Some e \<Rightarrow> errors_is e t)"

text \<open>
  \<open>errors.As\<close> into a \<open>net.Error\<close>: \<open>syscall.Errno\<close> and the deadline error implement that
  interface too.
\<close>

fun as_net_error :: "gerr \<Rightarrow> bool" where
  "as_net_error (EWrap pre e post) = as_net_error e"
| "as_net_error (ERequestSend e) = as_net_error e"
| "as_net_error (ENet s) = True"
| "as_net_error (ESyscall n) = True"
| "as_net_error EDeadlineExceeded = True"
| "as_net_error e = False"

text \<open>\<open>errors.AsType[*RequestSendError]\<close>: the wrapped send error, if the chain has one.\<close>

fun as_send_error :: "gerr \<Rightarrow> gerr option" where
  "as_send_error (ERequestSend e) = Some e"
| "as_send_error (EWrap pre e post) = as_send_error e"
| "as_send_error e = None"

lemma is_err_None [simp]: "\<not> is_err None t"
  by (simp add: is_err_def)

lemma is_err_Some [simp]: "is_err (Some e) t = errors_is e t"
  by (simp add: is_err_def)

lemma errors_is_refl [simp]: "errors_is e e"
  by (cases e) auto

section \<open>Values, messages and options\<close>

text \<open>
  A value of type \<open>any\<close> in a properties map.  Numbers carry their \<open>%v\<close> rendering next to
  integers that are computed with; \<open>APtr\<close> is a pointer (with the address text that \<open>%v\<close>
  prints for it), \<open>ATMap\<close> a map of another type than \<open>map[string]any\<close> (each key with its
  text and whether it is of string kind, listed in the order \<open>fmt\<close> prints them), \<open>ATSlice\<close>
  a slice or array of another type than \<open>[]any\<close>.
\<close>

datatype anyval =
    ANil
  | AStr string
  | ABool bool
  | AInt int
  | AFloat string
  | AMap "(string \<times> anyval) list"
  | AList "anyval list"
  | APtr "(string \<times> anyval) option"
  | ATMap "((bool \<times> string) \<times> anyval) list"
  | ATSlice "anyval list"

type_synonym props = "(string \<times> anyval) list"

record message =
  m_data :: string
  m_properties :: props
  m_message_id :: string
  m_correlation_id :: string
  m_reply_to :: string
  m_content_type :: string
  m_priority :: int
  m_persistent :: bool
  m_key :: string
  m_internal :: props

datatype verbosity = VerbosityQuiet | VerbosityNormal | VerbosityVerbose

record send_options =
  so_queue :: string
  so_message :: string
  so_properties :: props
  so_message_id :: string
  so_correlation_id :: string
  so_reply_to :: string
  so_content_type :: string
  so_priority :: int
  so_persistent :: bool
  so_key :: string
  so_ttl :: int
  so_extra :: "(string \<times> string) list"

record receive_options =
  ro_queue :: string
  ro_timeout :: rat
  ro_wait :: bool
  ro_acknowledge :: bool
  ro_verbosity :: verbosity
  ro_selector :: string
  ro_extra :: "(string \<times> string) list"

record publish_options =
  po_topic :: string
  po_message :: string
  po_key :: string
  po_properties :: props
  po_message_id :: string
  po_correlation_id :: string
  po_reply_to :: string
  po_content_type :: string
  po_priority :: int
  po_persistent :: bool
  po_ttl :: int
  po_extra :: "(string \<times> string) list"

record subscribe_options =
  uo_topic :: string
  uo_group_id :: string
  uo_timeout :: rat
  uo_wait :: bool
  uo_verbosity :: verbosity
  uo_selector :: string
  uo_durable :: bool
  uo_acknowledge :: bool
  uo_extra :: "(string \<times> string) list"

record request_options =
  qo_address :: string
  qo_message :: string
  qo_properties :: props
  qo_content_type :: string
  qo_message_id :: string
  qo_correlation_id :: string
  qo_reply_to :: string
  qo_priority :: int
  qo_persistent :: bool
  qo_timeout :: rat

text \<open>The zero values that a composite literal leaves in the fields it does not name.\<close>

definition message0 :: message where
  "message0 = \<lparr>m_data = [], m_properties = [], m_message_id = [], m_correlation_id = [],
     m_reply_to = [], m_content_type = [], m_priority = 0, m_persistent = False, m_key = [],
     m_internal = []\<rparr>"

definition send_options0 :: send_options where
  "send_options0 = \<lparr>so_queue = [], so_message = [], so_properties = [], so_message_id = [],
     so_correlation_id = [], so_reply_to = [], so_content_type = [], so_priority = 0,
     so_persistent = False, so_key = [], so_ttl = 0, so_extra = []\<rparr>"

definition receive_options0 :: receive_options where
  "receive_options0 = \<lparr>ro_queue = [], ro_timeout = 0, ro_wait = False, ro_acknowledge = False,
     ro_verbosity = VerbosityQuiet, ro_selector = [], ro_extra = []\<rparr>"

definition publish_options0 :: publish_options where
  "publish_options0 = \<lparr>po_topic = [], po_message = [], po_key = [], po_properties = [],
     po_message_id = [], po_correlation_id = [], po_reply_to = [], po_content_type = [],
     po_priority = 0, po_persistent = False, po_ttl = 0, po_extra = []\<rparr>"

definition subscribe_options0 :: subscribe_options where
  "subscribe_options0 = \<lparr>uo_topic = [], uo_group_id = [], uo_timeout = 0, uo_wait = False,
     uo_verbosity = VerbosityQuiet, uo_selector = [], uo_durable = False,
     uo_acknowledge = False, uo_extra = []\<rparr>"

definition request_options0 :: request_options where
  "request_options0 = \<lparr>qo_address = [], qo_message = [], qo_properties = [],
     qo_content_type = [], qo_message_id = [], qo_correlation_id = [], qo_reply_to = [],
     qo_priority = 0, qo_persistent = False, qo_timeout = 0\<rparr>"

lemmas options0 = message0_def send_options0_def receive_options0_def publish_options0_def
  subscribe_options0_def request_options0_def

section \<open>The backend interfaces\<close>

text \<open>A context is observed through \<open>ctx.Err()\<close> only.\<close>

type_synonym 'w ctx = "'w \<Rightarrow> gerr option"

type_synonym read_result = "message option \<times> gerr option"

record 'w browser =
  br_next :: "'w ctx \<Rightarrow> 'w \<Rightarrow> read_result \<times> 'w"
  br_close :: "'w \<Rightarrow> gerr option \<times> 'w"

record 'w queue_backend =
  qb_send :: "'w ctx \<Rightarrow> send_options \<Rightarrow> 'w \<Rightarrow> gerr option \<times> 'w"
  qb_receive :: "'w ctx \<Rightarrow> receive_options \<Rightarrow> 'w \<Rightarrow> read_result \<times> 'w"
  qb_close :: "'w \<Rightarrow> gerr option \<times> 'w"
  qb_browse :: "('w ctx \<Rightarrow> receive_options \<Rightarrow> 'w \<Rightarrow> (gerr + 'w browser) \<times> 'w) option"
  qb_request :: "('w ctx \<Rightarrow> request_options \<Rightarrow> 'w \<Rightarrow> read_result \<times> 'w) option"

record 'w topic_backend =
  tb_publish :: "'w ctx \<Rightarrow> publish_options \<Rightarrow> 'w \<Rightarrow> gerr option \<times> 'w"
  tb_subscribe :: "'w ctx \<Rightarrow> subscribe_options \<Rightarrow> 'w \<Rightarrow> read_result \<times> 'w"
  tb_close :: "'w \<Rightarrow> gerr option \<times> 'w"

text \<open>The \<open>%v\<close> rendering; maps print in key order.\<close>

fun fmt_v :: "anyval \<Rightarrow> string" where
  "fmt_v ANil = ''<nil>''"
| "fmt_v (AStr s) = s"
| "fmt_v (ABool b) = (if b then ''true'' else ''false'')"
| "fmt_v (AInt i) = int_text i"
| "fmt_v (AFloat t) = t"
| "fmt_v (AMap kvs) = ''map['' @ join '' ''
     (map snd (sort_key fst (map (\<lambda>(k, v). (k, k @ '':'' @ fmt_v v)) kvs))) @ '']''"
| "fmt_v (AList vs) = ''['' @ join '' '' (map fmt_v vs) @ '']''"
| "fmt_v (APtr None) = ''<nil>''"
| "fmt_v (APtr (Some (a, v))) = a"
| "fmt_v (ATMap kvs) = ''map['' @ join '' '' (map (\<lambda>e. snd (fst e) @ '':'' @ fmt_v (snd e)) kvs) @ '']''"
| "fmt_v (ATSlice vs) = ''['' @ join '' '' (map fmt_v vs) @ '']''"

text \<open>A deferred \<open>Close\<close> whose error is only logged (\<open>closeAdapter\<close> of \<^verbatim>\<open>cmd/forward.go\<close>).\<close>

definition close_adapter :: "('w \<Rightarrow> gerr option \<times> 'w) \<Rightarrow> 'w \<Rightarrow> 'w" where
  "close_adapter close w = snd (close w)"

section \<open>Naming, timeouts and properties\<close>

definition hex_digit :: "nat \<Rightarrow> char" where
  "hex_digit d = (if d < 10 then char_of (48 + d) else char_of (87 + d))"

definition hex_encode :: "8 word list \<Rightarrow> string" where
  "hex_encode bs = concat (map (\<lambda>b. [hex_digit (unat b div 16), hex_digit (unat b mod 16)]) bs)"

text \<open>
  The random source is an argument: the bytes that \<open>rand.Read\<close> writes into the
  six-byte array.
\<close>

definition random_suffix :: "8 word list \<Rightarrow> string" where
  "random_suffix rnd = hex_encode rnd"

definition subscription_name :: "8 word list \<Rightarrow> subscribe_options \<Rightarrow> string \<times> bool" where
  "subscription_name rnd opt =
     (if uo_group_id opt \<noteq> [] then (uo_group_id opt, False)
      else if uo_durable opt then (''xmc-durable-'' @ uo_topic opt, False)
      else (''xmc-sub-'' @ random_suffix rnd, True))"

definition scoped_subscription_name ::
    "8 word list \<Rightarrow> subscribe_options \<Rightarrow> string \<Rightarrow> string \<times> bool" where
  "scoped_subscription_name rnd opt sep =
     (if uo_group_id opt \<noteq> [] then (uo_group_id opt @ sep @ uo_topic opt, False)
      else subscription_name rnd opt)"

text \<open>Durations are nanoseconds; \<open>time.Duration(float64)\<close> truncates towards zero.\<close>

definition second :: int where "second = 1000000000"

definition timeout_duration :: "rat \<Rightarrow> bool \<Rightarrow> int" where
  "timeout_duration timeout wait =
     (if wait then 24 * 3600 * second
      else if timeout \<le> 0 then 5 * second
      else \<lfloor>timeout * of_int second\<rfloor>)"

definition stringify_props :: "props \<Rightarrow> (string \<times> string) list" where
  "stringify_props ps = map (\<lambda>(k, v). (k, fmt_v v)) ps"

definition env_or :: "(string \<Rightarrow> string option) \<Rightarrow> string \<Rightarrow> string \<Rightarrow> string" where
  "env_or getenv key fallback =
     (case getenv key of Some v \<Rightarrow> if v \<noteq> [] then v else fallback | None \<Rightarrow> fallback)"

section \<open>The management HTTP client\<close>

record http_request =
  hr_method :: string
  hr_url :: string
  hr_body :: "string option"
  hr_basic_auth :: "(string \<times> string) option"
  hr_content_type :: "string option"

definition is_ok_status :: "int \<Rightarrow> int list \<Rightarrow> bool" where
  "is_ok_status status oks = (if oks = [] then status = 200 else status \<in> set oks)"

text \<open>
  \<open>new_req\<close> is \<open>http.NewRequest\<close>'s validation of method and URL, \<open>rt\<close> the client's round
  trip with the read of the body: a transport error, a status with a body, or a status
  whose body could not be read.
\<close>

definition mgmt_request ::
    "(string \<Rightarrow> string \<Rightarrow> gerr option) \<Rightarrow>
     (http_request \<Rightarrow> 'w \<Rightarrow> (gerr + (int \<times> (gerr + string))) \<times> 'w) \<Rightarrow>
     string \<Rightarrow> string \<Rightarrow> string option \<Rightarrow> string \<Rightarrow> string \<Rightarrow> int list \<Rightarrow>
     'w \<Rightarrow> (gerr + string) \<times> 'w" where
  "mgmt_request new_req rt meth url body user password oks w =
     (case new_req meth url of
        Some e \<Rightarrow> (Inl e, w)
      | None \<Rightarrow>
          (case rt \<lparr>hr_method = meth, hr_url = url, hr_body = body,
              hr_basic_auth = (if user \<noteq> [] then Some (user, password) else None),
              hr_content_type = (if body \<noteq> None then Some ''application/json'' else None)\<rparr> w of
             (Inl e, w') \<Rightarrow> (Inl (EWrap ''management API request failed: '' e []), w')
           | (Inr (status, Inl e), w') \<Rightarrow> (Inl e, w')
           | (Inr (status, Inr text), w') \<Rightarrow>
               (if is_ok_status status oks then (Inr text, w')
                else (Inl (ENew (''management API returned status '' @ int_text status @ '': '' @ text)), w'))))"

definition mgmt_get where
  "mgmt_get new_req rt url user password =
     mgmt_request new_req rt ''GET'' url None user password [200]"

definition mgmt_post where
  "mgmt_post new_req rt url body user password =
     mgmt_request new_req rt ''POST'' url body user password [200, 201, 204]"

definition mgmt_put where
  "mgmt_put new_req rt url body user password w =
     (case mgmt_request new_req rt ''PUT'' url body user password [200, 201, 204] w of
        (Inl e, w') \<Rightarrow> (Some e, w') | (Inr text, w') \<Rightarrow> (None, w'))"

definition mgmt_delete where
  "mgmt_delete new_req rt url user password =
     mgmt_request new_req rt ''DELETE'' url None user password [200, 204]"

section \<open>The default request/reply exchange\<close>

definition default_reply_queue :: string where
  "default_reply_queue = ''xmc.reply''"

definition default_request_timeout :: rat where
  "default_request_timeout = 30"

definition new_correlation_id :: "8 word list \<times> 8 word list \<Rightarrow> string" where
  "new_correlation_id rnd = ''xmc-'' @ random_suffix (fst rnd) @ random_suffix (snd rnd)"

text \<open>The result is the effective id with the options that the pointer argument now holds.\<close>

definition ensure_correlation_id ::
    "8 word list \<times> 8 word list \<Rightarrow> request_options \<Rightarrow> string \<times> request_options" where
  "ensure_correlation_id rnd opt =
     (let c = (if qo_correlation_id opt = []
               then (if qo_message_id opt \<noteq> [] then qo_message_id opt else new_correlation_id rnd)
               else qo_correlation_id opt)
      in (c, opt\<lparr>qo_correlation_id := c\<rparr>))"

text \<open>\<open>%q\<close>, for texts without characters that need escaping.\<close>

definition go_quote :: "string \<Rightarrow> string" where
  "go_quote s = CHR 0x22 # s @ [CHR 0x22]"

text \<open>The options after the id and the reply queue are filled in, with the effective id.\<close>

definition prepare_request ::
    "8 word list \<times> 8 word list \<Rightarrow> request_options \<Rightarrow> string \<times> request_options" where
  "prepare_request rnd opts =
     (case ensure_correlation_id rnd opts of
        (cid, o1) \<Rightarrow>
          (cid, if qo_reply_to o1 = [] then o1\<lparr>qo_reply_to := default_reply_queue\<rparr> else o1))"

definition request_send_opts :: "string \<Rightarrow> request_options \<Rightarrow> send_options" where
  "request_send_opts cid opts =
     send_options0\<lparr>so_queue := qo_address opts, so_message := qo_message opts,
       so_properties := qo_properties opts, so_message_id := qo_message_id opts,
       so_correlation_id := cid, so_reply_to := qo_reply_to opts,
       so_content_type := qo_content_type opts, so_priority := qo_priority opts,
       so_persistent := qo_persistent opts\<rparr>"

definition request_receive_opts :: "request_options \<Rightarrow> receive_options" where
  "request_receive_opts opts =
     receive_options0\<lparr>ro_queue := qo_reply_to opts,
       ro_timeout := (if qo_timeout opts \<le> 0 then default_request_timeout else qo_timeout opts),
       ro_acknowledge := True, ro_verbosity := VerbosityNormal\<rparr>"

definition reply_mismatch :: "string \<Rightarrow> string \<Rightarrow> gerr" where
  "reply_mismatch cid got =
     EWrap [] EReplyMismatch ('' (expected '' @ go_quote cid @ '', got '' @ go_quote got @ '')'')"

definition default_request ::
    "8 word list \<times> 8 word list \<Rightarrow> 'w ctx \<Rightarrow> 'w queue_backend \<Rightarrow> request_options \<Rightarrow>
     'w \<Rightarrow> read_result \<times> 'w" where
  "default_request rnd ctx qb opts w =
     (case prepare_request rnd opts of
        (cid, o2) \<Rightarrow>
          (case qb_send qb ctx (request_send_opts cid o2) w of
             (Some e, w1) \<Rightarrow> ((None, Some (ERequestSend e)), w1)
           | (None, w1) \<Rightarrow>
               (case qb_receive qb ctx (request_receive_opts o2) w1 of
                  ((m, Some e), w2) \<Rightarrow> ((None, Some e), w2)
                | ((None, None), w2) \<Rightarrow> ((None, Some ENoMessageAvailable), w2)
                | ((Some m, None), w2) \<Rightarrow>
                    (if m_correlation_id m \<noteq> [] \<and> m_correlation_id m \<noteq> cid
                     then ((None, Some (reply_mismatch cid (m_correlation_id m))), w2)
                     else ((Some m, None), w2)))))"

definition request ::
    "8 word list \<times> 8 word list \<Rightarrow> 'w ctx \<Rightarrow> 'w queue_backend \<Rightarrow> request_options \<Rightarrow>
     'w \<Rightarrow> read_result \<times> 'w" where
  "request rnd ctx qb opts w =
     (case qb_request qb of
        Some native \<Rightarrow> native ctx opts w
      | None \<Rightarrow> default_request rnd ctx qb opts w)"

section \<open>Lemmas\<close>

lemma new_correlation_id_nonempty [simp]: "new_correlation_id rnd \<noteq> []"
  by (simp add: new_correlation_id_def)

lemma ensure_correlation_id_nonempty: "fst (ensure_correlation_id rnd opt) \<noteq> []"
  by (simp add: ensure_correlation_id_def Let_def)

lemma length_hex_encode [simp]: "length (hex_encode bs) = 2 * length bs"
  by (induction bs) (simp_all add: hex_encode_def)

text \<open>What the native exchange and the plain send and receive keep, a request keeps.\<close>

lemma request_keeps:
  fixes f :: "'w \<Rightarrow> 'x"
  assumes run: "request rnd c qb opts w = (r, w')"
    and native: "\<And>n r w w'. qb_request qb = Some n \<Longrightarrow> n c opts w = (r, w') \<Longrightarrow> f w' = f w"
    and get: "\<And>x w r w'. qb_receive qb c x w = (r, w') \<Longrightarrow> f w' = f w"
    and put: "\<And>x w r w'. qb_send qb c x w = (r, w') \<Longrightarrow> f w' = f w"
  shows "f w' = f w"
proof (cases "qb_request qb")
  case None
  obtain cid o2 where p: "prepare_request rnd opts = (cid, o2)" by (metis surj_pair)
  obtain e w1 where w1: "qb_send qb c (request_send_opts cid o2) w = (e, w1)" by (metis surj_pair)
  obtain m e2 w2 where w2: "qb_receive qb c (request_receive_opts o2) w1 = ((m, e2), w2)" by (metis surj_pair)
  have "default_request rnd c qb opts w = (r, w')" using run None by (simp add: request_def)
  then have "w' = w1 \<or> w' = w2"
    using p w1 w2 by (cases e; cases m; cases e2) (auto simp: default_request_def split: if_splits)
  then show ?thesis using put [OF w1] get [OF w2] by auto
qed (use run native in \<open>auto simp: request_def\<close>)

end
