(* ===== verification/Streaming.thy ===== *)
theory Streaming
  imports Backends
begin

text \<open>
  \<^verbatim>\<open>cmd/stream.go\<close>, \<^verbatim>\<open>cmd/rate.go\<close>, \<^verbatim>\<open>cmd/flags.go\<close> and \<^verbatim>\<open>cmd/ping.go\<close>: the streaming
  flags, the throughput counters, the send rate limiter, the duration flags and the ping
  command.  Durations and clock readings are nanoseconds.
\<close>

section \<open>Streaming flags\<close>

text \<open>
  \<open>time.ParseDuration\<close> is the argument \<open>parse\<close>.
\<close>

definition parse_duration_flag :: "(string \<Rightarrow> gerr + int) \<Rightarrow> string \<Rightarrow> gerr + int" where
  "parse_duration_flag parse v =
     (if v = [] then Inr 0
      else case parse v of
             Inl e \<Rightarrow> Inl (EWrap (''invalid --for duration '' @ go_quote v @ '': '') e [])
           | Inr d \<Rightarrow> if d < 0 then Inl (ENew (''--for duration must not be negative: '' @ go_quote v))
                      else Inr d)"

record streaming_flags =
  sf_duration :: int
  sf_forever :: bool
  sf_stats :: bool
  sf_follow :: bool

definition parse_streaming_flags ::
    "(string \<Rightarrow> gerr + int) \<Rightarrow> string \<Rightarrow> bool \<Rightarrow> bool \<Rightarrow> gerr + streaming_flags" where
  "parse_streaming_flags parse for_str forever stats =
     (case parse_duration_flag parse for_str of
        Inl e \<Rightarrow> Inl e
      | Inr d0 \<Rightarrow>
          (let d = (if forever then 0 else d0)
           in Inr \<lparr>sf_duration = d, sf_forever = forever, sf_stats = stats,
                    sf_follow = (d > 0 \<or> forever \<or> stats)\<rparr>))"

lemma parse_streaming_flags_Inr:
  assumes "parse_streaming_flags parse for_str forever stats = Inr sf"
  shows "0 \<le> sf_duration sf" and "sf_forever sf \<Longrightarrow> sf_duration sf = 0"
    and "sf_follow sf \<longleftrightarrow> sf_duration sf > 0 \<or> sf_forever sf \<or> sf_stats sf"
  using assms
  by (auto simp: parse_streaming_flags_def parse_duration_flag_def Let_def
      split: if_splits sum.splits)

section \<open>Throughput counters\<close>

record stream_stats =
  st_count :: int
  st_bytes :: int

definition new_stream_stats :: stream_stats where
  "new_stream_stats = \<lparr>st_count = 0, st_bytes = 0\<rparr>"

definition st_record :: "stream_stats \<Rightarrow> nat \<Rightarrow> stream_stats" where
  "st_record s n = s\<lparr>st_count := st_count s + 1, st_bytes := st_bytes s + int n\<rparr>"

text \<open>
  \<open>humanBytes\<close>, up to the rendering of the quotient with one decimal: the numerator, the
  divisor and the unit letter.  \<open>HPanic\<close> is Go's index-out-of-range panic on the unit
  string.  The division is Go's truncating one, on the non-negative operands it meets here.
\<close>

datatype human = HBytes int | HScaled int int char | HPanic

function hb_loop :: "int \<Rightarrow> int \<Rightarrow> nat \<Rightarrow> int \<times> nat" where
  "hb_loop v dv ex = (if v \<ge> 1024 then hb_loop (v div 1024) (dv * 1024) (Suc ex) else (dv, ex))"
  by pat_completeness auto
termination
  by (relation "measure (\<lambda>(v, dv, ex). nat v)") auto

declare hb_loop.simps [simp del]

definition unit_letters :: string where
  "unit_letters = ''KMGTPE''"

definition human_bytes :: "int \<Rightarrow> human" where
  "human_bytes n =
     (if n < 1024 then HBytes n
      else let (dv, ex) = hb_loop (n div 1024) 1024 0
           in if ex < length unit_letters then HScaled n dv (unit_letters ! ex) else HPanic)"

lemma hb_loop_correct:
  assumes "v = n div dv" and "dv = 1024 ^ Suc ex" and "1024 \<le> n" and "1 \<le> v"
    and "hb_loop v dv ex = (dv', ex')"
  shows "dv' = 1024 ^ Suc ex' \<and> dv' \<le> n \<and> n < 1024 * dv'"
  using assms
proof (induction v dv ex rule: hb_loop.induct)
  case (1 v dv ex)
  show ?case
  proof (cases "v \<ge> 1024")
    case True
    show ?thesis
    proof (rule "1.IH" [OF True])
      show "v div 1024 = n div (dv * 1024)"
        by (subst "1.prems"(1)) (rule zdiv_zmult2_eq [symmetric], simp)
      show "dv * 1024 = 1024 ^ Suc (Suc ex)" using "1.prems"(2) by simp
      show "1 \<le> v div 1024" using True by simp
      show "hb_loop (v div 1024) (dv * 1024) (Suc ex) = (dv', ex')"
        using "1.prems"(5) True hb_loop.simps [of v dv ex] by simp
    qed (rule "1.prems"(3))
  next
    case False
    then have eq: "dv' = dv" "ex' = ex" using "1.prems"(5) by (auto simp: hb_loop.simps [of v dv ex])
    have pos: "0 < dv" using "1.prems"(2) by simp
    have "dv \<le> n"
    proof (rule ccontr)
      assume "\<not> dv \<le> n"
      then have "n div dv = 0" using "1.prems"(3) by (simp add: div_pos_pos_trivial)
      with "1.prems"(1,4) show False by simp
    qed
    moreover have "n < 1024 * dv"
    proof -
      have "n div dv \<le> 1023" using "1.prems"(1) False by simp
      then have "dv * (n div dv) \<le> dv * 1023" using pos by simp
      moreover have "n = dv * (n div dv) + n mod dv" by simp
      moreover have "n mod dv < dv" using pos by simp
      ultimately show ?thesis by linarith
    qed
    ultimately show ?thesis using eq "1.prems"(2) by simp
  qed
qed

section \<open>The rate limiter\<close>

text \<open>\<open>rl_next\<close> is \<^const>\<open>None\<close> for the zero time.\<close>

record rate_limiter =
  rl_interval :: int
  rl_next :: "int option"

definition new_rate_limiter :: "rat \<Rightarrow> rate_limiter" where
  "new_rate_limiter rate =
     (if rate \<le> 0 then \<lparr>rl_interval = 0, rl_next = None\<rparr>
      else \<lparr>rl_interval = \<lfloor>of_int second / rate\<rfloor>, rl_next = None\<rparr>)"

text \<open>
  \<open>wait\<close> at clock reading \<open>now\<close>: how long it sleeps, and the limiter it leaves.
\<close>

definition rl_wait :: "rate_limiter \<Rightarrow> int \<Rightarrow> int \<times> rate_limiter" where
  "rl_wait r now =
     (if rl_interval r \<le> 0 then (0, r)
      else let nxt = (case rl_next r of None \<Rightarrow> now | Some t \<Rightarrow> t);
               delay = nxt - now
           in (if delay > 0 then delay else 0, r\<lparr>rl_next := Some (nxt + rl_interval r)\<rparr>))"

text \<open>
  A produce loop: before each message it waits, then the send takes the next duration of
  \<open>works\<close>.  The result lists the clock readings at which the waits return, when a sleep
  lasts exactly as asked.
\<close>

fun rl_run :: "rate_limiter \<Rightarrow> int \<Rightarrow> nat list \<Rightarrow> int list" where
  "rl_run r now [] = []"
| "rl_run r now (work # works) =
     (let (d, r') = rl_wait r now
      in (now + d) # rl_run r' (now + d + int work) works)"

lemma length_rl_run [simp]: "length (rl_run r now works) = length works"
  by (induction r now works rule: rl_run.induct) (simp_all add: Let_def split: prod.split)

lemma rl_run_slots:
  assumes "rl_interval r > 0" and "rl_next r = Some t" and "i < length works"
  shows "t + int i * rl_interval r \<le> rl_run r now works ! i"
  using assms
proof (induction works arbitrary: r now t i)
  case (Cons work works)
  let ?d = "if t - now > 0 then t - now else 0"
  let ?r = "r\<lparr>rl_next := Some (t + rl_interval r)\<rparr>"
  have run: "rl_run r now (work # works) = (now + ?d) # rl_run ?r (now + ?d + int work) works"
    using Cons.prems by (simp add: rl_wait_def Let_def)
  show ?case
  proof (cases i)
    case 0
    then show ?thesis unfolding run by simp
  next
    case (Suc j)
    have "(t + rl_interval r) + int j * rl_interval ?r \<le> rl_run ?r (now + ?d + int work) works ! j"
      using Cons.prems Suc by (intro Cons.IH) auto
    then show ?thesis unfolding run Suc by (simp add: algebra_simps)
  qed
qed simp

lemma rl_run_no_drift:
  assumes "rl_interval r > 0" and "rl_next r = Some t" and "now \<le> t" and "i < length works"
    and "\<forall>w \<in> set works. int w \<le> rl_interval r"
  shows "rl_run r now works ! i = t + int i * rl_interval r"
  using assms
proof (induction works arbitrary: r now t i)
  case (Cons work works)
  let ?r = "r\<lparr>rl_next := Some (t + rl_interval r)\<rparr>"
  have run: "rl_run r now (work # works) = t # rl_run ?r (t + int work) works"
    using Cons.prems by (simp add: rl_wait_def Let_def)
  show ?case
  proof (cases i)
    case 0
    then show ?thesis unfolding run by simp
  next
    case (Suc j)
    have "rl_run ?r (t + int work) works ! j = (t + rl_interval r) + int j * rl_interval ?r"
      using Cons.prems Suc by (intro Cons.IH) auto
    then show ?thesis unfolding run Suc by (simp add: algebra_simps)
  qed
qed simp

lemma rl_run_first:
  "rl_interval r > 0 \<Longrightarrow> rl_next r = None \<Longrightarrow>
   rl_run r now works = rl_run (r\<lparr>rl_next := Some now\<rparr>) now works"
  by (cases works) (simp_all add: rl_wait_def Let_def)

section \<open>Duration flags\<close>

text \<open>\<open>time.ParseDuration\<close> and \<open>strconv.ParseFloat\<close> are the arguments \<open>parse\<close> and \<open>parse_float\<close>.\<close>

record duration_value =
  dv_d :: int
  dv_bare_unit :: int

definition new_duration_value :: "int \<Rightarrow> int \<Rightarrow> duration_value" where
  "new_duration_value d u = \<lparr>dv_d = d, dv_bare_unit = u\<rparr>"

definition dv_set ::
    "(string \<Rightarrow> gerr + int) \<Rightarrow> (string \<Rightarrow> gerr + rat) \<Rightarrow> duration_value \<Rightarrow> string \<Rightarrow>
     gerr + duration_value" where
  "dv_set parse parse_float v s0 =
     (let s = trim_space s0
      in case parse s of
           Inr d \<Rightarrow> (if d < 0 then Inl (ENew (''duration must not be negative: '' @ go_quote s))
                      else Inr (v\<lparr>dv_d := d\<rparr>))
         | Inl e \<Rightarrow>
             (case parse_float s of
                Inl e' \<Rightarrow> Inl (ENew (''invalid duration '' @ go_quote s @ '' (use e.g. '' @
                   go_quote ''100ms'' @ '', '' @ go_quote ''5s'' @ '', or a plain number)''))
              | Inr n \<Rightarrow> (if n < 0 then Inl (ENew (''duration must not be negative: '' @ go_quote s))
                           else Inr (v\<lparr>dv_d := \<lfloor>n * of_int (dv_bare_unit v)\<rfloor>\<rparr>))))"

text \<open>The flag set maps a name to its value; \<open>Inl\<close> stands for a flag of another type.\<close>

definition get_duration :: "(string \<Rightarrow> ('x + duration_value) option) \<Rightarrow> string \<Rightarrow> int" where
  "get_duration flags name =
     (case flags name of None \<Rightarrow> 0 | Some (Inr dv) \<Rightarrow> dv_d dv | Some (Inl x) \<Rightarrow> 0)"

definition alias_normalize :: "string \<Rightarrow> string" where
  "alias_normalize name =
     (if name = ''contenttype'' then ''content-type''
      else if name = ''correlationid'' then ''correlation-id''
      else if name = ''messageid'' then ''message-id''
      else if name = ''replyto'' then ''reply-to''
      else if name = ''queue-name'' then ''queue''
      else name)"

text \<open>\<open>float32(d.Seconds())\<close>, without the rounding to single precision.\<close>

definition seconds_of :: "int \<Rightarrow> rat" where
  "seconds_of d = of_int d / of_int second"

lemma dv_set_nonneg:
  assumes "dv_set parse parse_float v s = Inr v'" and "0 \<le> dv_bare_unit v"
  shows "0 \<le> dv_d v' \<and> dv_bare_unit v' = dv_bare_unit v"
  using assms by (auto simp: dv_set_def Let_def split: sum.splits if_splits)

lemma alias_normalize_idem: "alias_normalize (alias_normalize n) = alias_normalize n"
  by (simp add: alias_normalize_def)

section \<open>The ping command\<close>

text \<open>
  What \<open>doPing\<close> prints, as the arguments of each \<open>Printf\<close>.  \<open>connect\<close> performs one
  connection attempt: the monotonic time it took and its error or the connection's
  \<open>Close\<close>.  \<open>sleep\<close> is the \<open>select\<close> on the context and the interval timer.
\<close>

datatype ping_line =
    PingHeader string
  | PingFailed int gerr
  | PingConnected int nat
  | PingStats string int int int "(nat \<times> nat \<times> nat) option"

record 'w ping_state =
  pg_seq :: int
  pg_ok :: nat
  pg_failed :: nat
  pg_min :: nat
  pg_max :: nat
  pg_sum :: nat
  pg_out :: "ping_line list"
  pg_world :: 'w

definition ping_probe ::
    "('w \<Rightarrow> (nat \<times> (gerr + ('w \<Rightarrow> 'w))) \<times> 'w) \<Rightarrow> 'w ping_state \<Rightarrow> 'w ping_state" where
  "ping_probe connect s =
     (case connect (pg_world s) of
        ((elapsed, Inl e), w) \<Rightarrow>
          s\<lparr>pg_failed := pg_failed s + 1,
            pg_out := pg_out s @ [PingFailed (pg_seq s) e], pg_world := w\<rparr>
      | ((elapsed, Inr close), w) \<Rightarrow>
          (let ok = pg_ok s + 1
           in s\<lparr>pg_ok := ok,
                pg_min := (if ok = 1 \<or> elapsed < pg_min s then elapsed else pg_min s),
                pg_max := (if elapsed > pg_max s then elapsed else pg_max s),
                pg_sum := pg_sum s + elapsed,
                pg_out := pg_out s @ [PingConnected (pg_seq s) elapsed], pg_world := close w\<rparr>))"

definition ping_finish :: "string \<Rightarrow> 'w ping_state \<Rightarrow> gerr option \<times> 'w ping_state" where
  "ping_finish label s =
     (let total = pg_ok s + pg_failed s;
          stats = (if pg_ok s > 0 then Some (pg_min s, pg_sum s div pg_ok s, pg_max s) else None)
      in (if pg_failed s > 0
          then Some (ENew (nat_text (pg_failed s) @ '' of '' @ nat_text total @ '' ping(s) failed''))
          else None,
          s\<lparr>pg_out := pg_out s @
              [PingStats label (int total) (int (pg_ok s)) (int (pg_failed s)) stats]\<rparr>))"

definition ping_body ::
    "'w ctx \<Rightarrow> ('w \<Rightarrow> (nat \<times> (gerr + ('w \<Rightarrow> 'w))) \<times> 'w) \<Rightarrow> (int \<Rightarrow> 'w \<Rightarrow> 'w) \<Rightarrow>
     int \<Rightarrow> int \<Rightarrow> string \<Rightarrow> 'w ping_state \<Rightarrow> ('w ping_state, gerr option \<times> 'w ping_state) flow" where
  "ping_body ctx connect sleep count interval label s0 =
     (let s = ping_probe connect s0
      in if count > 0 \<and> pg_seq s \<ge> count then Return (ping_finish label s)
         else let s1 = s\<lparr>pg_world := sleep interval (pg_world s)\<rparr>
              in if ctx (pg_world s1) \<noteq> None then Return (ping_finish label s1)
                 else Continue (s1\<lparr>pg_seq := pg_seq s1 + 1\<rparr>))"

definition do_ping ::
    "'w ctx \<Rightarrow> ('w \<Rightarrow> (nat \<times> (gerr + ('w \<Rightarrow> 'w))) \<times> 'w) \<Rightarrow> (int \<Rightarrow> 'w \<Rightarrow> 'w) \<Rightarrow>
     int \<Rightarrow> int \<Rightarrow> string \<Rightarrow> 'w \<Rightarrow> (gerr option \<times> 'w ping_state) option" where
  "do_ping ctx connect sleep count interval target w =
     (let label = (if target = [] then ''broker'' else target)
      in go_for (\<lambda>s. count \<le> 0 \<or> pg_seq s \<le> count)
           (ping_body ctx connect sleep count interval label) (ping_finish label)
           \<lparr>pg_seq = 1, pg_ok = 0, pg_failed = 0, pg_min = 0, pg_max = 0, pg_sum = 0,
             pg_out = [PingHeader label], pg_world = w\<rparr>)"

text \<open>
  What one run keeps true: the counters against the printed lines, and the extremes of
  the round-trip times around their sum.
\<close>

fun probe_times :: "ping_line list \<Rightarrow> nat list" where
  "probe_times [] = []"
| "probe_times (PingConnected q t # ls) = t # probe_times ls"
| "probe_times (l # ls) = probe_times ls"

fun probe_failures :: "ping_line list \<Rightarrow> nat" where
  "probe_failures [] = 0"
| "probe_failures (PingFailed q e # ls) = Suc (probe_failures ls)"
| "probe_failures (l # ls) = probe_failures ls"

lemma probe_times_append [simp]: "probe_times (xs @ ys) = probe_times xs @ probe_times ys"
  by (induction xs rule: probe_times.induct) auto

lemma probe_failures_append [simp]:
  "probe_failures (xs @ ys) = probe_failures xs + probe_failures ys"
  by (induction xs rule: probe_failures.induct) auto

definition ping_inv :: "'w ping_state \<Rightarrow> bool" where
  "ping_inv s \<longleftrightarrow>
     pg_ok s = length (probe_times (pg_out s)) \<and> pg_failed s = probe_failures (pg_out s) \<and>
     pg_sum s = sum_list (probe_times (pg_out s)) \<and>
     (\<forall>t \<in> set (probe_times (pg_out s)). pg_min s \<le> t \<and> t \<le> pg_max s) \<and>
     (probe_times (pg_out s) = [] \<longrightarrow> pg_max s = 0) \<and>
     (probe_times (pg_out s) \<noteq> [] \<longrightarrow>
        pg_min s \<in> set (probe_times (pg_out s)) \<and> pg_max s \<in> set (probe_times (pg_out s)))"

lemma ping_probe_inv [go_inv]:
  assumes inv: "ping_inv s"
  shows "ping_inv (ping_probe connect s)"
proof -
  obtain el r w where c: "connect (pg_world s) = ((el, r), w)" by (metis surj_pair)
  show ?thesis
  proof (cases r)
    case (Inl e)
    with inv c show ?thesis by (simp add: ping_inv_def ping_probe_def)
  next
    case (Inr close)
    show ?thesis
    proof (cases "probe_times (pg_out s) = []")
      case True
      with inv c Inr show ?thesis by (simp add: ping_inv_def ping_probe_def Let_def)
    next
      case False
      then have "Suc (length (probe_times (pg_out s))) \<noteq> 1" by simp
      with inv c Inr False show ?thesis
        by (auto simp: ping_inv_def ping_probe_def Let_def)
    qed
  qed
qed

lemma ping_probe_seq [simp]: "pg_seq (ping_probe connect s) = pg_seq s"
  by (auto simp: ping_probe_def Let_def split: prod.splits sum.splits)

lemma ping_probe_total:
  "pg_ok (ping_probe connect s) + pg_failed (ping_probe connect s) = Suc (pg_ok s + pg_failed s)"
  by (auto simp: ping_probe_def Let_def split: prod.splits sum.splits)

lemma ping_inv_world [simp]:
  "ping_inv (s\<lparr>pg_world := w\<rparr>) = ping_inv s" "ping_inv (s\<lparr>pg_seq := n\<rparr>) = ping_inv s"
  by (simp_all add: ping_inv_def)

lemma sum_list_bounds:
  fixes xs :: "nat list"
  assumes "\<forall>t \<in> set xs. lo \<le> t \<and> t \<le> hi" and "xs \<noteq> []"
  shows "lo \<le> sum_list xs div length xs \<and> sum_list xs div length xs \<le> hi"
proof -
  have "lo * length xs \<le> sum_list xs \<and> sum_list xs \<le> hi * length xs"
    using assms(1) by (induction xs) auto
  moreover have "0 < length xs" using assms(2) by simp
  ultimately show ?thesis
    by (metis div_le_mono div_mult_self_is_m)
qed

text \<open>What the command reports when it ends.\<close>

definition ping_report :: "int \<Rightarrow> gerr option \<times> 'w ping_state \<Rightarrow> bool" where
  "ping_report count r \<longleftrightarrow>
     (let s = snd r; times = probe_times (pg_out s); failed = probe_failures (pg_out s) in
      (fst r = None \<longleftrightarrow> failed = 0) \<and>
      (count > 0 \<longrightarrow> int (length times + failed) \<le> count) \<and>
      (\<exists>label stats. last (pg_out s) =
          PingStats label (int (length times + failed)) (int (length times)) (int failed) stats \<and>
        (case stats of None \<Rightarrow> times = []
         | Some (mn, avg, mx) \<Rightarrow> times \<noteq> [] \<and> mn = Min (set times) \<and> mx = Max (set times) \<and>
             avg = sum_list times div length times \<and> mn \<le> avg \<and> avg \<le> mx)))"

lemma ping_finish_report:
  assumes inv: "ping_inv s" and cnt: "count > 0 \<longrightarrow> int (pg_ok s + pg_failed s) \<le> count"
  shows "ping_report count (ping_finish label s)"
proof -
  let ?ts = "probe_times (pg_out s)"
  have ok: "pg_ok s = length ?ts" "pg_failed s = probe_failures (pg_out s)"
    "pg_sum s = sum_list ?ts" using inv by (auto simp: ping_inv_def)
  show ?thesis
  proof (cases "?ts = []")
    case True
    with ok cnt show ?thesis by (simp add: ping_report_def ping_finish_def Let_def)
  next
    case False
    have b: "\<forall>t \<in> set ?ts. pg_min s \<le> t \<and> t \<le> pg_max s"
      and m: "pg_min s \<in> set ?ts" "pg_max s \<in> set ?ts"
      using inv False by (auto simp: ping_inv_def)
    have "pg_min s = Min (set ?ts)" "pg_max s = Max (set ?ts)"
      using b m by (auto intro: Min_eqI [symmetric] Max_eqI [symmetric])
    with ok cnt False sum_list_bounds [OF b False] show ?thesis
      by (simp add: ping_report_def ping_finish_def Let_def)
  qed
qed

definition ping_run_inv :: "int \<Rightarrow> 'w ping_state \<Rightarrow> bool" where
  "ping_run_inv count s \<longleftrightarrow>
     ping_inv s \<and> int (pg_ok s + pg_failed s) + 1 = pg_seq s \<and> (count > 0 \<longrightarrow> pg_seq s \<le> count)"

lemma ping_body_step:
  assumes "ping_run_inv count s" and "ping_body ctx connect sleep count interval label s = Continue t"
  shows "ping_run_inv count t \<and> pg_seq t = pg_seq s + 1"
  using assms ping_probe_inv [of s connect] ping_probe_total [of connect s]
  by (auto simp: ping_body_def ping_run_inv_def Let_def split: if_splits)

lemma ping_body_return:
  assumes "ping_run_inv count s" and "ping_body ctx connect sleep count interval label s = Return r"
  shows "ping_report count r"
proof -
  have "ping_inv (ping_probe connect s)"
    "count > 0 \<longrightarrow> int (pg_ok (ping_probe connect s) + pg_failed (ping_probe connect s)) \<le> count"
    using assms(1) ping_probe_inv [of s connect] ping_probe_total [of connect s]
    by (auto simp: ping_run_inv_def)
  then show ?thesis
    using assms(2)
    by (auto simp: ping_body_def Let_def intro!: ping_finish_report split: if_splits)
qed

section \<open>Properties\<close>

text \<open>
  C17: \<open>humanBytes\<close> never indexes past its unit letters on an \<open>int64\<close>: below 1024 it prints
  the bytes themselves, otherwise it divides by the power of 1024 of the unit it names, and
  the quotient lies between 1 and 1024.
\<close>

theorem human_bytes_scales:
  assumes "n < 2 ^ 63"
  shows "(n < 1024 \<and> human_bytes n = HBytes n) \<or>
    (\<exists>k < 6. human_bytes n = HScaled n (1024 ^ Suc k) (''KMGTPE'' ! k) \<and>
       1024 ^ Suc k \<le> n \<and> n < 1024 * 1024 ^ Suc k)"
proof (cases "n < 1024")
  case False
  obtain dv k where hb: "hb_loop (n div 1024) 1024 0 = (dv, k)" by (metis surj_pair)
  have ok: "dv = 1024 ^ Suc k \<and> dv \<le> n \<and> n < 1024 * dv"
    by (rule hb_loop_correct [OF _ _ _ _ hb]) (use False in auto)
  have "k < 6"
  proof (rule ccontr)
    assume "\<not> k < 6"
    then have "(1024::int) ^ 7 \<le> 1024 ^ Suc k" by (intro power_increasing) auto
    with ok assms show False by simp
  qed
  with ok hb False show ?thesis
    by (intro disjI2 exI [of _ k]) (simp add: human_bytes_def unit_letters_def)
qed (simp add: human_bytes_def)

theorem human_bytes_scales_witness:
  "\<exists>k < 6. human_bytes 9223372036854775807 = HScaled 9223372036854775807 (1024 ^ Suc k) (''KMGTPE'' ! k)"
  using human_bytes_scales [of 9223372036854775807] by auto

text \<open>
  C18: the rate limiter keeps to its schedule.  Whatever time the sends themselves take, the
  \<open>i\<close>-th message is released no earlier than \<open>i\<close> intervals after the first, and no slower than
  the rate asked for as long as each send fits into its interval: the delays do not add up.
\<close>

theorem rate_limiter_schedule:
  assumes "rl_interval (new_rate_limiter rate) > 0" and "i < length works"
  shows "now + int i * \<lfloor>of_int second / rate\<rfloor> \<le> rl_run (new_rate_limiter rate) now works ! i \<and>
    ((\<forall>w \<in> set works. int w \<le> \<lfloor>of_int second / rate\<rfloor>) \<longrightarrow>
      rl_run (new_rate_limiter rate) now works ! i = now + int i * \<lfloor>of_int second / rate\<rfloor>)"
proof -
  let ?r = "new_rate_limiter rate"
  have r: "rl_interval ?r = \<lfloor>of_int second / rate\<rfloor>" "rl_next ?r = None"
    using assms(1) by (auto simp: new_rate_limiter_def split: if_splits)
  note run = rl_run_first [OF assms(1) r(2)]
  show ?thesis
    unfolding run using assms r rl_run_slots [of "?r\<lparr>rl_next := Some now\<rparr>" now i works now]
      rl_run_no_drift [of "?r\<lparr>rl_next := Some now\<rparr>" now now i works] by simp
qed

theorem rate_limiter_schedule_witness:
  "rl_run (new_rate_limiter 2) 100 [5, 7, 9] ! 2 = 100 + 2 * 500000000"
  using rate_limiter_schedule [of 2 2 "[5, 7, 9]" 100]
  by (simp add: new_rate_limiter_def second_def)

text \<open>
  C16: \<open>doPing\<close> with a count always ends, and every run reports what happened: at most
  \<open>count\<close> probes, the final line counts the attempts, successes and failures printed
  before it, its times are the minimum, the (truncated) average and the maximum of the successful round
  trips, and the command fails exactly when a probe failed.
\<close>

theorem ping_reports:
  "(0 < count \<longrightarrow> do_ping ctx connect sleep count interval target w \<noteq> None) \<and>
   (do_ping ctx connect sleep count interval target w = Some r \<longrightarrow> ping_report count r)"
proof -
  let ?s0 = "\<lparr>pg_seq = 1, pg_ok = 0, pg_failed = 0, pg_min = 0, pg_max = 0, pg_sum = 0,
             pg_out = [PingHeader (if target = [] then ''broker'' else target)], pg_world = w\<rparr>"
  have init: "ping_run_inv count ?s0" by (simp add: ping_run_inv_def ping_inv_def)
  have "\<exists>r. do_ping ctx connect sleep count interval target w = Some r" if "0 < count"
    unfolding do_ping_def Let_def
  proof (rule go_for_terminates [where P = "ping_run_inv count" and f = "\<lambda>s. nat (count - pg_seq s)", OF init])
    fix s :: "'a ping_state" and t label
    assume "ping_run_inv count s" "ping_body ctx connect sleep count interval label s = Continue t"
    from ping_body_step [OF this] that
    show "ping_run_inv count t \<and> nat (count - pg_seq t) < nat (count - pg_seq s)"
      by (simp add: ping_run_inv_def)
  qed
  moreover have "ping_report count r" if "do_ping ctx connect sleep count interval target w = Some r"
  proof (rule go_for_invariant [where P = "ping_run_inv count",
        OF that [unfolded do_ping_def Let_def] init])
    fix s assume "ping_run_inv count (s :: 'a ping_state)"
    then have "ping_inv s" "0 < count \<longrightarrow> int (pg_ok s + pg_failed s) \<le> count"
      by (auto simp: ping_run_inv_def)
    then show "ping_report count (ping_finish (if target = [] then ''broker'' else target) s)"
      by (rule ping_finish_report)
  qed (blast dest: ping_body_step ping_body_return)+
  ultimately show ?thesis by blast
qed

theorem ping_reports_witness:
  "\<exists>r. do_ping (\<lambda>w. None) (\<lambda>w. if w = (0::nat) then ((7, Inl EEOF), 1) else ((9, Inr id), w + 1))
      (\<lambda>d. id) 3 0 [] 0 = Some r \<and> ping_report 3 r \<and> fst r \<noteq> None"
proof -
  let ?c = "\<lambda>w. if w = (0::nat) then ((7, Inl EEOF), 1) else ((9, Inr id), w + 1)"
  obtain r where r: "do_ping (\<lambda>w. None) ?c (\<lambda>d. id) 3 0 [] 0 = Some r" "fst r \<noteq> None"
    by (simp add: do_ping_def go_for_unfold ping_body_def ping_probe_def ping_finish_def Let_def)
  with ping_reports [of 3 "\<lambda>w. None" ?c "\<lambda>d. id" 0 "[]" 0 r] show ?thesis by blast
qed
end
