(* ===== verification/Trace.thy ===== *)
theory Trace
  imports Streaming
begin

text \<open>
  How the properties observe a backend.  Every command runs against an arbitrary backend;
  \<open>traced_queue\<close> and \<open>traced_topic\<close> run the same backend and also record each call with
  its result in a trace beside the world.  The contracts below say what a client may rely
  on about such records; they are proved of the traced backends, whatever broker is
  underneath.
\<close>

datatype event =
    EvSend send_options "gerr option"
  | EvReceive receive_options read_result
  | EvPublish publish_options "gerr option"
  | EvSubscribe subscribe_options read_result
  | EvRequest request_options read_result
  | EvBrowse receive_options bool
  | EvNext read_result
  | EvBrowserClose
  | EvOpen
  | EvClose
  | EvSpawn string
  | EvFeed string "gerr option"
  | EvReap
  | EvPurge string

type_synonym 'w traced = "'w \<times> event list"

definition lower :: "'w traced ctx \<Rightarrow> event list \<Rightarrow> 'w ctx" where
  "lower ctx tr = (\<lambda>w. ctx (w, tr))"

definition traced_browser :: "'w browser \<Rightarrow> 'w traced browser" where
  "traced_browser b =
     \<lparr>br_next = (\<lambda>ctx (w, tr). case br_next b (lower ctx tr) w of
          (r, w') \<Rightarrow> (r, (w', tr @ [EvNext r]))),
      br_close = (\<lambda>(w, tr). case br_close b w of (e, w') \<Rightarrow> (e, (w', tr @ [EvBrowserClose])))\<rparr>"

definition traced_queue :: "'w queue_backend \<Rightarrow> 'w traced queue_backend" where
  "traced_queue qb =
     \<lparr>qb_send = (\<lambda>ctx x (w, tr). case qb_send qb (lower ctx tr) x w of
          (e, w') \<Rightarrow> (e, (w', tr @ [EvSend x e]))),
      qb_receive = (\<lambda>ctx x (w, tr). case qb_receive qb (lower ctx tr) x w of
          (r, w') \<Rightarrow> (r, (w', tr @ [EvReceive x r]))),
      qb_close = (\<lambda>(w, tr). case qb_close qb w of (e, w') \<Rightarrow> (e, (w', tr @ [EvClose]))),
      qb_browse = map_option (\<lambda>br ctx x (w, tr). case br (lower ctx tr) x w of
          (Inl e, w') \<Rightarrow> (Inl e, (w', tr @ [EvBrowse x False]))
        | (Inr b, w') \<Rightarrow> (Inr (traced_browser b), (w', tr @ [EvBrowse x True]))) (qb_browse qb),
      qb_request = map_option (\<lambda>rq ctx x (w, tr). case rq (lower ctx tr) x w of
          (r, w') \<Rightarrow> (r, (w', tr @ [EvRequest x r]))) (qb_request qb)\<rparr>"

definition traced_topic :: "'w topic_backend \<Rightarrow> 'w traced topic_backend" where
  "traced_topic tb =
     \<lparr>tb_publish = (\<lambda>ctx x (w, tr). case tb_publish tb (lower ctx tr) x w of
          (e, w') \<Rightarrow> (e, (w', tr @ [EvPublish x e]))),
      tb_subscribe = (\<lambda>ctx x (w, tr). case tb_subscribe tb (lower ctx tr) x w of
          (r, w') \<Rightarrow> (r, (w', tr @ [EvSubscribe x r]))),
      tb_close = (\<lambda>(w, tr). case tb_close tb w of (e, w') \<Rightarrow> (e, (w', tr @ [EvClose])))\<rparr>"

text \<open>A read yields a message when it returns one without an error.\<close>

fun read_msgs :: "read_result \<Rightarrow> message list" where
  "read_msgs (Some m, None) = [m]"
| "read_msgs r = []"

fun event_taken :: "event \<Rightarrow> message list" where
  "event_taken (EvReceive x r) = read_msgs r"
| "event_taken (EvSubscribe x r) = read_msgs r"
| "event_taken e = []"

fun event_sent :: "event \<Rightarrow> (string \<times> string) list" where
  "event_sent (EvSend x None) = [(so_queue x, so_message x)]"
| "event_sent (EvPublish x None) = [(po_topic x, po_message x)]"
| "event_sent e = []"

text \<open>
  The messages taken from the broker so far, and the destinations and bodies of the
  writes that the broker confirmed.
\<close>

definition taken :: "'w traced \<Rightarrow> message list" where
  "taken s = concat (map event_taken (snd s))"

definition sent :: "'w traced \<Rightarrow> (string \<times> string) list" where
  "sent s = concat (map event_sent (snd s))"

text \<open>The texts written to a child process, each with what the write returned.\<close>

fun event_fed :: "event \<Rightarrow> (string \<times> gerr option) list" where
  "event_fed (EvFeed t e) = [(t, e)]"
| "event_fed e = []"

definition fed :: "'w traced \<Rightarrow> (string \<times> gerr option) list" where
  "fed s = concat (map event_fed (snd s))"

lemma trace_start [simp]: "taken (w, []) = []" "sent (w, []) = []" "fed (w, []) = []"
  by (simp_all add: taken_def sent_def fed_def)

section \<open>Contracts\<close>

text \<open>A source of messages: each read adds exactly what it returned to \<open>taken\<close>.\<close>

locale message_source =
  fixes get :: "'s ctx \<Rightarrow> 's \<Rightarrow> read_result \<times> 's"
    and took :: "'s \<Rightarrow> message list"
  assumes read_took: "get c s = (r, s') \<Longrightarrow> took s' = took s @ read_msgs r"

text \<open>
  A sink: each confirmed write of a body adds exactly its entry to \<open>wrote\<close>, a failed one
  nothing.
\<close>

locale message_sink =
  fixes put :: "'s ctx \<Rightarrow> string \<Rightarrow> message \<Rightarrow> 's \<Rightarrow> gerr option \<times> 's"
    and entry :: "string \<Rightarrow> 'o"
    and wrote :: "'s \<Rightarrow> 'o list"
  assumes write_wrote:
    "put c b m s = (e, s') \<Longrightarrow> wrote s' = wrote s @ (if e = None then [entry b] else [])"

text \<open>
  A relay reads from a source and writes to a sink of the same world; reading does not
  write and writing does not read, and the per-message transformation does neither.
\<close>

locale relay = message_source get took + message_sink put entry wrote
  for get :: "'s ctx \<Rightarrow> 's \<Rightarrow> read_result \<times> 's" and took
    and put :: "'s ctx \<Rightarrow> string \<Rightarrow> message \<Rightarrow> 's \<Rightarrow> gerr option \<times> 's"
    and entry :: "string \<Rightarrow> 'o" and wrote +
  fixes shell :: "string \<Rightarrow> string \<Rightarrow> 's \<Rightarrow> ((gerr + string) \<times> string) \<times> 's"
  assumes read_wrote: "get c s = (r, s') \<Longrightarrow> wrote s' = wrote s"
    and write_took: "put c b m s = (e, s') \<Longrightarrow> took s' = took s"
    and shell_frame: "shell cmd input s = (x, s') \<Longrightarrow> took s' = took s \<and> wrote s' = wrote s"

text \<open>A source whose messages are written as text to a process or a stream: reads write nothing,
  writes read nothing.\<close>

locale feeder = message_source get took
  for get :: "'s ctx \<Rightarrow> 's \<Rightarrow> read_result \<times> 's" and took +
  fixes put_text :: "string \<Rightarrow> 's \<Rightarrow> gerr option \<times> 's"
    and texts :: "'s \<Rightarrow> (string \<times> gerr option) list"
  assumes read_texts: "get c s = (r, s') \<Longrightarrow> texts s' = texts s"
    and put_texts: "put_text t s = (e, s') \<Longrightarrow> texts s' = texts s @ [(t, e)] \<and> took s' = took s"

section \<open>The traced backends satisfy the contracts\<close>

lemma traced_send [go_step]:
  "qb_send (traced_queue qb) c x (w, tr) =
     (case qb_send qb (lower c tr) x w of (e, w') \<Rightarrow> (e, (w', tr @ [EvSend x e])))"
  by (simp add: traced_queue_def)

lemma traced_receive [go_step]:
  "qb_receive (traced_queue qb) c x (w, tr) =
     (case qb_receive qb (lower c tr) x w of (r, w') \<Rightarrow> (r, (w', tr @ [EvReceive x r])))"
  by (simp add: traced_queue_def)

lemma traced_publish [go_step]:
  "tb_publish (traced_topic tb) c x (w, tr) =
     (case tb_publish tb (lower c tr) x w of (e, w') \<Rightarrow> (e, (w', tr @ [EvPublish x e])))"
  by (simp add: traced_topic_def)

lemma traced_subscribe [go_step]:
  "tb_subscribe (traced_topic tb) c x (w, tr) =
     (case tb_subscribe tb (lower c tr) x w of (r, w') \<Rightarrow> (r, (w', tr @ [EvSubscribe x r])))"
  by (simp add: traced_topic_def)

lemma traced_receive_taken:
  assumes "qb_receive (traced_queue qb) c x s = (r, s')"
  shows "taken s' = taken s @ read_msgs r \<and> sent s' = sent s"
  using assms
  by (cases s) (auto simp: go_step taken_def sent_def split: prod.splits)

lemma traced_subscribe_taken:
  assumes "tb_subscribe (traced_topic tb) c x s = (r, s')"
  shows "taken s' = taken s @ read_msgs r \<and> sent s' = sent s"
  using assms
  by (cases s) (auto simp: go_step taken_def sent_def split: prod.splits)

lemma traced_send_sent:
  assumes "qb_send (traced_queue qb) c x s = (e, s')"
  shows "taken s' = taken s \<and>
    sent s' = sent s @ (if e = None then [(so_queue x, so_message x)] else [])"
  using assms
  by (cases s; cases e) (auto simp: go_step taken_def sent_def split: prod.splits)

lemma traced_publish_sent:
  assumes "tb_publish (traced_topic tb) c x s = (e, s')"
  shows "taken s' = taken s \<and>
    sent s' = sent s @ (if e = None then [(po_topic x, po_message x)] else [])"
  using assms
  by (cases s; cases e) (auto simp: go_step taken_def sent_def split: prod.splits)

text \<open>A shell command of the underlying world leaves the trace alone.\<close>

definition traced_shell ::
    "(string \<Rightarrow> string \<Rightarrow> 'w \<Rightarrow> ((gerr + string) \<times> string) \<times> 'w) \<Rightarrow>
     string \<Rightarrow> string \<Rightarrow> 'w traced \<Rightarrow> ((gerr + string) \<times> string) \<times> 'w traced" where
  "traced_shell sh cmd input s =
     (case sh cmd input (fst s) of (r, w') \<Rightarrow> (r, (w', snd s)))"

lemma traced_shell_frame:
  "traced_shell sh cmd input s = (r, s') \<Longrightarrow> taken s' = taken s \<and> sent s' = sent s"
  by (auto simp: traced_shell_def taken_def sent_def split: prod.splits)

text \<open>A writer whose writes are recorded, and one whose writes are not.\<close>

definition traced_writer :: "(string \<Rightarrow> 'w \<Rightarrow> gerr option \<times> 'w) \<Rightarrow> string \<Rightarrow> 'w traced \<Rightarrow> gerr option \<times> 'w traced" where
  "traced_writer out t s = (case out t (fst s) of (e, w') \<Rightarrow> (e, (w', snd s @ [EvFeed t e])))"

definition silent_writer :: "(string \<Rightarrow> 'w \<Rightarrow> gerr option \<times> 'w) \<Rightarrow> string \<Rightarrow> 'w traced \<Rightarrow> gerr option \<times> 'w traced" where
  "silent_writer out t s = (case out t (fst s) of (e, w') \<Rightarrow> (e, (w', snd s)))"

lemma silent_writer_frame: "silent_writer out t s = (e, s') \<Longrightarrow> snd s' = snd s"
  by (auto simp: silent_writer_def split: prod.splits)

text \<open>The messages a browse cursor returned.\<close>

fun event_browsed :: "event \<Rightarrow> message list" where
  "event_browsed (EvNext r) = read_msgs r"
| "event_browsed e = []"

definition browsed :: "'w traced \<Rightarrow> message list" where
  "browsed s = concat (map event_browsed (snd s))"

lemma traced_writer_facts:
  "traced_writer out t s = (e, s') \<Longrightarrow>
   fed s' = fed s @ [(t, e)] \<and> taken s' = taken s \<and> browsed s' = browsed s"
  by (auto simp: traced_writer_def fed_def taken_def browsed_def split: prod.splits)

lemma traced_next_facts:
  "br_next (traced_browser b) c s = (r, s') \<Longrightarrow> browsed s' = browsed s @ read_msgs r \<and> fed s' = fed s"
  by (cases s) (auto simp: traced_browser_def browsed_def fed_def split: prod.splits)

text \<open>Reads leave the writes to a child process alone.\<close>

lemma traced_receive_fed: "qb_receive (traced_queue qb) c x s = (r, s') \<Longrightarrow> fed s' = fed s"
  by (cases s) (auto simp: go_step fed_def split: prod.splits)

lemma traced_subscribe_fed: "tb_subscribe (traced_topic tb) c x s = (r, s') \<Longrightarrow> fed s' = fed s"
  by (cases s) (auto simp: go_step fed_def split: prod.splits)

text \<open>
  A factory connects: an error, or an adapter whose opening the trace records.  The
  balance of a trace is the number of adapters opened and not yet closed plus the child
  processes started and not yet waited for.
\<close>

type_synonym ('w, 'a) factory = "'w \<Rightarrow> (gerr + 'a) \<times> 'w"

definition traced_factory ::
    "('a \<Rightarrow> 'b) \<Rightarrow> ('w, 'a) factory \<Rightarrow> ('w traced, 'b) factory" where
  "traced_factory wrap f s =
     (case f (fst s) of
        (Inl e, w') \<Rightarrow> (Inl e, (w', snd s))
      | (Inr a, w') \<Rightarrow> (Inr (wrap a), (w', snd s @ [EvOpen])))"

fun event_balance :: "event \<Rightarrow> int" where
  "event_balance EvOpen = 1"
| "event_balance EvClose = -1"
| "event_balance (EvSpawn t) = 1"
| "event_balance EvReap = -1"
| "event_balance e = 0"

definition balance :: "'w traced \<Rightarrow> int" where
  "balance s = sum_list (map event_balance (snd s))"

lemma balance_start [simp]: "balance (w, []) = 0"
  by (simp add: balance_def)

lemma traced_send_balance:
  "qb_send (traced_queue qb) c x s = (e, s') \<Longrightarrow> balance s' = balance s"
  by (cases s) (auto simp: go_step balance_def split: prod.splits)

lemma traced_receive_balance:
  "qb_receive (traced_queue qb) c x s = (r, s') \<Longrightarrow> balance s' = balance s"
  by (cases s) (auto simp: go_step balance_def split: prod.splits)

lemma traced_publish_balance:
  "tb_publish (traced_topic tb) c x s = (e, s') \<Longrightarrow> balance s' = balance s"
  by (cases s) (auto simp: go_step balance_def split: prod.splits)

lemma traced_subscribe_balance:
  "tb_subscribe (traced_topic tb) c x s = (r, s') \<Longrightarrow> balance s' = balance s"
  by (cases s) (auto simp: go_step balance_def split: prod.splits)

lemma traced_shell_balance:
  "traced_shell sh cmd input s = (r, s') \<Longrightarrow> balance s' = balance s"
  by (auto simp: traced_shell_def balance_def split: prod.splits)

lemma traced_queue_close_balance:
  "qb_close (traced_queue qb) s = (e, s') \<Longrightarrow> balance s' = balance s - 1"
  by (cases s) (auto simp: traced_queue_def balance_def split: prod.splits)

lemma traced_topic_close_balance:
  "tb_close (traced_topic tb) s = (e, s') \<Longrightarrow> balance s' = balance s - 1"
  by (cases s) (auto simp: traced_topic_def balance_def split: prod.splits)

lemma traced_factory_cases:
  assumes "traced_factory wrap f s = (r, s')"
  obtains (error) e where "r = Inl e" "balance s' = balance s"
    | (opened) a where "r = Inr (wrap a)" "balance s' = balance s + 1"
  using assms by (fastforce simp: traced_factory_def balance_def split: prod.splits sum.splits)

lemmas traced_balance = traced_send_balance traced_receive_balance traced_publish_balance
  traced_subscribe_balance traced_shell_balance

end
