(* ===== verification/Fixtures.thy ===== *)
theory Fixtures
  imports Trace
begin

text \<open>
  A concrete backend and context on which the witnesses run the commands: reads and writes
  answer from a script, and an exhausted script means an empty source and a healthy sink.
\<close>

record script =
  sc_reads :: "read_result list"
  sc_writes :: "gerr option list"
  sc_ctx :: "gerr option"

definition script_read :: "script \<Rightarrow> read_result \<times> script" where
  "script_read w =
     (case sc_reads w of
        [] \<Rightarrow> ((None, Some ENoMessageAvailable), w\<lparr>sc_ctx := Some ECanceled\<rparr>)
      | r # rs \<Rightarrow> (r, w\<lparr>sc_reads := rs\<rparr>))"

definition script_write :: "script \<Rightarrow> gerr option \<times> script" where
  "script_write w =
     (case sc_writes w of [] \<Rightarrow> (None, w) | e # es \<Rightarrow> (e, w\<lparr>sc_writes := es\<rparr>))"

definition script_queue :: "script queue_backend" where
  "script_queue = \<lparr>qb_send = (\<lambda>c x. script_write), qb_receive = (\<lambda>c x. script_read),
     qb_close = (\<lambda>w. (None, w)), qb_browse = None, qb_request = None\<rparr>"

definition script_topic :: "script topic_backend" where
  "script_topic = \<lparr>tb_publish = (\<lambda>c x. script_write), tb_subscribe = (\<lambda>c x. script_read),
     tb_close = (\<lambda>w. (None, w))\<rparr>"

definition script_of :: "read_result list \<Rightarrow> gerr option list \<Rightarrow> script" where
  "script_of rs ws = \<lparr>sc_reads = rs, sc_writes = ws, sc_ctx = None\<rparr>"

definition msg :: "string \<Rightarrow> message" where
  "msg d = message0\<lparr>m_data := d\<rparr>"

lemmas script_defs = script_queue_def script_topic_def script_of_def script_read_def
  script_write_def msg_def message0_def

end
