(* ===== verification/Reconnect.thy ===== *)
theory Reconnect
  imports Fixtures
begin

text \<open>
  \<^verbatim>\<open>cmd/reconnect.go\<close>: the wrapper that reconnects an adapter after connection errors.  The
  model is sequential: one operation of the wrapper runs at a time.  The backoff policy is
  the library \<^verbatim>\<open>cenkalti/backoff\<close>, an argument of the model.
\<close>

section \<open>Which errors are connection errors\<close>

definition connection_substrings :: "string list" where
  "connection_substrings =
     [''connection refused'', ''connection reset'', ''connection closed'', ''broken pipe'',
      ''use of closed network connection'', ''no such host'', ''i/o timeout'', ''unexpected eof'',
      ''code = unavailable'', ''transport is closing'', ''no servers available'',
      ''not currently connected'']"

definition is_connection_error :: "gerr \<Rightarrow> bool" where
  "is_connection_error e =
     (if errors_is e ECanceled \<or> errors_is e EDeadlineExceeded then False
      else if errors_is e EEOF \<or> errors_is e EUnexpectedEOF then True
      else if errors_is e (ESyscall ECONNRESET) \<or> errors_is e (ESyscall ECONNREFUSED) \<or>
              errors_is e (ESyscall EPIPE) \<or> errors_is e (ESyscall ECONNABORTED) then True
      else if as_net_error e then True
      else (let m = to_lower (err_text e) in list_ex (\<lambda>sub. contains m sub) connection_substrings))"

section \<open>The adapter\<close>

text \<open>Zero selects the default window of five minutes; the policy receives the result.\<close>

definition max_elapsed :: "int \<Rightarrow> int" where
  "max_elapsed d = (if d > 0 then d else 5 * 60 * second)"

text \<open>
  \<open>re_next window k w\<close> is the \<open>k\<close>-th \<open>NextBackOff\<close> of a policy for that window, at the time
  of the world \<open>w\<close> (\<^const>\<open>None\<close> for \<open>Stop\<close>); \<open>re_sleep d\<close> is the \<open>select\<close> on the timer and the
  context.
\<close>

record ('w, 'a) recon_env =
  re_factory :: "('w, 'a) factory"
  re_close :: "'a \<Rightarrow> 'w \<Rightarrow> gerr option \<times> 'w"
  re_window :: int
  re_next :: "int \<Rightarrow> nat \<Rightarrow> 'w \<Rightarrow> int option"
  re_sleep :: "int \<Rightarrow> 'w \<Rightarrow> 'w"

record ('w, 'a) recon =
  rk_adapter :: "'a option"
  rk_closed :: bool
  rk_world :: 'w

definition recon_init :: "'w \<Rightarrow> ('w, 'a) recon" where
  "recon_init w = \<lparr>rk_adapter = None, rk_closed = False, rk_world = w\<rparr>"

definition connect_recon :: "('w, 'a) recon_env \<Rightarrow> ('w, 'a) recon \<Rightarrow> gerr option \<times> ('w, 'a) recon" where
  "connect_recon env s =
     (case re_factory env (rk_world s) of
        (Inl e, w) \<Rightarrow> (Some e, s\<lparr>rk_world := w\<rparr>)
      | (Inr a, w) \<Rightarrow> (None, s\<lparr>rk_adapter := Some a, rk_world := w\<rparr>))"

definition ensure_connected :: "('w, 'a) recon_env \<Rightarrow> ('w, 'a) recon \<Rightarrow> gerr option \<times> ('w, 'a) recon" where
  "ensure_connected env s =
     (if rk_closed s then (Some (ENew ''adapter closed''), s)
      else if rk_adapter s \<noteq> None then (None, s)
      else connect_recon env s)"

text \<open>Closing and forgetting the current adapter; the result is that of its \<open>Close\<close>.\<close>

definition drop_adapter :: "('w, 'a) recon_env \<Rightarrow> ('w, 'a) recon \<Rightarrow> gerr option \<times> ('w, 'a) recon" where
  "drop_adapter env s =
     (case rk_adapter s of
        None \<Rightarrow> (None, s)
      | Some a \<Rightarrow> (case re_close env a (rk_world s) of
          (e, w) \<Rightarrow> (e, s\<lparr>rk_adapter := None, rk_world := w\<rparr>)))"

definition reconnect :: "('w, 'a) recon_env \<Rightarrow> ('w, 'a) recon \<Rightarrow> gerr option \<times> ('w, 'a) recon" where
  "reconnect env s = connect_recon env (snd (drop_adapter env s))"

definition close_recon :: "('w, 'a) recon_env \<Rightarrow> ('w, 'a) recon \<Rightarrow> gerr option \<times> ('w, 'a) recon" where
  "close_recon env s = drop_adapter env (s\<lparr>rk_closed := True\<rparr>)"

section \<open>Retrying an operation\<close>

text \<open>An operation on an adapter: its error and its result.\<close>

type_synonym ('w, 'a, 'r) adapter_op = "'a \<Rightarrow> 'w \<Rightarrow> (gerr option \<times> 'r) \<times> 'w"

record ('w, 'a, 'r) retry =
  rt_attempt :: nat
  rt_last :: "gerr option"
  rt_result :: 'r
  rt_recon :: "('w, 'a) recon"

type_synonym ('w, 'a, 'r) recon_result = "(gerr option \<times> 'r) \<times> ('w, 'a) recon"

definition exhausted :: "string \<Rightarrow> gerr option \<Rightarrow> gerr" where
  "exhausted desc prev =
     (case prev of
        Some e \<Rightarrow> EWrap (''reconnect exhausted for '' @ desc @ '': '') e []
      | None \<Rightarrow> ENew (''reconnect exhausted for '' @ desc @ '': %!w(<nil>)''))"

definition retry_body ::
    "('w, 'a) recon_env \<Rightarrow> 'w ctx \<Rightarrow> string \<Rightarrow> ('w, 'a, 'r) adapter_op \<Rightarrow> ('w, 'a, 'r) retry \<Rightarrow>
     (('w, 'a, 'r) retry, ('w, 'a, 'r) recon_result) flow" where
  "retry_body env ctx desc oper t =
     (let s = rt_recon t in
      if ctx (rk_world s) \<noteq> None then Return ((ctx (rk_world s), rt_result t), s)
      else if rk_closed s then Return ((Some (ENew (desc @ '': adapter closed'')), rt_result t), s)
      else case re_next env (max_elapsed (re_window env)) (rt_attempt t) (rk_world s) of
        None \<Rightarrow> Return ((Some (exhausted desc (rt_last t)), rt_result t), s)
      | Some wait \<Rightarrow>
          (let s1 = s\<lparr>rk_world := re_sleep env wait (rk_world s)\<rparr>;
               n = rt_attempt t + 1
           in if ctx (rk_world s1) \<noteq> None then Return ((ctx (rk_world s1), rt_result t), s1)
              else case reconnect env s1 of
                (Some e, s2) \<Rightarrow> Continue (t\<lparr>rt_attempt := n, rt_last := Some e, rt_recon := s2\<rparr>)
              | (None, s2) \<Rightarrow>
                  (case rk_adapter s2 of
                     None \<Rightarrow> Return ((None, rt_result t), s2)
                   | Some a \<Rightarrow>
                       (case oper a (rk_world s2) of
                          ((None, r), w) \<Rightarrow> Return ((None, r), s2\<lparr>rk_world := w\<rparr>)
                        | ((Some e, r), w) \<Rightarrow>
                            (if \<not> is_connection_error e then Return ((Some e, r), s2\<lparr>rk_world := w\<rparr>)
                             else Continue \<lparr>rt_attempt = n, rt_last = Some e, rt_result = r,
                                    rt_recon = s2\<lparr>rk_world := w\<rparr>\<rparr>)))))"

definition retry_op ::
    "('w, 'a) recon_env \<Rightarrow> 'w ctx \<Rightarrow> string \<Rightarrow> ('w, 'a, 'r) adapter_op \<Rightarrow> 'r \<Rightarrow> ('w, 'a) recon \<Rightarrow>
     ('w, 'a, 'r) recon_result option" where
  "retry_op env ctx desc oper dflt s =
     go_for (\<lambda>t. True) (retry_body env ctx desc oper) (\<lambda>t. ((None, rt_result t), rt_recon t))
       \<lparr>rt_attempt = 0, rt_last = None, rt_result = dflt, rt_recon = s\<rparr>"

text \<open>The body that the five operations share: connect, try once, retry on a connection error.\<close>

definition reconnecting_call ::
    "('w, 'a) recon_env \<Rightarrow> 'w ctx \<Rightarrow> string \<Rightarrow> ('w, 'a, 'r) adapter_op \<Rightarrow> 'r \<Rightarrow> ('w, 'a) recon \<Rightarrow>
     ('w, 'a, 'r) recon_result option" where
  "reconnecting_call env ctx desc oper dflt s =
     (case ensure_connected env s of
        (Some e, s1) \<Rightarrow> Some ((Some e, dflt), s1)
      | (None, s1) \<Rightarrow>
          (case rk_adapter s1 of
             None \<Rightarrow> Some ((None, dflt), s1)
           | Some a \<Rightarrow>
               (case oper a (rk_world s1) of
                  ((None, r), w) \<Rightarrow> Some ((None, r), s1\<lparr>rk_world := w\<rparr>)
                | ((Some e, r), w) \<Rightarrow>
                    (if \<not> is_connection_error e then Some ((Some e, r), s1\<lparr>rk_world := w\<rparr>)
                     else retry_op env ctx desc oper dflt (s1\<lparr>rk_world := w\<rparr>)))))"

text \<open>
  The branches where a connected wrapper has no adapter do not occur (the connection has just
  set it); they stand for Go's use of the adapter there.
\<close>

definition plain_op :: "('a \<Rightarrow> 'w \<Rightarrow> gerr option \<times> 'w) \<Rightarrow> ('w, 'a, unit) adapter_op" where
  "plain_op f a w = (case f a w of (e, w') \<Rightarrow> ((e, ()), w'))"

definition read_op :: "('a \<Rightarrow> 'w \<Rightarrow> read_result \<times> 'w) \<Rightarrow> ('w, 'a, message option) adapter_op" where
  "read_op f a w = (case f a w of ((m, e), w') \<Rightarrow> ((e, m), w'))"

definition recon_send where
  "recon_send env ctx opts =
     reconnecting_call env ctx (''send to '' @ so_queue opts) (plain_op (\<lambda>qb. qb_send qb ctx opts)) ()"

definition recon_receive where
  "recon_receive env ctx opts =
     reconnecting_call env ctx (''receive from '' @ ro_queue opts) (read_op (\<lambda>qb. qb_receive qb ctx opts)) None"

definition recon_request where
  "recon_request env rnd ctx opts =
     reconnecting_call env ctx (''request to '' @ qo_address opts) (read_op (\<lambda>qb. request rnd ctx qb opts)) None"

definition recon_publish where
  "recon_publish env ctx opts =
     reconnecting_call env ctx (''publish to '' @ po_topic opts) (plain_op (\<lambda>tb. tb_publish tb ctx opts)) ()"

definition recon_subscribe where
  "recon_subscribe env ctx opts =
     reconnecting_call env ctx (''subscribe on '' @ uo_topic opts) (read_op (\<lambda>tb. tb_subscribe tb ctx opts)) None"

definition recon_browse ::
    "('w, 'w queue_backend) recon_env \<Rightarrow> 'w ctx \<Rightarrow> receive_options \<Rightarrow> ('w, 'w queue_backend) recon \<Rightarrow>
     (gerr + 'w browser) \<times> ('w, 'w queue_backend) recon" where
  "recon_browse env ctx opts s =
     (case ensure_connected env s of
        (Some e, s1) \<Rightarrow> (Inl e, s1)
      | (None, s1) \<Rightarrow>
          (case rk_adapter s1 of
             None \<Rightarrow> (Inl EBrowseUnsupported, s1)
           | Some a \<Rightarrow>
               (case qb_browse a of
                  None \<Rightarrow> (Inl EBrowseUnsupported, s1)
                | Some browse \<Rightarrow>
                    (case browse ctx opts (rk_world s1) of (r, w) \<Rightarrow> (r, s1\<lparr>rk_world := w\<rparr>)))))"

text \<open>
  The factory wrappers: a missing factory stays missing; \<open>wrap_reconnect\<close> shares one wrapper,
  the conditional one looks at the flags \<open>--reconnect\<close> and \<open>--reconnect-window\<close> when called.
\<close>

definition wrap_reconnect ::
    "('w, 'a) recon_env \<Rightarrow> ('w, 'a) factory option \<Rightarrow> int \<Rightarrow> ('w, 'a) recon_env option" where
  "wrap_reconnect env factory window =
     map_option (\<lambda>f. env\<lparr>re_factory := f, re_window := window\<rparr>) factory"

datatype ('w, 'a) connection = DirectAdapter 'a | ReconnectingAdapter "('w, 'a) recon_env"

definition conditional_reconnect ::
    "('w, 'a) recon_env \<Rightarrow> ('w, 'a) factory option \<Rightarrow> bool \<Rightarrow> int \<Rightarrow>
     ('w, ('w, 'a) connection) factory option" where
  "conditional_reconnect env factory flag window =
     map_option (\<lambda>f w.
       if flag then (Inr (ReconnectingAdapter (env\<lparr>re_factory := f, re_window := window\<rparr>)), w)
       else (case f w of (Inl e, w') \<Rightarrow> (Inl e, w') | (Inr a, w') \<Rightarrow> (Inr (DirectAdapter a), w'))) factory"

section \<open>The life of the adapter\<close>

text \<open>
  What the wrapper may rely on: the number \<open>live\<close> of open connections goes up by one when the
  factory succeeds, down by one when an adapter it made is closed.
\<close>

locale adapter_life =
  fixes env :: "('w, 'a) recon_env"
    and live :: "'w \<Rightarrow> int"
    and made :: "'a \<Rightarrow> bool"
  assumes open_fail: "re_factory env w = (Inl e, w') \<Longrightarrow> live w' = live w"
    and open_ok: "re_factory env w = (Inr a, w') \<Longrightarrow> live w' = live w + 1 \<and> made a"
    and close_live: "made a \<Longrightarrow> re_close env a w = (oe, w') \<Longrightarrow> live w' = live w - 1"
    and sleep_live: "live (re_sleep env d w) = live w"
begin

text \<open>Exactly the held adapter is open, and a closed wrapper holds none.\<close>

definition owned :: "('w, 'a) recon \<Rightarrow> bool" where
  "owned s \<longleftrightarrow>
     live (rk_world s) = (if rk_adapter s = None then 0 else 1) \<and>
     (\<forall>a. rk_adapter s = Some a \<longrightarrow> made a) \<and> (rk_closed s \<longrightarrow> rk_adapter s = None)"

definition keeps_live :: "('w, 'a, 'r) adapter_op \<Rightarrow> bool" where
  "keeps_live oper \<longleftrightarrow> (\<forall>a w r w'. made a \<longrightarrow> oper a w = (r, w') \<longrightarrow> live w' = live w)"

lemma drop_owned:
  assumes "drop_adapter env s = (e, s')" and "owned s"
  shows "owned s' \<and> rk_adapter s' = None \<and> rk_closed s' = rk_closed s"
  using assms close_live
  by (auto simp: drop_adapter_def owned_def split: option.splits prod.splits)

lemma connect_owned:
  assumes "connect_recon env s = (e, s')" and "owned s" and "rk_adapter s = None" and "\<not> rk_closed s"
  shows "owned s' \<and> \<not> rk_closed s' \<and> (e = None \<longleftrightarrow> rk_adapter s' \<noteq> None)"
  using assms open_fail open_ok
  by (auto simp: connect_recon_def owned_def split: prod.splits sum.splits)

lemma reconnect_owned:
  assumes "reconnect env s = (e, s')" and "owned s" and "\<not> rk_closed s"
  shows "owned s' \<and> \<not> rk_closed s' \<and> (e = None \<longleftrightarrow> rk_adapter s' \<noteq> None)"
proof -
  obtain d s1 where d: "drop_adapter env s = (d, s1)" by (metis surj_pair)
  have "owned s1 \<and> rk_adapter s1 = None \<and> \<not> rk_closed s1" using drop_owned [OF d] assms by simp
  moreover have "connect_recon env s1 = (e, s')" using assms(1) d by (simp add: reconnect_def)
  ultimately show ?thesis using connect_owned by blast
qed

lemma ensure_owned:
  assumes "ensure_connected env s = (e, s')" and "owned s"
  shows "owned s' \<and> (e = None \<longrightarrow> \<not> rk_closed s' \<and> rk_adapter s' \<noteq> None)"
  using assms connect_owned
  by (auto simp: ensure_connected_def split: if_splits)

lemma oper_owned:
  assumes "owned s" and "rk_adapter s = Some a" and "keeps_live oper" and "oper a (rk_world s) = (r, w)"
  shows "owned (s\<lparr>rk_world := w\<rparr>)"
proof -
  have "live w = live (rk_world s)" using assms unfolding owned_def keeps_live_def by blast
  then show ?thesis using assms(1,2) by (simp add: owned_def)
qed

lemma close_owned: "owned s \<Longrightarrow> close_recon env s = (e, s') \<Longrightarrow> owned s' \<and> rk_closed s' \<and> rk_adapter s' = None"
proof -
  assume "owned s" and c: "close_recon env s = (e, s')"
  show "owned s' \<and> rk_closed s' \<and> rk_adapter s' = None"
    using \<open>owned s\<close> c close_live
    by (auto simp: close_recon_def drop_adapter_def owned_def split: option.splits prod.splits)
qed

text \<open>What a retried operation returns.\<close>

definition call_outcome ::
    "'w ctx \<Rightarrow> string \<Rightarrow> ('w, 'a, 'r) adapter_op \<Rightarrow> ('w, 'a, 'r) recon_result \<Rightarrow> bool" where
  "call_outcome ctx desc oper res \<longleftrightarrow>
     (case res of ((e, r), s) \<Rightarrow>
       (\<exists>a w. rk_adapter s = Some a \<and> oper a w = ((e, r), rk_world s) \<and>
          (\<forall>x. e = Some x \<longrightarrow> \<not> is_connection_error x)) \<or>
       (e \<noteq> None \<and> ctx (rk_world s) = e) \<or>
       (\<exists>prev. e = Some (exhausted desc prev)))"

lemma retry_body_owned:
  assumes own: "owned (rt_recon t)" "\<not> rk_closed (rt_recon t)" and keep: "keeps_live oper"
  shows "case retry_body env ctx desc oper t of
      Continue u \<Rightarrow> owned (rt_recon u) \<and> \<not> rk_closed (rt_recon u) \<and> rt_attempt u = rt_attempt t + 1
    | Return res \<Rightarrow> owned (snd res) \<and> call_outcome ctx desc oper res"
proof (cases "ctx (rk_world (rt_recon t)) = None")
  case False
  then show ?thesis using own by (auto simp: retry_body_def Let_def call_outcome_def)
next
  case c0: True
  show ?thesis
  proof (cases "re_next env (max_elapsed (re_window env)) (rt_attempt t) (rk_world (rt_recon t))")
    case None
    then show ?thesis using own c0 by (auto simp: retry_body_def Let_def call_outcome_def)
  next
    case (Some wait)
    let ?s1 = "(rt_recon t)\<lparr>rk_world := re_sleep env wait (rk_world (rt_recon t))\<rparr>"
    have own1: "owned ?s1" "\<not> rk_closed ?s1" using own by (auto simp: owned_def sleep_live)
    show ?thesis
    proof (cases "ctx (rk_world ?s1) = None")
      case False
      then show ?thesis
        using own c0 Some own1 by (auto simp: retry_body_def Let_def call_outcome_def)
    next
      case c1: True
      obtain e s2 where rc: "reconnect env ?s1 = (e, s2)" by (metis surj_pair)
      note r = reconnect_owned [OF rc own1]
      show ?thesis
      proof (cases e)
        case (Some x)
        then show ?thesis
          using own c0 \<open>re_next env _ _ _ = _\<close> c1 rc r by (simp add: retry_body_def Let_def)
      next
        case None
        then obtain a where a: "rk_adapter s2 = Some a" using r by auto
        obtain oe res w where o: "oper a (rk_world s2) = ((oe, res), w)" by (metis surj_pair)
        note o2 = oper_owned [OF conjunct1 [OF r] a keep o]
        show ?thesis
          using own c0 \<open>re_next env _ _ _ = _\<close> c1 rc r None a o o2
          by (cases oe) (auto simp: retry_body_def Let_def call_outcome_def)
      qed
    qed
  qed
qed

lemma retry_op_owned:
  assumes run: "retry_op env ctx desc oper dflt s = Some res"
    and own: "owned s" "\<not> rk_closed s" and keep: "keeps_live oper"
  shows "owned (snd res) \<and> call_outcome ctx desc oper res"
proof (rule go_for_invariant [where P = "\<lambda>t. owned (rt_recon t) \<and> \<not> rk_closed (rt_recon t)",
      OF run [unfolded retry_op_def]])
  show "owned (rt_recon u) \<and> \<not> rk_closed (rt_recon u)"
    if "owned (rt_recon t) \<and> \<not> rk_closed (rt_recon t)" "retry_body env ctx desc oper t = Continue u" for t u
    using retry_body_owned [OF _ _ keep, of t ctx desc] that by simp
  show "owned (snd r) \<and> call_outcome ctx desc oper r"
    if "owned (rt_recon t) \<and> \<not> rk_closed (rt_recon t)" "retry_body env ctx desc oper t = Return r" for t r
    using retry_body_owned [OF _ _ keep, of t ctx desc] that by simp
qed (use own in auto)

lemma retry_op_returns:
  assumes stop: "\<And>k w. N \<le> k \<Longrightarrow> re_next env (max_elapsed (re_window env)) k w = None"
    and own: "owned s" "\<not> rk_closed s" and keep: "keeps_live oper"
  shows "\<exists>res. retry_op env ctx desc oper dflt s = Some res"
  unfolding retry_op_def
proof (rule go_for_terminates [where P = "\<lambda>t. owned (rt_recon t) \<and> \<not> rk_closed (rt_recon t)"
      and f = "\<lambda>t. N - rt_attempt t"])
  fix t u assume t: "owned (rt_recon t) \<and> \<not> rk_closed (rt_recon t)"
    and b: "retry_body env ctx desc oper t = Continue u"
  have "re_next env (max_elapsed (re_window env)) (rt_attempt t) (rk_world (rt_recon t)) \<noteq> None"
    using b by (cases "re_next env (max_elapsed (re_window env)) (rt_attempt t) (rk_world (rt_recon t))")
      (auto simp: retry_body_def Let_def split: if_splits)
  then have "rt_attempt t < N" using stop by (meson linorder_not_less)
  then show "(owned (rt_recon u) \<and> \<not> rk_closed (rt_recon u)) \<and> N - rt_attempt u < N - rt_attempt t"
    using retry_body_owned [OF _ _ keep, of t ctx desc] t b by simp
qed (use own in auto)

lemma call_owned:
  assumes run: "reconnecting_call env ctx desc oper dflt s = Some ((e, r), s')"
    and own: "owned s" and keep: "keeps_live oper"
  shows "owned s' \<and>
    (call_outcome ctx desc oper ((e, r), s') \<or> (e \<noteq> None \<and> ensure_connected env s = (e, s')))"
proof -
  obtain e1 s1 where ec: "ensure_connected env s = (e1, s1)" by (metis surj_pair)
  note en = ensure_owned [OF ec own]
  show ?thesis
  proof (cases e1)
    case (Some x)
    then show ?thesis using run ec en by (auto simp: reconnecting_call_def)
  next
    case None
    then obtain a where a: "rk_adapter s1 = Some a" "\<not> rk_closed s1" "owned s1" using en by auto
    obtain oe res w where o: "oper a (rk_world s1) = ((oe, res), w)" by (metis surj_pair)
    note ow = oper_owned [OF a(3,1) keep o]
    show ?thesis
    proof (cases "\<exists>x. oe = Some x \<and> is_connection_error x")
      case False
      then have "e = oe \<and> r = res \<and> s' = s1\<lparr>rk_world := w\<rparr>"
        using run ec None a(1) o by (cases oe) (auto simp: reconnecting_call_def)
      then show ?thesis using ow o a(1) False by (auto simp: call_outcome_def)
    next
      case True
      then have "retry_op env ctx desc oper dflt (s1\<lparr>rk_world := w\<rparr>) = Some ((e, r), s')"
        using run ec None a(1) o by (auto simp: reconnecting_call_def)
      from retry_op_owned [OF this ow _ keep] a(2) show ?thesis by simp
    qed
  qed
qed

lemma call_returns:
  assumes stop: "\<And>k w. N \<le> k \<Longrightarrow> re_next env (max_elapsed (re_window env)) k w = None"
    and own: "owned s" and keep: "keeps_live oper"
  shows "\<exists>res. reconnecting_call env ctx desc oper dflt s = Some res"
proof -
  obtain e1 s1 where ec: "ensure_connected env s = (e1, s1)" by (metis surj_pair)
  note en = ensure_owned [OF ec own]
  show ?thesis
  proof (cases "e1 = None")
    case False
    then show ?thesis using ec by (auto simp: reconnecting_call_def)
  next
    case True
    then obtain a where a: "rk_adapter s1 = Some a" "\<not> rk_closed s1" "owned s1" using en by auto
    obtain oe res w where o: "oper a (rk_world s1) = ((oe, res), w)" by (metis surj_pair)
    note ow = oper_owned [OF a(3,1) keep o]
    have "\<exists>res. retry_op env ctx desc oper dflt (s1\<lparr>rk_world := w\<rparr>) = Some res"
      by (rule retry_op_returns [OF stop ow _ keep]) (simp_all add: a(2))
    then show ?thesis using ec True a(1) o by (cases oe) (auto simp: reconnecting_call_def)
  qed
qed

end

section \<open>The wrapper on the traced backends\<close>

definition traced_recon_env ::
    "('a \<Rightarrow> 'b) \<Rightarrow> ('b \<Rightarrow> 'w traced \<Rightarrow> gerr option \<times> 'w traced) \<Rightarrow> ('w, 'a) recon_env \<Rightarrow>
     ('w traced, 'b) recon_env" where
  "traced_recon_env wrap close env =
     \<lparr>re_factory = traced_factory wrap (re_factory env), re_close = close, re_window = re_window env,
      re_next = (\<lambda>d k s. re_next env d k (fst s)), re_sleep = (\<lambda>d s. (re_sleep env d (fst s), snd s))\<rparr>"

lemma traced_factory_life:
  "traced_factory wrap f s = (Inl e, s') \<Longrightarrow> balance s' = balance s"
  "traced_factory wrap f s = (Inr a, s') \<Longrightarrow> balance s' = balance s + 1 \<and> (\<exists>b. a = wrap b)"
  by (auto simp: traced_factory_def balance_def split: prod.splits sum.splits)

interpretation rq: adapter_life "traced_recon_env traced_queue qb_close env" balance "\<lambda>a. \<exists>b. a = traced_queue b"
  for env :: "('w, 'w queue_backend) recon_env"
  by unfold_locales
     (auto simp: traced_recon_env_def dest: traced_factory_life traced_queue_close_balance, simp add: balance_def)

interpretation rtp: adapter_life "traced_recon_env traced_topic tb_close env" balance "\<lambda>a. \<exists>b. a = traced_topic b"
  for env :: "('w, 'w topic_backend) recon_env"
  by unfold_locales
     (auto simp: traced_recon_env_def dest: traced_factory_life traced_topic_close_balance, simp add: balance_def)

lemma traced_request_balance:
  "qb_request (traced_queue qb) = Some rq \<Longrightarrow> rq c x s = (r, s') \<Longrightarrow> balance s' = balance s"
  by (cases s) (auto simp: traced_queue_def balance_def split: prod.splits)

lemma request_balance:
  assumes "request rnd c (traced_queue qb) opts s = (r, s')"
  shows "balance s' = balance s"
proof (cases "qb_request (traced_queue qb)")
  case None
  obtain cid o2 where p: "prepare_request rnd opts = (cid, o2)" by (metis surj_pair)
  obtain e s1 where s1: "qb_send (traced_queue qb) c (request_send_opts cid o2) s = (e, s1)" by (metis surj_pair)
  obtain m e2 s2 where s2: "qb_receive (traced_queue qb) c (request_receive_opts o2) s1 = ((m, e2), s2)"
    by (metis surj_pair)
  have d: "default_request rnd c (traced_queue qb) opts s = (r, s')" using assms None by (simp add: request_def)
  have "s' = s1 \<or> s' = s2"
    using d p s1 s2 by (cases e; cases m; cases e2) (auto simp: default_request_def split: if_splits)
  then show ?thesis using traced_send_balance [OF s1] traced_receive_balance [OF s2] by auto
next
  case (Some rq)
  then show ?thesis
    using assms traced_request_balance [OF Some] by (auto simp: request_def)
qed

lemma queue_ops_live:
  "rq.keeps_live (plain_op (\<lambda>qb. qb_send qb c x))"
  "rq.keeps_live (read_op (\<lambda>qb. qb_receive qb c y))"
  "rq.keeps_live (read_op (\<lambda>qb. request rnd c qb z))"
  by (auto simp: rq.keeps_live_def plain_op_def read_op_def split: prod.splits
      dest: traced_send_balance traced_receive_balance request_balance)

lemma topic_ops_live:
  "rtp.keeps_live (plain_op (\<lambda>tb. tb_publish tb c x))"
  "rtp.keeps_live (read_op (\<lambda>tb. tb_subscribe tb c y))"
  by (auto simp: rtp.keeps_live_def plain_op_def read_op_def split: prod.splits
      dest: traced_publish_balance traced_subscribe_balance)

text \<open>The states that any sequence of calls on a reconnecting queue can reach.\<close>

inductive recon_reach :: "('w traced, 'w traced queue_backend) recon_env \<Rightarrow> ('w traced, 'w traced queue_backend) recon \<Rightarrow> bool"
  for env where
  start: "recon_reach env (recon_init (w, []))"
| send: "recon_reach env s \<Longrightarrow> recon_send env c x s = Some (r, s') \<Longrightarrow> recon_reach env s'"
| receive: "recon_reach env s \<Longrightarrow> recon_receive env c y s = Some (r', s') \<Longrightarrow> recon_reach env s'"
| request: "recon_reach env s \<Longrightarrow> recon_request env rnd c z s = Some (r', s') \<Longrightarrow> recon_reach env s'"
| browse: "recon_reach env s \<Longrightarrow> recon_browse env c y s = (b, s') \<Longrightarrow> recon_reach env s'"
| close: "recon_reach env s \<Longrightarrow> close_recon env s = (e, s') \<Longrightarrow> recon_reach env s'"

lemma call_keeps_owned:
  "rq.owned s \<Longrightarrow> rq.keeps_live oper \<Longrightarrow>
   reconnecting_call (traced_recon_env traced_queue qb_close env) c d oper dflt s = Some (r, s') \<Longrightarrow> rq.owned s'"
  by (cases r) (simp add: rq.call_owned)

lemma traced_browse_balance:
  "qb_browse (traced_queue qb) = Some browse \<Longrightarrow> browse c x s = (r, s') \<Longrightarrow> balance s' = balance s"
  by (cases s) (auto simp: traced_queue_def balance_def split: prod.splits sum.splits)

lemma browse_keeps_owned:
  assumes "rq.owned s" and "recon_browse (traced_recon_env traced_queue qb_close env) c y s = (b, s')"
  shows "rq.owned s'"
proof -
  let ?env = "traced_recon_env traced_queue qb_close env"
  obtain e s1 where ec: "ensure_connected ?env s = (e, s1)" by (metis surj_pair)
  note en = rq.ensure_owned [OF ec assms(1)]
  show ?thesis
  proof (cases "e = None \<and> (\<exists>a br. rk_adapter s1 = Some a \<and> qb_browse a = Some br)")
    case False
    then show ?thesis
      using assms(2) ec en by (auto simp: recon_browse_def split: option.splits)
  next
    case True
    then obtain q br where q: "rk_adapter s1 = Some (traced_queue q)" "qb_browse (traced_queue q) = Some br"
      using en by (auto simp: rq.owned_def)
    obtain r w where b: "br c y (rk_world s1) = (r, w)" by (metis surj_pair)
    have "balance w = balance (rk_world s1)" by (rule traced_browse_balance [OF q(2) b])
    moreover have "s' = s1\<lparr>rk_world := w\<rparr>"
      using assms(2) ec True q b by (auto simp: recon_browse_def)
    ultimately show ?thesis using en by (auto simp: rq.owned_def)
  qed
qed

lemma recon_reach_owned: "recon_reach (traced_recon_env traced_queue qb_close env) s \<Longrightarrow> rq.owned s"
proof (induction rule: recon_reach.induct)
  case (start w)
  then show ?case by (simp add: rq.owned_def recon_init_def)
next
  case (send s c x r s')
  then show ?case
    unfolding recon_send_def using call_keeps_owned [OF _ queue_ops_live(1)] by blast
next
  case (receive s c y r' s')
  then show ?case
    unfolding recon_receive_def using call_keeps_owned [OF _ queue_ops_live(2)] by blast
next
  case (request s rnd c z r' s')
  then show ?case
    unfolding recon_request_def using call_keeps_owned [OF _ queue_ops_live(3)] by blast
next
  case (browse s c y b s')
  then show ?case using browse_keeps_owned by blast
next
  case (close s e s')
  then show ?case using rq.close_owned by blast
qed

section \<open>Properties\<close>

text \<open>
  C13: a reconnecting queue holds at most one connection and leaks none.  After any sequence of
  sends, receives, requests, browses and closes, with any connection errors between them,
  the connections opened and not closed are exactly the one it holds; a closed wrapper
  holds none and never opens another.
\<close>

theorem reconnect_owns_one:
  assumes "recon_reach (traced_recon_env traced_queue qb_close env) s"
  shows "balance (rk_world s) = (if rk_adapter s = None then 0 else 1) \<and>
    (rk_closed s \<longrightarrow> rk_adapter s = None \<and> balance (rk_world s) = 0)"
  using recon_reach_owned [OF assms] by (auto simp: rq.owned_def)

text \<open>
  C21: with a backoff policy that stops, \<open>Receive\<close> on a reconnecting queue always returns, from
  every reachable state, and reports nothing it did not get: either the result of one
  receive on the adapter it now holds, whose error if any is not a connection error, or the
  error of its context, of the exhausted policy, or of the first connection.
\<close>

theorem reconnect_receive_outcome:
  assumes "recon_reach (traced_recon_env traced_queue qb_close env) s"
    and "\<And>k w. N \<le> k \<Longrightarrow> re_next env (max_elapsed (re_window env)) k w = None"
  shows "\<exists>e m s'. recon_receive (traced_recon_env traced_queue qb_close env) ctx opts s = Some ((e, m), s') \<and>
    ((\<exists>a w. rk_adapter s' = Some a \<and> qb_receive a ctx opts w = ((m, e), rk_world s') \<and>
        (\<forall>x. e = Some x \<longrightarrow> \<not> is_connection_error x)) \<or>
     (e \<noteq> None \<and> ctx (rk_world s') = e) \<or>
     (\<exists>prev. e = Some (exhausted (''receive from '' @ ro_queue opts) prev)) \<or>
     (e \<noteq> None \<and> ensure_connected (traced_recon_env traced_queue qb_close env) s = (e, s')))"
proof -
  let ?env = "traced_recon_env traced_queue qb_close env"
  note own = recon_reach_owned [OF assms(1)]
  have stop: "re_next ?env (max_elapsed (re_window ?env)) k w = None" if "N \<le> k" for k w
    using assms(2) [OF that] by (simp add: traced_recon_env_def)
  obtain e m s' where run: "reconnecting_call ?env ctx (''receive from '' @ ro_queue opts)
      (read_op (\<lambda>qb. qb_receive qb ctx opts)) None s = Some ((e, m), s')"
    using rq.call_returns [OF stop own queue_ops_live(2)] by (metis surj_pair)
  have "rq.call_outcome ctx (''receive from '' @ ro_queue opts) (read_op (\<lambda>qb. qb_receive qb ctx opts)) ((e, m), s') \<or>
      (e \<noteq> None \<and> ensure_connected ?env s = (e, s'))"
    using rq.call_owned [OF run own queue_ops_live(2)] by blast
  with run show ?thesis
    unfolding recon_receive_def rq.call_outcome_def read_op_def by (fastforce split: prod.splits)
qed

definition sample_recon :: "(script, script queue_backend) recon_env" where
  "sample_recon = \<lparr>re_factory = (\<lambda>w. (Inr script_queue, w)), re_close = qb_close, re_window = 0,
     re_next = (\<lambda>d k w. if k < 3 then Some 500 else None), re_sleep = (\<lambda>d w. w)\<rparr>"

lemma sample_recon_reach:
  "\<exists>s. recon_reach (traced_recon_env traced_queue qb_close sample_recon) s \<and> rk_adapter s \<noteq> None"
proof -
  let ?env = "traced_recon_env traced_queue qb_close sample_recon"
  let ?w = "(script_of [(None, Some EEOF), (Some (msg ''x''), None)] [], [])"
  have start: "recon_reach ?env (recon_init ?w)" by (rule recon_reach.start)
  have "\<exists>r s. recon_receive ?env (\<lambda>s. None) receive_options0 (recon_init ?w) = Some (r, s) \<and> rk_adapter s \<noteq> None"
    by (simp add: recon_receive_def reconnecting_call_def ensure_connected_def connect_recon_def
        recon_init_def traced_recon_env_def sample_recon_def traced_factory_def read_op_def
        is_connection_error_def retry_op_def retry_body_def reconnect_def drop_adapter_def
        go_for_unfold go_step script_defs traced_queue_def lower_def Let_def)
  then show ?thesis using recon_reach.receive [OF start] by blast
qed

theorem reconnect_owns_one_witness:
  "\<exists>s. recon_reach (traced_recon_env traced_queue qb_close sample_recon) s \<and> balance (rk_world s) = 1"
  using sample_recon_reach reconnect_owns_one by fastforce

theorem reconnect_receive_outcome_witness:
  "\<exists>e m s s'. recon_receive (traced_recon_env traced_queue qb_close sample_recon) (\<lambda>s. None) receive_options0 s =
     Some ((e, m), s') \<and> rk_adapter s \<noteq> None"
proof -
  obtain s where s: "recon_reach (traced_recon_env traced_queue qb_close sample_recon) s" "rk_adapter s \<noteq> None"
    using sample_recon_reach by blast
  have "re_next sample_recon (max_elapsed (re_window sample_recon)) k w = None" if "3 \<le> k" for k w
    using that by (simp add: sample_recon_def)
  from reconnect_receive_outcome [OF s(1) this, of 3 "\<lambda>s. None" receive_options0] s(2) show ?thesis by blast
qed

text \<open>
  the classification looks through any number of wrapping layers: a context error below
  is never a connection error, and an end of file, a reset, refused, broken or aborted
  connection or a \<open>net.Error\<close> below always is.
\<close>

theorem connection_error_classes:
  "(e \<in> {ECanceled, EDeadlineExceeded} \<longrightarrow>
     \<not> is_connection_error (foldr (\<lambda>(a, b) x. EWrap a x b) layers e)) \<and>
   (e \<in> {EEOF, EUnexpectedEOF, ESyscall ECONNRESET, ESyscall ECONNREFUSED, ESyscall EPIPE,
       ESyscall ECONNABORTED, ENet t} \<longrightarrow>
     is_connection_error (foldr (\<lambda>(a, b) x. EWrap a x b) layers e))"
proof -
  have isx: "errors_is (foldr (\<lambda>(a, b) x. EWrap a x b) layers e) t \<longleftrightarrow> errors_is e t"
    if "\<forall>a b c. EWrap a b c \<noteq> t" for t
  proof (induction layers)
    case (Cons p layers)
    obtain a b where "p = (a, b)" by (metis surj_pair)
    then show ?case using Cons that by simp
  qed simp
  have net: "as_net_error (foldr (\<lambda>(a, b) x. EWrap a x b) layers e) = as_net_error e"
    by (induction layers) auto
  let ?w = "foldr (\<lambda>(a, b) x. EWrap a x b) layers e"
  have at: "errors_is ?w ECanceled = errors_is e ECanceled" "errors_is ?w EDeadlineExceeded = errors_is e EDeadlineExceeded"
    "errors_is ?w EEOF = errors_is e EEOF" "errors_is ?w EUnexpectedEOF = errors_is e EUnexpectedEOF"
    "errors_is ?w (ESyscall n) = errors_is e (ESyscall n)" for n
    by (rule isx; simp)+
  show ?thesis
    unfolding is_connection_error_def at net by (intro conjI impI) (elim insertE emptyE; simp)+
qed

theorem connection_error_classes_witness:
  "\<not> is_connection_error (EWrap ''connection refused: '' ECanceled []) \<and>
   is_connection_error (EWrap ''a: '' (EWrap ''b: '' EEOF []) [])"
  using connection_error_classes [of ECanceled "[(''connection refused: '', [])]" "[]"]
    connection_error_classes [of EEOF "[(''a: '', []), (''b: '', [])]" "[]"] by simp

text \<open>
  When the policy stops at once (a window shorter than its first interval) the error that
  started the retry is lost: the message carries Go's rendering of a nil error.
\<close>

lemma exhausted_loses_error:
  assumes "ctx (rk_world s) = None" and "\<not> rk_closed s"
    and "re_next env (max_elapsed (re_window env)) 0 (rk_world s) = None"
  shows "retry_op env ctx desc oper dflt s =
    Some ((Some (ENew (''reconnect exhausted for '' @ desc @ '': %!w(<nil>)'')), dflt), s)"
  using assms by (simp add: retry_op_def go_for_unfold retry_body_def Let_def exhausted_def)

end
