(* ===== verification/Runes.thy ===== *)
theory Runes
  imports Prelude
begin

text \<open>
  UTF-8: which byte strings are valid, and the runes that a Go \<open>range\<close> over a string yields;
  decimal numerals.
\<close>

abbreviation byte :: "char \<Rightarrow> nat" where
  "byte c \<equiv> of_char c"

section \<open>UTF-8 validity\<close>

definition in_range :: "nat \<Rightarrow> nat \<Rightarrow> char \<Rightarrow> bool" where
  "in_range lo hi c \<longleftrightarrow> lo \<le> byte c \<and> byte c \<le> hi"

abbreviation continuation :: "char \<Rightarrow> bool" where
  "continuation \<equiv> in_range 0x80 0xBF"

fun utf8_valid :: "string \<Rightarrow> bool" where
  "utf8_valid [] = True"
| "utf8_valid (a # s) =
     (if byte a < 0x80 then utf8_valid s
      else case s of
        [] \<Rightarrow> False
      | b # s1 \<Rightarrow>
          (if in_range 0xC2 0xDF a then continuation b \<and> utf8_valid s1
           else case s1 of
             [] \<Rightarrow> False
           | c # s2 \<Rightarrow>
               (if in_range 0xE0 0xEF a
                then in_range (if byte a = 0xE0 then 0xA0 else 0x80) (if byte a = 0xED then 0x9F else 0xBF) b \<and>
                  continuation c \<and> utf8_valid s2
                else case s2 of
                  [] \<Rightarrow> False
                | d # s3 \<Rightarrow>
                    in_range 0xF0 0xF4 a \<and>
                    in_range (if byte a = 0xF0 then 0x90 else 0x80) (if byte a = 0xF4 then 0x8F else 0xBF) b \<and>
                    continuation c \<and> continuation d \<and> utf8_valid s3)))"

section \<open>Ranging over the runes of a string\<close>

text \<open>
  \<open>for _, r := range s\<close> decodes UTF-8: a rune is represented by its encoding.  \<open>segments\<close> are
  the bytes each step consumes; a byte that starts no valid encoding is consumed alone and
  yields U+FFFD.
\<close>

type_synonym rune = string

definition rune_length :: "string \<Rightarrow> nat" where
  "rune_length s =
     (case find (\<lambda>n. n \<le> length s \<and> utf8_valid (take n s)) [1, 2, 3, 4] of None \<Rightarrow> 1 | Some n \<Rightarrow> n)"

fun segments :: "string \<Rightarrow> rune list" where
  "segments [] = []"
| "segments (c # cs) =
     (let n = rune_length (c # cs) in (c # take (n - 1) cs) # segments (drop (n - 1) cs))"

definition rune_text :: "rune \<Rightarrow> rune" where
  "rune_text r = (if utf8_valid r then r else [CHR 0xEF, CHR 0xBF, CHR 0xBD])"

definition runes :: "string \<Rightarrow> rune list" where
  "runes s = map rune_text (segments s)"

definition space_rune :: "rune \<Rightarrow> bool" where
  "space_rune r \<longleftrightarrow> r \<in> set space_runes"

section \<open>Runes of well-formed text\<close>

definition rune_ok :: "rune \<Rightarrow> bool" where
  "rune_ok r \<longleftrightarrow> r \<noteq> [] \<and> length r \<le> 4 \<and> rune_length r = length r \<and> utf8_valid r"

lemma rune_ok_cases: "rune_ok r \<Longrightarrow> length r = 1 \<or> length r = 2 \<or> length r = 3 \<or> length r = 4"
proof -
  assume "rune_ok r"
  then have "length r \<noteq> 0" "length r \<le> 4" by (auto simp: rune_ok_def)
  then show ?thesis by linarith
qed

lemma rune_length_append:
  assumes "rune_ok r"
  shows "rune_length (r @ t) = length r"
proof -
  have v: "utf8_valid r" "rune_length r = length r" using assms by (auto simp: rune_ok_def)
  show ?thesis
    using rune_ok_cases [OF assms] v by (elim disjE) (auto simp: rune_length_def split: if_splits)
qed

lemma segments_cons:
  assumes "rune_ok r"
  shows "segments (r @ t) = r # segments t"
proof (cases r)
  case (Cons c cs)
  then have "rune_length (c # (cs @ t)) = Suc (length cs)" using rune_length_append [OF assms, of t] by simp
  then show ?thesis using Cons by simp
qed (use assms in \<open>simp add: rune_ok_def\<close>)

lemma runes_concat: "\<forall>r \<in> set rs. rune_ok r \<Longrightarrow> runes (concat rs) = rs"
  by (induction rs) (auto simp: runes_def segments_cons rune_text_def rune_ok_def)

lemma rune_ok_ascii [simp]: "byte c < 0x80 \<Longrightarrow> rune_ok [c]"
  by (simp add: rune_ok_def rune_length_def)

section \<open>Decimal numerals\<close>

definition is_digit :: "char \<Rightarrow> bool" where
  "is_digit c \<longleftrightarrow> 48 \<le> byte c \<and> byte c \<le> 57"

text \<open>
  \<open>strconv.Atoi\<close> on digits; out of the range of \<open>int\<close> it returns the largest \<open>int\<close>, which
  like the number itself exceeds the number of arguments.
\<close>

definition atoi :: "string \<Rightarrow> nat" where
  "atoi ds = foldl (\<lambda>n d. n * 10 + (byte d - 48)) 0 ds"

lemma atoi_snoc: "atoi (ds @ [d]) = atoi ds * 10 + (byte d - 48)"
  by (simp add: atoi_def)

lemma byte_digit_char: "d < 10 \<Longrightarrow> byte (digit_char d) = 48 + d"
  by (simp add: digit_char_def)

lemma nat_text_digits: "atoi (nat_text n) = n \<and> nat_text n \<noteq> [] \<and> (\<forall>d \<in> set (nat_text n). is_digit d)"
proof (induction n rule: nat_text.induct)
  case (1 n)
  show ?case
  proof (cases "n < 10")
    case True
    then show ?thesis
      by (simp add: nat_text.simps [of n] byte_digit_char atoi_def is_digit_def)
  next
    case False
    with 1 have ih: "atoi (nat_text (n div 10)) = n div 10" "\<forall>d \<in> set (nat_text (n div 10)). is_digit d" by auto
    have "n mod 10 < 10" by simp
    then show ?thesis
      using False ih by (simp add: nat_text.simps [of n] atoi_snoc byte_digit_char is_digit_def)
  qed
qed

lemma takeWhile_digits:
  "\<forall>d \<in> set ds. is_digit d \<Longrightarrow> t = [] \<or> \<not> is_digit (hd t) \<Longrightarrow>
   takeWhile is_digit (ds @ t) = ds \<and> dropWhile is_digit (ds @ t) = t"
  by (induction ds) (cases t; simp)+

end
