(* ===== verification/Records.thy ===== *)
theory Records
  imports Fixtures Runes "HOL-Library.AList"
begin

text \<open>
  \<^verbatim>\<open>cmd/ndjson.go\<close>, \<^verbatim>\<open>cmd/message_schema.go\<close> and \<^verbatim>\<open>cmd/message_helpers.go\<close>: the message
  record of the NDJSON export and import, the pruning of property maps, and the line
  readers.  \<^verbatim>\<open>utf8.Valid\<close> and \<^verbatim>\<open>base64.StdEncoding\<close> are written out; \<^verbatim>\<open>encoding/json\<close> is an
  argument of the definitions that use it.
\<close>

section \<open>Base64\<close>

definition b64_alphabet :: string where
  "b64_alphabet = ''ABCDEFGHIJKLMNOPQRSTUVWXYZabcdefghijklmnopqrstuvwxyz0123456789+/''"

definition b64_char :: "nat \<Rightarrow> char" where
  "b64_char n = b64_alphabet ! n"

definition b64_value :: "char \<Rightarrow> nat option" where
  "b64_value c =
     (let n = byte c in
      if 65 \<le> n \<and> n \<le> 90 then Some (n - 65)
      else if 97 \<le> n \<and> n \<le> 122 then Some (n - 71)
      else if 48 \<le> n \<and> n \<le> 57 then Some (n + 4)
      else if n = 43 then Some 62 else if n = 47 then Some 63 else None)"

fun b64_encode :: "string \<Rightarrow> string" where
  "b64_encode [] = []"
| "b64_encode [a] = [b64_char (byte a div 4), b64_char (byte a mod 4 * 16), CHR ''='', CHR ''='']"
| "b64_encode [a, b] =
     [b64_char (byte a div 4), b64_char (byte a mod 4 * 16 + byte b div 16),
      b64_char (byte b mod 16 * 4), CHR ''='']"
| "b64_encode (a # b # c # s) =
     b64_char (byte a div 4) # b64_char (byte a mod 4 * 16 + byte b div 16) #
     b64_char (byte b mod 16 * 4 + byte c div 64) # b64_char (byte c mod 64) # b64_encode s"

text \<open>
  \<open>DecodeString\<close> skips carriage returns and newlines, wants the padding and ignores the bits
  it covers.  The byte offset in the text of the error is not modelled.
\<close>

definition b64_error :: gerr where
  "b64_error = ENew ''illegal base64 data''"

fun b64_quanta :: "string \<Rightarrow> gerr + string" where
  "b64_quanta [] = Inr []"
| "b64_quanta (p # q # r # t # s) =
     (case (b64_value p, b64_value q) of
        (Some x, Some y) \<Rightarrow>
          (if r = CHR ''='' \<and> t = CHR ''='' \<and> s = [] then Inr [char_of (x * 4 + y div 16)]
           else case b64_value r of
             None \<Rightarrow> Inl b64_error
           | Some z \<Rightarrow>
               (if t = CHR ''='' \<and> s = []
                then Inr [char_of (x * 4 + y div 16), char_of (y mod 16 * 16 + z div 4)]
                else case b64_value t of
                  None \<Rightarrow> Inl b64_error
                | Some u \<Rightarrow>
                    (case b64_quanta s of
                       Inl e \<Rightarrow> Inl e
                     | Inr out \<Rightarrow>
                         Inr (char_of (x * 4 + y div 16) # char_of (y mod 16 * 16 + z div 4) #
                              char_of (z mod 4 * 64 + u) # out))))
      | _ \<Rightarrow> Inl b64_error)"
| "b64_quanta s = Inl b64_error"

definition b64_decode :: "string \<Rightarrow> gerr + string" where
  "b64_decode s = b64_quanta (filter (\<lambda>c. c \<noteq> CHR 0x0A \<and> c \<noteq> CHR 0x0D) s)"

lemma b64_char_value:
  assumes "n < 64"
  shows "b64_value (b64_char n) = Some n"
    and "b64_char n \<notin> {CHR ''='', CHR 0x0A, CHR 0x0D}"
proof -
  have "\<forall>n \<in> {0..<64}. b64_value (b64_char n) = Some n \<and>
      b64_char n \<notin> {CHR ''='', CHR 0x0A, CHR 0x0D}"
    by (simp add: atLeastLessThan_nat_numeral b64_char_def b64_alphabet_def b64_value_def)
  with assms show "b64_value (b64_char n) = Some n"
    and "b64_char n \<notin> {CHR ''='', CHR 0x0A, CHR 0x0D}" by auto
qed

lemma b64_encode_chars: "c \<in> set (b64_encode s) \<Longrightarrow> c \<noteq> CHR 0x0A \<and> c \<noteq> CHR 0x0D"
proof (induction s rule: b64_encode.induct)
  case (2 a)
  have "byte a div 4 < 64" "byte a mod 4 * 16 < 64" using nat_of_char_less_256 [of a] by linarith+
  with 2 b64_char_value(2) show ?case by auto
next
  case (3 a b)
  have "byte a div 4 < 64" "byte a mod 4 * 16 + byte b div 16 < 64" "byte b mod 16 * 4 < 64"
    using nat_of_char_less_256 [of a] nat_of_char_less_256 [of b] by linarith+
  with 3 b64_char_value(2) show ?case by auto
next
  case (4 a b c s)
  have "byte a div 4 < 64" "byte a mod 4 * 16 + byte b div 16 < 64"
    "byte b mod 16 * 4 + byte c div 64 < 64" "byte c mod 64 < 64"
    using nat_of_char_less_256 [of a] nat_of_char_less_256 [of b] nat_of_char_less_256 [of c]
    by linarith+
  with 4 b64_char_value(2) show ?case by auto
qed simp

lemma pack_div_mod:
  fixes x y k :: nat
  assumes "y < k"
  shows "(x * k + y) div k = x" and "(x * k + y) mod k = y"
  using assms by simp_all

lemma sextets:
  fixes a b c :: nat
  assumes "a < 256" and "b < 256" and "c < 256"
  shows "a div 4 * 4 + a mod 4 * 16 div 16 = a"
    and "a div 4 * 4 + (a mod 4 * 16 + b div 16) div 16 = a"
    and "(a mod 4 * 16 + b div 16) mod 16 * 16 + b mod 16 * 4 div 4 = b"
    and "(a mod 4 * 16 + b div 16) mod 16 * 16 + (b mod 16 * 4 + c div 64) div 4 = b"
    and "(b mod 16 * 4 + c div 64) mod 4 * 64 + c mod 64 = c"
    and "a div 4 < 64" and "a mod 4 * 16 < 64" and "a mod 4 * 16 + b div 16 < 64"
    and "b mod 16 * 4 < 64" and "b mod 16 * 4 + c div 64 < 64" and "c mod 64 < 64"
proof -
  have b: "b div 16 < 16" and c: "c div 64 < 4" using assms by (auto simp: div_less_iff_less_mult)
  have a4: "a mod 4 < 4" and b16: "b mod 16 < 16" by simp_all
  note pa = pack_div_mod [OF b, of "a mod 4"] and pb = pack_div_mod [OF c, of "b mod 16"]
  show "a div 4 * 4 + a mod 4 * 16 div 16 = a" by simp
  show "a div 4 * 4 + (a mod 4 * 16 + b div 16) div 16 = a" unfolding pa by simp
  show "(a mod 4 * 16 + b div 16) mod 16 * 16 + b mod 16 * 4 div 4 = b" unfolding pa by simp
  show "(a mod 4 * 16 + b div 16) mod 16 * 16 + (b mod 16 * 4 + c div 64) div 4 = b"
    unfolding pa pb by simp
  show "(b mod 16 * 4 + c div 64) mod 4 * 64 + c mod 64 = c" unfolding pb by simp
  show "a div 4 < 64" "c mod 64 < 64" using assms by (auto simp: div_less_iff_less_mult)
  show "a mod 4 * 16 < 64" "a mod 4 * 16 + b div 16 < 64" using a4 b by linarith+
  show "b mod 16 * 4 < 64" "b mod 16 * 4 + c div 64 < 64" using b16 c by linarith+
qed

lemma b64_char_not_pad: "n < 64 \<Longrightarrow> b64_char n \<noteq> CHR ''=''"
  using b64_char_value(2) by blast

lemma b64_quanta_encode: "b64_quanta (b64_encode s) = Inr s"
proof (induction s rule: b64_encode.induct)
  case (2 a)
  have a: "byte a < 256" by simp
  note sx = sextets [OF a, of 0 0, simplified]
  show ?case using sx(1,6,7) by (simp add: b64_char_value)
next
  case (3 a b)
  have a: "byte a < 256" and b: "byte b < 256" by simp_all
  note sx = sextets [OF a b, of 0]
  show ?case using sx(2,3,6,8,9) by (simp add: b64_char_value b64_char_not_pad)
next
  case (4 a b c s)
  have a: "byte a < 256" and b: "byte b < 256" and c: "byte c < 256" by simp_all
  note sx = sextets [OF a b c]
  show ?case using 4 sx(2,4,5,6,8,10,11) by (simp add: b64_char_value b64_char_not_pad)
qed simp

lemma b64_decode_encode: "b64_decode (b64_encode s) = Inr s"
proof -
  have "filter (\<lambda>c. c \<noteq> CHR 0x0A \<and> c \<noteq> CHR 0x0D) (b64_encode s) = b64_encode s"
    using b64_encode_chars by (intro filter_True) blast
  then show ?thesis by (simp add: b64_decode_def b64_quanta_encode)
qed

lemma b64_encode_empty [simp]: "b64_encode s = [] \<longleftrightarrow> s = []"
  by (cases s rule: b64_encode.cases) auto

section \<open>Pruning of property values\<close>

text \<open>\<open>strings.EqualFold\<close> against an ASCII text.\<close>

definition equal_fold :: "string \<Rightarrow> string \<Rightarrow> bool" where
  "equal_fold s t \<longleftrightarrow> to_lower s = to_lower t"

definition blank_text :: "string \<Rightarrow> bool" where
  "blank_text t \<longleftrightarrow> (let s = trim_space t in s = [] \<or> equal_fold s ''<nil>'')"

text \<open>The loop \<open>for .. range: if pruned, ok := ..; ok { append }\<close>.\<close>

fun keep_some :: "('a \<Rightarrow> 'b option) \<Rightarrow> 'a list \<Rightarrow> 'b list" where
  "keep_some f [] = []"
| "keep_some f (x # xs) = (case f x of None \<Rightarrow> keep_some f xs | Some y \<Rightarrow> y # keep_some f xs)"

lemma keep_some_cong [fundef_cong]:
  "xs = ys \<Longrightarrow> (\<And>x. x \<in> set ys \<Longrightarrow> f x = g x) \<Longrightarrow> keep_some f xs = keep_some g ys"
  by (induction xs arbitrary: ys) (auto split: option.split)

lemma keep_some_all: "(\<And>x. x \<in> set xs \<Longrightarrow> f x = Some x) \<Longrightarrow> keep_some f xs = xs"
  by (induction xs) auto

lemma set_keep_some: "y \<in> set (keep_some f xs) \<Longrightarrow> \<exists>x \<in> set xs. f x = Some y"
  by (induction xs) (auto split: option.splits)

text \<open>
  \<^const>\<open>None\<close> is Go's \<open>(nil, false)\<close>.  A map that loses all its entries is dropped with its
  key.
\<close>

fun prune_value :: "anyval \<Rightarrow> anyval option" where
  "prune_value ANil = None"
| "prune_value (AStr t) = (if blank_text t then None else Some (AStr t))"
| "prune_value (AMap kvs) =
     (case keep_some (\<lambda>kv. map_option (Pair (fst kv)) (prune_value (snd kv))) kvs of
        [] \<Rightarrow> None | m \<Rightarrow> Some (AMap m))"
| "prune_value (AList vs) =
     (case keep_some prune_value vs of [] \<Rightarrow> None | items \<Rightarrow> Some (AList items))"
| "prune_value (APtr None) = None"
| "prune_value (APtr (Some (a, v))) = prune_value v"
| "prune_value (ATMap kvs) =
     (case keep_some (\<lambda>kv. if fst (fst kv) then map_option (Pair (snd (fst kv))) (prune_value (snd kv))
          else None) kvs of
        [] \<Rightarrow> None | m \<Rightarrow> Some (AMap m))"
| "prune_value (ATSlice vs) =
     (case keep_some prune_value vs of [] \<Rightarrow> None | items \<Rightarrow> Some (AList items))"
| "prune_value (ABool b) = Some (ABool b)"
| "prune_value (AInt i) = Some (AInt i)"
| "prune_value (AFloat t) = Some (AFloat t)"

definition prune_map :: "props \<Rightarrow> props" where
  "prune_map kvs = keep_some (\<lambda>kv. map_option (Pair (fst kv)) (prune_value (snd kv))) kvs"

text \<open>What pruning leaves: no nil, no blank text, no empty container, no pointer.\<close>

fun pruned :: "anyval \<Rightarrow> bool" where
  "pruned ANil = False"
| "pruned (AStr t) = (\<not> blank_text t)"
| "pruned (AMap kvs) = (kvs \<noteq> [] \<and> (\<forall>kv \<in> set kvs. pruned (snd kv)))"
| "pruned (AList vs) = (vs \<noteq> [] \<and> (\<forall>v \<in> set vs. pruned v))"
| "pruned (APtr p) = False"
| "pruned (ATMap kvs) = False"
| "pruned (ATSlice vs) = False"
| "pruned (ABool b) = True"
| "pruned (AInt i) = True"
| "pruned (AFloat t) = True"

lemma prune_value_pruned: "prune_value v = Some x \<Longrightarrow> pruned x"
proof (induction v arbitrary: x rule: prune_value.induct)
  case (3 kvs)
  have "pruned (snd kv)"
    if "kv \<in> set (keep_some (\<lambda>kv. map_option (Pair (fst kv)) (prune_value (snd kv))) kvs)" for kv
    using set_keep_some [OF that] 3(1) by auto
  then have "\<forall>kv \<in> set (keep_some (\<lambda>kv. map_option (Pair (fst kv)) (prune_value (snd kv))) kvs).
    pruned (snd kv)" by blast
  then show ?case using 3(2) by (auto split: list.splits)
next
  case (4 vs)
  have "pruned v" if "v \<in> set (keep_some prune_value vs)" for v
    using set_keep_some [OF that] 4(1) by auto
  then show ?case using 4(2) by (auto split: list.splits)
next
  case (7 kvs)
  have "pruned (snd kv)"
    if "kv \<in> set (keep_some (\<lambda>kv. if fst (fst kv) then
      map_option (Pair (snd (fst kv))) (prune_value (snd kv)) else None) kvs)" for kv
    using set_keep_some [OF that] 7(1) by (auto split: if_splits)
  then have "\<forall>kv \<in> set (keep_some (\<lambda>kv. if fst (fst kv) then
      map_option (Pair (snd (fst kv))) (prune_value (snd kv)) else None) kvs). pruned (snd kv)" by blast
  then show ?case using 7(2) by (auto split: list.splits)
next
  case (8 vs)
  have "pruned v" if "v \<in> set (keep_some prune_value vs)" for v
    using set_keep_some [OF that] 8(1) by auto
  then show ?case using 8(2) by (auto split: list.splits)
qed (auto split: if_splits)

lemma pruned_prune_value: "pruned v \<Longrightarrow> prune_value v = Some v"
proof (induction v rule: pruned.induct)
  case (3 kvs)
  then have "keep_some (\<lambda>kv. map_option (Pair (fst kv)) (prune_value (snd kv))) kvs = kvs"
    by (intro keep_some_all) auto
  with 3 show ?case by (simp split: list.split)
next
  case (4 vs)
  then have "keep_some prune_value vs = vs" by (intro keep_some_all) auto
  with 4 show ?case by (simp split: list.split)
qed auto

lemma prune_map_pruned: "kv \<in> set (prune_map kvs) \<Longrightarrow> pruned (snd kv)"
  unfolding prune_map_def by (auto dest!: set_keep_some dest: prune_value_pruned)

lemma prune_map_fixed: "(\<And>kv. kv \<in> set kvs \<Longrightarrow> pruned (snd kv)) \<Longrightarrow> prune_map kvs = kvs"
  unfolding prune_map_def by (intro keep_some_all) (auto simp: pruned_prune_value)

lemma prune_map_idem: "prune_map (prune_map kvs) = prune_map kvs"
  by (rule prune_map_fixed) (rule prune_map_pruned)

section \<open>Message records\<close>

record message_record =
  rc_data :: string
  rc_data64 :: string
  rc_key :: string
  rc_message_id :: string
  rc_correlation_id :: string
  rc_reply_to :: string
  rc_content_type :: string
  rc_priority :: int
  rc_persistent :: bool
  rc_properties :: props
  rc_internal :: props

definition new_message_record :: "message \<Rightarrow> bool \<Rightarrow> message_record" where
  "new_message_record m include_payload =
     (let rec = \<lparr>rc_data = [], rc_data64 = [], rc_key = m_key m, rc_message_id = m_message_id m,
        rc_correlation_id = m_correlation_id m, rc_reply_to = m_reply_to m,
        rc_content_type = m_content_type m, rc_priority = m_priority m,
        rc_persistent = m_persistent m, rc_properties = prune_map (m_properties m), rc_internal = []\<rparr>
      in if \<not> include_payload then rec
         else if utf8_valid (m_data m) then rec\<lparr>rc_data := m_data m\<rparr>
         else rec\<lparr>rc_data64 := b64_encode (m_data m)\<rparr>)"

definition record_payload :: "message_record \<Rightarrow> gerr + string" where
  "record_payload r =
     (if rc_data64 r \<noteq> []
      then (case b64_decode (rc_data64 r) of
              Inl e \<Rightarrow> Inl (EWrap ''decode base64 payload: '' e [])
            | Inr data \<Rightarrow> Inr data)
      else Inr (rc_data r))"

definition record_for_display :: "message \<Rightarrow> bool \<Rightarrow> bool \<Rightarrow> message_record" where
  "record_for_display m include_payload include_internal =
     (let rec = new_message_record m include_payload
      in if include_internal then rec\<lparr>rc_internal := prune_map (m_internal m)\<rparr> else rec)"

text \<open>\<open>write\<close> to the destination; the error that \<open>Fprintln\<close> returns is dropped.\<close>

definition display_message_ndjson ::
    "(message_record \<Rightarrow> gerr + string) \<Rightarrow> (string \<Rightarrow> 'w \<Rightarrow> 'w) \<Rightarrow> message \<Rightarrow> 'w \<Rightarrow> gerr option \<times> 'w" where
  "display_message_ndjson marshal out m w =
     (case marshal (new_message_record m True) of
        Inl e \<Rightarrow> (Some (EWrap ''failed to marshal message record: '' e []), w)
      | Inr data \<Rightarrow> (None, out (data @ newline) w))"

lemma record_payload_new: "record_payload (new_message_record m True) = Inr (m_data m)"
  by (auto simp: record_payload_def new_message_record_def Let_def b64_decode_encode)

lemma new_record_properties: "prune_map (rc_properties (new_message_record m p)) = rc_properties (new_message_record m p)"
  by (simp add: new_message_record_def Let_def prune_map_idem)

section \<open>Reading input\<close>

text \<open>
  An input is the bytes it delivers, the read error that ends it (\<^const>\<open>None\<close> for the end
  of the file), and for an \<open>*os.File\<close> the result of \<open>Stat\<close>: an error, or whether it is a
  character device.
\<close>

record input =
  in_data :: string
  in_err :: "gerr option"
  in_file :: "(gerr + bool) option"

definition read_from_reader :: "input \<Rightarrow> gerr + string" where
  "read_from_reader r =
     (case in_file r of
        Some (Inl e) \<Rightarrow> Inl (EWrap ''inspect input: '' e [])
      | Some (Inr True) \<Rightarrow> Inl (ENew ''no message provided and no data in stdin'')
      | _ \<Rightarrow> (case in_err r of Some e \<Rightarrow> Inl e | None \<Rightarrow> Inr (in_data r)))"

definition read_command_message :: "string list \<Rightarrow> input \<Rightarrow> gerr + string" where
  "read_command_message args inp =
     (if length args > 1 then Inr (args ! 1) else read_from_reader inp)"

text \<open>
  \<open>bufio.Scanner\<close> with \<open>ScanLines\<close>: lines without their end-of-line marker, a last line
  without a newline when it is not empty, and an error at a line that does not fit into a
  buffer of \<open>max\<close> bytes with the newline (or the end) behind it.
\<close>

function split_lines :: "string \<Rightarrow> string list" where
  "split_lines s =
     (if s = [] then []
      else takeWhile (\<lambda>c. c \<noteq> CHR 0x0A) s # split_lines (drop 1 (dropWhile (\<lambda>c. c \<noteq> CHR 0x0A) s)))"
  by pat_completeness auto
termination
proof (relation "measure length", simp, clarsimp)
  fix s :: string assume "s \<noteq> []"
  then show "length (dropWhile (\<lambda>c. c \<noteq> CHR 0x0A) s) - Suc 0 < length s"
    using length_dropWhile_le [of "\<lambda>c. c \<noteq> CHR 0x0A" s] by (cases s) (auto simp: less_Suc_eq_le)
qed

declare split_lines.simps [simp del]

definition drop_cr :: "string \<Rightarrow> string" where
  "drop_cr l = (if l \<noteq> [] \<and> last l = CHR 0x0D then butlast l else l)"

definition too_long :: gerr where
  "too_long = ENew ''bufio.Scanner: token too long''"

fun scan_each ::
    "nat \<Rightarrow> gerr option \<Rightarrow> (string \<Rightarrow> nat \<times> 's \<Rightarrow> gerr option \<times> nat \<times> 's) \<Rightarrow> string list \<Rightarrow>
     nat \<times> 's \<Rightarrow> gerr option \<times> nat \<times> 's" where
  "scan_each mx rderr body [] st =
     (case rderr of None \<Rightarrow> (None, st) | Some e \<Rightarrow> (Some (EWrap ''error reading input: '' e []), st))"
| "scan_each mx rderr body (l # ls) st =
     (if mx \<le> length l then (Some (EWrap ''error reading input: '' too_long []), st)
      else case body (drop_cr l) st of
             (Some e, st') \<Rightarrow> (Some e, st')
           | (None, st') \<Rightarrow> scan_each mx rderr body ls st')"

definition for_each_input_line ::
    "input \<Rightarrow> (string \<Rightarrow> 's \<Rightarrow> gerr option \<times> 's) \<Rightarrow> 's \<Rightarrow> gerr option \<times> nat \<times> 's" where
  "for_each_input_line inp visit s =
     scan_each (64 * 1024) (in_err inp)
       (\<lambda>line (n, s). case visit line s of (Some e, s') \<Rightarrow> (Some e, n, s') | (None, s') \<Rightarrow> (None, n + 1, s'))
       (split_lines (in_data inp)) (0, s)"

definition visit_record ::
    "(string \<Rightarrow> gerr + message_record) \<Rightarrow> (message_record \<Rightarrow> 's \<Rightarrow> gerr option \<times> 's) \<Rightarrow>
     string \<Rightarrow> nat \<times> 's \<Rightarrow> gerr option \<times> nat \<times> 's" where
  "visit_record unmarshal visit text st =
     (case st of (n, s) \<Rightarrow>
       (let line = trim_space text in
        if line = [] then (None, n, s)
        else case unmarshal line of
               Inl e \<Rightarrow> (Some (EWrap (''parse record on line '' @ nat_text (n + 1) @ '': '') e []), n, s)
             | Inr rec \<Rightarrow>
                 (case visit (rec\<lparr>rc_properties := prune_map (rc_properties rec)\<rparr>) s of
                    (Some e, s') \<Rightarrow> (Some e, n, s')
                  | (None, s') \<Rightarrow> (None, n + 1, s'))))"

definition for_each_record ::
    "(string \<Rightarrow> gerr + message_record) \<Rightarrow> input \<Rightarrow> (message_record \<Rightarrow> 's \<Rightarrow> gerr option \<times> 's) \<Rightarrow>
     's \<Rightarrow> gerr option \<times> nat \<times> 's" where
  "for_each_record unmarshal inp visit s =
     scan_each (16 * 1024 * 1024) (in_err inp) (visit_record unmarshal visit)
       (split_lines (in_data inp)) (0, s)"

text \<open>Properties given as \<open>key=value\<close>; a repeated key overwrites.\<close>

fun cut_eq :: "string \<Rightarrow> (string \<times> string) option" where
  "cut_eq [] = None"
| "cut_eq (c # s) = (if c = CHR ''='' then Some ([], s)
     else map_option (\<lambda>(k, v). (c # k, v)) (cut_eq s))"

fun parse_properties :: "string list \<Rightarrow> props \<Rightarrow> gerr + props" where
  "parse_properties [] acc = Inr acc"
| "parse_properties (p # ps) acc =
     (case cut_eq p of
        None \<Rightarrow> Inl (ENew (''invalid property: '' @ p))
      | Some (k, v) \<Rightarrow> parse_properties ps (AList.update k (AStr v) acc))"

definition parse_properties_flag :: "gerr + string list \<Rightarrow> gerr + props" where
  "parse_properties_flag values = (case values of Inl e \<Rightarrow> Inl e | Inr vs \<Rightarrow> parse_properties vs [])"

section \<open>Export and import\<close>

lemma split_lines_line:
  assumes "CHR 0x0A \<notin> set l"
  shows "split_lines (l @ newline @ rest) = l # split_lines rest"
proof -
  have "takeWhile (\<lambda>c. c \<noteq> CHR 0x0A) (l @ newline @ rest) = l"
    "dropWhile (\<lambda>c. c \<noteq> CHR 0x0A) (l @ newline @ rest) = newline @ rest"
    using assms by (auto simp: takeWhile_append newline_def dropWhile_append)
  then show ?thesis by (subst split_lines.simps) (simp add: newline_def)
qed

lemma brace_no_space [simp]: "CHR 0x7B \<notin> space_first" "CHR 0x7D \<notin> space_last"
  by (auto simp: space_first_def space_last_def space_runes_def)

text \<open>
  What the import relies on of \<^verbatim>\<open>encoding/json\<close> for one record: \<open>Marshal\<close> gives one line, an
  object text that fits the scanner's buffer, and \<open>Unmarshal\<close> reads that record back.
\<close>

definition json_line ::
    "(message_record \<Rightarrow> gerr + string) \<Rightarrow> (string \<Rightarrow> gerr + message_record) \<Rightarrow> message_record \<Rightarrow> bool" where
  "json_line marshal unmarshal r \<longleftrightarrow>
     (\<exists>l. marshal r = Inr l \<and> unmarshal l = Inr r \<and> CHR 0x0A \<notin> set l \<and> length l < 16 * 1024 * 1024 \<and>
        l \<noteq> [] \<and> hd l = CHR 0x7B \<and> last l = CHR 0x7D)"

fun export_all ::
    "(message_record \<Rightarrow> gerr + string) \<Rightarrow> message list \<Rightarrow> string \<Rightarrow> gerr option \<times> string" where
  "export_all marshal [] out = (None, out)"
| "export_all marshal (m # ms) out =
     (case display_message_ndjson marshal (\<lambda>t w. w @ t) m out of
        (Some e, out') \<Rightarrow> (Some e, out')
      | (None, out') \<Rightarrow> export_all marshal ms out')"

fun run_visits ::
    "(message_record \<Rightarrow> 's \<Rightarrow> gerr option \<times> 's) \<Rightarrow> message_record list \<Rightarrow> nat \<times> 's \<Rightarrow>
     gerr option \<times> nat \<times> 's" where
  "run_visits visit [] st = (None, st)"
| "run_visits visit (r # rs) (n, s) =
     (case visit r s of (Some e, s') \<Rightarrow> (Some e, n, s') | (None, s') \<Rightarrow> run_visits visit rs (n + 1, s'))"

lemma visit_record_line:
  assumes "json_line marshal unmarshal r" and "marshal r = Inr l" and "prune_map (rc_properties r) = rc_properties r"
  shows "visit_record unmarshal visit (drop_cr l) (n, s) =
    (case visit r s of (Some e, s') \<Rightarrow> (Some e, n, s') | (None, s') \<Rightarrow> (None, n + 1, s'))"
proof -
  have l: "unmarshal l = Inr r" "l \<noteq> []" "hd l = CHR 0x7B" "last l = CHR 0x7D"
    using assms(1,2) by (auto simp: json_line_def)
  then have "drop_cr l = l" "trim_space l = l" by (auto simp: drop_cr_def intro: trim_space_id)
  then show ?thesis using l assms(3) by (simp add: visit_record_def Let_def)
qed

lemma export_scan:
  assumes "\<forall>m \<in> set ms. json_line marshal unmarshal (new_message_record m True)"
  shows "\<exists>text. export_all marshal ms out = (None, out @ text) \<and>
    (\<forall>st. scan_each (16 * 1024 * 1024) None (visit_record unmarshal visit) (split_lines text) st =
      run_visits visit (map (\<lambda>m. new_message_record m True) ms) st)"
  using assms
proof (induction ms arbitrary: out)
  case Nil
  then show ?case by (simp add: split_lines.simps)
next
  case (Cons m ms)
  let ?r = "new_message_record m True"
  obtain l where l: "marshal ?r = Inr l" "CHR 0x0A \<notin> set l" "length l < 16 * 1024 * 1024"
    using Cons.prems by (auto simp: json_line_def)
  obtain body where t: "export_all marshal ms (out @ l @ newline) = (None, (out @ l @ newline) @ body)"
    "\<forall>st. scan_each (16 * 1024 * 1024) None (visit_record unmarshal visit) (split_lines body) st =
      run_visits visit (map (\<lambda>m. new_message_record m True) ms) st"
    using Cons.IH [of "out @ l @ newline"] Cons.prems by auto
  have v: "visit_record unmarshal visit (drop_cr l) (n, s) =
    (case visit ?r s of (Some e, s') \<Rightarrow> (Some e, n, s') | (None, s') \<Rightarrow> (None, n + 1, s'))" for n s
    by (rule visit_record_line [where marshal = marshal]) (use Cons.prems l(1) new_record_properties in simp_all)
  show ?case
  proof (intro exI [of _ "l @ newline @ body"] conjI allI)
    show "export_all marshal (m # ms) out = (None, out @ l @ newline @ body)"
      using t(1) l(1) by (simp add: display_message_ndjson_def)
    fix st
    show "scan_each (16 * 1024 * 1024) None (visit_record unmarshal visit) (split_lines (l @ newline @ body)) st =
        run_visits visit (map (\<lambda>m. new_message_record m True) (m # ms)) st"
      unfolding split_lines_line [OF l(2)] using l(3) t(2)
      by (cases st) (simp add: v split: prod.split option.split)
  qed
qed

section \<open>Properties\<close>

text \<open>
  C20: the NDJSON export is lossless on payloads.  For every message, binary or text, the
  record that \<open>newMessageRecord\<close> makes gives back the exact payload bytes, and importing an
  exported text visits exactly the exported records in order, stopping at the first error
  of the visitor, with the count of those that succeeded.
\<close>

theorem ndjson_round_trip:
  assumes "\<forall>m \<in> set ms. json_line marshal unmarshal (new_message_record m True)"
  shows "\<exists>text. export_all marshal ms [] = (None, text) \<and>
    for_each_record unmarshal \<lparr>in_data = text, in_err = None, in_file = None\<rparr> visit s =
      run_visits visit (map (\<lambda>m. new_message_record m True) ms) (0, s) \<and>
    map (\<lambda>m. record_payload (new_message_record m True)) ms = map (\<lambda>m. Inr (m_data m)) ms"
  using export_scan [OF assms, of "[]" visit] by (auto simp: for_each_record_def record_payload_new)

definition sample_records :: "message list" where
  "sample_records = [msg ''hi'', msg [CHR 0xFF, CHR 0x0A]]"

definition sample_marshal :: "message_record \<Rightarrow> gerr + string" where
  "sample_marshal r = Inr (CHR 0x7B # (if rc_data r = ''hi'' then ''1'' else ''2'') @ [CHR 0x7D])"

definition sample_unmarshal :: "string \<Rightarrow> gerr + message_record" where
  "sample_unmarshal l = Inr (new_message_record (if l ! 1 = CHR ''1'' then msg ''hi'' else msg [CHR 0xFF, CHR 0x0A]) True)"

lemma sample_json:
  "\<forall>m \<in> set sample_records. json_line sample_marshal sample_unmarshal (new_message_record m True)"
  by (simp add: sample_records_def json_line_def sample_marshal_def sample_unmarshal_def
      new_message_record_def msg_def message0_def in_range_def)

theorem ndjson_round_trip_witness:
  "\<exists>text. export_all sample_marshal sample_records [] = (None, text) \<and>
    for_each_record sample_unmarshal \<lparr>in_data = text, in_err = None, in_file = None\<rparr>
      (\<lambda>r s. (None, s @ [record_payload r])) [] = (None, 2, [Inr ''hi'', Inr [CHR 0xFF, CHR 0x0A]])"
  using ndjson_round_trip [OF sample_json, of "\<lambda>r s. (None, s @ [record_payload r])" "[]"]
  by (auto simp: sample_records_def record_payload_new msg_def)

text \<open>
  \<open>pruneMap\<close> leaves no nil, blank text, nil pointer or empty container at any depth, and
  pruning again changes nothing: the import's second pruning is harmless.
\<close>

theorem prune_map_normal:
  "(\<forall>kv \<in> set (prune_map kvs). pruned (snd kv)) \<and> prune_map (prune_map kvs) = prune_map kvs"
  by (auto intro: prune_map_pruned prune_map_idem dest: prune_map_pruned)

theorem prune_map_normal_witness:
  "pruned (AList [AStr ''x'']) \<and> prune_map [(''k'', AList [ANil, AStr '' '', APtr (Some (''0xc0'', AStr ''x''))]), (''n'', AMap [])] =
    [(''k'', AList [AStr ''x''])]"
proof -
  have e: "prune_map [(''k'', AList [ANil, AStr '' '', APtr (Some (''0xc0'', AStr ''x''))]), (''n'', AMap [])] =
    [(''k'', AList [AStr ''x''])]"
    by (simp add: prune_map_def blank_text_def equal_fold_def trim_space_def trim_left_def trim_right_def space_runes_def has_prefix_def to_lower_def
        to_lower_char_def Let_def)
  with prune_map_normal [of "[(''k'', AList [ANil, AStr '' '', APtr (Some (''0xc0'', AStr ''x''))]), (''n'', AMap [])]"]
  show ?thesis by (simp del: pruned.simps)
qed

end
