(* ===== verification/Format.thy ===== *)
theory Format
  imports Fixtures
begin

text \<open>
  \<^verbatim>\<open>cmd/format.go\<close>: the kcat-style output templates.  The code walks the format string by
  index; the reference renders it by recursion over the rest of the string.
\<close>

abbreviation "percent \<equiv> CHR 0x25"
abbreviation "backslash \<equiv> CHR 0x5C"
abbreviation "open_brace \<equiv> CHR 0x7B"
abbreviation "close_brace \<equiv> CHR 0x7D"

section \<open>The code\<close>

definition lookup_value :: "props \<Rightarrow> string \<Rightarrow> string" where
  "lookup_value values key = (case map_of values key of Some v \<Rightarrow> fmt_v v | None \<Rightarrow> [])"

definition format_properties :: "props \<Rightarrow> string" where
  "format_properties ps =
     (if ps = [] then []
      else join '','' (map (\<lambda>kv. fst kv @ ''='' @ fmt_v (snd kv)) (sort_key fst ps)))"

fun index_byte :: "string \<Rightarrow> char \<Rightarrow> nat option" where
  "index_byte [] c = None"
| "index_byte (x # s) c = (if x = c then Some 0 else map_option Suc (index_byte s c))"

definition brace_arg :: "string \<Rightarrow> nat \<Rightarrow> (string \<times> nat) option" where
  "brace_arg format j =
     (if j \<ge> length format \<or> format ! j \<noteq> open_brace then None
      else case index_byte (drop j format) close_brace of
             None \<Rightarrow> None
           | Some rel \<Rightarrow>
               (let close_idx = j + rel
                in Some (take (close_idx - (j + 1)) (drop (j + 1) format), close_idx)))"

text \<open>Both return what they write with the index of the last byte they consumed.\<close>

definition write_escape :: "string \<Rightarrow> nat \<Rightarrow> string \<times> nat" where
  "write_escape format i =
     (if i + 1 \<ge> length format then ([backslash], i)
      else let c = format ! (i + 1)
           in (if c = CHR ''n'' then [CHR 0x0A]
               else if c = CHR ''t'' then [CHR 0x09]
               else if c = CHR ''r'' then [CHR 0x0D]
               else if c = backslash then [backslash]
               else [backslash, c], i + 1))"

definition write_token :: "message \<Rightarrow> string \<Rightarrow> nat \<Rightarrow> string \<times> nat" where
  "write_token m format i =
     (if i + 1 \<ge> length format then ([percent], i)
      else let c = format ! (i + 1)
           in if c = CHR ''s'' then (m_data m, i + 1)
              else if c = CHR ''S'' then (int_text (int (length (m_data m))), i + 1)
              else if c = CHR ''i'' then (m_message_id m, i + 1)
              else if c = CHR ''c'' then (m_correlation_id m, i + 1)
              else if c = CHR ''r'' then (m_reply_to m, i + 1)
              else if c = CHR ''y'' then (m_content_type m, i + 1)
              else if c = CHR ''P'' then (int_text (m_priority m), i + 1)
              else if c = CHR ''u'' then ((if m_persistent m then ''true'' else ''false''), i + 1)
              else if c = CHR ''h'' then (format_properties (m_properties m), i + 1)
              else if c = CHR ''p'' then
                (case brace_arg format (i + 2) of
                   Some (key, fin) \<Rightarrow> (lookup_value (m_properties m) key, fin)
                 | None \<Rightarrow> ([percent, CHR ''p''], i + 1))
              else if c = CHR ''m'' then
                (case brace_arg format (i + 2) of
                   Some (key, fin) \<Rightarrow> (lookup_value (m_internal m) key, fin)
                 | None \<Rightarrow> ([percent, CHR ''m''], i + 1))
              else if c = percent then ([percent], i + 1)
              else ([percent, c], i + 1))"

definition format_step :: "message \<Rightarrow> string \<Rightarrow> nat \<Rightarrow> string \<times> nat" where
  "format_step m format i =
     (if format ! i = backslash then write_escape format i
      else if format ! i = percent then write_token m format i
      else ([format ! i], i))"

lemma brace_arg_end: "brace_arg format j = Some (key, fin) \<Longrightarrow> j \<le> fin"
  by (auto simp: brace_arg_def Let_def split: if_splits option.splits)

lemma format_step_progress: "i \<le> snd (format_step m format i)"
proof -
  have "i \<le> snd (write_token m format i)"
    by (auto simp: write_token_def Let_def split: option.split dest: brace_arg_end)
  then show ?thesis by (simp add: format_step_def write_escape_def Let_def)
qed

function format_from :: "message \<Rightarrow> string \<Rightarrow> nat \<Rightarrow> string" where
  "format_from m format i =
     (if i < length format
      then fst (format_step m format i) @ format_from m format (snd (format_step m format i) + 1)
      else [])"
  by pat_completeness auto
termination
proof (relation "measure (\<lambda>(m, format, i). length format - i)", simp)
  fix m and format :: string and i assume "i < length format"
  with format_step_progress [of i m format]
  show "((m, format, snd (format_step m format i) + 1), m, format, i)
      \<in> measure (\<lambda>(m, format, i). length format - i)" by simp
qed

declare format_from.simps [simp del]

definition format_message :: "message \<Rightarrow> string \<Rightarrow> string" where
  "format_message m format = format_from m format 0"

section \<open>The reference\<close>

text \<open>A \<open>{name}\<close> argument at the start of the text, with the rest behind the brace.\<close>

definition split_brace :: "string \<Rightarrow> (string \<times> string) option" where
  "split_brace s =
     (if s \<noteq> [] \<and> hd s = open_brace \<and> close_brace \<in> set (tl s)
      then Some (takeWhile (\<lambda>c. c \<noteq> close_brace) (tl s), tl (dropWhile (\<lambda>c. c \<noteq> close_brace) (tl s)))
      else None)"

fun escape_text :: "char \<Rightarrow> string" where
  "escape_text c =
     (if c = CHR ''n'' then [CHR 0x0A] else if c = CHR ''t'' then [CHR 0x09]
      else if c = CHR ''r'' then [CHR 0x0D] else if c = backslash then [backslash] else [backslash, c])"

text \<open>The field a one-letter token names.\<close>

definition field_text :: "message \<Rightarrow> char \<Rightarrow> string" where
  "field_text m c =
     (case map_of [(CHR ''s'', m_data m), (CHR ''S'', nat_text (length (m_data m))),
        (CHR ''i'', m_message_id m), (CHR ''c'', m_correlation_id m), (CHR ''r'', m_reply_to m),
        (CHR ''y'', m_content_type m), (CHR ''P'', int_text (m_priority m)),
        (CHR ''u'', if m_persistent m then ''true'' else ''false''),
        (CHR ''h'', format_properties (m_properties m)), (percent, [percent])] c of
        Some t \<Rightarrow> t | None \<Rightarrow> [percent, c])"

definition keyed :: "message \<Rightarrow> char \<Rightarrow> props option" where
  "keyed m c = (if c = CHR ''p'' then Some (m_properties m) else if c = CHR ''m'' then Some (m_internal m) else None)"

lemma split_brace_shorter: "split_brace s = Some (key, rest) \<Longrightarrow> length rest < length s"
  using length_dropWhile_le [of "\<lambda>c. c \<noteq> close_brace" "tl s"]
  by (cases s) (auto simp: split_brace_def less_Suc_eq_le split: if_splits)

function render :: "message \<Rightarrow> string \<Rightarrow> string" where
  "render m [] = []"
| "render m [c] = [c]"
| "render m (a # c # s) =
     (if a = backslash then escape_text c @ render m s
      else if a = percent then
        (case (keyed m c, split_brace s) of
           (Some ps, Some (key, rest)) \<Rightarrow> lookup_value ps key @ render m rest
         | _ \<Rightarrow> field_text m c @ render m s)
      else a # render m (c # s))"
  by pat_completeness auto
termination
  by (relation "measure (length \<circ> snd)") (auto dest!: split_brace_shorter [OF sym])

section \<open>Equivalence\<close>

lemma index_byte_dropWhile:
  "index_byte s c = (if c \<in> set s then Some (length (takeWhile (\<lambda>x. x \<noteq> c) s)) else None)"
  by (induction s) auto

lemma brace_arg_None: "split_brace (drop j format) = None \<Longrightarrow> brace_arg format j = None"
proof (cases "drop j format")
  case Nil
  then show ?thesis by (simp add: brace_arg_def)
next
  case (Cons c r)
  assume n: "split_brace (drop j format) = None"
  have j: "j < length format" "format ! j = c"
    using Cons by (metis drop_all linorder_not_less list.distinct(1), metis hd_drop_conv_nth drop_all linorder_not_less list.distinct(1) list.sel(1))
  show ?thesis
    using n j by (auto simp: brace_arg_def split_brace_def Cons index_byte_dropWhile split: if_splits)
qed

lemma brace_arg_Some:
  assumes "split_brace (drop j format) = Some (key, rest)"
  shows "\<exists>fin. brace_arg format j = Some (key, fin) \<and> drop (Suc fin) format = rest"
proof -
  obtain r where r: "drop j format = open_brace # r" "close_brace \<in> set r"
    "key = takeWhile (\<lambda>c. c \<noteq> close_brace) r" "rest = tl (dropWhile (\<lambda>c. c \<noteq> close_brace) r)"
    using assms by (cases "drop j format") (auto simp: split_brace_def split: if_splits)
  have j: "j < length format" "format ! j = open_brace" and r1: "drop (Suc j) format = r"
    using r(1) by (metis drop_all linorder_not_less list.distinct(1),
      metis hd_drop_conv_nth drop_all linorder_not_less list.distinct(1) list.sel(1),
      metis drop_Suc list.sel(3) tl_drop)
  let ?n = "length (takeWhile (\<lambda>c. c \<noteq> close_brace) r)"
  have "brace_arg format j = Some (take ?n (drop (Suc j) format), Suc (j + ?n))"
    using j r by (simp add: brace_arg_def index_byte_dropWhile Let_def)
  moreover have "take ?n r = takeWhile (\<lambda>c. c \<noteq> close_brace) r"
    by (metis takeWhile_eq_take)
  moreover have "drop (Suc (Suc (j + ?n))) format = drop (Suc ?n) r"
    unfolding r1 [symmetric] by (simp add: add.commute)
  moreover have "drop (Suc ?n) r = tl (dropWhile (\<lambda>c. c \<noteq> close_brace) r)"
    by (simp add: dropWhile_eq_drop drop_Suc tl_drop)
  ultimately show ?thesis using r r1 by simp
qed

lemma write_token_field:
  assumes "Suc i < length format" and "split_brace (drop (i + 2) format) = None \<or> keyed m (format ! Suc i) = None"
  shows "write_token m format i = (field_text m (format ! Suc i), Suc i)"
  using assms brace_arg_None [of "i + 2" format]
  by (auto simp: write_token_def field_text_def keyed_def Let_def int_text_def
      split: option.split if_splits)

lemma write_token_keyed:
  assumes "Suc i < length format" and "keyed m (format ! Suc i) = Some ps"
    and "split_brace (drop (i + 2) format) = Some (key, rest)"
  shows "\<exists>fin. write_token m format i = (lookup_value ps key, fin) \<and> drop (Suc fin) format = rest"
  using brace_arg_Some [OF assms(3)] assms(1,2)
  by (auto simp: write_token_def keyed_def Let_def split: if_splits)

lemma render_plain: "a \<noteq> backslash \<Longrightarrow> a \<noteq> percent \<Longrightarrow> render m (a # s) = a # render m s"
  by (cases s) simp_all

lemma format_step_render:
  assumes i: "i < length format" and st: "format_step m format i = (t, k)"
  shows "t @ render m (drop (Suc k) format) = render m (drop i format)"
proof -
  have d: "drop i format = format ! i # drop (Suc i) format"
    using i by (simp add: Cons_nth_drop_Suc)
  show ?thesis
  proof (cases "Suc i < length format")
    case False
    then have "drop (Suc i) format = []" by simp
    moreover have "t = [format ! i] \<and> k = i"
      using st False by (auto simp: format_step_def write_escape_def write_token_def split: if_splits)
    ultimately show ?thesis by (simp add: d)
  next
    case nx: True
    have d2: "drop (Suc i) format = format ! Suc i # drop (i + 2) format"
      using nx by (simp add: Cons_nth_drop_Suc)
    show ?thesis
    proof (cases "format ! i = percent")
      case False
      show ?thesis
      proof (cases "format ! i = backslash")
        case True
        then show ?thesis
          using st nx by (auto simp: d d2 format_step_def write_escape_def Let_def)
      next
        case nb: False
        then have "t = [format ! i]" "k = i" using st False by (auto simp: format_step_def)
        then show ?thesis using nb False by (simp add: d render_plain)
      qed
    next
      case pc: True
      show ?thesis
      proof (cases "split_brace (drop (i + 2) format) = None \<or> keyed m (format ! Suc i) = None")
        case True
        have "t = field_text m (format ! Suc i)" "k = Suc i"
          using st pc write_token_field [OF nx True] by (auto simp: format_step_def)
        then show ?thesis using pc True by (auto simp: d d2 split: option.split)
      next
        case False
        then obtain ps key rest where ke: "keyed m (format ! Suc i) = Some ps"
          "split_brace (drop (i + 2) format) = Some (key, rest)" by auto
        have "t = lookup_value ps key" "drop (Suc k) format = rest"
          using st pc write_token_keyed [OF nx ke] by (auto simp: format_step_def)
        then show ?thesis using pc ke by (simp add: d d2)
      qed
    qed
  qed
qed

lemma format_from_render: "format_from m format i = render m (drop i format)"
proof (induction m format i rule: format_from.induct)
  case (1 m format i)
  obtain t k where st: "format_step m format i = (t, k)" by (metis surj_pair)
  show ?case
    using 1 format_step_render [OF _ st] st
    by (cases "i < length format") (simp_all add: format_from.simps [of m format i])
qed

text \<open>The template that prints a text as it is.\<close>

fun literal_template :: "string \<Rightarrow> string" where
  "literal_template [] = []"
| "literal_template (c # s) =
     (if c = percent \<or> c = backslash then c # c # literal_template s else c # literal_template s)"

lemma render_literal: "render m (literal_template s @ t) = s @ render m t"
proof (induction s)
  case (Cons c s)
  then show ?case
    by (auto simp: render_plain keyed_def field_text_def)
qed simp

section \<open>Properties\<close>

text \<open>
  C22: \<open>formatMessage\<close> renders every template, well formed or not, exactly as the reference
  that consumes the text token by token (no byte is skipped, repeated or read out of
  bounds), and every text has a template that prints it unchanged, whatever the message.
\<close>

theorem format_message_renders:
  "format_message m format = render m format \<and>
   format_message m (literal_template s @ format) = s @ format_message m format"
  by (simp add: format_message_def format_from_render render_literal)

end
