(* ===== verification/Consume.thy ===== *)
theory Consume
  imports Records Format
begin

text \<open>
  \<^verbatim>\<open>cmd/consume.go\<close>, \<^verbatim>\<open>cmd/receive.go\<close>, \<^verbatim>\<open>cmd/subscribe.go\<close> and the adapter life time of
  \<^verbatim>\<open>cmd/command.go\<close>: the receive, peek and subscribe commands.  The data and metadata
  writers are operations on the world; the periodic statistics line, printed by a goroutine
  of its own, is not modelled.
\<close>

section \<open>Output of one message\<close>

type_synonym 'w out = "string \<Rightarrow> 'w \<Rightarrow> gerr option \<times> 'w"

record 'w consume_config =
  cc_count :: int
  cc_json :: bool
  cc_verbosity :: verbosity
  cc_format :: string
  cc_ndjson :: bool
  cc_follow :: bool
  cc_omit :: int
  cc_data_out :: "'w out"
  cc_meta_out :: "'w out"
  cc_newline :: bool
  cc_marshal :: "message_record \<Rightarrow> gerr + string"

text \<open>A write whose error is dropped, and writes of which the first error is returned.\<close>

definition print_text :: "'w out \<Rightarrow> string \<Rightarrow> 'w \<Rightarrow> 'w" where
  "print_text out t w = snd (out t w)"

fun write_all :: "'w out \<Rightarrow> string list \<Rightarrow> 'w \<Rightarrow> gerr option \<times> 'w" where
  "write_all out [] w = (None, w)"
| "write_all out (t # ts) w =
     (case out t w of (Some e, w') \<Rightarrow> (Some e, w') | (None, w') \<Rightarrow> write_all out ts w')"

definition write_properties :: "'w out \<Rightarrow> props \<Rightarrow> 'w \<Rightarrow> gerr option \<times> 'w" where
  "write_properties out ps w =
     (if ps = [] then (None, w)
      else out (''Properties: '' @ join '','' (map (\<lambda>kv. fst kv @ ''='' @ fmt_v (snd kv)) (sort_key fst ps)) @ newline) w)"

definition write_key_value_map :: "'w out \<Rightarrow> props \<Rightarrow> 'w \<Rightarrow> gerr option \<times> 'w" where
  "write_key_value_map out values w =
     (if values = [] then (None, w)
      else write_all out (map (\<lambda>kv. fst kv @ '': '' @ fmt_v (snd kv) @ newline) (sort_key fst values)) w)"

definition display_message ::
    "'w out \<Rightarrow> 'w out \<Rightarrow> bool \<Rightarrow> message \<Rightarrow> verbosity \<Rightarrow> 'w \<Rightarrow> gerr option \<times> 'w" where
  "display_message data_out meta_out nl m verb w =
     (case (if verb = VerbosityVerbose then write_key_value_map meta_out (m_internal m) w else (None, w)) of
        (Some e, w1) \<Rightarrow> (Some e, w1)
      | (None, w1) \<Rightarrow>
          (case (if verb \<noteq> VerbosityQuiet then write_properties meta_out (m_properties m) w1 else (None, w1)) of
             (Some e, w2) \<Rightarrow> (Some e, w2)
           | (None, w2) \<Rightarrow>
               (let w3 = print_text data_out (m_data m) w2
                in (None, if nl then print_text data_out newline w3 else w3))))"

definition display_message_json ::
    "(message_record \<Rightarrow> gerr + string) \<Rightarrow> 'w out \<Rightarrow> message \<Rightarrow> verbosity \<Rightarrow> 'w \<Rightarrow> gerr option \<times> 'w" where
  "display_message_json marshal out m verb w =
     (case marshal (record_for_display m True (verb = VerbosityVerbose)) of
        Inl e \<Rightarrow> (Some (EWrap ''failed to marshal message to JSON: '' e []), w)
      | Inr data \<Rightarrow> (None, print_text out (data @ newline) w))"

definition display_message_format :: "'w out \<Rightarrow> message \<Rightarrow> string \<Rightarrow> 'w \<Rightarrow> gerr option \<times> 'w" where
  "display_message_format out m format w = out (format_message m format) w"

definition output_message :: "message \<Rightarrow> 'w consume_config \<Rightarrow> 'w \<Rightarrow> gerr option \<times> 'w" where
  "output_message m cfg w =
     (if cc_ndjson cfg then display_message_ndjson (cc_marshal cfg) (print_text (cc_data_out cfg)) m w
      else if cc_format cfg \<noteq> [] then display_message_format (cc_data_out cfg) m (cc_format cfg) w
      else if cc_json cfg then display_message_json (cc_marshal cfg) (cc_data_out cfg) m (cc_verbosity cfg) w
      else display_message (cc_data_out cfg) (cc_meta_out cfg) (cc_newline cfg) m (cc_verbosity cfg) w)"

definition command_verbosity :: "bool \<Rightarrow> bool \<Rightarrow> verbosity" where
  "command_verbosity is_verbose quiet =
     (if is_verbose then VerbosityVerbose else if quiet then VerbosityQuiet else VerbosityNormal)"

section \<open>The consume loop\<close>

record 'w consume_state =
  cs_received :: int
  cs_omitted :: int
  cs_stats :: stream_stats
  cs_world :: 'w

definition consume_init :: "'w \<Rightarrow> 'w consume_state" where
  "consume_init w = \<lparr>cs_received = 0, cs_omitted = 0, cs_stats = new_stream_stats, cs_world = w\<rparr>"

type_synonym 'w consume_result = "gerr option \<times> 'w consume_state"

definition consume_body ::
    "'w ctx \<Rightarrow> ('w ctx \<Rightarrow> 'w \<Rightarrow> read_result \<times> 'w) \<Rightarrow> 'w consume_config \<Rightarrow> 'w consume_state \<Rightarrow>
     ('w consume_state, 'w consume_result) flow" where
  "consume_body ctx receive cfg s =
     (if ctx (cs_world s) \<noteq> None then Return (None, s)
      else case receive ctx (cs_world s) of
        ((message, err), w) \<Rightarrow>
          (let s1 = s\<lparr>cs_world := w\<rparr> in
           if is_err err ECanceled then Return (None, s1)
           else if is_err err EDeadlineExceeded then (if cc_follow cfg then Continue s1 else Return (None, s1))
           else if is_err err ENoMessageAvailable \<or> (message = None \<and> err = None)
           then (if cc_follow cfg then Continue s1
                 else if cs_received s1 = 0 \<and> 0 < cc_count cfg then Return (Some ENoMessageAvailable, s1)
                 else Return (None, s1))
           else case (err, message) of
                  (Some e, _) \<Rightarrow> Return (Some e, s1)
                | (None, None) \<Rightarrow> Return (None, s1)
                | (None, Some m) \<Rightarrow>
                    (if cs_omitted s1 < cc_omit cfg then Continue (s1\<lparr>cs_omitted := cs_omitted s1 + 1\<rparr>)
                     else case output_message m cfg w of
                            (Some e, w2) \<Rightarrow> Return (Some e, s1\<lparr>cs_world := w2\<rparr>)
                          | (None, w2) \<Rightarrow>
                              Continue (s1\<lparr>cs_world := w2,
                                cs_stats := st_record (cs_stats s1) (length (m_data m)),
                                cs_received := cs_received s1 + 1\<rparr>))))"

definition consume_messages ::
    "'w ctx \<Rightarrow> ('w ctx \<Rightarrow> 'w \<Rightarrow> read_result \<times> 'w) \<Rightarrow> 'w consume_config \<Rightarrow> 'w \<Rightarrow> 'w consume_result option" where
  "consume_messages ctx receive cfg w =
     go_for (\<lambda>s. cc_count cfg \<le> 0 \<or> cs_received s < cc_count cfg)
       (consume_body ctx receive cfg) (\<lambda>s. (None, s)) (consume_init w)"

text \<open>
  \<open>summary\<close> is the final line of the statistics, \<open>stream_ctx d\<close> the context that
  \<open>streamContext(d, parent)\<close> returns.
\<close>

definition run_consume ::
    "(int \<Rightarrow> 'w ctx) \<Rightarrow> (stream_stats \<Rightarrow> 'w \<Rightarrow> string) \<Rightarrow> ('w ctx \<Rightarrow> 'w \<Rightarrow> read_result \<times> 'w) \<Rightarrow>
     'w consume_config \<Rightarrow> int \<Rightarrow> bool \<Rightarrow> 'w \<Rightarrow> 'w consume_result option" where
  "run_consume stream_ctx summary receive cfg duration stats w =
     map_option (\<lambda>(e, s). (e, if stats
         then s\<lparr>cs_world := print_text (cc_meta_out cfg) (summary (cs_stats s) (cs_world s) @ newline) (cs_world s)\<rparr>
         else s))
       (consume_messages (stream_ctx duration) receive cfg w)"

section \<open>Targets\<close>

record target_spec =
  ts_is_topic :: bool
  ts_to :: string
  ts_exchange :: string
  ts_queue :: string

type_synonym target_resolver = "target_spec \<Rightarrow> gerr + string"

text \<open>The flags that the exchange-routed brokers register; empty where they are absent.\<close>

record routing_flags =
  rf_exchange :: string
  rf_queue :: string
  rf_routing_key :: string

definition no_destination :: gerr where
  "no_destination = ENew ''requires a destination argument, or use --exchange / --queue''"

definition exclusive_flags :: gerr where
  "exclusive_flags = ENew ''--exchange and --queue are mutually exclusive''"

definition unexpected_argument :: "string \<Rightarrow> gerr" where
  "unexpected_argument a = ENew (''unexpected argument '' @ go_quote a @ '' when --queue is specified'')"

definition resolve_consume_target ::
    "routing_flags \<Rightarrow> string list \<Rightarrow> target_resolver option \<Rightarrow> bool \<Rightarrow> gerr + string" where
  "resolve_consume_target fl args resolver is_topic =
     (case resolver of
        None \<Rightarrow>
          (case args of [] \<Rightarrow> Inl (ENew ''requires at least 1 arg(s), only received 0'') | a # _ \<Rightarrow> Inr a)
      | Some resolve \<Rightarrow>
          (let finish = (\<lambda>dest. resolve \<lparr>ts_is_topic = is_topic, ts_to = dest, ts_exchange = rf_exchange fl,
                 ts_queue = rf_queue fl\<rparr>)
           in if rf_exchange fl \<noteq> [] \<and> rf_queue fl \<noteq> [] then Inl exclusive_flags
              else if rf_queue fl \<noteq> []
              then (case args of a # _ \<Rightarrow> Inl (unexpected_argument a) | [] \<Rightarrow> finish [])
              else if rf_exchange fl \<noteq> []
              then finish (if rf_routing_key fl \<noteq> [] then rf_routing_key fl
                           else case args of a # _ \<Rightarrow> a | [] \<Rightarrow> [])
              else (case args of [] \<Rightarrow> Inl no_destination | a # _ \<Rightarrow> finish a)))"

section \<open>receive, peek and subscribe\<close>

record consume_flags =
  cf_timeout :: int
  cf_timeout_changed :: bool
  cf_wait :: bool
  cf_wait_changed :: bool
  cf_quiet :: bool
  cf_count :: int
  cf_count_changed :: bool
  cf_json :: bool
  cf_selector :: string
  cf_format :: string
  cf_ndjson :: bool
  cf_omit :: int
  cf_for :: string
  cf_forever :: bool
  cf_stats :: bool
  cf_group :: string
  cf_durable :: bool
  cf_routing :: routing_flags

text \<open>What a command takes from its surroundings.\<close>

record 'w consume_env =
  ce_parent :: "'w ctx"
  ce_stream_ctx :: "int \<Rightarrow> 'w ctx"
  ce_parse :: "string \<Rightarrow> gerr + int"
  ce_verbose :: bool
  ce_data_out :: "'w out"
  ce_meta_out :: "'w out"
  ce_newline :: bool
  ce_marshal :: "message_record \<Rightarrow> gerr + string"
  ce_summary :: "stream_stats \<Rightarrow> 'w \<Rightarrow> string"

definition streaming_count :: "consume_flags \<Rightarrow> streaming_flags \<Rightarrow> int" where
  "streaming_count fl sf =
     (if (sf_duration sf > 0 \<or> sf_forever sf) \<and> \<not> cf_count_changed fl then 0 else cf_count fl)"

definition consume_config_of ::
    "'w consume_env \<Rightarrow> consume_flags \<Rightarrow> streaming_flags \<Rightarrow> int \<Rightarrow> 'w consume_config" where
  "consume_config_of env fl sf omit =
     \<lparr>cc_count = streaming_count fl sf, cc_json = cf_json fl,
      cc_verbosity = command_verbosity (ce_verbose env) (cf_quiet fl), cc_format = cf_format fl,
      cc_ndjson = cf_ndjson fl, cc_follow = sf_follow sf, cc_omit = omit,
      cc_data_out = ce_data_out env, cc_meta_out = ce_meta_out env, cc_newline = ce_newline env,
      cc_marshal = ce_marshal env\<rparr>"

definition receive_opts ::
    "'w consume_env \<Rightarrow> consume_flags \<Rightarrow> string \<Rightarrow> bool \<Rightarrow> (string \<times> string) list \<Rightarrow> receive_options" where
  "receive_opts env fl queue acknowledge extra =
     \<lparr>ro_queue = queue, ro_timeout = seconds_of (cf_timeout fl), ro_wait = cf_wait fl,
      ro_acknowledge = acknowledge, ro_verbosity = command_verbosity (ce_verbose env) (cf_quiet fl),
      ro_selector = cf_selector fl, ro_extra = extra\<rparr>"

definition do_receive ::
    "'w consume_env \<Rightarrow> consume_flags \<Rightarrow> string list \<Rightarrow> 'w queue_backend \<Rightarrow> bool \<Rightarrow>
     target_resolver option \<Rightarrow> (string \<times> string) list \<Rightarrow> 'w \<Rightarrow> 'w consume_result option" where
  "do_receive env fl args qb acknowledge resolver extra w =
     (case parse_streaming_flags (ce_parse env) (cf_for fl) (cf_forever fl) (cf_stats fl) of
        Inl e \<Rightarrow> Some (Some e, consume_init w)
      | Inr sf \<Rightarrow>
          (case resolve_consume_target (cf_routing fl) args resolver False of
             Inl e \<Rightarrow> Some (Some e, consume_init w)
           | Inr queue \<Rightarrow>
               (let opts = receive_opts env fl queue acknowledge extra;
                    cfg = consume_config_of env fl sf (cf_omit fl);
                    run = (\<lambda>receive. run_consume (ce_stream_ctx env) (ce_summary env) receive cfg
                             (sf_duration sf) (sf_stats sf));
                    plain = run (\<lambda>ctx. qb_receive qb ctx opts)
                in if acknowledge then plain w
                   else case qb_browse qb of
                     None \<Rightarrow> plain w
                   | Some browse \<Rightarrow>
                       (case browse (ce_parent env) opts w of
                          (Inr b, w1) \<Rightarrow>
                            map_option (\<lambda>(e, s). (e, s\<lparr>cs_world := close_adapter (br_close b) (cs_world s)\<rparr>))
                              (run (br_next b) w1)
                        | (Inl e, w1) \<Rightarrow>
                            (if errors_is e EBrowseUnsupported then plain w1
                             else Some (Some e, consume_init w1))))))"

definition do_subscribe ::
    "'w consume_env \<Rightarrow> consume_flags \<Rightarrow> string list \<Rightarrow> 'w topic_backend \<Rightarrow>
     target_resolver option \<Rightarrow> (string \<times> string) list \<Rightarrow> 'w \<Rightarrow> 'w consume_result option" where
  "do_subscribe env fl args tb resolver extra w =
     (let wait = (if cf_timeout_changed fl \<and> \<not> cf_wait_changed fl then False else cf_wait fl)
      in case parse_streaming_flags (ce_parse env) (cf_for fl) (cf_forever fl) (cf_stats fl) of
        Inl e \<Rightarrow> Some (Some e, consume_init w)
      | Inr sf \<Rightarrow>
          (case resolve_consume_target (cf_routing fl) args resolver True of
             Inl e \<Rightarrow> Some (Some e, consume_init w)
           | Inr topic \<Rightarrow>
               (let opts = \<lparr>uo_topic = topic, uo_group_id = cf_group fl,
                      uo_timeout = seconds_of (cf_timeout fl), uo_wait = wait,
                      uo_verbosity = command_verbosity (ce_verbose env) (cf_quiet fl),
                      uo_selector = cf_selector fl, uo_durable = cf_durable fl,
                      uo_acknowledge = True, uo_extra = extra\<rparr>
                in run_consume (ce_stream_ctx env) (ce_summary env) (\<lambda>ctx. tb_subscribe tb ctx opts)
                     (consume_config_of env fl sf 0) (sf_duration sf) (sf_stats sf) w)))"

text \<open>
  \<open>WrapQueueCommand\<close> and \<open>WrapTopicCommand\<close>: connect, run the command on the adapter, close.
  \<open>run\<close> is the command's \<open>RunE\<close> on the opened adapter, with its result and final world.
\<close>

definition wrap_command ::
    "('w, 'a) factory \<Rightarrow> ('a \<Rightarrow> 'w \<Rightarrow> gerr option \<times> 'w) \<Rightarrow> ('a \<Rightarrow> 'w \<Rightarrow> (gerr option \<times> 'w) option) \<Rightarrow>
     'w \<Rightarrow> (gerr option \<times> 'w) option" where
  "wrap_command factory close run w =
     (case factory w of
        (Inl e, w1) \<Rightarrow> Some (Some e, w1)
      | (Inr a, w1) \<Rightarrow> map_option (\<lambda>(e, w2). (e, close_adapter (close a) w2)) (run a w1))"

section \<open>Accounting\<close>

text \<open>The data writes that show a message.\<close>

definition data_texts :: "'w consume_config \<Rightarrow> message \<Rightarrow> string list" where
  "data_texts cfg m =
     (if cc_ndjson cfg
      then (case cc_marshal cfg (new_message_record m True) of Inl e \<Rightarrow> [] | Inr l \<Rightarrow> [l @ newline])
      else if cc_format cfg \<noteq> [] then [format_message m (cc_format cfg)]
      else if cc_json cfg
      then (case cc_marshal cfg (record_for_display m True (cc_verbosity cfg = VerbosityVerbose)) of
              Inl e \<Rightarrow> [] | Inr l \<Rightarrow> [l @ newline])
      else m_data m # (if cc_newline cfg then [newline] else []))"

text \<open>
  \<open>consume_report cfg ts us e n\<close>: of the messages \<open>ts\<close> taken, the offset skipped the first
  ones, the next \<open>n\<close> were shown on the data stream in order, and at most one more was taken,
  one whose output failed, so that the command fails.
\<close>

definition consume_report ::
    "'w consume_config \<Rightarrow> message list \<Rightarrow> string list \<Rightarrow> gerr option \<Rightarrow> int \<Rightarrow> bool" where
  "consume_report cfg ts us e n \<longleftrightarrow>
     (\<exists>om sh lost xs. ts = om @ sh @ lost \<and> us = concat (map (data_texts cfg) sh) @ xs \<and>
        n = int (length sh) \<and> length lost \<le> 1 \<and> (lost = [] \<longrightarrow> xs = []) \<and> (e = None \<longrightarrow> lost = []) \<and>
        int (length om) \<le> max 0 (cc_omit cfg) \<and> (sh @ lost \<noteq> [] \<longrightarrow> int (length om) = max 0 (cc_omit cfg)) \<and>
        (0 < cc_count cfg \<longrightarrow> n \<le> cc_count cfg))"

text \<open>A consumer reads a source, shows messages on a data stream and writes metadata elsewhere.\<close>

locale consumer = feeder get took put_text texts
  for get :: "'s ctx \<Rightarrow> 's \<Rightarrow> read_result \<times> 's" and took
    and put_text :: "string \<Rightarrow> 's \<Rightarrow> gerr option \<times> 's" and texts +
  fixes meta :: "string \<Rightarrow> 's \<Rightarrow> gerr option \<times> 's"
  assumes meta_frame: "meta t s = (e, s') \<Longrightarrow> took s' = took s \<and> texts s' = texts s"
begin

lemma print_text_facts:
  "map fst (texts (print_text put_text t w)) = map fst (texts w) @ [t]"
  "took (print_text put_text t w) = took w"
  using put_texts [of t w "fst (put_text t w)" "snd (put_text t w)"] by (simp_all add: print_text_def)

lemma write_all_frame:
  "write_all meta ts w = (e, w') \<Longrightarrow> took w' = took w \<and> texts w' = texts w"
  by (induction ts arbitrary: w) (auto split: prod.splits option.splits dest!: meta_frame)

lemma meta_writes_frame:
  "write_properties meta ps w = (e, w') \<Longrightarrow> took w' = took w \<and> texts w' = texts w"
  "write_key_value_map meta ps w = (e, w') \<Longrightarrow> took w' = took w \<and> texts w' = texts w"
  by (auto simp: write_properties_def write_key_value_map_def
      split: if_splits dest: meta_frame write_all_frame)

lemma display_message_facts:
  assumes "display_message put_text meta nl m verb w = (e, w')"
  shows "took w' = took w \<and> (\<exists>ts. map fst (texts w') = map fst (texts w) @ ts \<and>
    (e = None \<longrightarrow> ts = m_data m # (if nl then [newline] else [])))"
proof -
  obtain e1 w1 where a: "(if verb = VerbosityVerbose then write_key_value_map meta (m_internal m) w
      else (None, w)) = (e1, w1)" by (metis surj_pair)
  obtain e2 w2 where b: "(if verb \<noteq> VerbosityQuiet then write_properties meta (m_properties m) w1
      else (None, w1)) = (e2, w2)" by (metis surj_pair)
  have f: "took w1 = took w \<and> texts w1 = texts w" "took w2 = took w1 \<and> texts w2 = texts w1"
    using a b by (auto split: if_splits dest: meta_writes_frame)
  show ?thesis
    using assms a b f
    by (cases e1; cases e2; cases nl) (auto simp: display_message_def Let_def print_text_facts)
qed

lemma output_message_facts:
  assumes "output_message m cfg w = (e, w')" and "cc_data_out cfg = put_text" and "cc_meta_out cfg = meta"
  shows "took w' = took w \<and> (\<exists>ts. map fst (texts w') = map fst (texts w) @ ts \<and>
    (e = None \<longrightarrow> ts = data_texts cfg m))"
  using assms(1) display_message_facts [of "cc_newline cfg" m "cc_verbosity cfg" w e w'] put_texts
  unfolding output_message_def data_texts_def assms(2,3) display_message_ndjson_def
    display_message_json_def display_message_format_def
  by (cases "cc_ndjson cfg"; cases "cc_format cfg = []"; cases "cc_json cfg")
     (auto simp: print_text_facts split: sum.splits split del: if_split)

text \<open>
  \<open>consumed cfg w0 s om sh\<close>: so far \<open>om\<close> was skipped by the offset and \<open>sh\<close> was shown, in
  the order taken.
\<close>

definition consumed :: "'s consume_config \<Rightarrow> 's \<Rightarrow> 's consume_state \<Rightarrow> message list \<Rightarrow> message list \<Rightarrow> bool" where
  "consumed cfg w0 s om sh \<longleftrightarrow>
     took (cs_world s) = took w0 @ om @ sh \<and>
     map fst (texts (cs_world s)) = map fst (texts w0) @ concat (map (data_texts cfg) sh) \<and>
     cs_received s = int (length sh) \<and> cs_omitted s = int (length om) \<and>
     int (length om) \<le> max 0 (cc_omit cfg) \<and> (sh \<noteq> [] \<longrightarrow> int (length om) = max 0 (cc_omit cfg)) \<and>
     (0 < cc_count cfg \<longrightarrow> cs_received s \<le> cc_count cfg)"

definition consume_ended :: "'s consume_config \<Rightarrow> 's \<Rightarrow> 's consume_result \<Rightarrow> bool" where
  "consume_ended cfg w0 r \<longleftrightarrow>
     (\<exists>ts us. took (cs_world (snd r)) = took w0 @ ts \<and>
        map fst (texts (cs_world (snd r))) = map fst (texts w0) @ us \<and>
        consume_report cfg ts us (fst r) (cs_received (snd r)))"

lemma consumed_ended: "consumed cfg w0 s om sh \<Longrightarrow> consume_ended cfg w0 (e, s)"
  unfolding consumed_def consume_ended_def consume_report_def
  by (rule exI [of _ "om @ sh"], rule exI [of _ "concat (map (data_texts cfg) sh)"], intro conjI,
      simp, simp, rule exI [of _ om], rule exI [of _ sh], rule exI [of _ "[]"], rule exI [of _ "[]"]) auto

lemma consume_body_consumed:
  assumes inv: "consumed cfg w0 s om sh" and more: "cc_count cfg \<le> 0 \<or> cs_received s < cc_count cfg"
    and outs: "cc_data_out cfg = put_text" "cc_meta_out cfg = meta"
  shows "case consume_body ctx get cfg s of
      Continue t \<Rightarrow> \<exists>om sh. consumed cfg w0 t om sh | Return r \<Rightarrow> consume_ended cfg w0 r"
proof (cases "ctx (cs_world s) = None")
  case False
  then show ?thesis using consumed_ended [OF inv] by (simp add: consume_body_def)
next
  case ctx: True
  obtain m e w where rd: "get ctx (cs_world s) = ((m, e), w)" by (metis surj_pair)
  have w1: "texts w = texts (cs_world s)" "took w = took (cs_world s) @ read_msgs (m, e)"
    using read_texts [OF rd] read_took [OF rd] by auto
  show ?thesis
  proof (cases "\<exists>x. m = Some x \<and> e = None")
    case False
    then have "read_msgs (m, e) = []" by (cases m; cases e) auto
    then have inv1: "consumed cfg w0 (s\<lparr>cs_world := w\<rparr>) om sh" using inv w1 by (auto simp: consumed_def)
    show ?thesis
      using ctx rd False inv1 consumed_ended [OF inv1]
      by (cases m; cases e) (auto simp: consume_body_def Let_def)
  next
    case True
    then obtain x where x: "m = Some x" "e = None" by blast
    show ?thesis
    proof (cases "cs_omitted s < cc_omit cfg")
      case True
      then have "sh = []" using inv by (auto simp: consumed_def)
      then have "consumed cfg w0 (s\<lparr>cs_world := w, cs_omitted := cs_omitted s + 1\<rparr>) (om @ [x]) []"
        using inv True w1 x by (auto simp: consumed_def)
      then show ?thesis using ctx rd x True by (auto simp: consume_body_def Let_def)
    next
      case False
      then have om: "int (length om) = max 0 (cc_omit cfg)" using inv by (auto simp: consumed_def)
      obtain oe w2 where o: "output_message x cfg w = (oe, w2)" by (metis surj_pair)
      obtain ts where ts: "took w2 = took w" "map fst (texts w2) = map fst (texts w) @ ts"
        "oe = None \<Longrightarrow> ts = data_texts cfg x"
        using output_message_facts [OF o outs] by blast
      show ?thesis
      proof (cases oe)
        case None
        obtain s3 where s3: "consume_body ctx get cfg s = Continue s3" "cs_world s3 = w2"
            "cs_received s3 = cs_received s + 1" "cs_omitted s3 = cs_omitted s"
          using ctx rd x False o None by (simp add: consume_body_def Let_def)
        have "consumed cfg w0 s3 om (sh @ [x])"
          using inv more om ts(1,2) ts(3) [OF None] w1 x s3 by (auto simp: consumed_def)
        then show ?thesis by (auto simp: s3(1))
      next
        case (Some f)
        have "consume_ended cfg w0 (Some f, s\<lparr>cs_world := w2\<rparr>)"
          unfolding consume_ended_def consume_report_def
          by (rule exI [of _ "om @ sh @ [x]"], rule exI [of _ "concat (map (data_texts cfg) sh) @ ts"],
              insert inv om ts(1,2) w1 x, intro conjI, simp add: consumed_def, simp add: consumed_def,
              rule exI [of _ om], rule exI [of _ sh], rule exI [of _ "[x]"], rule exI [of _ ts])
             (auto simp: consumed_def)
        then show ?thesis using ctx rd x False o Some by (simp add: consume_body_def Let_def)
      qed
    qed
  qed
qed

lemma consume_messages_ended:
  assumes run: "consume_messages ctx get cfg w0 = Some r"
    and outs: "cc_data_out cfg = put_text" "cc_meta_out cfg = meta"
  shows "consume_ended cfg w0 r"
proof (rule go_for_invariant [where P = "\<lambda>s. \<exists>om sh. consumed cfg w0 s om sh",
      OF run [unfolded consume_messages_def]])
  show "\<exists>om sh. consumed cfg w0 (consume_init w0) om sh"
    by (rule exI [of _ "[]"], rule exI [of _ "[]"]) (simp add: consumed_def consume_init_def)
  show "\<exists>om sh. consumed cfg w0 t om sh"
    if "\<exists>om sh. consumed cfg w0 s om sh" "cc_count cfg \<le> 0 \<or> cs_received s < cc_count cfg"
      "consume_body ctx get cfg s = Continue t" for s t
    using that consume_body_consumed [OF _ that(2) outs, where ctx = ctx] by fastforce
  show "consume_ended cfg w0 r"
    if "\<exists>om sh. consumed cfg w0 s om sh" "cc_count cfg \<le> 0 \<or> cs_received s < cc_count cfg"
      "consume_body ctx get cfg s = Return r" for s r
    using that consume_body_consumed [OF _ that(2) outs, where ctx = ctx] by fastforce
  show "consume_ended cfg w0 (None, s)" if "\<exists>om sh. consumed cfg w0 s om sh" for s
    using that consumed_ended by blast
qed

lemma run_consume_ended:
  assumes run: "run_consume stream_ctx summary get cfg d stats w0 = Some r"
    and outs: "cc_data_out cfg = put_text" "cc_meta_out cfg = meta"
  shows "consume_ended cfg w0 r"
proof -
  obtain e s where es: "consume_messages (stream_ctx d) get cfg w0 = Some (e, s)"
    and r: "fst r = e" "cs_received (snd r) = cs_received s"
      "took (cs_world (snd r)) = took (cs_world s)" "texts (cs_world (snd r)) = texts (cs_world s)"
    using run outs meta_frame [OF prod.collapse [symmetric]]
    by (auto simp: run_consume_def print_text_def split: if_splits)
  from consume_messages_ended [OF es outs] r show ?thesis by (simp add: consume_ended_def)
qed

end

section \<open>The traced commands\<close>

definition traced_consume_env :: "'w consume_env \<Rightarrow> 'w traced consume_env" where
  "traced_consume_env env =
     \<lparr>ce_parent = (\<lambda>s. ce_parent env (fst s)), ce_stream_ctx = (\<lambda>d s. ce_stream_ctx env d (fst s)),
      ce_parse = ce_parse env, ce_verbose = ce_verbose env,
      ce_data_out = traced_writer (ce_data_out env), ce_meta_out = silent_writer (ce_meta_out env),
      ce_newline = ce_newline env, ce_marshal = ce_marshal env,
      ce_summary = (\<lambda>st s. ce_summary env st (fst s))\<rparr>"

interpretation rcv: consumer "\<lambda>ctx. qb_receive (traced_queue qb) ctx opts" taken "traced_writer out" fed
    "silent_writer mo"
  for qb :: "'w queue_backend" and opts and out mo :: "'w out"
  by unfold_locales
     (auto dest: traced_receive_taken traced_receive_fed traced_writer_facts silent_writer_frame
        simp: taken_def fed_def)

interpretation sbs: consumer "\<lambda>ctx. tb_subscribe (traced_topic tb) ctx opts" taken "traced_writer out" fed
    "silent_writer mo"
  for tb :: "'w topic_backend" and opts and out mo :: "'w out"
  by unfold_locales
     (auto dest: traced_subscribe_taken traced_subscribe_fed traced_writer_facts silent_writer_frame
        simp: taken_def fed_def)

interpretation brw: consumer "br_next (traced_browser b)" browsed "traced_writer out" fed "silent_writer mo"
  for b :: "'w browser" and out mo :: "'w out"
  by unfold_locales
     (auto dest: traced_next_facts traced_writer_facts silent_writer_frame simp: browsed_def fed_def)

lemma config_outs [simp]:
  "cc_data_out (consume_config_of (traced_consume_env env) fl sf omit) = traced_writer (ce_data_out env)"
  "cc_meta_out (consume_config_of (traced_consume_env env) fl sf omit) = silent_writer (ce_meta_out env)"
  by (simp_all add: consume_config_of_def traced_consume_env_def)

section \<open>Peeking is not destructive\<close>

text \<open>A property of the world that reads and writes keep is kept by the whole loop.\<close>

lemma display_message_pres:
  assumes "display_message out mo nl m verb w = (e, w')" and "P w"
    and out: "\<And>t w e w'. P w \<Longrightarrow> out t w = (e, w') \<Longrightarrow> P w'"
    and mo: "\<And>t w e w'. P w \<Longrightarrow> mo t w = (e, w') \<Longrightarrow> P w'"
  shows "P w'"
proof -
  have print: "P (print_text out t w)" if "P w" for t w
    unfolding print_text_def by (rule out [OF that]) (rule surjective_pairing)
  have all: "write_all mo ts w = (e, w') \<Longrightarrow> P w \<Longrightarrow> P w'" for ts w e w'
    by (induction ts arbitrary: w) (auto split: prod.splits option.splits dest: mo)
  have props: "write_properties mo ps w = (e, w') \<Longrightarrow> P w \<Longrightarrow> P w'" for ps w e w'
    by (auto simp: write_properties_def split: if_splits dest: mo)
  have kvs: "write_key_value_map mo ps w = (e, w') \<Longrightarrow> P w \<Longrightarrow> P w'" for ps w e w'
    by (auto simp: write_key_value_map_def split: if_splits dest: all)
  obtain e1 w1 where a: "(if verb = VerbosityVerbose then write_key_value_map mo (m_internal m) w
      else (None, w)) = (e1, w1)" by (metis surj_pair)
  obtain e2 w2 where b: "(if verb \<noteq> VerbosityQuiet then write_properties mo (m_properties m) w1
      else (None, w1)) = (e2, w2)" by (metis surj_pair)
  have "P w1" using a assms(2) by (auto split: if_splits dest: kvs)
  moreover have "P w2" using b \<open>P w1\<close> by (auto split: if_splits dest: props)
  ultimately show ?thesis
    using assms(1) a b print by (cases e1; cases e2; cases nl) (auto simp: display_message_def Let_def)
qed

lemma output_message_pres:
  assumes "output_message m cfg w = (e, w')" and "P w"
    and out: "\<And>t w e w'. P w \<Longrightarrow> cc_data_out cfg t w = (e, w') \<Longrightarrow> P w'"
    and mo: "\<And>t w e w'. P w \<Longrightarrow> cc_meta_out cfg t w = (e, w') \<Longrightarrow> P w'"
  shows "P w'"
proof -
  have print: "P (print_text (cc_data_out cfg) t w)" if "P w" for t w
    unfolding print_text_def by (rule out [OF that]) (rule surjective_pairing)
  consider (ndjson) "cc_ndjson cfg" | (format) "\<not> cc_ndjson cfg" "cc_format cfg \<noteq> []"
    | (json) "\<not> cc_ndjson cfg" "cc_format cfg = []" "cc_json cfg"
    | (plain) "\<not> cc_ndjson cfg" "cc_format cfg = []" "\<not> cc_json cfg" by blast
  then show ?thesis
  proof cases
    case ndjson
    then show ?thesis
      using assms(1,2) print by (auto simp: output_message_def display_message_ndjson_def split: sum.splits)
  next
    case format
    then have "cc_data_out cfg (format_message m (cc_format cfg)) w = (e, w')"
      using assms(1) by (simp add: output_message_def display_message_format_def)
    then show ?thesis by (rule out [OF assms(2)])
  next
    case json
    then show ?thesis
      using assms(1,2) print by (auto simp: output_message_def display_message_json_def split: sum.splits)
  next
    case plain
    then have "display_message (cc_data_out cfg) (cc_meta_out cfg) (cc_newline cfg) m (cc_verbosity cfg) w = (e, w')"
      using assms(1) by (simp add: output_message_def)
    from this assms(2) show ?thesis by (rule display_message_pres [where P = P]) (fact out mo)+
  qed
qed

lemma consume_messages_pres:
  assumes run: "consume_messages ctx get cfg w0 = Some r" and init: "P w0"
    and get: "\<And>w x w'. P w \<Longrightarrow> get ctx w = (x, w') \<Longrightarrow> P w'"
    and out: "\<And>t w e w'. P w \<Longrightarrow> cc_data_out cfg t w = (e, w') \<Longrightarrow> P w'"
    and mo: "\<And>t w e w'. P w \<Longrightarrow> cc_meta_out cfg t w = (e, w') \<Longrightarrow> P w'"
  shows "P (cs_world (snd r))"
proof -
  have body: "case consume_body ctx get cfg s of
      Continue t \<Rightarrow> P (cs_world t) | Return r \<Rightarrow> P (cs_world (snd r))" if "P (cs_world s)" for s
  proof -
    obtain m e w where rd: "get ctx (cs_world s) = ((m, e), w)" by (metis surj_pair)
    have w: "P w" using get [OF that rd] .
    have o: "P w2" if "output_message x cfg w = (oe, w2)" for x oe w2
      using output_message_pres [where P = P, OF that w out mo] .
    show ?thesis
      using that rd w
      by (cases m; cases e) (auto simp: consume_body_def Let_def dest!: o split: prod.split option.split)
  qed
  show ?thesis
  proof (rule go_for_invariant [where P = "\<lambda>s. P (cs_world s)", OF run [unfolded consume_messages_def]])
    show "P (cs_world (consume_init w0))" using init by (simp add: consume_init_def)
    show "P (cs_world t)" if "P (cs_world s)" "consume_body ctx get cfg s = Continue t" for s t
      using body [OF that(1)] that(2) by simp
    show "P (cs_world (snd r))" if "P (cs_world s)" "consume_body ctx get cfg s = Return r" for s r
      using body [OF that(1)] that(2) by simp
  qed auto
qed

lemma run_consume_pres:
  assumes run: "run_consume stream_ctx summary get cfg d stats w0 = Some r" and init: "P w0"
    and get: "\<And>w x w'. P w \<Longrightarrow> get (stream_ctx d) w = (x, w') \<Longrightarrow> P w'"
    and out: "\<And>t w e w'. P w \<Longrightarrow> cc_data_out cfg t w = (e, w') \<Longrightarrow> P w'"
    and mo: "\<And>t w e w'. P w \<Longrightarrow> cc_meta_out cfg t w = (e, w') \<Longrightarrow> P w'"
  shows "P (cs_world (snd r))"
proof -
  obtain r1 where r1: "consume_messages (stream_ctx d) get cfg w0 = Some r1"
    using run by (auto simp: run_consume_def)
  have P1: "P (cs_world (snd r1))" by (rule consume_messages_pres [where P = P, OF r1 init get out mo])
  have "P (print_text (cc_meta_out cfg) t w)" if "P w" for t w
    unfolding print_text_def by (rule mo [OF that]) (rule surjective_pairing)
  with run r1 P1 show ?thesis by (auto simp: run_consume_def split: prod.splits if_splits)
qed

text \<open>The broker calls a peek may make, and the balance of its browse cursors.\<close>

fun peek_event :: "event \<Rightarrow> bool" where
  "peek_event (EvReceive x r) = (\<not> ro_acknowledge x)"
| "peek_event (EvBrowse x b) = (\<not> ro_acknowledge x)"
| "peek_event (EvNext r) = True"
| "peek_event EvBrowserClose = True"
| "peek_event (EvFeed t e) = True"
| "peek_event e = False"

fun event_cursor :: "event \<Rightarrow> int" where
  "event_cursor (EvBrowse x b) = (if b then 1 else 0)"
| "event_cursor EvBrowserClose = -1"
| "event_cursor e = 0"

definition peeked :: "int \<Rightarrow> 'w traced \<Rightarrow> bool" where
  "peeked n s \<longleftrightarrow> list_all peek_event (snd s) \<and> sum_list (map event_cursor (snd s)) = n"

lemma peeked_steps:
  "peeked n s \<Longrightarrow> traced_writer out t s = (e, s') \<Longrightarrow> peeked n s'"
  "peeked n s \<Longrightarrow> silent_writer out t s = (e, s') \<Longrightarrow> peeked n s'"
  "peeked n s \<Longrightarrow> qb_receive (traced_queue qb) c x s = (r, s') \<Longrightarrow> \<not> ro_acknowledge x \<Longrightarrow> peeked n s'"
  "peeked n s \<Longrightarrow> br_next (traced_browser b) c s = (r, s') \<Longrightarrow> peeked n s'"
  "peeked n s \<Longrightarrow> br_close (traced_browser b) s = (e', s') \<Longrightarrow> peeked (n - 1) s'"
  by (cases s, auto simp: peeked_def traced_writer_def silent_writer_def go_step traced_browser_def
      split: prod.splits)+

lemma traced_browse_cases:
  assumes "qb_browse (traced_queue qb) = Some browse" and "browse c x (w, []) = (r, s')"
    and "\<not> ro_acknowledge x"
  obtains (opened) b where "r = Inr (traced_browser b)" "peeked 1 s'" "taken s' = []" "fed s' = []" "browsed s' = []"
    | (failed) e where "r = Inl e" "peeked 0 s'" "taken s' = []" "fed s' = []"
  using assms
  by (auto simp: traced_queue_def peeked_def taken_def fed_def browsed_def split: prod.splits sum.splits)

lemma config_outs_peeked:
  "peeked n s \<Longrightarrow> cc_data_out (consume_config_of (traced_consume_env env) fl sf omit) t s = (e, s') \<Longrightarrow> peeked n s'"
  "peeked n s \<Longrightarrow> cc_meta_out (consume_config_of (traced_consume_env env) fl sf omit) t s = (e, s') \<Longrightarrow> peeked n s'"
  unfolding config_outs by (erule (1) peeked_steps)+

section \<open>Properties\<close>


definition script_out :: "script out" where
  "script_out t w = (None, w)"

definition script_consume_env :: "script consume_env" where
  "script_consume_env = \<lparr>ce_parent = (\<lambda>w. None), ce_stream_ctx = (\<lambda>d. sc_ctx), ce_parse = (\<lambda>s. Inr 0),
     ce_verbose = False, ce_data_out = script_out, ce_meta_out = script_out, ce_newline = True,
     ce_marshal = (\<lambda>r. Inr ''r''), ce_summary = (\<lambda>st w. [])\<rparr>"

definition sample_flags :: "int \<Rightarrow> int \<Rightarrow> consume_flags" where
  "sample_flags count omit = \<lparr>cf_timeout = 0, cf_timeout_changed = False, cf_wait = False,
     cf_wait_changed = False, cf_quiet = True, cf_count = count, cf_count_changed = True, cf_json = False,
     cf_selector = [], cf_format = [], cf_ndjson = False, cf_omit = omit, cf_for = [], cf_forever = False,
     cf_stats = False, cf_group = [], cf_durable = False,
     cf_routing = \<lparr>rf_exchange = [], rf_queue = [], rf_routing_key = []\<rparr>\<rparr>"

lemmas consume_run = do_receive_def do_subscribe_def run_consume_def consume_messages_def consume_body_def
  consume_init_def resolve_consume_target_def receive_opts_def consume_config_of_def streaming_count_def
  output_message_def display_message_def print_text_def command_verbosity_def traced_consume_env_def
  traced_writer_def silent_writer_def script_consume_env_def script_out_def sample_flags_def
  parse_streaming_flags_def parse_duration_flag_def go_for_unfold go_step script_defs lower_def Let_def


text \<open>
  \<open>subscribe\<close> keeps the same account of the messages it takes from a topic.
\<close>

theorem subscribe_accounts:
  assumes "do_subscribe (traced_consume_env env) fl args (traced_topic tb) resolver extra (w, []) = Some (e, s)"
  shows "(e \<noteq> None \<and> taken (cs_world s) = [] \<and> fed (cs_world s) = []) \<or>
    (\<exists>sf. parse_streaming_flags (ce_parse env) (cf_for fl) (cf_forever fl) (cf_stats fl) = Inr sf \<and>
       consume_report (consume_config_of (traced_consume_env env) fl sf 0)
         (taken (cs_world s)) (map fst (fed (cs_world s))) e (cs_received s))"
proof -
  let ?p = "parse_streaming_flags (ce_parse env) (cf_for fl) (cf_forever fl) (cf_stats fl)"
  have parse: "ce_parse (traced_consume_env env) = ce_parse env" by (simp add: traced_consume_env_def)
  show ?thesis
  proof (cases "(\<exists>x. ?p = Inl x) \<or> (\<exists>x. resolve_consume_target (cf_routing fl) args resolver True = Inl x)")
    case True
    then show ?thesis
      using assms by (cases ?p) (auto simp: do_subscribe_def parse consume_init_def Let_def split: sum.splits)
  next
    case False
    then obtain sf topic where ok: "?p = Inr sf"
      "resolve_consume_target (cf_routing fl) args resolver True = Inr topic"
      by (cases ?p; cases "resolve_consume_target (cf_routing fl) args resolver True") auto
    have "sbs.consume_ended (consume_config_of (traced_consume_env env) fl sf 0) (w, []) (e, s)"
      by (rule sbs.run_consume_ended) (use assms ok in \<open>auto simp: do_subscribe_def parse Let_def\<close>)
    then show ?thesis using ok(1) by (auto simp: sbs.consume_ended_def)
  qed
qed

theorem subscribe_accounts_witness:
  "\<exists>s sf. do_subscribe (traced_consume_env script_consume_env) (sample_flags 1 0) [''t'']
      (traced_topic script_topic) None [] (script_of [(Some (msg ''x''), None)] [], []) = Some (None, s) \<and>
    consume_report (consume_config_of (traced_consume_env script_consume_env) (sample_flags 1 0) sf 0)
      (taken (cs_world s)) (map fst (fed (cs_world s))) None (cs_received s)"
proof -
  obtain s where run: "do_subscribe (traced_consume_env script_consume_env) (sample_flags 1 0) [''t'']
      (traced_topic script_topic) None [] (script_of [(Some (msg ''x''), None)] [], []) = Some (None, s)"
    by (simp add: consume_run)
  then show ?thesis using subscribe_accounts [OF run] by auto
qed

text \<open>
  \<open>peek\<close> removes nothing.  No broker call of a peek acknowledges a message, on a broker
  with a browse cursor, without one, or where browsing turns out to be unsupported; and every
  cursor that was opened is closed, whatever ends the run.
\<close>

theorem peek_is_harmless:
  assumes "do_receive (traced_consume_env env) fl args (traced_queue qb) False resolver extra (w, []) = Some (e, s)"
  shows "list_all peek_event (snd (cs_world s)) \<and> sum_list (map event_cursor (snd (cs_world s))) = 0"
proof -
  let ?env = "traced_consume_env env"
  let ?p = "parse_streaming_flags (ce_parse ?env) (cf_for fl) (cf_forever fl) (cf_stats fl)"
  have start: "peeked 0 (w, [])" by (simp add: peeked_def)
  show ?thesis
  proof (cases "(\<exists>x. ?p = Inl x) \<or> (\<exists>x. resolve_consume_target (cf_routing fl) args resolver False = Inl x)")
    case True
    then show ?thesis
      using assms by (cases ?p) (auto simp: do_receive_def consume_init_def split: sum.splits)
  next
    case False
    then obtain sf queue where ok: "?p = Inr sf"
      "resolve_consume_target (cf_routing fl) args resolver False = Inr queue"
      by (cases ?p; cases "resolve_consume_target (cf_routing fl) args resolver False") auto
    let ?opts = "receive_opts ?env fl queue False extra"
    let ?run = "\<lambda>get. run_consume (ce_stream_ctx ?env) (ce_summary ?env) get
        (consume_config_of ?env fl sf (cf_omit fl)) (sf_duration sf) (sf_stats sf)"
    have noack: "\<not> ro_acknowledge ?opts" by (simp add: receive_opts_def)
    have plain: "peeked 0 (cs_world s)"
      if "?run (\<lambda>ctx. qb_receive (traced_queue qb) ctx ?opts) w1 = Some (e, s)" "peeked 0 w1" for w1
    proof -
      have "peeked 0 (cs_world (snd (e, s)))"
        by (rule run_consume_pres [where P = "peeked 0", OF that])
           (erule (1) peeked_steps(3) [OF _ _ noack] config_outs_peeked)+
      then show ?thesis by simp
    qed
    show ?thesis
    proof (cases "qb_browse (traced_queue qb)")
      case None
      then have "?run (\<lambda>ctx. qb_receive (traced_queue qb) ctx ?opts) (w, []) = Some (e, s)"
        using assms ok by (simp add: do_receive_def Let_def)
      from plain [OF this start] show ?thesis by (simp add: peeked_def)
    next
      case (Some browse)
      obtain r w1 where b: "browse (ce_parent ?env) ?opts (w, []) = (r, w1)" by (metis surj_pair)
      from Some b noack show ?thesis
      proof (cases rule: traced_browse_cases)
        case (failed x)
        then show ?thesis
          using assms ok Some b plain [of w1]
          by (auto simp: do_receive_def Let_def consume_init_def peeked_def split: if_splits)
      next
        case (opened c)
        then obtain s1 where s1: "?run (br_next (traced_browser c)) w1 = Some (e, s1)"
          and s: "s = s1\<lparr>cs_world := close_adapter (br_close (traced_browser c)) (cs_world s1)\<rparr>"
          using assms ok Some b by (auto simp: do_receive_def Let_def)
        have "peeked 1 (cs_world (snd (e, s1)))"
          by (rule run_consume_pres [where P = "peeked 1", OF s1 opened(2)])
             (erule (1) peeked_steps(4) config_outs_peeked)+
        then have "peeked (1 - 1) (close_adapter (br_close (traced_browser c)) (cs_world s1))"
          unfolding close_adapter_def
          by (intro peeked_steps(5) [OF _ surjective_pairing]) simp
        then show ?thesis by (simp add: s peeked_def)
      qed
    qed
  qed
qed

theorem peek_is_harmless_witness:
  "\<exists>e s. do_receive (traced_consume_env script_consume_env) (sample_flags 1 0) [''q'']
      (traced_queue script_queue) False None [] (script_of [(Some (msg ''x''), None)] [], []) = Some (e, s) \<and>
    list_all peek_event (snd (cs_world s)) \<and> snd (cs_world s) \<noteq> []"
proof -
  obtain e s where run: "do_receive (traced_consume_env script_consume_env) (sample_flags 1 0) [''q'']
      (traced_queue script_queue) False None [] (script_of [(Some (msg ''x''), None)] [], []) = Some (e, s)"
    and ne: "snd (cs_world s) \<noteq> []"
    by (simp add: consume_run traced_queue_def)
  then show ?thesis using peek_is_harmless [OF run] by blast
qed

end
