(* ===== verification/Produce.thy ===== *)
theory Produce
  imports Consume
begin

text \<open>
  \<^verbatim>\<open>cmd/produce.go\<close>, \<^verbatim>\<open>cmd/send.go\<close> and \<^verbatim>\<open>cmd/publish.go\<close>: the send and publish commands with
  their three input modes (NDJSON records, lines, one payload a number of times).
\<close>

section \<open>Flags and targets\<close>

record produce_flags =
  pf_content_type :: string
  pf_correlation_id :: string
  pf_message_id :: string
  pf_reply_to :: string
  pf_priority :: int
  pf_persistent :: bool
  pf_key :: string
  pf_count :: int
  pf_ttl :: int
  pf_lines :: bool
  pf_ndjson :: bool
  pf_properties :: props
  pf_limiter :: rate_limiter

text \<open>The values of the command line flags; \<open>pa_ttl\<close> is the duration in nanoseconds.\<close>

record produce_args =
  pa_content_type :: string
  pa_correlation_id :: string
  pa_message_id :: string
  pa_priority :: int
  pa_persistent :: bool
  pa_reply_to :: string
  pa_key :: string
  pa_count :: int
  pa_ttl :: int
  pa_lines :: bool
  pa_ndjson :: bool
  pa_rate :: rat
  pa_property :: "gerr + string list"
  pa_routing :: routing_flags

definition parse_produce_flags :: "produce_args \<Rightarrow> gerr + produce_flags" where
  "parse_produce_flags a =
     (case parse_properties_flag (pa_property a) of
        Inl e \<Rightarrow> Inl e
      | Inr ps \<Rightarrow> Inr
          \<lparr>pf_content_type = pa_content_type a, pf_correlation_id = pa_correlation_id a,
           pf_message_id = pa_message_id a, pf_reply_to = pa_reply_to a, pf_priority = pa_priority a,
           pf_persistent = pa_persistent a, pf_key = pa_key a, pf_count = pa_count a,
           pf_ttl = pa_ttl a div 1000000, pf_lines = pa_lines a, pf_ndjson = pa_ndjson a,
           pf_properties = ps, pf_limiter = new_rate_limiter (pa_rate a)\<rparr>)"

definition resolve_key :: "produce_flags \<Rightarrow> string \<Rightarrow> string" where
  "resolve_key pf record_key = (if record_key \<noteq> [] then record_key else pf_key pf)"

definition resolve_produce_target ::
    "routing_flags \<Rightarrow> string list \<Rightarrow> target_resolver option \<Rightarrow> bool \<Rightarrow> gerr + (string \<times> string list)" where
  "resolve_produce_target fl args resolver is_topic =
     (case resolver of
        None \<Rightarrow>
          (case args of
             [] \<Rightarrow> Inl (ENew ''requires at least 1 arg(s), only received 0'') | a # rest \<Rightarrow> Inr (a, rest))
      | Some resolve \<Rightarrow>
          (let finish = (\<lambda>dest msg_args.
                 case resolve \<lparr>ts_is_topic = is_topic, ts_to = dest, ts_exchange = rf_exchange fl,
                     ts_queue = rf_queue fl\<rparr> of
                   Inl e \<Rightarrow> Inl e | Inr target \<Rightarrow> Inr (target, msg_args))
           in if rf_exchange fl \<noteq> [] \<and> rf_queue fl \<noteq> [] then Inl exclusive_flags
              else if rf_queue fl \<noteq> []
              then (case args of a # b # _ \<Rightarrow> Inl (unexpected_argument a) | _ \<Rightarrow> finish [] args)
              else if rf_exchange fl \<noteq> []
              then (if rf_routing_key fl \<noteq> [] then finish (rf_routing_key fl) args
                    else case args of a # b # rest \<Rightarrow> finish a (b # rest) | _ \<Rightarrow> finish [] args)
              else (case args of [] \<Rightarrow> Inl no_destination | a # rest \<Rightarrow> finish a rest)))"

section \<open>The produce loop\<close>

text \<open>\<open>now\<close> reads the monotonic clock, \<open>sleep d\<close> is \<open>time.Sleep\<close>.\<close>

record 'w produce_env =
  pe_ctx :: "'w ctx"
  pe_now :: "'w \<Rightarrow> int"
  pe_sleep :: "int \<Rightarrow> 'w \<Rightarrow> 'w"
  pe_unmarshal :: "string \<Rightarrow> gerr + message_record"

type_synonym 'w produce_state = "rate_limiter \<times> 'w"

definition limiter_wait :: "'w produce_env \<Rightarrow> 'w produce_state \<Rightarrow> 'w produce_state" where
  "limiter_wait env st =
     (case rl_wait (fst st) (pe_now env (snd st)) of
        (d, lm) \<Rightarrow> (lm, if d > 0 then pe_sleep env d (snd st) else snd st))"

text \<open>Wait for the rate limiter, then emit.\<close>

definition limited :: "'w produce_env \<Rightarrow> ('x \<Rightarrow> 'w \<Rightarrow> gerr option \<times> 'w) \<Rightarrow> 'x \<Rightarrow> 'w produce_state \<Rightarrow>
    gerr option \<times> 'w produce_state" where
  "limited env emit x st =
     (case limiter_wait env st of (lm, w) \<Rightarrow> (case emit x w of (e, w') \<Rightarrow> (e, (lm, w'))))"

fun produce_counted ::
    "'w produce_env \<Rightarrow> (string \<Rightarrow> 'w \<Rightarrow> gerr option \<times> 'w) \<Rightarrow> string \<Rightarrow> nat \<Rightarrow> 'w produce_state \<Rightarrow>
     gerr option \<times> 'w produce_state" where
  "produce_counted env emit data 0 st = (None, st)"
| "produce_counted env emit data (Suc n) st =
     (if pe_ctx env (snd st) \<noteq> None then (pe_ctx env (snd st), st)
      else case limited env emit data st of
             (Some e, st') \<Rightarrow> (Some e, st')
           | (None, st') \<Rightarrow> produce_counted env emit data n st')"

definition run_produce ::
    "'w produce_env \<Rightarrow> input \<Rightarrow> string list \<Rightarrow> produce_flags \<Rightarrow>
     (string \<Rightarrow> 'w \<Rightarrow> gerr option \<times> 'w) \<Rightarrow> (message_record \<Rightarrow> 'w \<Rightarrow> gerr option \<times> 'w) \<Rightarrow> 'w \<Rightarrow>
     gerr option \<times> 'w" where
  "run_produce env inp args pf emit emit_record w =
     (if pf_ndjson pf
      then (case for_each_record (pe_unmarshal env) inp (limited env emit_record) (pf_limiter pf, w) of
              (e, n, st) \<Rightarrow> (e, snd st))
      else if pf_lines pf
      then (case for_each_input_line inp (limited env emit) (pf_limiter pf, w) of (e, n, st) \<Rightarrow> (e, snd st))
      else case read_command_message args inp of
             Inl e \<Rightarrow> (Some e, w)
           | Inr data \<Rightarrow>
               (case produce_counted env emit data (nat (pf_count pf)) (pf_limiter pf, w) of
                  (e, st) \<Rightarrow> (e, snd st)))"

section \<open>send and publish\<close>

definition send_opts :: "produce_flags \<Rightarrow> string \<Rightarrow> (string \<times> string) list \<Rightarrow> string \<Rightarrow> send_options" where
  "send_opts pf queue extra data =
     \<lparr>so_queue = queue, so_message = data, so_properties = pf_properties pf,
      so_message_id = pf_message_id pf, so_correlation_id = pf_correlation_id pf,
      so_reply_to = pf_reply_to pf, so_content_type = pf_content_type pf, so_priority = pf_priority pf,
      so_persistent = pf_persistent pf, so_key = pf_key pf, so_ttl = pf_ttl pf, so_extra = extra\<rparr>"

definition send_record_opts :: "produce_flags \<Rightarrow> string \<Rightarrow> message_record \<Rightarrow> string \<Rightarrow> send_options" where
  "send_record_opts pf queue rec data =
     send_options0\<lparr>so_queue := queue, so_message := data, so_properties := rc_properties rec,
       so_message_id := rc_message_id rec, so_correlation_id := rc_correlation_id rec,
       so_reply_to := rc_reply_to rec, so_content_type := rc_content_type rec,
       so_priority := rc_priority rec, so_persistent := rc_persistent rec,
       so_key := resolve_key pf (rc_key rec), so_ttl := pf_ttl pf\<rparr>"

definition do_send ::
    "'w produce_env \<Rightarrow> produce_args \<Rightarrow> input \<Rightarrow> string list \<Rightarrow> 'w queue_backend \<Rightarrow>
     target_resolver option \<Rightarrow> (string \<times> string) list \<Rightarrow> 'w \<Rightarrow> gerr option \<times> 'w" where
  "do_send env a inp args qb resolver extra w =
     (case parse_produce_flags a of
        Inl e \<Rightarrow> (Some e, w)
      | Inr pf \<Rightarrow>
          (case resolve_produce_target (pa_routing a) args resolver False of
             Inl e \<Rightarrow> (Some e, w)
           | Inr (queue, msg_args) \<Rightarrow>
               run_produce env inp (queue # msg_args) pf
                 (\<lambda>data. qb_send qb (pe_ctx env) (send_opts pf queue extra data))
                 (\<lambda>rec w. case record_payload rec of
                    Inl e \<Rightarrow> (Some e, w)
                  | Inr data \<Rightarrow> qb_send qb (pe_ctx env) (send_record_opts pf queue rec data) w) w))"

definition publish_opts :: "produce_flags \<Rightarrow> string \<Rightarrow> (string \<times> string) list \<Rightarrow> string \<Rightarrow> publish_options" where
  "publish_opts pf topic extra data =
     \<lparr>po_topic = topic, po_message = data, po_key = pf_key pf, po_properties = pf_properties pf,
      po_message_id = pf_message_id pf, po_correlation_id = pf_correlation_id pf,
      po_reply_to = pf_reply_to pf, po_content_type = pf_content_type pf,
      po_priority = pf_priority pf, po_persistent = pf_persistent pf, po_ttl = pf_ttl pf,
      po_extra = extra\<rparr>"

definition publish_record_opts :: "produce_flags \<Rightarrow> string \<Rightarrow> message_record \<Rightarrow> string \<Rightarrow> publish_options" where
  "publish_record_opts pf topic rec data =
     publish_options0\<lparr>po_topic := topic, po_message := data, po_key := resolve_key pf (rc_key rec),
       po_properties := rc_properties rec, po_message_id := rc_message_id rec,
       po_correlation_id := rc_correlation_id rec, po_reply_to := rc_reply_to rec,
       po_content_type := rc_content_type rec, po_priority := rc_priority rec,
       po_persistent := rc_persistent rec, po_ttl := pf_ttl pf\<rparr>"

definition do_publish ::
    "'w produce_env \<Rightarrow> produce_args \<Rightarrow> input \<Rightarrow> string list \<Rightarrow> 'w topic_backend \<Rightarrow>
     target_resolver option \<Rightarrow> (string \<times> string) list \<Rightarrow> 'w \<Rightarrow> gerr option \<times> 'w" where
  "do_publish env a inp args tb resolver extra w =
     (case parse_produce_flags a of
        Inl e \<Rightarrow> (Some e, w)
      | Inr pf \<Rightarrow>
          (case resolve_produce_target (pa_routing a) args resolver True of
             Inl e \<Rightarrow> (Some e, w)
           | Inr (topic, msg_args) \<Rightarrow>
               run_produce env inp (topic # msg_args) pf
                 (\<lambda>data. tb_publish tb (pe_ctx env) (publish_opts pf topic extra data))
                 (\<lambda>rec w. case record_payload rec of
                    Inl e \<Rightarrow> (Some e, w)
                  | Inr data \<Rightarrow> tb_publish tb (pe_ctx env) (publish_record_opts pf topic rec data) w) w))"

section \<open>The sends of a run\<close>

definition traced_produce_env :: "'w produce_env \<Rightarrow> 'w traced produce_env" where
  "traced_produce_env env =
     \<lparr>pe_ctx = (\<lambda>s. pe_ctx env (fst s)), pe_now = (\<lambda>s. pe_now env (fst s)),
      pe_sleep = (\<lambda>d s. (pe_sleep env d (fst s), snd s)), pe_unmarshal = pe_unmarshal env\<rparr>"

text \<open>
  \<open>emits emit ev\<close>: emitting an item adds exactly its event to the trace.
\<close>

definition emits :: "('x \<Rightarrow> 'w traced \<Rightarrow> gerr option \<times> 'w traced) \<Rightarrow> ('x \<Rightarrow> gerr option \<Rightarrow> event) \<Rightarrow> 'x \<Rightarrow> bool" where
  "emits emit ev x \<longleftrightarrow> (\<forall>s e s'. emit x s = (e, s') \<longrightarrow> snd s' = snd s @ [ev x e])"

text \<open>
  \<open>emitted ev xs e tr\<close>: the trace of emitting the items \<open>xs\<close> in order up to the first failure,
  whose error \<open>e\<close> the command returns.
\<close>

definition emitted :: "('x \<Rightarrow> gerr option \<Rightarrow> event) \<Rightarrow> 'x list \<Rightarrow> gerr option \<Rightarrow> event list \<Rightarrow> bool" where
  "emitted ev xs e tr \<longleftrightarrow>
     (e = None \<and> tr = map (\<lambda>x. ev x None) xs) \<or>
     (\<exists>ys z zs f. xs = ys @ z # zs \<and> e = Some f \<and> tr = map (\<lambda>x. ev x None) ys @ [ev z (Some f)])"

lemma emitted_Nil: "emitted ev [] None []"
  by (simp add: emitted_def)

lemma emitted_fail: "emitted ev (x # xs) (Some f) [ev x (Some f)]"
  by (auto simp: emitted_def intro: exI [of _ "[]"])

lemma emitted_Cons:
  assumes "emitted ev xs e tr"
  shows "emitted ev (x # xs) e (ev x None # tr)"
proof -
  from assms consider "e = None" "tr = map (\<lambda>x. ev x None) xs"
    | ys z zs f where "xs = ys @ z # zs" "e = Some f" "tr = map (\<lambda>x. ev x None) ys @ [ev z (Some f)]"
    unfolding emitted_def by blast
  then show ?thesis
  proof cases
    case 1
    then show ?thesis by (simp add: emitted_def)
  next
    case 2
    then show ?thesis
      unfolding emitted_def
      by (intro disjI2 exI [of _ "x # ys"] exI [of _ z] exI [of _ zs] exI [of _ f]) simp
  qed
qed

lemma emitted_map: "emitted ev (map f xs) e tr \<Longrightarrow> emitted (\<lambda>x. ev (f x)) xs e tr"
proof -
  assume "emitted ev (map f xs) e tr"
  then consider "e = None" "tr = map (\<lambda>x. ev x None) (map f xs)"
    | ys z zs g where "map f xs = ys @ z # zs" "e = Some g" "tr = map (\<lambda>x. ev x None) ys @ [ev z (Some g)]"
    unfolding emitted_def by blast
  then show ?thesis
  proof cases
    case 1
    then show ?thesis by (simp add: emitted_def)
  next
    case 2
    from 2(1) obtain us v vs where "xs = us @ v # vs" "ys = map f us" "z = f v"
      by (auto simp: map_eq_append_conv Cons_eq_map_conv map_eq_Cons_conv)
    with 2 show ?thesis
      unfolding emitted_def
      by (intro disjI2 exI [of _ us] exI [of _ v] exI [of _ vs] exI [of _ g]) simp
  qed
qed

lemma limited_trace:
  assumes "limited (traced_produce_env env) emit x (lm, s) = (e, (lm', s'))" and "emits emit ev x"
  shows "snd s' = snd s @ [ev x e]"
proof -
  obtain lm1 s1 where w: "limiter_wait (traced_produce_env env) (lm, s) = (lm1, s1)" by (metis surj_pair)
  have "snd s1 = snd s"
    using w by (auto simp: limiter_wait_def traced_produce_env_def split: prod.splits if_splits)
  moreover have "emit x s1 = (e, s')" using assms(1) w by (auto simp: limited_def split: prod.splits)
  ultimately show ?thesis using assms(2) unfolding emits_def by metis
qed

lemma run_visits_emitted:
  assumes "run_visits (limited (traced_produce_env env) emit) rs (n, lm, s) = (e, n', lm', s')"
    and "\<forall>r \<in> set rs. emits emit ev r"
  shows "\<exists>tr. snd s' = snd s @ tr \<and> emitted ev rs e tr"
  using assms
proof (induction rs arbitrary: n lm s)
  case Nil
  then show ?case by (auto intro: emitted_Nil)
next
  case (Cons r rs)
  obtain e1 lm1 s1 where v: "limited (traced_produce_env env) emit r (lm, s) = (e1, (lm1, s1))"
    by (metis surj_pair)
  have t: "snd s1 = snd s @ [ev r e1]" using limited_trace [OF v] Cons.prems(2) by simp
  show ?case
  proof (cases e1)
    case (Some f)
    then show ?thesis using Cons.prems v t by (auto intro: emitted_fail)
  next
    case None
    then have "run_visits (limited (traced_produce_env env) emit) rs (n + 1, lm1, s1) = (e, n', lm', s')"
      using Cons.prems v by simp
    from Cons.IH [OF this] Cons.prems(2) obtain tr where "snd s' = snd s1 @ tr" "emitted ev rs e tr"
      by auto
    then show ?thesis using t None emitted_Cons by auto
  qed
qed

text \<open>A counted run may also end between two messages, when its context does.\<close>

definition counted_trace ::
    "('x \<Rightarrow> gerr option \<Rightarrow> event) \<Rightarrow> 'x \<Rightarrow> nat \<Rightarrow> (gerr option \<Rightarrow> bool) \<Rightarrow> gerr option \<Rightarrow> event list \<Rightarrow> bool" where
  "counted_trace ev data n stopped e tr \<longleftrightarrow>
     emitted ev (replicate n data) e tr \<or>
     (e \<noteq> None \<and> stopped e \<and> (\<exists>k \<le> n. tr = map (\<lambda>x. ev x None) (replicate k data)))"

lemma counted_trace_stop: "stopped (Some c) \<Longrightarrow> counted_trace ev data n stopped (Some c) []"
  unfolding counted_trace_def by (intro disjI2 conjI exI [of _ 0]) simp_all

lemma counted_trace_Suc:
  assumes "counted_trace ev data n stopped e tr"
  shows "counted_trace ev data (Suc n) stopped e (ev data None # tr)"
proof (cases "emitted ev (replicate n data) e tr")
  case True
  then show ?thesis by (simp add: counted_trace_def emitted_Cons)
next
  case False
  then obtain k where "e \<noteq> None" "stopped e" "k \<le> n" "tr = map (\<lambda>x. ev x None) (replicate k data)"
    using assms by (auto simp: counted_trace_def)
  then show ?thesis
    unfolding counted_trace_def by (intro disjI2 conjI exI [of _ "Suc k"]) simp_all
qed

lemma produce_counted_emitted:
  assumes "produce_counted (traced_produce_env env) emit data n (lm, s) = (e, (lm', s'))"
    and "emits emit ev data"
  shows "\<exists>tr. snd s' = snd s @ tr \<and> counted_trace ev data n (\<lambda>e. pe_ctx env (fst s') = e) e tr"
  using assms
proof (induction n arbitrary: lm s)
  case 0
  then show ?case by (simp add: counted_trace_def emitted_Nil)
next
  case (Suc n)
  show ?case
  proof (cases "pe_ctx env (fst s)")
    case (Some c)
    then have "e = Some c" "s' = s" using Suc.prems(1) by (auto simp: traced_produce_env_def)
    with Some show ?thesis by (intro exI [of _ "[]"]) (simp add: counted_trace_stop)
  next
    case None
    then have ctx: "pe_ctx (traced_produce_env env) s = None" by (simp add: traced_produce_env_def)
    obtain e1 lm1 s1 where v: "limited (traced_produce_env env) emit data (lm, s) = (e1, (lm1, s1))"
      by (metis surj_pair)
    have t: "snd s1 = snd s @ [ev data e1]" using limited_trace [OF v Suc.prems(2)] .
    show ?thesis
    proof (cases e1)
      case (Some f)
      then have "e = Some f" "s' = s1" using Suc.prems(1) v ctx by auto
      then show ?thesis
        using t Some by (intro exI [of _ "[ev data (Some f)]"]) (simp add: counted_trace_def emitted_fail)
    next
      case None
      then have "produce_counted (traced_produce_env env) emit data n (lm1, s1) = (e, (lm', s'))"
        using Suc.prems(1) v ctx by simp
      from Suc.IH [OF this Suc.prems(2)] obtain tr where
        "snd s' = snd s1 @ tr" "counted_trace ev data n (\<lambda>e. pe_ctx env (fst s') = e) e tr" by blast
      then show ?thesis
        using t None by (intro exI [of _ "ev data None # tr"]) (simp add: counted_trace_Suc)
    qed
  qed
qed

lemma send_emits:
  "emits (\<lambda>data. qb_send (traced_queue qb) c (f data)) (\<lambda>data. EvSend (f data)) data"
  by (auto simp: emits_def go_step split: prod.splits)

lemma send_record_emits:
  assumes "record_payload r = Inr data"
  shows "emits (\<lambda>rec w. case record_payload rec of Inl e \<Rightarrow> (Some e, w)
      | Inr data \<Rightarrow> qb_send (traced_queue qb) c (f rec data) w)
    (\<lambda>rec. EvSend (f rec (case record_payload rec of Inr d \<Rightarrow> d | Inl e \<Rightarrow> []))) r"
  using assms by (auto simp: emits_def go_step split: prod.splits)

section \<open>Properties\<close>

text \<open>
  C19: a queue backup restores message by message.  Importing with \<open>send --ndjson\<close> the text
  that an NDJSON export wrote sends the exported messages in order, each with its exact
  payload and all its metadata (key, ids, reply-to, content type, priority, persistence,
  pruned properties; the \<open>--key\<close> flag only where a record has no key), stops at the first
  message the broker refuses and returns that error.
\<close>

theorem send_restores_backup:
  assumes json: "\<forall>m \<in> set ms. json_line marshal (pe_unmarshal env) (new_message_record m True)"
    and pf: "parse_produce_flags a = Inr pf" "pf_ndjson pf"
    and target: "resolve_produce_target (pa_routing a) args resolver False = Inr (queue, msg_args)"
    and exported: "export_all marshal ms [] = (None, txt)"
    and run: "do_send (traced_produce_env env) a \<lparr>in_data = txt, in_err = None, in_file = f\<rparr> args
      (traced_queue qb) resolver extra (w, []) = (e, s)"
  shows "emitted (\<lambda>m. EvSend (send_options0\<lparr>so_queue := queue, so_message := m_data m,
      so_properties := prune_map (m_properties m), so_message_id := m_message_id m,
      so_correlation_id := m_correlation_id m, so_reply_to := m_reply_to m,
      so_content_type := m_content_type m, so_priority := m_priority m,
      so_persistent := m_persistent m, so_key := (if m_key m \<noteq> [] then m_key m else pf_key pf),
      so_ttl := pf_ttl pf\<rparr>)) ms e (snd s)"
proof -
  let ?env = "traced_produce_env env"
  let ?emit = "\<lambda>rec w. case record_payload rec of Inl e \<Rightarrow> (Some e, w)
      | Inr data \<Rightarrow> qb_send (traced_queue qb) (pe_ctx ?env) (send_record_opts pf queue rec data) w"
  let ?ev = "\<lambda>rec. EvSend (send_record_opts pf queue rec (case record_payload rec of Inr d \<Rightarrow> d | Inl e \<Rightarrow> []))"
  let ?rs = "map (\<lambda>m. new_message_record m True) ms"
  have "pe_unmarshal ?env = pe_unmarshal env" by (simp add: traced_produce_env_def)
  moreover obtain n' lm' where "for_each_record (pe_unmarshal ?env) \<lparr>in_data = txt, in_err = None, in_file = f\<rparr>
      (limited ?env ?emit) (pf_limiter pf, (w, [])) = (e, n', lm', s)"
    using run pf target by (auto simp: do_send_def run_produce_def split: prod.splits)
  ultimately have "run_visits (limited ?env ?emit) ?rs (0, pf_limiter pf, (w, [])) = (e, n', lm', s)"
    using export_scan [OF json, of "[]" "limited ?env ?emit"] exported by (auto simp: for_each_record_def)
  moreover have "\<forall>r \<in> set ?rs. emits ?emit ?ev r"
    using record_payload_new by (auto intro!: send_record_emits)
  ultimately obtain tr where tr: "snd s = tr" "emitted ?ev ?rs e tr"
    using run_visits_emitted [of env ?emit ?rs] by fastforce
  have fields: "send_record_opts pf queue (new_message_record m True) (m_data m) =
      send_options0\<lparr>so_queue := queue, so_message := m_data m,
      so_properties := prune_map (m_properties m), so_message_id := m_message_id m,
      so_correlation_id := m_correlation_id m, so_reply_to := m_reply_to m,
      so_content_type := m_content_type m, so_priority := m_priority m,
      so_persistent := m_persistent m, so_key := (if m_key m \<noteq> [] then m_key m else pf_key pf),
      so_ttl := pf_ttl pf\<rparr>" for m
    by (simp add: send_record_opts_def new_message_record_def resolve_key_def Let_def)
  show ?thesis
    using emitted_map [OF tr(2)] unfolding tr(1) by (simp add: record_payload_new fields)
qed

definition sample_produce_env :: "script produce_env" where
  "sample_produce_env = \<lparr>pe_ctx = sc_ctx, pe_now = (\<lambda>w. 0), pe_sleep = (\<lambda>d w. w), pe_unmarshal = sample_unmarshal\<rparr>"

definition sample_args :: "bool \<Rightarrow> int \<Rightarrow> produce_args" where
  "sample_args ndjson count = \<lparr>pa_content_type = [], pa_correlation_id = [], pa_message_id = [],
     pa_priority = 4, pa_persistent = False, pa_reply_to = [], pa_key = ''k'', pa_count = count, pa_ttl = 0,
     pa_lines = False, pa_ndjson = ndjson, pa_rate = 0, pa_property = Inr [''a=b''],
     pa_routing = \<lparr>rf_exchange = [], rf_queue = [], rf_routing_key = []\<rparr>\<rparr>"

lemma sample_args_ok:
  "\<exists>pf. parse_produce_flags (sample_args ndjson count) = Inr pf \<and> pf_ndjson pf = ndjson \<and> \<not> pf_lines pf \<and>
     pf_count pf = count"
  "resolve_produce_target (pa_routing (sample_args ndjson count)) (q # rest) None False = Inr (q, rest)"
  by (simp_all add: parse_produce_flags_def sample_args_def parse_properties_flag_def resolve_produce_target_def)

theorem send_restores_backup_witness:
  "\<exists>txt ev. export_all sample_marshal sample_records [] = (None, txt) \<and>
    (case do_send (traced_produce_env sample_produce_env) (sample_args True 1)
        \<lparr>in_data = txt, in_err = None, in_file = None\<rparr> [''q''] (traced_queue script_queue) None []
        (script_of [] [], []) of
       (e, s) \<Rightarrow> emitted ev sample_records e (snd s))"
proof -
  have json: "\<forall>m \<in> set sample_records.
      json_line sample_marshal (pe_unmarshal sample_produce_env) (new_message_record m True)"
    using sample_json by (simp add: sample_produce_env_def)
  obtain dump where dump: "export_all sample_marshal sample_records [] = (None, dump)"
    using export_scan [OF sample_json, of "[]" "\<lambda>r s. (None, s)"] by auto
  obtain pf where pf: "parse_produce_flags (sample_args True 1) = Inr pf" "pf_ndjson pf"
    using sample_args_ok(1) [of True 1] by blast
  obtain e s where run: "do_send (traced_produce_env sample_produce_env) (sample_args True 1)
      \<lparr>in_data = dump, in_err = None, in_file = None\<rparr> [''q''] (traced_queue script_queue) None []
      (script_of [] [], []) = (e, s)" by (metis surj_pair)
  have "\<exists>ev. emitted ev sample_records e (snd s)"
    by (rule exI) (rule send_restores_backup [OF json pf sample_args_ok(2) dump run])
  then show ?thesis using dump run by auto
qed

text \<open>
  C15: a counted \<open>send\<close> sends the same message, with the options of its flags, exactly
  \<open>--count\<close> times; it ends earlier only at the first error of the broker, which it returns,
  or between two messages when its context ended, with the context's error.
\<close>

theorem send_counted:
  assumes "parse_produce_flags a = Inr pf" and "\<not> pf_ndjson pf" and "\<not> pf_lines pf"
    and "resolve_produce_target (pa_routing a) args resolver False = Inr (queue, msg_args)"
    and "read_command_message (queue # msg_args) inp = Inr data"
    and "do_send (traced_produce_env env) a inp args (traced_queue qb) resolver extra (w, []) = (e, s)"
  shows "counted_trace (\<lambda>d. EvSend (send_opts pf queue extra d)) data (nat (pf_count pf))
    (\<lambda>e. pe_ctx env (fst s) = e) e (snd s)"
proof -
  let ?emit = "\<lambda>data. qb_send (traced_queue qb) (pe_ctx (traced_produce_env env)) (send_opts pf queue extra data)"
  obtain lm where "produce_counted (traced_produce_env env) ?emit data (nat (pf_count pf))
      (pf_limiter pf, (w, [])) = (e, (lm, s))"
    using assms by (auto simp: do_send_def run_produce_def split: prod.splits)
  from produce_counted_emitted [OF this send_emits] show ?thesis by auto
qed

theorem send_counted_witness:
  "\<exists>pf. case do_send (traced_produce_env sample_produce_env) (sample_args False 2)
      \<lparr>in_data = [], in_err = None, in_file = None\<rparr> [''q'', ''hello''] (traced_queue script_queue) None []
      (script_of [] [], []) of
    (e, s) \<Rightarrow> counted_trace (\<lambda>d. EvSend (send_opts pf ''q'' [] d)) ''hello'' 2
      (\<lambda>e. sc_ctx (fst s) = e) e (snd s)"
proof -
  obtain pf where pf: "parse_produce_flags (sample_args False 2) = Inr pf" "\<not> pf_ndjson pf" "\<not> pf_lines pf"
    "pf_count pf = 2" using sample_args_ok(1) [of False 2] by blast
  have data: "read_command_message [''q'', ''hello''] \<lparr>in_data = [], in_err = None, in_file = None\<rparr> = Inr ''hello''"
    by (simp add: read_command_message_def)
  show ?thesis
    using send_counted [OF pf(1-3) sample_args_ok(2) data surjective_pairing, where env = sample_produce_env] pf(4)
    by (auto simp: sample_produce_env_def case_prod_beta)
qed

end
