(* ===== verification/Relay.thy ===== *)
theory Relay
  imports Fixtures
begin

text \<open>
  \<^verbatim>\<open>cmd/move.go\<close> and \<^verbatim>\<open>cmd/forward.go\<close>: the destructive relays of one broker.  The model
  runs the whole command body; the loop state holds the counters, the text written to
  standard output and standard error, the throughput counters and the world.
\<close>

section \<open>The environment of a command\<close>

text \<open>
  \<open>ev_ctx\<close> is \<open>interruptContext(cmd.Context())\<close>, \<open>ev_stream_ctx d\<close> is
  \<open>streamContext(d, cmd.Context())\<close>; \<open>ev_shell command input\<close> runs \<open>sh -c command\<close> and gives
  its result with what it wrote to standard error; \<open>ev_newline\<close> is \<open>shouldAddNewline\<close> of
  the command's output, \<open>ev_stdout_newline\<close> that of the process's standard output;
  \<open>ev_parse\<close> is \<open>time.ParseDuration\<close>.
\<close>

record 'w env =
  ev_ctx :: "'w ctx"
  ev_stream_ctx :: "int \<Rightarrow> 'w ctx"
  ev_shell :: "string \<Rightarrow> string \<Rightarrow> 'w \<Rightarrow> ((gerr + string) \<times> string) \<times> 'w"
  ev_verbose :: bool
  ev_newline :: bool
  ev_stdout_newline :: bool
  ev_parse :: "string \<Rightarrow> gerr + int"

record 'w relay_state =
  fw_n :: int
  fw_out :: string
  fw_errw :: string
  fw_stats :: stream_stats
  fw_world :: 'w

type_synonym 'w relay_result = "gerr option \<times> 'w relay_state"

definition relay_init :: "'w \<Rightarrow> 'w relay_state" where
  "relay_init w = \<lparr>fw_n = 0, fw_out = [], fw_errw = [], fw_stats = new_stream_stats, fw_world = w\<rparr>"

definition undelivered_text :: "bool \<Rightarrow> string \<Rightarrow> string" where
  "undelivered_text nl data = data @ (if nl then newline else [])"

definition emit_undelivered :: "bool \<Rightarrow> string \<Rightarrow> 'w relay_state \<Rightarrow> 'w relay_state" where
  "emit_undelivered nl data s = s\<lparr>fw_out := fw_out s @ undelivered_text nl data\<rparr>"

section \<open>move\<close>

definition move_summary :: "int \<Rightarrow> string \<Rightarrow> string \<Rightarrow> string" where
  "move_summary moved source destination =
     ''Moved '' @ int_text moved @ '' message(s) from '' @ source @ '' to '' @ destination @ newline"

text \<open>Writing the summary to the command's output is taken not to fail.\<close>

definition summarize_move :: "string \<Rightarrow> string \<Rightarrow> 'w relay_state \<Rightarrow> 'w relay_result" where
  "summarize_move source destination s =
     (None, s\<lparr>fw_out := fw_out s @ move_summary (fw_n s) source destination\<rparr>)"

type_synonym 'w reader = "'w ctx \<Rightarrow> 'w \<Rightarrow> read_result \<times> 'w"
type_synonym 'w writer = "'w ctx \<Rightarrow> string \<Rightarrow> message \<Rightarrow> 'w \<Rightarrow> gerr option \<times> 'w"

definition move_read :: "'w queue_backend \<Rightarrow> string \<Rightarrow> rat \<Rightarrow> string \<Rightarrow> 'w reader" where
  "move_read qb source timeout selector ctx =
     qb_receive qb ctx
       (receive_options0\<lparr>ro_queue := source, ro_timeout := timeout, ro_wait := False,
          ro_acknowledge := True, ro_verbosity := VerbosityNormal, ro_selector := selector\<rparr>)"

definition move_write :: "'w queue_backend \<Rightarrow> string \<Rightarrow> 'w writer" where
  "move_write qb destination ctx body m =
     qb_send qb ctx
       (send_options0\<lparr>so_queue := destination, so_message := body,
          so_properties := m_properties m, so_correlation_id := m_correlation_id m,
          so_reply_to := m_reply_to m, so_content_type := m_content_type m,
          so_priority := m_priority m, so_persistent := m_persistent m\<rparr>)"

definition move_body ::
    "'w env \<Rightarrow> 'w reader \<Rightarrow> 'w writer \<Rightarrow> string \<Rightarrow> string \<Rightarrow>
     'w relay_state \<Rightarrow> ('w relay_state, 'w relay_result) flow" where
  "move_body env receive send source destination s =
     (case receive (ev_ctx env) (fw_world s) of
        ((message, err), w) \<Rightarrow>
          (let s1 = s\<lparr>fw_world := w\<rparr> in
           if is_err err ECanceled \<or> is_err err EDeadlineExceeded \<or> is_err err ENoMessageAvailable \<or>
              (message = None \<and> err = None)
           then Return (summarize_move source destination s1)
           else case (err, message) of
                  (Some e, _) \<Rightarrow> Return (Some e, s1)
                | (None, None) \<Rightarrow> Return (summarize_move source destination s1)
                | (None, Some m) \<Rightarrow>
                    (case send (ev_ctx env) (m_data m) m w of
                       (Some se, w2) \<Rightarrow>
                         Return (Some (EWrap (''send to '' @ destination @ '' failed: '') se []),
                           emit_undelivered (ev_stdout_newline env) (m_data m)
                             (s1\<lparr>fw_world := w2,
                                fw_errw := fw_errw s1 @ ''send to '' @ destination @ '' failed after '' @
                                  int_text (fw_n s1) @ '' moved; undelivered message follows on stdout:'' @
                                  newline\<rparr>))
                     | (None, w2) \<Rightarrow> Continue (s1\<lparr>fw_world := w2, fw_n := fw_n s1 + 1\<rparr>))))"

text \<open>\<open>fw_out\<close> joins what goes to the command's output and to the process's standard output.\<close>

definition do_move ::
    "'w env \<Rightarrow> 'w queue_backend \<Rightarrow> string \<Rightarrow> string \<Rightarrow> int \<Rightarrow> string \<Rightarrow> int \<Rightarrow>
     'w \<Rightarrow> 'w relay_result option" where
  "do_move env qb source destination count selector timeout w =
     (if source = destination
      then Some (Some (ENew ''source and destination must differ''), relay_init w)
      else go_for (\<lambda>s. count = 0 \<or> fw_n s < count)
             (move_body env (move_read qb source (seconds_of timeout) selector)
                (move_write qb destination) source destination)
             (summarize_move source destination) (relay_init w))"

section \<open>forward\<close>

definition resolve_forward_topology ::
    "bool \<Rightarrow> bool \<Rightarrow> bool \<Rightarrow> bool \<Rightarrow> bool \<times> bool" where
  "resolve_forward_topology from_flag to_flag queue_capable topic_capable =
     (if topic_capable \<and> \<not> queue_capable then (True, True)
      else if queue_capable \<and> \<not> topic_capable then (False, False)
      else (from_flag, to_flag))"

definition forward_summary :: "int \<Rightarrow> string \<Rightarrow> string \<Rightarrow> string" where
  "forward_summary n source destination =
     ''Forwarded '' @ int_text n @ '' message(s) from '' @ source @ '' to '' @ destination @ newline"

definition summarize_forward :: "string \<Rightarrow> string \<Rightarrow> 'w relay_state \<Rightarrow> 'w relay_result" where
  "summarize_forward source destination s =
     (None, s\<lparr>fw_out := fw_out s @ forward_summary (fw_n s) source destination\<rparr>)"

definition run_shell_command ::
    "'w env \<Rightarrow> string \<Rightarrow> string \<Rightarrow> 'w relay_state \<Rightarrow> (gerr + string) \<times> 'w relay_state" where
  "run_shell_command env command data s =
     (case ev_shell env command data (fw_world s) of
        ((r, diag), w) \<Rightarrow> (r, s\<lparr>fw_world := w, fw_errw := fw_errw s @ diag\<rparr>))"

definition run_command_or_recover ::
    "'w env \<Rightarrow> string \<Rightarrow> string \<Rightarrow> 'w relay_state \<Rightarrow> string option \<times> 'w relay_state" where
  "run_command_or_recover env command data s =
     (if command = [] then (Some data, s)
      else case run_shell_command env command data s of
             (Inr out, s1) \<Rightarrow> (Some out, s1)
           | (Inl e, s1) \<Rightarrow>
               (None, emit_undelivered (ev_newline env) data
                  (s1\<lparr>fw_errw := fw_errw s1 @ ''command failed: '' @ err_text e @ newline\<rparr>)))"

definition forward_read_queue :: "'w queue_backend \<Rightarrow> string \<Rightarrow> rat \<Rightarrow> string \<Rightarrow> 'w reader" where
  "forward_read_queue qb source timeout selector ctx =
     qb_receive qb ctx
       (receive_options0\<lparr>ro_queue := source, ro_timeout := timeout, ro_wait := False,
          ro_acknowledge := True, ro_verbosity := VerbosityNormal, ro_selector := selector\<rparr>)"

definition forward_read_topic ::
    "'w topic_backend \<Rightarrow> string \<Rightarrow> string \<Rightarrow> rat \<Rightarrow> string \<Rightarrow> 'w reader" where
  "forward_read_topic tb source grp timeout selector ctx =
     tb_subscribe tb ctx
       (subscribe_options0\<lparr>uo_topic := source, uo_group_id := grp, uo_timeout := timeout,
          uo_wait := True, uo_verbosity := VerbosityNormal, uo_selector := selector,
          uo_acknowledge := True\<rparr>)"

definition forward_write_queue :: "'w queue_backend \<Rightarrow> string \<Rightarrow> 'w writer" where
  "forward_write_queue qb destination ctx body src =
     qb_send qb ctx
       (send_options0\<lparr>so_queue := destination, so_message := body, so_key := m_key src,
          so_properties := m_properties src, so_message_id := m_message_id src,
          so_correlation_id := m_correlation_id src, so_reply_to := m_reply_to src,
          so_content_type := m_content_type src, so_priority := m_priority src,
          so_persistent := m_persistent src\<rparr>)"

definition forward_write_topic :: "'w topic_backend \<Rightarrow> string \<Rightarrow> 'w writer" where
  "forward_write_topic tb destination ctx body src =
     tb_publish tb ctx
       (publish_options0\<lparr>po_topic := destination, po_message := body, po_key := m_key src,
          po_properties := m_properties src, po_message_id := m_message_id src,
          po_correlation_id := m_correlation_id src, po_reply_to := m_reply_to src,
          po_content_type := m_content_type src, po_priority := m_priority src,
          po_persistent := m_persistent src\<rparr>)"

definition forward_body ::
    "'w env \<Rightarrow> 'w ctx \<Rightarrow> 'w reader \<Rightarrow> 'w writer \<Rightarrow> string \<Rightarrow> bool \<Rightarrow> string \<Rightarrow> string \<Rightarrow>
     'w relay_state \<Rightarrow> ('w relay_state, 'w relay_result) flow" where
  "forward_body env ctx readf writef command quiet source destination s =
     (if ctx (fw_world s) \<noteq> None then Return (summarize_forward source destination s)
      else case readf ctx (fw_world s) of
        ((message, err), w) \<Rightarrow>
          (let s1 = s\<lparr>fw_world := w\<rparr> in
           if is_err err ECanceled then Return (summarize_forward source destination s1)
           else if is_err err EDeadlineExceeded \<or> is_err err ENoMessageAvailable \<or>
              (message = None \<and> err = None) then Continue s1
           else case (err, message) of
                  (Some e, _) \<Rightarrow> Return (Some e, s1)
                | (None, None) \<Rightarrow> Continue s1
                | (None, Some m) \<Rightarrow>
                    (case run_command_or_recover env command (m_data m) s1 of
                       (None, s2) \<Rightarrow> Continue s2
                     | (Some body, s2) \<Rightarrow>
                         (case writef ctx body m (fw_world s2) of
                            (Some we, w3) \<Rightarrow>
                              Return (Some (EWrap (''forward to '' @ destination @ '' failed: '') we []),
                                emit_undelivered (ev_newline env) (m_data m) (s2\<lparr>fw_world := w3\<rparr>))
                          | (None, w3) \<Rightarrow>
                              (let n = fw_n s2 + 1 in
                               Continue (s2\<lparr>fw_world := w3, fw_n := n,
                                 fw_stats := st_record (fw_stats s2) (length body),
                                 fw_errw := fw_errw s2 @
                                   (if \<not> quiet \<and> ev_verbose env
                                    then ''forwarded message '' @ int_text n @ '' to '' @
                                      destination @ newline
                                    else [])\<rparr>))))))"

record forward_flags =
  ff_from_topic :: bool
  ff_to_topic :: bool
  ff_group :: string
  ff_command :: string
  ff_timeout :: int
  ff_count :: int
  ff_selector :: string
  ff_quiet :: bool
  ff_for :: string
  ff_forever :: bool
  ff_stats :: bool

definition forward_loop ::
    "'w env \<Rightarrow> 'w ctx \<Rightarrow> 'w reader \<Rightarrow> 'w writer \<Rightarrow> string \<Rightarrow> bool \<Rightarrow> int \<Rightarrow> string \<Rightarrow> string \<Rightarrow>
     'w \<Rightarrow> 'w relay_result option" where
  "forward_loop env ctx readf writef command quiet count source destination w =
     go_for (\<lambda>s. count \<le> 0 \<or> fw_n s < count)
       (forward_body env ctx readf writef command quiet source destination)
       (summarize_forward source destination) (relay_init w)"

text \<open>
  A \<^const>\<open>None\<close> backend is Go's nil interface.  The branches that would call a method on it
  panic; \<open>FNilBackend\<close> stands for that.
\<close>

datatype 'w forward_outcome = FDone "'w relay_result" | FNilBackend

definition do_forward ::
    "'w env \<Rightarrow> forward_flags \<Rightarrow> string \<Rightarrow> string \<Rightarrow> 'w queue_backend option \<Rightarrow>
     'w topic_backend option \<Rightarrow> 'w \<Rightarrow> 'w forward_outcome option" where
  "do_forward env ff source destination qbo tbo w =
     (let (from_topic, to_topic) =
            resolve_forward_topology (ff_from_topic ff) (ff_to_topic ff) (qbo \<noteq> None) (tbo \<noteq> None)
      in if source = destination \<and> from_topic = to_topic
         then Some (FDone (Some (ENew ''source and destination must differ''), relay_init w))
         else case parse_streaming_flags (ev_parse env) (ff_for ff) (ff_forever ff) (ff_stats ff) of
           Inl e \<Rightarrow> Some (FDone (Some e, relay_init w))
         | Inr sf \<Rightarrow>
             (let timeout = seconds_of (ff_timeout ff);
                  reader = (if from_topic
                    then map_option (\<lambda>tb. forward_read_topic tb source (ff_group ff) timeout (ff_selector ff)) tbo
                    else map_option (\<lambda>qb. forward_read_queue qb source timeout (ff_selector ff)) qbo);
                  writer = (if to_topic
                    then map_option (\<lambda>tb. forward_write_topic tb destination) tbo
                    else map_option (\<lambda>qb. forward_write_queue qb destination) qbo)
              in case (reader, writer) of
                   (Some readf, Some writef) \<Rightarrow>
                     map_option FDone
                       (forward_loop env (ev_stream_ctx env (sf_duration sf)) readf writef
                          (ff_command ff) (ff_quiet ff) (ff_count ff) source destination w)
                 | _ \<Rightarrow> Some FNilBackend))"

text \<open>
  \<open>WrapForwardCommand\<close>: resolve the topology, open only the adapters it needs, run, and
  close what was opened in the reverse order (the deferred calls).
\<close>

definition close_after :: "('w \<Rightarrow> 'w) \<Rightarrow> 'w forward_outcome \<Rightarrow> 'w forward_outcome" where
  "close_after close r =
     (case r of FDone (e, s) \<Rightarrow> FDone (e, s\<lparr>fw_world := close (fw_world s)\<rparr>) | FNilBackend \<Rightarrow> FNilBackend)"

definition wrap_forward_topic ::
    "'w env \<Rightarrow> forward_flags \<Rightarrow> string \<Rightarrow> string \<Rightarrow> bool \<Rightarrow> ('w, 'w topic_backend) factory option \<Rightarrow>
     'w queue_backend option \<Rightarrow> 'w \<Rightarrow> 'w forward_outcome option" where
  "wrap_forward_topic env ff source destination needed tf qbo w =
     (if needed
      then case tf of
             None \<Rightarrow> Some (FDone (Some (ENew ''this broker does not support topic operations''), relay_init w))
           | Some f \<Rightarrow>
               (case f w of
                  (Inl e, w1) \<Rightarrow> Some (FDone (Some e, relay_init w1))
                | (Inr tb, w1) \<Rightarrow>
                    map_option (close_after (close_adapter (tb_close tb)))
                      (do_forward env ff source destination qbo (Some tb) w1))
      else do_forward env ff source destination qbo None w)"

definition wrap_forward ::
    "'w env \<Rightarrow> forward_flags \<Rightarrow> string \<Rightarrow> string \<Rightarrow> ('w, 'w queue_backend) factory option \<Rightarrow>
     ('w, 'w topic_backend) factory option \<Rightarrow> 'w \<Rightarrow> 'w forward_outcome option" where
  "wrap_forward env ff source destination qf tf w =
     (let (from_topic, to_topic) =
            resolve_forward_topology (ff_from_topic ff) (ff_to_topic ff) (qf \<noteq> None) (tf \<noteq> None);
          topic_needed = (from_topic \<or> to_topic)
      in if \<not> from_topic \<or> \<not> to_topic
         then case qf of
                None \<Rightarrow> Some (FDone (Some (ENew ''this broker does not support queue operations''), relay_init w))
              | Some f \<Rightarrow>
                  (case f w of
                     (Inl e, w1) \<Rightarrow> Some (FDone (Some e, relay_init w1))
                   | (Inr qb, w1) \<Rightarrow>
                       map_option (close_after (close_adapter (qb_close qb)))
                         (wrap_forward_topic env ff source destination topic_needed tf (Some qb) w1))
         else wrap_forward_topic env ff source destination topic_needed tf None w)"

section \<open>Accounting of a relay\<close>

text \<open>
  \<open>relay_account nl ident ts bs s tail\<close>: of the messages \<open>ts\<close> taken from the source, in
  their order, some (\<open>fs\<close>) were written to the destination with the bodies \<open>bs\<close>, the
  others (\<open>rs\<close>) were written to the output for recovery, the counter is the number
  written, and the output ends in \<open>tail\<close>.  \<open>ident\<close> says that no shell command transforms
  the bodies.
\<close>

definition relay_account ::
    "bool \<Rightarrow> bool \<Rightarrow> message list \<Rightarrow> string list \<Rightarrow> 'w relay_state \<Rightarrow> string \<Rightarrow> bool" where
  "relay_account nl ident ts bs s tail \<longleftrightarrow>
     (\<exists>fs rs. ts \<in> shuffles fs rs \<and> length bs = length fs \<and> (ident \<longrightarrow> bs = map m_data fs) \<and>
        fw_n s = int (length fs) \<and>
        fw_out s = concat (map (\<lambda>m. undelivered_text nl (m_data m)) rs) @ tail)"

lemma relay_account_init: "relay_account nl ident [] [] (relay_init w) []"
  by (auto simp: relay_account_def relay_init_def)

lemma relay_account_written:
  assumes "relay_account nl ident ts bs s []" and "ident \<longrightarrow> b = m_data m"
    and "fw_n s' = fw_n s + 1" and "fw_out s' = fw_out s"
  shows "relay_account nl ident (ts @ [m]) (bs @ [b]) s' []"
proof -
  obtain fs rs where *: "ts \<in> shuffles fs rs" "length bs = length fs" "ident \<longrightarrow> bs = map m_data fs"
    "fw_n s = int (length fs)" "fw_out s = concat (map (\<lambda>m. undelivered_text nl (m_data m)) rs)"
    using assms(1) by (auto simp: relay_account_def)
  then have "ts @ [m] \<in> shuffles (fs @ [m]) rs" by (simp add: snoc_in_shuffles_left)
  with * assms(2-4) show ?thesis
    unfolding relay_account_def by (intro exI [of _ "fs @ [m]"] exI [of _ rs]) auto
qed

lemma relay_account_recovered:
  assumes "relay_account nl ident ts bs s []"
    and "fw_n s' = fw_n s" and "fw_out s' = fw_out s @ undelivered_text nl (m_data m)"
  shows "relay_account nl ident (ts @ [m]) bs s' []"
proof -
  obtain fs rs where *: "ts \<in> shuffles fs rs" "length bs = length fs" "ident \<longrightarrow> bs = map m_data fs"
    "fw_n s = int (length fs)" "fw_out s = concat (map (\<lambda>m. undelivered_text nl (m_data m)) rs)"
    using assms(1) by (auto simp: relay_account_def)
  then have "ts @ [m] \<in> shuffles fs (rs @ [m])" by (simp add: snoc_in_shuffles_right)
  with * assms(2,3) show ?thesis
    unfolding relay_account_def by (intro exI [of _ fs] exI [of _ "rs @ [m]"]) auto
qed

lemma relay_account_same:
  assumes "relay_account nl ident ts bs s []" and "fw_n s' = fw_n s" and "fw_out s' = fw_out s @ tail"
  shows "relay_account nl ident ts bs s' tail"
  using assms by (auto simp: relay_account_def)

lemma run_command_or_recover_cases:
  assumes "run_command_or_recover env command data s = (r, s')"
  shows "fw_n s' = fw_n s" and "fw_stats s' = fw_stats s"
    and "r = None \<Longrightarrow> fw_out s' = fw_out s @ undelivered_text (ev_newline env) data"
    and "r = Some b \<Longrightarrow> fw_out s' = fw_out s \<and> (command = [] \<longrightarrow> b = data)"
  using assms
  by (auto simp: run_command_or_recover_def run_shell_command_def emit_undelivered_def
      split: if_splits prod.splits sum.splits)

text \<open>The accounting is kept by every relay loop, whatever its source and its sink.\<close>

context relay
begin

definition accounted :: "bool \<Rightarrow> bool \<Rightarrow> 's \<Rightarrow> 's relay_state \<Rightarrow> string \<Rightarrow> bool" where
  "accounted nl ident w0 s tail \<longleftrightarrow>
     (\<exists>ts bs. took (fw_world s) = took w0 @ ts \<and> wrote (fw_world s) = wrote w0 @ map entry bs \<and>
        relay_account nl ident ts bs s tail)"

lemma accountedI:
  assumes "took (fw_world s) = took w0 @ ts" and "wrote (fw_world s) = wrote w0 @ map entry bs"
    and "relay_account nl ident ts bs s tail"
  shows "accounted nl ident w0 s tail"
  using assms by (auto simp: accounted_def)

lemma accounted_init: "accounted nl ident w0 (relay_init w0) []"
  using relay_account_init by (auto simp: accounted_def relay_init_def)

lemma run_command_frame:
  assumes "run_command_or_recover env command data s = (r, s')" and "ev_shell env = shell"
  shows "took (fw_world s') = took (fw_world s)" and "wrote (fw_world s') = wrote (fw_world s)"
proof -
  have "took (fw_world s') = took (fw_world s) \<and> wrote (fw_world s') = wrote (fw_world s)"
    using assms shell_frame
    by (auto simp: run_command_or_recover_def run_shell_command_def emit_undelivered_def
        split: if_splits prod.splits sum.splits)
  then show "took (fw_world s') = took (fw_world s)" and "wrote (fw_world s') = wrote (fw_world s)"
    by auto
qed

lemma forward_body_accounted:
  assumes acc: "accounted (ev_newline env) (command = []) w0 s []"
    and sh: "ev_shell env = shell"
  shows "case forward_body env ctx get put command quiet source destination s of
      Continue s' \<Rightarrow> accounted (ev_newline env) (command = []) w0 s' []
    | Return (e, s') \<Rightarrow> accounted (ev_newline env) (command = []) w0 s'
        (if e = None then forward_summary (fw_n s') source destination else [])"
proof (cases "ctx (fw_world s) = None")
  case False
  then show ?thesis
    using acc
    by (auto simp: forward_body_def summarize_forward_def accounted_def relay_account_def)
next
  case ctx: True
  obtain m e w where rd: "get ctx (fw_world s) = ((m, e), w)" by (metis surj_pair)
  let ?s1 = "s\<lparr>fw_world := w\<rparr>"
  have w1: "wrote w = wrote (fw_world s)" and t1: "took w = took (fw_world s) @ read_msgs (m, e)"
    using read_wrote [OF rd] read_took [OF rd] by auto
  have quiet_read: "read_msgs (m, e) = [] \<Longrightarrow> accounted (ev_newline env) (command = []) w0 ?s1 []"
    using acc w1 t1 by (auto simp: accounted_def relay_account_def)
  show ?thesis
  proof (cases "\<exists>x. m = Some x \<and> e = None")
    case False
    then have none: "read_msgs (m, e) = []" by (cases m; cases e) auto
    show ?thesis
      using ctx rd False quiet_read [OF none]
      by (cases m; cases e)
         (auto simp: forward_body_def summarize_forward_def Let_def accounted_def relay_account_def)
  next
    case True
    then obtain x where x: "m = Some x" "e = None" by blast
    obtain r s2 where rc: "run_command_or_recover env command (m_data x) ?s1 = (r, s2)"
      by (metis surj_pair)
    note cmd = run_command_or_recover_cases [OF rc] run_command_frame [OF rc sh]
    obtain ts bs where acc': "took (fw_world s) = took w0 @ ts" "wrote (fw_world s) = wrote w0 @ map entry bs"
      "relay_account (ev_newline env) (command = []) ts bs s []"
      using acc by (auto simp: accounted_def)
    show ?thesis
    proof (cases r)
      case None
      then have "relay_account (ev_newline env) (command = []) (ts @ [x]) bs s2 []"
        using cmd by (intro relay_account_recovered [OF acc'(3)]) auto
      then show ?thesis
        using ctx rd x rc None cmd acc' t1 w1
        by (auto simp: forward_body_def Let_def accounted_def)
    next
      case (Some body)
      obtain we w3 where wr: "put ctx body x (fw_world s2) = (we, w3)" by (metis surj_pair)
      note wt = write_took [OF wr] write_wrote [OF wr]
      show ?thesis
      proof (cases we)
        case None
        obtain s3 where s3:
            "forward_body env ctx get put command quiet source destination s = Continue s3"
            "fw_world s3 = w3" "fw_n s3 = fw_n s2 + 1" "fw_out s3 = fw_out s2"
          using ctx rd x rc Some wr None by (simp add: forward_body_def Let_def)
        have "relay_account (ev_newline env) (command = []) (ts @ [x]) (bs @ [body]) s3 []"
          using cmd Some s3 by (intro relay_account_written [OF acc'(3)]) auto
        moreover have "took w3 = took w0 @ (ts @ [x])" "wrote w3 = wrote w0 @ map entry (bs @ [body])"
          using None cmd acc' t1 w1 wt x by auto
        ultimately have "accounted (ev_newline env) (command = []) w0 s3 []"
          using s3(2) by (blast intro: accountedI)
        then show ?thesis by (simp add: s3(1))
      next
        case err: (Some f)
        let ?s3 = "emit_undelivered (ev_newline env) (m_data x) (s2\<lparr>fw_world := w3\<rparr>)"
        have "relay_account (ev_newline env) (command = []) (ts @ [x]) bs ?s3 []"
          using cmd Some
          by (intro relay_account_recovered [OF acc'(3)]) (auto simp: emit_undelivered_def)
        moreover have "fw_world ?s3 = w3" by (simp add: emit_undelivered_def)
        ultimately show ?thesis
          using ctx rd x rc Some wr err cmd acc' t1 w1 wt
          by (auto simp: forward_body_def Let_def accounted_def)
      qed
    qed
  qed
qed

text \<open>
  Move stops at the first write that fails, so at every test of its loop condition all
  the messages taken have been delivered.
\<close>

definition moved :: "'s \<Rightarrow> 's relay_state \<Rightarrow> message list \<Rightarrow> bool" where
  "moved w0 s fs \<longleftrightarrow>
     took (fw_world s) = took w0 @ fs \<and> wrote (fw_world s) = wrote w0 @ map (\<lambda>m. entry (m_data m)) fs \<and>
     fw_n s = int (length fs) \<and> fw_out s = []"

definition move_ended ::
    "bool \<Rightarrow> string \<Rightarrow> string \<Rightarrow> 's \<Rightarrow> gerr option \<times> 's relay_state \<Rightarrow> bool" where
  "move_ended nl source destination w0 r \<longleftrightarrow>
     (\<exists>fs rs. took (fw_world (snd r)) = took w0 @ fs @ rs \<and>
        wrote (fw_world (snd r)) = wrote w0 @ map (\<lambda>m. entry (m_data m)) fs \<and>
        fw_n (snd r) = int (length fs) \<and> length rs \<le> 1 \<and> (fst r = None \<longrightarrow> rs = []) \<and>
        fw_out (snd r) = concat (map (\<lambda>m. undelivered_text nl (m_data m)) rs) @
          (if fst r = None then move_summary (fw_n (snd r)) source destination else []))"

lemma summarize_moved:
  "moved w0 s fs \<Longrightarrow> move_ended nl source destination w0 (summarize_move source destination s)"
  by (auto simp: moved_def move_ended_def summarize_move_def)

lemma read_failed_moved:
  "moved w0 s fs \<Longrightarrow> move_ended nl source destination w0 (Some e, s)"
  unfolding move_ended_def moved_def by (intro exI [of _ fs] exI [of _ "[]"]) simp

lemma move_body_moved:
  assumes mv: "moved w0 s fs"
  shows "case move_body env get put source destination s of
      Continue s' \<Rightarrow> \<exists>m. moved w0 s' (fs @ [m])
    | Return r \<Rightarrow> move_ended (ev_stdout_newline env) source destination w0 r"
proof -
  obtain m e w where rd: "get (ev_ctx env) (fw_world s) = ((m, e), w)" by (metis surj_pair)
  have w1: "wrote w = wrote (fw_world s)" and t1: "took w = took (fw_world s) @ read_msgs (m, e)"
    using read_wrote [OF rd] read_took [OF rd] by auto
  show ?thesis
  proof (cases "\<exists>x. m = Some x \<and> e = None")
    case False
    then have "read_msgs (m, e) = []" by (cases m; cases e) auto
    then have "moved w0 (s\<lparr>fw_world := w\<rparr>) fs" using mv t1 w1 by (auto simp: moved_def)
    then show ?thesis
      using rd False
      by (cases m; cases e)
         (auto simp: move_body_def Let_def intro: summarize_moved read_failed_moved)
  next
    case True
    then obtain x where x: "m = Some x" "e = None" by blast
    obtain we w3 where wr: "put (ev_ctx env) (m_data x) x w = (we, w3)" by (metis surj_pair)
    note wt = write_took [OF wr] write_wrote [OF wr]
    show ?thesis
    proof (cases we)
      case None
      then have "moved w0 (s\<lparr>fw_world := w3, fw_n := fw_n s + 1\<rparr>) (fs @ [x])"
        using mv t1 w1 wt x by (auto simp: moved_def)
      then show ?thesis using rd x wr None by (auto simp: move_body_def Let_def)
    next
      case (Some f)
      obtain e3 s3 where s3: "move_body env get put source destination s = Return (Some e3, s3)"
          "fw_world s3 = w3" "fw_n s3 = fw_n s"
          "fw_out s3 = fw_out s @ undelivered_text (ev_stdout_newline env) (m_data x)"
        using rd x wr Some by (simp add: move_body_def Let_def emit_undelivered_def)
      have "move_ended (ev_stdout_newline env) source destination w0 (Some e3, s3)"
        unfolding move_ended_def
        using mv t1 w1 wt x s3 Some by (intro exI [of _ fs] exI [of _ "[x]"]) (auto simp: moved_def)
      then show ?thesis by (simp add: s3(1))
    qed
  qed
qed

lemma move_loop_ended:
  assumes run: "go_for g (move_body env get put source destination)
      (summarize_move source destination) (relay_init w0) = Some r"
  shows "move_ended (ev_stdout_newline env) source destination w0 r"
proof (rule go_for_invariant [where P = "\<lambda>s. \<exists>fs. moved w0 s fs", OF run])
  show "\<exists>fs. moved w0 (relay_init w0) fs" by (simp add: moved_def relay_init_def)
next
  fix s t assume "\<exists>fs. moved w0 s fs" and "move_body env get put source destination s = Continue t"
  then show "\<exists>fs. moved w0 t fs"
    using move_body_moved [where env = env and source = source and destination = destination]
    by fastforce
next
  fix s r assume "\<exists>fs. moved w0 s fs" and "move_body env get put source destination s = Return r"
  then show "move_ended (ev_stdout_newline env) source destination w0 r"
    using move_body_moved [where env = env and source = source and destination = destination]
    by fastforce
next
  fix s assume "\<exists>fs. moved w0 s fs"
  then show "move_ended (ev_stdout_newline env) source destination w0 (summarize_move source destination s)"
    by (auto intro: summarize_moved)
qed

lemma forward_loop_accounted:
  assumes run: "forward_loop env ctx get put command quiet count source destination w0 = Some (e, s)"
    and sh: "ev_shell env = shell"
  shows "accounted (ev_newline env) (command = []) w0 s
    (if e = None then forward_summary (fw_n s) source destination else [])"
proof -
  let ?Q = "\<lambda>(e, s'). accounted (ev_newline env) (command = []) w0 s'
    (if e = None then forward_summary (fw_n s') source destination else [])"
  have "?Q (e, s)"
  proof (rule go_for_invariant [where P = "\<lambda>s. accounted (ev_newline env) (command = []) w0 s []",
        OF run [unfolded forward_loop_def]])
    show "accounted (ev_newline env) (command = []) w0 (relay_init w0) []"
      by (rule accounted_init)
  next
    fix s t assume "accounted (ev_newline env) (command = []) w0 s []"
      and "forward_body env ctx get put command quiet source destination s = Continue t"
    with forward_body_accounted [where ctx = ctx and quiet = quiet and source = source
        and destination = destination, OF this(1) sh]
    show "accounted (ev_newline env) (command = []) w0 t []" by simp
  next
    fix s r assume "accounted (ev_newline env) (command = []) w0 s []"
      and "forward_body env ctx get put command quiet source destination s = Return r"
    with forward_body_accounted [where ctx = ctx and quiet = quiet and source = source
        and destination = destination, OF this(1) sh]
    show "?Q r" by (simp split: prod.splits)
  next
    fix s assume "accounted (ev_newline env) (command = []) w0 s []"
    then show "?Q (summarize_forward source destination s)"
      by (auto simp: summarize_forward_def accounted_def relay_account_def)
  qed
  then show ?thesis by simp
qed

end

section \<open>The traced backends are relay endpoints\<close>

definition traced_env :: "'w env \<Rightarrow> 'w traced env" where
  "traced_env env =
     \<lparr>ev_ctx = (\<lambda>s. ev_ctx env (fst s)), ev_stream_ctx = (\<lambda>d s. ev_stream_ctx env d (fst s)),
      ev_shell = traced_shell (ev_shell env), ev_verbose = ev_verbose env,
      ev_newline = ev_newline env, ev_stdout_newline = ev_stdout_newline env,
      ev_parse = ev_parse env\<rparr>"

interpretation move: relay "move_read (traced_queue qb) source timeout selector" taken
    "move_write (traced_queue qb) destination" "Pair destination" sent "traced_shell sh"
  for qb :: "'w queue_backend" and source timeout selector destination sh
  by unfold_locales
     (auto simp: move_read_def move_write_def
        dest: traced_receive_taken traced_send_sent traced_shell_frame)

interpretation fqq: relay "forward_read_queue (traced_queue qb) source timeout selector" taken
    "forward_write_queue (traced_queue qb) destination" "Pair destination" sent "traced_shell sh"
  for qb :: "'w queue_backend" and source timeout selector destination sh
  by unfold_locales
     (auto simp: forward_read_queue_def forward_write_queue_def
        dest: traced_receive_taken traced_send_sent traced_shell_frame)

interpretation fqt: relay "forward_read_queue (traced_queue qb) source timeout selector" taken
    "forward_write_topic (traced_topic tb) destination" "Pair destination" sent "traced_shell sh"
  for qb :: "'w queue_backend" and tb :: "'w topic_backend"
    and source timeout selector destination sh
  by unfold_locales
     (auto simp: forward_read_queue_def forward_write_topic_def
        dest: traced_receive_taken traced_publish_sent traced_shell_frame)

interpretation ftq: relay "forward_read_topic (traced_topic tb) source grp timeout selector" taken
    "forward_write_queue (traced_queue qb) destination" "Pair destination" sent "traced_shell sh"
  for qb :: "'w queue_backend" and tb :: "'w topic_backend"
    and source grp timeout selector destination sh
  by unfold_locales
     (auto simp: forward_read_topic_def forward_write_queue_def
        dest: traced_subscribe_taken traced_send_sent traced_shell_frame)

interpretation ftt: relay "forward_read_topic (traced_topic tb) source grp timeout selector" taken
    "forward_write_topic (traced_topic tb) destination" "Pair destination" sent "traced_shell sh"
  for tb :: "'w topic_backend" and source grp timeout selector destination sh
  by unfold_locales
     (auto simp: forward_read_topic_def forward_write_topic_def
        dest: traced_subscribe_taken traced_publish_sent traced_shell_frame)

text \<open>A quantity that reads, writes and shell commands keep is kept by the whole loop.\<close>

lemma forward_loop_keeps:
  fixes f :: "'w \<Rightarrow> 'x"
  assumes run: "forward_loop env ctx get put command quiet count source destination w0 = Some (e, s)"
    and get: "\<And>w r w'. get ctx w = (r, w') \<Longrightarrow> f w' = f w"
    and put: "\<And>b m w r w'. put ctx b m w = (r, w') \<Longrightarrow> f w' = f w"
    and sh: "\<And>c i w r w'. ev_shell env c i w = (r, w') \<Longrightarrow> f w' = f w"
  shows "f (fw_world s) = f w0"
proof -
  have rc: "f (fw_world s') = f (fw_world s)"
    if "run_command_or_recover env command d s = (r, s')" for d s r s'
    using that sh
    by (auto simp: run_command_or_recover_def run_shell_command_def emit_undelivered_def
        split: if_splits prod.splits sum.splits)
  have body: "case forward_body env ctx get put command quiet source destination s of
      Continue t \<Rightarrow> f (fw_world t) = f (fw_world s)
    | Return r \<Rightarrow> f (fw_world (snd r)) = f (fw_world s)" for s
    unfolding forward_body_def
    by (auto simp: Let_def summarize_forward_def emit_undelivered_def
        dest!: get rc put split: prod.split option.split)
  have "f (fw_world (snd (e, s))) = f w0"
  proof (rule go_for_invariant [where P = "\<lambda>s. f (fw_world s) = f w0"
        and Q = "\<lambda>r. f (fw_world (snd r)) = f w0", OF run [unfolded forward_loop_def]])
    show "f (fw_world (relay_init w0)) = f w0" by (simp add: relay_init_def)
    show "f (fw_world t) = f w0"
      if "f (fw_world s) = f w0"
        "forward_body env ctx get put command quiet source destination s = Continue t" for s t
      using body [of s] that by simp
    show "f (fw_world (snd r)) = f w0"
      if "f (fw_world s) = f w0"
        "forward_body env ctx get put command quiet source destination s = Return r" for s r
      using body [of s] that by simp
    show "f (fw_world (snd (summarize_forward source destination s))) = f w0"
      if "f (fw_world s) = f w0" for s
      using that by (simp add: summarize_forward_def)
  qed
  then show ?thesis by simp
qed

text \<open>Every outcome of \<open>doForward\<close>, by the topology of its endpoints.\<close>

definition last_read :: "'w traced \<Rightarrow> read_result \<Rightarrow> bool" where
  "last_read w r \<longleftrightarrow> (\<exists>x. last (snd w) = EvReceive x r) \<or> (\<exists>x. last (snd w) = EvSubscribe x r)"

lemma traced_last_read:
  "qb_receive (traced_queue qb) c x s = (r, s') \<Longrightarrow> last_read s' r"
  "tb_subscribe (traced_topic tb) c y s = (r, s') \<Longrightarrow> last_read s' r"
  by (cases s, auto simp: go_step last_read_def split: prod.splits)+

definition relay_endpoints ::
    "'w env \<Rightarrow> string \<Rightarrow> 'w traced reader \<Rightarrow> 'w traced writer \<Rightarrow> bool" where
  "relay_endpoints env destination get put \<longleftrightarrow>
     relay get taken put (Pair destination) sent (traced_shell (ev_shell env)) \<and>
     (\<forall>c w r w'. get c w = (r, w') \<longrightarrow> balance w' = balance w \<and> last_read w' r) \<and>
     (\<forall>c b m w r w'. put c b m w = (r, w') \<longrightarrow> balance w' = balance w)"

lemma relay_endpoints_qq:
  "relay_endpoints env destination (forward_read_queue (traced_queue qb) source t sel)
     (forward_write_queue (traced_queue qb) destination)"
  unfolding relay_endpoints_def
  by (simp add: fqq.relay_axioms)
     (auto simp: forward_read_queue_def forward_write_queue_def dest: traced_balance traced_last_read)

lemma relay_endpoints_qt:
  "relay_endpoints env destination (forward_read_queue (traced_queue qb) source t sel)
     (forward_write_topic (traced_topic tb) destination)"
  unfolding relay_endpoints_def
  by (simp add: fqt.relay_axioms)
     (auto simp: forward_read_queue_def forward_write_topic_def dest: traced_balance traced_last_read)

lemma relay_endpoints_tq:
  "relay_endpoints env destination (forward_read_topic (traced_topic tb) source grp t sel)
     (forward_write_queue (traced_queue qb) destination)"
  unfolding relay_endpoints_def
  by (simp add: ftq.relay_axioms)
     (auto simp: forward_read_topic_def forward_write_queue_def dest: traced_balance traced_last_read)

lemma relay_endpoints_tt:
  "relay_endpoints env destination (forward_read_topic (traced_topic tb) source grp t sel)
     (forward_write_topic (traced_topic tb) destination)"
  unfolding relay_endpoints_def
  by (simp add: ftt.relay_axioms)
     (auto simp: forward_read_topic_def forward_write_topic_def dest: traced_balance traced_last_read)

lemmas relay_endpoints = relay_endpoints_qq relay_endpoints_qt relay_endpoints_tq relay_endpoints_tt

definition forward_ran ::
    "'w env \<Rightarrow> forward_flags \<Rightarrow> string \<Rightarrow> string \<Rightarrow> 'w traced \<Rightarrow> 'w traced relay_result \<Rightarrow> bool" where
  "forward_ran env ff source destination w r \<longleftrightarrow>
     (\<exists>sf get put. relay_endpoints env destination get put \<and>
        parse_streaming_flags (ev_parse env) (ff_for ff) (ff_forever ff) (ff_stats ff) = Inr sf \<and>
        forward_loop (traced_env env) (ev_stream_ctx (traced_env env) (sf_duration sf)) get put
          (ff_command ff) (ff_quiet ff) (ff_count ff) source destination w = Some r)"

lemma forward_ranE:
  assumes "forward_ran env ff source destination w r"
  obtains sf get put where
    "relay get taken put (Pair destination) sent (traced_shell (ev_shell env))"
    "\<And>c w r w'. get c w = (r, w') \<Longrightarrow> balance w' = balance w \<and> last_read w' r"
    "\<And>c b m w r w'. put c b m w = (r, w') \<Longrightarrow> balance w' = balance w"
    "parse_streaming_flags (ev_parse env) (ff_for ff) (ff_forever ff) (ff_stats ff) = Inr sf"
    "forward_loop (traced_env env) (ev_stream_ctx (traced_env env) (sf_duration sf)) get put
       (ff_command ff) (ff_quiet ff) (ff_count ff) source destination w = Some r"
  using assms unfolding forward_ran_def relay_endpoints_def by blast

lemma do_forward_cases:
  assumes run: "do_forward (traced_env env) ff source destination (map_option traced_queue qbo)
      (map_option traced_topic tbo) w = Some outcome"
  obtains (nil) "outcome = FNilBackend" "qbo = None" "tbo = None"
    | (refused) e where "outcome = FDone (Some e, relay_init w)"
    | (ran) r where "outcome = FDone r" "forward_ran env ff source destination w r"
proof -
  obtain ft tt where tp: "resolve_forward_topology (ff_from_topic ff) (ff_to_topic ff)
      (qbo \<noteq> None) (tbo \<noteq> None) = (ft, tt)" by (metis surj_pair)
  let ?p = "parse_streaming_flags (ev_parse (traced_env env)) (ff_for ff) (ff_forever ff) (ff_stats ff)"
  show thesis
  proof (cases "(source = destination \<and> ft = tt) \<or> (\<exists>e. ?p = Inl e)")
    case True
    then show thesis using run tp refused by (auto simp: do_forward_def split: if_splits)
  next
    case False
    then obtain sf where sf: "?p = Inr sf" by (cases ?p) auto
    have ok: "relay_endpoints env destination get put \<Longrightarrow>
        forward_loop (traced_env env) (ev_stream_ctx (traced_env env) (sf_duration sf)) get put
          (ff_command ff) (ff_quiet ff) (ff_count ff) source destination w = Some r \<Longrightarrow>
        forward_ran env ff source destination w r" for get put r
      using sf by (auto simp: forward_ran_def traced_env_def)
    note ok' = relay_endpoints [THEN ok]
    show thesis
      using run tp sf False
      by (cases ft; cases tt; cases qbo; cases tbo)
         (auto simp: do_forward_def resolve_forward_topology_def Let_def
           split: if_splits dest: ok' intro: nil ran)
  qed
qed

section \<open>Every adapter that is opened is closed\<close>

lemma do_forward_balance:
  assumes run: "do_forward (traced_env env) ff source destination (map_option traced_queue qbo)
      (map_option traced_topic tbo) w = Some outcome"
    and have_one: "qbo \<noteq> None \<or> tbo \<noteq> None"
  shows "\<exists>e s. outcome = FDone (e, s) \<and> balance (fw_world s) = balance w"
  using run
proof (cases rule: do_forward_cases)
  case nil
  then show ?thesis using have_one by simp
next
  case (refused e)
  then show ?thesis by (simp add: relay_init_def)
next
  case (ran r)
  obtain e s where r: "r = (e, s)" by (cases r)
  from ran(2) show ?thesis
  proof (cases rule: forward_ranE)
    case (1 sf get put)
    have "balance (fw_world s) = balance w"
      by (rule forward_loop_keeps [OF 1(5) [unfolded r]])
         (auto simp: traced_env_def dest: 1(2,3) traced_shell_balance)
    then show ?thesis using ran(1) r by blast
  qed
qed

lemma close_after_balance:
  assumes "\<And>s e s'. close s = (e, s') \<Longrightarrow> balance s' = balance s - 1"
    and "\<exists>e s. outcome = FDone (e, s) \<and> balance (fw_world s) = n + 1"
  shows "\<exists>e s. close_after (close_adapter close) outcome = FDone (e, s) \<and> balance (fw_world s) = n"
proof -
  obtain e s where o: "outcome = FDone (e, s)" "balance (fw_world s) = n + 1" using assms(2) by blast
  obtain ce w where c: "close (fw_world s) = (ce, w)" by (metis surj_pair)
  show ?thesis using o c assms(1) [OF c] by (simp add: close_after_def close_adapter_def)
qed

lemma wrap_forward_topic_balance:
  assumes run: "wrap_forward_topic (traced_env env) ff source destination needed
      (map_option (traced_factory traced_topic) tf) (map_option traced_queue qbo) w = Some outcome"
    and have_one: "needed \<or> qbo \<noteq> None"
  shows "\<exists>e s. outcome = FDone (e, s) \<and> balance (fw_world s) = balance w"
proof (cases "needed \<and> tf \<noteq> None")
  case False
  then show ?thesis
    using run have_one do_forward_balance [where qbo = qbo and tbo = None]
    by (cases needed) (auto simp: wrap_forward_topic_def relay_init_def)
next
  case True
  then obtain f where f: "tf = Some f" "needed" by auto
  obtain r w1 where open_r: "traced_factory traced_topic f w = (r, w1)" by (metis surj_pair)
  from open_r show ?thesis
  proof (cases rule: traced_factory_cases)
    case (error e)
    then show ?thesis using run f open_r by (auto simp: wrap_forward_topic_def relay_init_def)
  next
    case (opened a)
    then obtain o1 where d: "do_forward (traced_env env) ff source destination
        (map_option traced_queue qbo) (map_option traced_topic (Some a)) w1 = Some o1"
      and oc: "outcome = close_after (close_adapter (tb_close (traced_topic a))) o1"
      using run f open_r by (auto simp: wrap_forward_topic_def)
    show ?thesis
      unfolding oc using do_forward_balance [OF d] opened(2)
      by (intro close_after_balance) (auto dest: traced_topic_close_balance)
  qed
qed

section \<open>Counting and stopping\<close>

text \<open>Why a move ended: its read returned \<open>r\<close> and left the final world.\<close>

definition move_stopped :: "'w env \<Rightarrow> 'w reader \<Rightarrow> int \<Rightarrow> gerr option \<times> 'w relay_state \<Rightarrow> bool" where
  "move_stopped env receive count r \<longleftrightarrow>
     fw_n (snd r) \<le> max 0 count \<and>
     (fst r = None \<and> fw_n (snd r) < count \<longrightarrow>
      (\<exists>w0 x. receive (ev_ctx env) w0 = (x, fw_world (snd r)) \<and>
        (x = (None, None) \<or> is_err (snd x) ECanceled \<or> is_err (snd x) EDeadlineExceeded \<or>
          is_err (snd x) ENoMessageAvailable)))"

lemma move_body_counts:
  "move_body env receive send source destination s = Continue t \<Longrightarrow> fw_n t = fw_n s + 1"
  "move_body env receive send source destination s = Return r \<Longrightarrow> 0 \<le> fw_n s \<Longrightarrow>
     fw_n s < count \<Longrightarrow> move_stopped env receive count r"
proof -
  show "move_body env receive send source destination s = Continue t \<Longrightarrow> fw_n t = fw_n s + 1"
    by (auto simp: move_body_def Let_def split: prod.splits option.splits if_splits)
  show "move_body env receive send source destination s = Return r \<Longrightarrow> 0 \<le> fw_n s \<Longrightarrow>
     fw_n s < count \<Longrightarrow> move_stopped env receive count r"
    by (auto simp: move_body_def Let_def move_stopped_def summarize_move_def emit_undelivered_def max_def
        split: prod.splits option.splits if_splits) (metis is_err_Some)+
qed

text \<open>Forward counts exactly the messages it wrote and never exceeds its bound.\<close>

definition forward_counts :: "int \<Rightarrow> 'w relay_state \<Rightarrow> bool" where
  "forward_counts count s \<longleftrightarrow>
     0 \<le> fw_n s \<and> (0 < count \<longrightarrow> fw_n s \<le> count) \<and> st_count (fw_stats s) = fw_n s"

definition forward_stopped :: "'w ctx \<Rightarrow> 'w reader \<Rightarrow> int \<Rightarrow> gerr option \<times> 'w relay_state \<Rightarrow> bool" where
  "forward_stopped ctx readf count r \<longleftrightarrow>
     forward_counts count (snd r) \<and>
     (fst r = None \<longrightarrow>
       (0 < count \<and> fw_n (snd r) = count) \<or> ctx (fw_world (snd r)) \<noteq> None \<or>
       (\<exists>w0 x. readf ctx w0 = (x, fw_world (snd r)) \<and> is_err (snd x) ECanceled))"

lemma forward_body_counts:
  assumes "forward_counts count s" and "count \<le> 0 \<or> fw_n s < count"
  shows "case forward_body env ctx readf writef command quiet source destination s of
      Continue t \<Rightarrow> forward_counts count t
    | Return r \<Rightarrow> forward_stopped ctx readf count r"
proof (cases "ctx (fw_world s) = None")
  case False
  then show ?thesis
    using assms
    by (simp add: forward_body_def forward_stopped_def forward_counts_def summarize_forward_def)
next
  case ctx: True
  obtain m e w where rd: "readf ctx (fw_world s) = ((m, e), w)" by (metis surj_pair)
  let ?s1 = "s\<lparr>fw_world := w\<rparr>"
  have c1: "forward_counts count ?s1" using assms(1) by (simp add: forward_counts_def)
  show ?thesis
  proof (cases "\<exists>x. m = Some x \<and> e = None")
    case False
    then show ?thesis
      using ctx rd c1
      by (cases m; cases e)
         (auto simp: forward_body_def Let_def forward_stopped_def forward_counts_def summarize_forward_def,
          (metis is_err_Some)+)
  next
    case True
    then obtain x where x: "m = Some x" "e = None" by blast
    obtain r s2 where rc: "run_command_or_recover env command (m_data x) ?s1 = (r, s2)"
      by (metis surj_pair)
    note cmd = run_command_or_recover_cases(1,2) [OF rc]
    have c2: "forward_counts count s2" "count \<le> 0 \<or> fw_n s2 < count"
      using c1 cmd assms(2) by (auto simp: forward_counts_def)
    show ?thesis
    proof (cases r)
      case None
      then show ?thesis using ctx rd x rc c2 by (simp add: forward_body_def Let_def)
    next
      case (Some body)
      obtain we w3 where wr: "writef ctx body x (fw_world s2) = (we, w3)" by (metis surj_pair)
      show ?thesis
        using ctx rd x rc Some wr c2
        by (cases we) (auto simp: forward_body_def Let_def forward_stopped_def forward_counts_def
          emit_undelivered_def st_record_def)
    qed
  qed
qed

lemma forward_loop_stopped:
  assumes "forward_loop env ctx readf writef command quiet count source destination w = Some r"
  shows "forward_stopped ctx readf count r"
proof -
  let ?body = "forward_body env ctx readf writef command quiet source destination"
  note step = forward_body_counts [where env = env and ctx = ctx and readf = readf and writef = writef
      and command = command and quiet = quiet and source = source and destination = destination]
  show ?thesis
  proof (rule go_for_invariant [where P = "forward_counts count", OF assms [unfolded forward_loop_def]])
    show "forward_counts count (relay_init w)"
      by (simp add: forward_counts_def relay_init_def new_stream_stats_def)
    show "forward_counts count t"
      if "forward_counts count s" "count \<le> 0 \<or> fw_n s < count" "?body s = Continue t" for s t
      using step [OF that(1,2)] that(3) by simp
    show "forward_stopped ctx readf count r"
      if "forward_counts count s" "count \<le> 0 \<or> fw_n s < count" "?body s = Return r" for s r
      using step [OF that(1,2)] that(3) by simp
    show "forward_stopped ctx readf count (summarize_forward source destination s)"
      if "forward_counts count s" "\<not> (count \<le> 0 \<or> fw_n s < count)" for s
      using that by (auto simp: forward_stopped_def forward_counts_def summarize_forward_def)
  qed
qed

section \<open>Properties\<close>

text \<open>
  C1: \<open>doMove\<close> loses no message, whatever the broker answers.  The messages taken from the
  source are exactly those whose sends the broker confirmed, in order, followed by at most
  one message whose send failed; that one is written whole to standard output and the
  command fails.  A run that reports success delivered everything it took.
\<close>

theorem move_conserves:
  assumes "do_move (traced_env env) (traced_queue qb) source destination count selector timeout
      (w, []) = Some (e, s)"
  shows "\<exists>fs rs. taken (fw_world s) = fs @ rs \<and>
    sent (fw_world s) = map (\<lambda>m. (destination, m_data m)) fs \<and> fw_n s = int (length fs) \<and>
    length rs \<le> 1 \<and> (e = None \<longrightarrow> rs = []) \<and>
    fw_out s = concat (map (\<lambda>m. undelivered_text (ev_stdout_newline env) (m_data m)) rs) @
      (if e = None then move_summary (fw_n s) source destination else [])"
proof (cases "source = destination")
  case True
  then show ?thesis using assms by (auto simp: do_move_def relay_init_def)
next
  case False
  let ?env = "traced_env env"
  have "move.move_ended destination (ev_stdout_newline ?env) source destination (w, []) (e, s)"
    using assms False by (intro move.move_loop_ended) (simp add: do_move_def)
  then show ?thesis
    by (simp add: move.move_ended_def traced_env_def cong: if_cong split del: if_split)
qed

definition script_env :: "script env" where
  "script_env =
     \<lparr>ev_ctx = sc_ctx, ev_stream_ctx = (\<lambda>d. sc_ctx),
      ev_shell = (\<lambda>c i w. (if c = ''false'' then (Inl (ENew ''exit status 1''), []) else (Inr i, []), w)),
      ev_verbose = False, ev_newline = True, ev_stdout_newline = True, ev_parse = (\<lambda>s. Inr 0)\<rparr>"

lemmas script_run = go_for_unfold relay_init_def script_env_def traced_env_def go_step script_defs
  lower_def traced_shell_def emit_undelivered_def undelivered_text_def newline_def Let_def

lemmas move_run = do_move_def move_body_def move_read_def move_write_def summarize_move_def script_run

definition sample_script :: script where
  "sample_script = script_of [(Some (msg ''x''), None), (Some (msg ''y''), None)] [None, Some EEOF]"

theorem move_conserves_witness:
  "\<exists>e s fs rs. do_move (traced_env script_env) (traced_queue script_queue) ''a'' ''b'' 0 [] 0
      (sample_script, []) = Some (Some e, s) \<and> taken (fw_world s) = fs @ rs \<and>
    sent (fw_world s) = map (\<lambda>m. (''b'', m_data m)) fs \<and> length rs \<le> 1"
proof -
  obtain e s where run: "do_move (traced_env script_env) (traced_queue script_queue) ''a'' ''b'' 0 [] 0
      (sample_script, []) = Some (Some e, s)"
    by (simp add: move_run sample_script_def)
  from move_conserves [OF run] run show ?thesis by blast
qed

text \<open>
  C17: with a \<open>--count\<close>, \<open>doMove\<close> ends whatever the broker does, moves at most that many
  messages, and when it moves fewer without an error it is because the last read found
  the source empty or was cancelled.
\<close>

theorem move_returns:
  assumes "count \<noteq> 0"
  shows "\<exists>e s. do_move env qb source destination count selector timeout w = Some (e, s) \<and>
    fw_n s \<le> max 0 count \<and>
    (e = None \<and> fw_n s < count \<longrightarrow>
      (\<exists>w0 r. move_read qb source (seconds_of timeout) selector (ev_ctx env) w0 = (r, fw_world s) \<and>
        (r = (None, None) \<or> is_err (snd r) ECanceled \<or> is_err (snd r) EDeadlineExceeded \<or>
          is_err (snd r) ENoMessageAvailable)))"
proof (cases "source = destination")
  case True
  then show ?thesis by (simp add: do_move_def relay_init_def)
next
  case False
  let ?rd = "move_read qb source (seconds_of timeout) selector"
  have "\<exists>r. do_move env qb source destination count selector timeout w = Some r \<and>
      move_stopped env ?rd count r"
    unfolding do_move_def if_not_P [OF False]
    by (intro go_for_total [where P = "\<lambda>s. 0 \<le> fw_n s \<and> fw_n s \<le> max 0 count"
          and f = "\<lambda>s. nat (count - fw_n s)"])
       (use assms in \<open>auto simp: relay_init_def summarize_move_def move_stopped_def max_def
          split: if_splits dest!: move_body_counts\<close>)
  then show ?thesis by (auto simp: move_stopped_def)
qed

theorem move_returns_witness:
  "\<exists>e s. do_move script_env script_queue ''a'' ''b'' 1 [] 0 sample_script = Some (e, s) \<and> fw_n s \<le> 1"
  using move_returns [of 1 script_env script_queue "''a''" "''b''" "[]" 0 sample_script] by auto

text \<open>
  C2: \<open>doForward\<close> loses no message in any topology (queue or topic on either side).  Of the
  messages taken, in order, those counted as forwarded are exactly the confirmed writes to
  the destination (unchanged bodies when no command transforms them), and the payload of
  every other one (a failed command or the failed write that ends the run) is written
  whole to the output.
\<close>

theorem forward_conserves:
  assumes "do_forward (traced_env env) ff source destination (map_option traced_queue qbo)
      (map_option traced_topic tbo) (w, []) = Some (FDone (e, s))"
  shows "\<exists>fs rs bs. taken (fw_world s) \<in> shuffles fs rs \<and>
    sent (fw_world s) = map (Pair destination) bs \<and> length bs = length fs \<and>
    (ff_command ff = [] \<longrightarrow> bs = map m_data fs) \<and> fw_n s = int (length fs) \<and>
    fw_out s = concat (map (\<lambda>m. undelivered_text (ev_newline env) (m_data m)) rs) @
      (if e = None then forward_summary (fw_n s) source destination else [])"
  using assms
proof (cases rule: do_forward_cases)
  case (refused e')
  then show ?thesis by (auto simp: relay_init_def)
next
  case (ran r)
  then have "forward_ran env ff source destination (w, []) (e, s)" by simp
  then show ?thesis
  proof (cases rule: forward_ranE)
    case (1 sf get put)
    have "ev_shell (traced_env env) = traced_shell (ev_shell env)" by (simp add: traced_env_def)
    from relay.forward_loop_accounted [OF 1(1,5) this]
    obtain ts bs where t: "taken (fw_world s) = ts" and b: "sent (fw_world s) = map (Pair destination) bs"
      and acc: "relay_account (ev_newline env) (ff_command ff = []) ts bs s
        (if e = None then forward_summary (fw_n s) source destination else [])"
      unfolding relay.accounted_def [OF 1(1)] by (auto simp: traced_env_def)
    from acc show ?thesis
      unfolding relay_account_def t b by blast
  qed
qed simp

lemmas forward_run = do_forward_def resolve_forward_topology_def forward_loop_def forward_body_def
  forward_read_queue_def forward_read_topic_def forward_write_queue_def forward_write_topic_def
  run_command_or_recover_def run_shell_command_def summarize_forward_def parse_streaming_flags_def
  parse_duration_flag_def script_run

definition sample_forward :: "string \<Rightarrow> forward_flags" where
  "sample_forward cmd = \<lparr>ff_from_topic = True, ff_to_topic = False, ff_group = [], ff_command = cmd,
     ff_timeout = 0, ff_count = 0, ff_selector = [], ff_quiet = True, ff_for = [], ff_forever = True,
     ff_stats = False\<rparr>"

theorem forward_conserves_witness:
  "\<exists>e s fs rs. do_forward (traced_env script_env) (sample_forward []) ''a'' ''b''
      (Some (traced_queue script_queue)) (Some (traced_topic script_topic)) (sample_script, []) =
      Some (FDone (Some e, s)) \<and> taken (fw_world s) \<in> shuffles fs rs \<and> fw_n s = int (length fs)"
proof -
  obtain e s where run: "do_forward (traced_env script_env) (sample_forward []) ''a'' ''b''
      (map_option traced_queue (Some script_queue)) (map_option traced_topic (Some script_topic))
      (sample_script, []) = Some (FDone (Some e, s))"
    by (simp add: forward_run sample_script_def sample_forward_def)
  from forward_conserves [OF run] run show ?thesis by auto
qed

text \<open>
  why \<open>doForward\<close> ends.  The counter equals the one of the throughput statistics and
  never exceeds a positive \<open>--count\<close>; a run that ends without an error reached the count,
  or its context (interrupt or \<open>--for\<close> deadline) had fired, or its last read was cancelled:
  an empty source or a failing command never ends it.
\<close>

theorem forward_stops:
  assumes "do_forward (traced_env env) ff source destination (map_option traced_queue qbo)
      (map_option traced_topic tbo) (w, []) = Some (FDone (e, s))"
  shows "st_count (fw_stats s) = fw_n s \<and> (0 < ff_count ff \<longrightarrow> fw_n s \<le> ff_count ff) \<and>
    (e = None \<longrightarrow>
      (0 < ff_count ff \<and> fw_n s = ff_count ff) \<or>
      (\<exists>sf. parse_streaming_flags (ev_parse env) (ff_for ff) (ff_forever ff) (ff_stats ff) = Inr sf \<and>
        ev_stream_ctx env (sf_duration sf) (fst (fw_world s)) \<noteq> None) \<or>
      (\<exists>r. last_read (fw_world s) r \<and> is_err (snd r) ECanceled))"
  using assms
proof (cases rule: do_forward_cases)
  case (refused e')
  then show ?thesis by (auto simp: relay_init_def new_stream_stats_def)
next
  case (ran r)
  then have "forward_ran env ff source destination (w, []) (e, s)" by simp
  then show ?thesis
  proof (cases rule: forward_ranE)
    case (1 sf get put)
    show ?thesis
      using forward_loop_stopped [OF 1(5)] 1(4)
      by (auto simp: forward_stopped_def forward_counts_def traced_env_def dest: 1(2))
  qed
qed simp

theorem forward_stops_witness:
  "\<exists>s. do_forward (traced_env script_env) (sample_forward ''false'') ''a'' ''b''
      (Some (traced_queue script_queue)) (Some (traced_topic script_topic)) (sample_script, []) =
      Some (FDone (None, s)) \<and> st_count (fw_stats s) = fw_n s"
proof -
  obtain s where run: "do_forward (traced_env script_env) (sample_forward ''false'') ''a'' ''b''
      (map_option traced_queue (Some script_queue)) (map_option traced_topic (Some script_topic))
      (sample_script, []) = Some (FDone (None, s))"
    by (simp add: forward_run sample_script_def sample_forward_def)
  from forward_stops [OF run] run show ?thesis by auto
qed

text \<open>
  C16: \<open>WrapForwardCommand\<close> never calls a method on an adapter it did not open, and closes
  every adapter it opened on every path, whichever factories the broker has and whichever
  of them fails.
\<close>

theorem wrap_forward_closes:
  assumes "wrap_forward (traced_env env) ff source destination
      (map_option (traced_factory traced_queue) qf) (map_option (traced_factory traced_topic) tf)
      (w, []) = Some outcome"
  shows "\<exists>e s. outcome = FDone (e, s) \<and> balance (fw_world s) = 0"
proof -
  obtain ft tt where tp: "resolve_forward_topology (ff_from_topic ff) (ff_to_topic ff)
      (qf \<noteq> None) (tf \<noteq> None) = (ft, tt)" by (metis surj_pair)
  show ?thesis
  proof (cases "(\<not> ft \<or> \<not> tt) \<and> qf \<noteq> None")
    case False
    then show ?thesis
      using assms tp wrap_forward_topic_balance [where qbo = None and w = "(w, [])"]
      by (cases "ft \<and> tt") (auto simp: wrap_forward_def relay_init_def)
  next
    case True
    then obtain f where f: "qf = Some f" "\<not> ft \<or> \<not> tt" by auto
    obtain r w1 where open_r: "traced_factory traced_queue f (w, []) = (r, w1)" by (metis surj_pair)
    from open_r show ?thesis
    proof (cases rule: traced_factory_cases)
      case (error e)
      then show ?thesis using assms tp f open_r by (auto simp: wrap_forward_def relay_init_def)
    next
      case (opened a)
      then obtain o1 where d: "wrap_forward_topic (traced_env env) ff source destination (ft \<or> tt)
          (map_option (traced_factory traced_topic) tf) (map_option traced_queue (Some a)) w1 = Some o1"
        and oc: "outcome = close_after (close_adapter (qb_close (traced_queue a))) o1"
        using assms tp f open_r by (auto simp: wrap_forward_def)
      show ?thesis
        unfolding oc using wrap_forward_topic_balance [OF d] opened(2)
        by (intro close_after_balance) (auto dest: traced_queue_close_balance)
    qed
  qed
qed

theorem wrap_forward_closes_witness:
  "\<exists>e s. wrap_forward (traced_env script_env) (sample_forward []) ''a'' ''b''
      (Some (traced_factory traced_queue (\<lambda>w. (Inr script_queue, w))))
      (Some (traced_factory traced_topic (\<lambda>w. (Inr script_topic, w)))) (sample_script, []) =
      Some (FDone (e, s)) \<and> balance (fw_world s) = 0"
proof -
  obtain r where run: "wrap_forward (traced_env script_env) (sample_forward []) ''a'' ''b''
      (map_option (traced_factory traced_queue) (Some (\<lambda>w. (Inr script_queue, w))))
      (map_option (traced_factory traced_topic) (Some (\<lambda>w. (Inr script_topic, w))))
      (sample_script, []) = Some r"
    by (simp add: wrap_forward_def wrap_forward_topic_def traced_factory_def forward_run
        sample_script_def sample_forward_def)
  from wrap_forward_closes [OF run] run show ?thesis by auto
qed

end
