(* ===== verification/Requests.thy ===== *)
theory Requests
  imports Relay Consume
begin

text \<open>
  \<^verbatim>\<open>cmd/request.go\<close> and \<^verbatim>\<open>cmd/reply.go\<close>: the two sides of the request/reply pattern, over the
  exchange of \<^verbatim>\<open>broker/backends/request.go\<close>.
\<close>

section \<open>request\<close>

record request_args =
  qa_content_type :: string
  qa_correlation_id :: string
  qa_message_id :: string
  qa_priority :: int
  qa_persistent :: bool
  qa_reply_to :: string
  qa_timeout :: int
  qa_quiet :: bool
  qa_json :: bool
  qa_format :: string
  qa_property :: "gerr + string list"

text \<open>\<open>one_decimal\<close> is the verb \<open>%.1f\<close>.\<close>

definition request_error :: "(rat \<Rightarrow> string) \<Rightarrow> rat \<Rightarrow> gerr \<Rightarrow> gerr" where
  "request_error one_decimal timeout e =
     (case as_send_error e of
        Some se \<Rightarrow> EWrap ''failed to send request: '' se []
      | None \<Rightarrow>
          (if errors_is e EDeadlineExceeded
           then ENew (''no reply received within '' @ one_decimal timeout @ '' seconds'')
           else if errors_is e ENoMessageAvailable then ENew ''no reply received''
           else EWrap ''request failed: '' e []))"

definition do_request ::
    "8 word list \<times> 8 word list \<Rightarrow> (rat \<Rightarrow> string) \<Rightarrow> 'w ctx \<Rightarrow> 'w consume_env \<Rightarrow> request_args \<Rightarrow> input \<Rightarrow>
     string list \<Rightarrow> 'w queue_backend \<Rightarrow> 'w \<Rightarrow> gerr option \<times> 'w" where
  "do_request rnd one_decimal ctx env a inp args qb w =
     (case parse_properties_flag (qa_property a) of
        Inl e \<Rightarrow> (Some e, w)
      | Inr ps \<Rightarrow>
          (case read_command_message args inp of
             Inl e \<Rightarrow> (Some e, w)
           | Inr data \<Rightarrow>
               (let verb = command_verbosity (ce_verbose env) (qa_quiet a);
                    timeout = seconds_of (qa_timeout a);
                    opts = \<lparr>qo_address = args ! 0, qo_message = data, qo_properties = ps,
                      qo_content_type = qa_content_type a, qo_message_id = qa_message_id a,
                      qo_correlation_id = qa_correlation_id a, qo_reply_to = qa_reply_to a,
                      qo_priority = qa_priority a, qo_persistent = qa_persistent a, qo_timeout = timeout\<rparr>
                in case request rnd ctx qb opts w of
                     ((m, Some e), w1) \<Rightarrow> (Some (request_error one_decimal timeout e), w1)
                   | ((None, None), w1) \<Rightarrow> (Some (ENew ''no reply received''), w1)
                   | ((Some m, None), w1) \<Rightarrow>
                       (if qa_format a \<noteq> [] then display_message_format (ce_data_out env) m (qa_format a) w1
                        else if qa_json a then display_message_json (ce_marshal env) (ce_data_out env) m verb w1
                        else display_message (ce_data_out env) (ce_meta_out env) (ce_newline env) m verb w1))))"

section \<open>reply\<close>

record reply_config =
  rp_echo :: bool
  rp_command :: string
  rp_static :: string
  rp_reply_to :: string
  rp_content_type :: string
  rp_properties :: props

record 'w reply_state =
  rs_served :: int
  rs_errw :: string
  rs_world :: 'w

type_synonym 'w reply_result = "gerr option \<times> 'w reply_state"

definition reply_init :: "'w \<Rightarrow> 'w reply_state" where
  "reply_init w = \<lparr>rs_served = 0, rs_errw = [], rs_world = w\<rparr>"

definition reply_body ::
    "'w env \<Rightarrow> reply_config \<Rightarrow> message \<Rightarrow> 'w reply_state \<Rightarrow> (gerr + string) \<times> 'w reply_state" where
  "reply_body env cfg m s =
     (if rp_echo cfg then (Inr (m_data m), s)
      else if rp_command cfg \<noteq> []
      then (case ev_shell env (rp_command cfg) (m_data m) (rs_world s) of
              ((r, diag), w) \<Rightarrow> (r, s\<lparr>rs_world := w, rs_errw := rs_errw s @ diag\<rparr>))
      else (Inr (rp_static cfg), s))"

definition reply_destination :: "reply_config \<Rightarrow> message \<Rightarrow> string" where
  "reply_destination cfg m = (if m_reply_to m = [] then rp_reply_to cfg else m_reply_to m)"

definition reply_correlation :: "message \<Rightarrow> string" where
  "reply_correlation m = (if m_correlation_id m = [] then m_message_id m else m_correlation_id m)"

definition reply_opts :: "reply_config \<Rightarrow> message \<Rightarrow> string \<Rightarrow> send_options" where
  "reply_opts cfg m body =
     send_options0\<lparr>so_queue := reply_destination cfg m, so_message := body, so_properties := rp_properties cfg,
       so_correlation_id := reply_correlation m, so_content_type := rp_content_type cfg\<rparr>"

definition respond_to_request ::
    "'w env \<Rightarrow> 'w ctx \<Rightarrow> 'w queue_backend \<Rightarrow> message \<Rightarrow> reply_config \<Rightarrow> 'w reply_state \<Rightarrow> 'w reply_result" where
  "respond_to_request env ctx qb m cfg s =
     (if reply_destination cfg m = [] then (None, s)
      else case reply_body env cfg m s of
        (Inl e, s1) \<Rightarrow>
          (None, s1\<lparr>rs_errw := rs_errw s1 @ ''reply command failed: '' @ err_text e @ newline\<rparr>)
      | (Inr body, s1) \<Rightarrow>
          (case qb_send qb ctx (reply_opts cfg m body) (rs_world s1) of
             (e, w) \<Rightarrow> (e, s1\<lparr>rs_world := w\<rparr>)))"

definition reply_step ::
    "'w env \<Rightarrow> 'w ctx \<Rightarrow> 'w queue_backend \<Rightarrow> receive_options \<Rightarrow> reply_config \<Rightarrow> bool \<Rightarrow>
     'w reply_state \<Rightarrow> ('w reply_state, 'w reply_result) flow" where
  "reply_step env ctx qb opts cfg keep_waiting s =
     (if ctx (rs_world s) \<noteq> None then Return (None, s)
      else case qb_receive qb ctx opts (rs_world s) of
        ((message, err), w) \<Rightarrow>
          (let s1 = s\<lparr>rs_world := w\<rparr> in
           if is_err err ECanceled then Return (None, s1)
           else if is_err err EDeadlineExceeded \<or> is_err err ENoMessageAvailable \<or> (message = None \<and> err = None)
           then (if keep_waiting then Continue s1 else Return (None, s1))
           else case (err, message) of
                  (Some e, _) \<Rightarrow> Return (Some e, s1)
                | (None, None) \<Rightarrow> Return (None, s1)
                | (None, Some m) \<Rightarrow>
                    (case respond_to_request env ctx qb m cfg (s1\<lparr>rs_served := rs_served s1 + 1\<rparr>) of
                       (Some e, s2) \<Rightarrow> Return (Some e, s2)
                     | (None, s2) \<Rightarrow> Continue s2)))"

text \<open>The process's standard input: what \<open>Stat\<close> says about it, and its contents.\<close>

definition read_reply_body :: "string list \<Rightarrow> gerr + bool \<Rightarrow> gerr + string \<Rightarrow> gerr + string" where
  "read_reply_body args stdin_stat stdin_data =
     (if length args > 1 then Inr (args ! 1)
      else case stdin_stat of
             Inr False \<Rightarrow> stdin_data
           | _ \<Rightarrow> Inl (ENew ''no response provided: pass a response argument, --echo, or --command''))"

record reply_args =
  ra_echo :: bool
  ra_command :: string
  ra_reply_to :: string
  ra_content_type :: string
  ra_count :: int
  ra_count_changed :: bool
  ra_timeout :: int
  ra_selector :: string
  ra_for :: string
  ra_forever :: bool
  ra_property :: "gerr + string list"
  ra_stdin_stat :: "gerr + bool"
  ra_stdin_data :: "gerr + string"

definition reply_loop ::
    "'w env \<Rightarrow> 'w ctx \<Rightarrow> 'w queue_backend \<Rightarrow> receive_options \<Rightarrow> reply_config \<Rightarrow> bool \<Rightarrow> int \<Rightarrow> 'w \<Rightarrow>
     'w reply_result option" where
  "reply_loop env ctx qb opts cfg keep_waiting count w =
     go_for (\<lambda>s. count = 0 \<or> rs_served s < count) (reply_step env ctx qb opts cfg keep_waiting)
       (\<lambda>s. (None, s)) (reply_init w)"

definition reply_receive_opts :: "reply_args \<Rightarrow> string \<Rightarrow> receive_options" where
  "reply_receive_opts a queue =
     (let timeout = seconds_of (ra_timeout a)
      in receive_options0\<lparr>ro_queue := queue, ro_timeout := timeout, ro_wait := timeout \<le> 0,
           ro_acknowledge := True, ro_verbosity := VerbosityNormal, ro_selector := ra_selector a\<rparr>)"

definition reply_setup :: "(string \<Rightarrow> gerr + int) \<Rightarrow> reply_args \<Rightarrow> string list \<Rightarrow>
    gerr + (streaming_flags \<times> int \<times> reply_config)" where
  "reply_setup parse a args =
     (case parse_streaming_flags parse (ra_for a) (ra_forever a) False of
        Inl e \<Rightarrow> Inl e
      | Inr sf \<Rightarrow>
          (let count = (if (sf_duration sf > 0 \<or> sf_forever sf) \<and> \<not> ra_count_changed a then 0 else ra_count a)
           in case parse_properties_flag (ra_property a) of
                Inl e \<Rightarrow> Inl e
              | Inr ps \<Rightarrow>
                  (if ra_echo a \<and> ra_command a \<noteq> []
                   then Inl (ENew ''--echo and --command are mutually exclusive'')
                   else
                     (let cfg = (\<lambda>body. \<lparr>rp_echo = ra_echo a, rp_command = ra_command a, rp_static = body,
                            rp_reply_to = ra_reply_to a, rp_content_type = ra_content_type a,
                            rp_properties = ps\<rparr>)
                      in if \<not> ra_echo a \<and> ra_command a = []
                         then (case read_reply_body args (ra_stdin_stat a) (ra_stdin_data a) of
                                 Inl e \<Rightarrow> Inl e | Inr body \<Rightarrow> Inr (sf, count, cfg body))
                         else Inr (sf, count, cfg [])))))"

definition do_reply ::
    "'w env \<Rightarrow> reply_args \<Rightarrow> string list \<Rightarrow> 'w queue_backend \<Rightarrow> 'w \<Rightarrow> 'w reply_result option" where
  "do_reply env a args qb w =
     (case reply_setup (ev_parse env) a args of
        Inl e \<Rightarrow> Some (Some e, reply_init w)
      | Inr (sf, count, cfg) \<Rightarrow>
          reply_loop env (ev_stream_ctx env (sf_duration sf)) qb (reply_receive_opts a (args ! 0)) cfg
            (sf_follow sf \<or> count = 0) count w)"

section \<open>The responder\<close>

text \<open>What a responder may rely on: reads and sends of the backend are recorded apart.\<close>

locale responder =
  fixes qb :: "'s queue_backend"
    and took :: "'s \<Rightarrow> message list"
    and outbox :: "'s \<Rightarrow> (send_options \<times> gerr option) list"
    and shell :: "string \<Rightarrow> string \<Rightarrow> 's \<Rightarrow> ((gerr + string) \<times> string) \<times> 's"
  assumes receive_took: "qb_receive qb c x s = (r, s') \<Longrightarrow> took s' = took s @ read_msgs r \<and> outbox s' = outbox s"
    and send_out: "qb_send qb c y s = (e, s') \<Longrightarrow> outbox s' = outbox s @ [(y, e)] \<and> took s' = took s"
    and shell_frame: "shell cmd inp s = (z, s') \<Longrightarrow> took s' = took s \<and> outbox s' = outbox s"

text \<open>The answer to a request whose reply body is \<open>b\<close>, or no answer.\<close>

definition answer :: "reply_config \<Rightarrow> message \<times> string option \<Rightarrow> send_options list" where
  "answer cfg mb =
     (case snd mb of
        None \<Rightarrow> []
      | Some body \<Rightarrow> if reply_destination cfg (fst mb) = [] then [] else [reply_opts cfg (fst mb) body])"

definition body_ok :: "reply_config \<Rightarrow> message \<times> string option \<Rightarrow> bool" where
  "body_ok cfg mb \<longleftrightarrow>
     (rp_echo cfg \<longrightarrow> snd mb = Some (m_data (fst mb))) \<and>
     (\<not> rp_echo cfg \<and> rp_command cfg = [] \<longrightarrow> snd mb = Some (rp_static cfg))"

text \<open>
  \<open>reply_report cfg count e ts out n\<close>: every one of the requests \<open>ts\<close> was answered at most
  once and in order; \<open>n\<close> counts them; only the last answer can have failed, with the error
  that the command returns.
\<close>

definition reply_report ::
    "reply_config \<Rightarrow> int \<Rightarrow> gerr option \<Rightarrow> message list \<Rightarrow> (send_options \<times> gerr option) list \<Rightarrow> int \<Rightarrow> bool" where
  "reply_report cfg count e ts out n \<longleftrightarrow>
     n = int (length ts) \<and> (count \<noteq> 0 \<longrightarrow> n \<le> max 0 count) \<and>
     (\<exists>mbs. map fst mbs = ts \<and> (\<forall>mb \<in> set mbs. body_ok cfg mb) \<and>
        (out = map (\<lambda>x. (x, None)) (concat (map (answer cfg) mbs)) \<or>
         (\<exists>f os y. e = Some f \<and> concat (map (answer cfg) mbs) = os @ [y] \<and>
            out = map (\<lambda>x. (x, None)) os @ [(y, Some f)])))"

lemma reply_body_cases:
  assumes "reply_body env cfg m s = (r, s1)"
  shows "rs_served s1 = rs_served s" and "r = Inr b \<Longrightarrow> body_ok cfg (m, Some b)"
    and "r = Inl x \<Longrightarrow> body_ok cfg (m, None)"
  using assms by (auto simp: reply_body_def body_ok_def split: if_splits prod.splits)

context responder
begin

definition replied :: "reply_config \<Rightarrow> int \<Rightarrow> 's \<Rightarrow> 's reply_state \<Rightarrow> bool" where
  "replied cfg count w0 s \<longleftrightarrow>
     (\<exists>mbs. took (rs_world s) = took w0 @ map fst mbs \<and>
        outbox (rs_world s) = outbox w0 @ map (\<lambda>x. (x, None)) (concat (map (answer cfg) mbs)) \<and>
        (\<forall>mb \<in> set mbs. body_ok cfg mb) \<and> rs_served s = int (length mbs)) \<and>
     (count \<noteq> 0 \<longrightarrow> rs_served s \<le> max 0 count)"

definition reply_ended :: "reply_config \<Rightarrow> int \<Rightarrow> 's \<Rightarrow> 's reply_result \<Rightarrow> bool" where
  "reply_ended cfg count w0 r \<longleftrightarrow>
     (\<exists>ts out. took (rs_world (snd r)) = took w0 @ ts \<and> outbox (rs_world (snd r)) = outbox w0 @ out \<and>
        reply_report cfg count (fst r) ts out (rs_served (snd r)))"

lemma replied_ended: "replied cfg count w0 s \<Longrightarrow> reply_ended cfg count w0 (e, s)"
  unfolding replied_def reply_ended_def reply_report_def by fastforce

lemma replied_frame:
  "replied cfg count w0 s \<Longrightarrow> took (rs_world s') = took (rs_world s) \<Longrightarrow>
   outbox (rs_world s') = outbox (rs_world s) \<Longrightarrow> rs_served s' = rs_served s \<Longrightarrow> replied cfg count w0 s'"
  by (simp add: replied_def)

lemma reply_body_frame:
  assumes "reply_body env cfg m s = (r, s1)" and "ev_shell env = shell"
  shows "took (rs_world s1) = took (rs_world s) \<and> outbox (rs_world s1) = outbox (rs_world s)"
  using assms shell_frame by (auto simp: reply_body_def split: if_splits prod.splits)

lemma respond_replied:
  assumes inv: "replied cfg count w0 s" and more: "count = 0 \<or> rs_served s < count"
    and t: "took w = took (rs_world s) @ [m]" and o: "outbox w = outbox (rs_world s)"
    and sh: "ev_shell env = shell"
    and run: "respond_to_request env ctx qb m cfg (s\<lparr>rs_world := w, rs_served := rs_served s + 1\<rparr>) = (e, s2)"
  shows "(e = None \<longrightarrow> replied cfg count w0 s2) \<and> (e \<noteq> None \<longrightarrow> reply_ended cfg count w0 (e, s2))"
proof -
  let ?s = "s\<lparr>rs_world := w, rs_served := rs_served s + 1\<rparr>"
  obtain mbs where mbs: "took (rs_world s) = took w0 @ map fst mbs"
    "outbox (rs_world s) = outbox w0 @ map (\<lambda>x. (x, None)) (concat (map (answer cfg) mbs))"
    "\<forall>mb \<in> set mbs. body_ok cfg mb" "rs_served s = int (length mbs)"
    using inv by (auto simp: replied_def)
  have cnt: "count \<noteq> 0 \<longrightarrow> rs_served s + 1 \<le> max 0 count" using more by auto
  have step: "replied cfg count w0 s3"
    if "took (rs_world s3) = took w" "outbox (rs_world s3) = outbox w @ map (\<lambda>x. (x, None)) (answer cfg (m, b))"
      "rs_served s3 = rs_served s + 1" "body_ok cfg (m, b)" for s3 b
    unfolding replied_def using that mbs t o cnt by (auto intro!: exI [of _ "mbs @ [(m, b)]"])
  show ?thesis
  proof (cases "reply_destination cfg m = []")
    case True
    then have r: "e = None" "s2 = ?s" using run by (auto simp: respond_to_request_def)
    obtain b where b: "body_ok cfg (m, b)" by (auto simp: body_ok_def)
    have "answer cfg (m, b) = []" using True by (simp add: answer_def split: option.split)
    then show ?thesis using r step [of ?s b] b by simp
  next
    case False
    obtain r s1 where rb: "reply_body env cfg m ?s = (r, s1)" by (metis surj_pair)
    note f = reply_body_frame [OF rb sh] reply_body_cases [OF rb]
    show ?thesis
    proof (cases r)
      case (Inl x)
      then have "replied cfg count w0 s2 \<and> e = None"
        using run False rb f step [of s2 None] by (auto simp: respond_to_request_def answer_def)
      then show ?thesis by simp
    next
      case (Inr body)
      obtain se w2 where sd: "qb_send qb ctx (reply_opts cfg m body) (rs_world s1) = (se, w2)"
        by (metis surj_pair)
      have e: "e = se" "s2 = s1\<lparr>rs_world := w2\<rparr>"
        using run False rb Inr sd by (auto simp: respond_to_request_def)
      have a: "answer cfg (m, Some body) = [reply_opts cfg m body]" using False by (simp add: answer_def)
      have ok: "body_ok cfg (m, Some body)" using f(3) Inr by blast
      note out = send_out [OF sd]
      show ?thesis
      proof (cases se)
        case None
        then show ?thesis using e f out step [of s2 "Some body"] ok a by simp
      next
        case (Some g)
        have "reply_report cfg count (Some g) (map fst (mbs @ [(m, Some body)]))
            (map (\<lambda>x. (x, None)) (concat (map (answer cfg) mbs)) @ [(reply_opts cfg m body, Some g)])
            (rs_served s + 1)"
          unfolding reply_report_def using mbs cnt ok a
          by (auto intro!: exI [of _ "mbs @ [(m, Some body)]"])
        then have "reply_ended cfg count w0 (Some g, s2)"
          unfolding reply_ended_def using mbs t o e f out Some
          by (intro exI [of _ "map fst (mbs @ [(m, Some body)])"]
              exI [of _ "map (\<lambda>x. (x, None)) (concat (map (answer cfg) mbs)) @ [(reply_opts cfg m body, Some g)]"])
             simp
        then show ?thesis using e Some by simp
      qed
    qed
  qed
qed

lemma reply_step_replied:
  assumes inv: "replied cfg count w0 s" and more: "count = 0 \<or> rs_served s < count"
    and sh: "ev_shell env = shell"
  shows "case reply_step env ctx qb opts cfg keep s of
      Continue t \<Rightarrow> replied cfg count w0 t | Return r \<Rightarrow> reply_ended cfg count w0 r"
proof (cases "ctx (rs_world s) = None")
  case False
  then show ?thesis using replied_ended [OF inv] by (simp add: reply_step_def)
next
  case ctx: True
  obtain m e w where rd: "qb_receive qb ctx opts (rs_world s) = ((m, e), w)" by (metis surj_pair)
  note t = receive_took [OF rd]
  show ?thesis
  proof (cases "\<exists>x. m = Some x \<and> e = None")
    case False
    then have "read_msgs (m, e) = []" by (cases m; cases e) auto
    then have r1: "replied cfg count w0 (s\<lparr>rs_world := w\<rparr>)"
      using t by (intro replied_frame [OF inv]) auto
    show ?thesis
      using ctx rd False r1 replied_ended [OF r1]
      by (cases m; cases e) (auto simp: reply_step_def Let_def)
  next
    case True
    then obtain x where x: "m = Some x" "e = None" by blast
    obtain re s2 where rs: "respond_to_request env ctx qb x cfg
        (s\<lparr>rs_world := w, rs_served := rs_served s + 1\<rparr>) = (re, s2)" by (metis surj_pair)
    show ?thesis
      using respond_replied [OF inv more _ _ sh rs] ctx rd x t rs
      by (cases re) (auto simp: reply_step_def Let_def)
  qed
qed

lemma reply_loop_ended:
  assumes run: "reply_loop env ctx qb opts cfg keep count w0 = Some r" and sh: "ev_shell env = shell"
  shows "reply_ended cfg count w0 r"
proof (rule go_for_invariant [where P = "replied cfg count w0", OF run [unfolded reply_loop_def]])
  show "replied cfg count w0 (reply_init w0)"
    by (auto simp: replied_def reply_init_def)
  show "replied cfg count w0 t"
    if "replied cfg count w0 s" "count = 0 \<or> rs_served s < count"
      "reply_step env ctx qb opts cfg keep s = Continue t" for s t
    using reply_step_replied [OF that(1,2) sh, of ctx opts keep] that(3) by simp
  show "reply_ended cfg count w0 r"
    if "replied cfg count w0 s" "count = 0 \<or> rs_served s < count"
      "reply_step env ctx qb opts cfg keep s = Return r" for s r
    using reply_step_replied [OF that(1,2) sh, of ctx opts keep] that(3) by simp
qed (rule replied_ended)

end

section \<open>The traced backend as a responder's broker\<close>

fun event_out :: "event \<Rightarrow> (send_options \<times> gerr option) list" where
  "event_out (EvSend x e) = [(x, e)]"
| "event_out e = []"

definition sends :: "'w traced \<Rightarrow> (send_options \<times> gerr option) list" where
  "sends s = concat (map event_out (snd s))"

interpretation rsp: responder "traced_queue qb" taken sends "traced_shell sh"
  for qb :: "'w queue_backend" and sh
proof unfold_locales
  show "taken s' = taken s @ read_msgs r \<and> sends s' = sends s"
    if "qb_receive (traced_queue qb) c x s = (r, s')" for c x r and s s' :: "'w traced"
    using that traced_receive_taken [OF that]
    by (cases s) (auto simp: go_step sends_def split: prod.splits)
  show "sends s' = sends s @ [(y, e)] \<and> taken s' = taken s"
    if "qb_send (traced_queue qb) c y s = (e, s')" for c y e and s s' :: "'w traced"
    using that traced_send_sent [OF that]
    by (cases s) (auto simp: go_step sends_def split: prod.splits)
  show "taken s' = taken s \<and> sends s' = sends s"
    if "traced_shell sh cmd inp s = (z, s')" for cmd inp z and s s' :: "'w traced"
    using that by (auto simp: traced_shell_def taken_def sends_def split: prod.splits)
qed

section \<open>Properties\<close>


definition sample_reply :: reply_args where
  "sample_reply = \<lparr>ra_echo = True, ra_command = [], ra_reply_to = ''back'', ra_content_type = [],
     ra_count = 1, ra_count_changed = True, ra_timeout = 0, ra_selector = [], ra_for = [],
     ra_forever = False, ra_property = Inr [], ra_stdin_stat = Inr True, ra_stdin_data = Inr []\<rparr>"


text \<open>
  the default request/reply exchange.  It sends one request with a correlation id and a
  reply queue, never empty, and on a confirmed send waits once, for a positive time, on
  exactly that queue; it returns either a message, whose correlation id is the request's or
  absent, or an error, never both or neither, and a failed send is marked as such.
\<close>

theorem default_request_exchange:
  assumes "default_request rnd ctx (traced_queue qb) opts (w, []) = ((m, e), s)"
  shows "\<exists>cid o2. prepare_request rnd opts = (cid, o2) \<and> cid \<noteq> [] \<and> qo_reply_to o2 \<noteq> [] \<and>
    (m = None) = (e \<noteq> None) \<and>
    ((\<exists>f. snd s = [EvSend (request_send_opts cid o2) (Some f)] \<and> e = Some (ERequestSend f)) \<or>
     (\<exists>r. snd s = [EvSend (request_send_opts cid o2) None, EvReceive (request_receive_opts o2) r] \<and>
        0 < ro_timeout (request_receive_opts o2) \<and> ro_queue (request_receive_opts o2) = qo_reply_to o2 \<and>
        (\<forall>x. m = Some x \<longrightarrow> r = (m, None) \<and> m_correlation_id x \<in> {[], cid})))"
proof -
  obtain cid o2 where p: "prepare_request rnd opts = (cid, o2)" by (metis surj_pair)
  have ids: "cid \<noteq> []" "qo_reply_to o2 \<noteq> []"
    using p ensure_correlation_id_nonempty [of rnd opts]
    by (auto simp: prepare_request_def default_reply_queue_def split: prod.splits if_splits)
  have t: "0 < ro_timeout (request_receive_opts o2)" "ro_queue (request_receive_opts o2) = qo_reply_to o2"
    by (simp_all add: request_receive_opts_def default_request_timeout_def)
  have "(m = None) = (e \<noteq> None) \<and>
    ((\<exists>f. snd s = [EvSend (request_send_opts cid o2) (Some f)] \<and> e = Some (ERequestSend f)) \<or>
     (\<exists>r. snd s = [EvSend (request_send_opts cid o2) None, EvReceive (request_receive_opts o2) r] \<and>
        (\<forall>x. m = Some x \<longrightarrow> r = (m, None) \<and> m_correlation_id x \<in> {[], cid})))"
    using assms p
    by (auto simp: default_request_def go_step split: prod.splits option.splits if_splits)
  with p ids t show ?thesis by blast
qed

theorem default_request_exchange_witness:
  "\<exists>m s cid. default_request ([], []) (\<lambda>s. None) (traced_queue script_queue)
      (request_options0\<lparr>qo_address := ''q'', qo_message_id := ''7''\<rparr>)
      (script_of [(Some (msg ''pong''), None)] [], []) = ((Some m, None), s) \<and>
    m_correlation_id m \<in> {[], cid} \<and> length (snd s) = 2"
proof -
  obtain m s where run: "default_request ([], []) (\<lambda>s. None) (traced_queue script_queue)
      (request_options0\<lparr>qo_address := ''q'', qo_message_id := ''7''\<rparr>)
      (script_of [(Some (msg ''pong''), None)] [], []) = ((Some m, None), s)" and l: "length (snd s) = 2"
    by (simp add: default_request_def prepare_request_def ensure_correlation_id_def request_options0_def
        go_step script_defs lower_def Let_def)
  from default_request_exchange [OF run] obtain cid where "m_correlation_id m \<in> {[], cid}" by auto
  with run l show ?thesis by blast
qed



end
