(* ===== verification/Bridge.thy ===== *)
theory Bridge
  imports Relay Records
begin

text \<open>
  \<^verbatim>\<open>cmd/bridge.go\<close>: a destructive read loop that feeds message records to the standard
  input of a target process.  The model runs the command body with the life time of the
  adapter and of the process.
\<close>

section \<open>The target process\<close>

text \<open>
  \<open>tp_start\<close> is \<open>StdinPipe\<close> and \<open>Start\<close> of \<open>$SHELL -c\<close> with the command line, \<open>tp_write\<close> one
  write to the pipe, \<open>tp_finish\<close> the deferred \<open>Close\<close> of the pipe and \<open>Wait\<close>.
\<close>

record 'w target_proc =
  tp_start :: "string \<Rightarrow> string \<Rightarrow> 'w \<Rightarrow> gerr option \<times> 'w"
  tp_write :: "string \<Rightarrow> 'w \<Rightarrow> gerr option \<times> 'w"
  tp_finish :: "'w \<Rightarrow> 'w"

definition target_command :: "string \<Rightarrow> string" where
  "target_command target = (if contains target ''--ndjson'' then target else target @ '' --ndjson'')"

definition start_target_process ::
    "(string \<Rightarrow> string option) \<Rightarrow> 'w target_proc \<Rightarrow> string \<Rightarrow> 'w \<Rightarrow> gerr option \<times> 'w" where
  "start_target_process getenv proc target w =
     (let shell = (case getenv ''SHELL'' of Some s \<Rightarrow> or_default s ''sh'' | None \<Rightarrow> ''sh'')
      in tp_start proc shell (target_command target) w)"

section \<open>The bridge loop\<close>

definition resolve_bridge_topology :: "bool \<Rightarrow> bool \<Rightarrow> bool \<Rightarrow> bool" where
  "resolve_bridge_topology topic_flag queue_capable topic_capable =
     (if topic_capable \<and> \<not> queue_capable then True
      else if queue_capable \<and> \<not> topic_capable then False else topic_flag)"

definition bridge_read_queue :: "'w queue_backend \<Rightarrow> string \<Rightarrow> rat \<Rightarrow> string \<Rightarrow> 'w reader" where
  "bridge_read_queue qb source timeout selector ctx =
     qb_receive qb ctx
       (receive_options0\<lparr>ro_queue := source, ro_timeout := timeout, ro_wait := False,
          ro_acknowledge := True, ro_selector := selector\<rparr>)"

definition bridge_read_topic ::
    "'w topic_backend \<Rightarrow> string \<Rightarrow> string \<Rightarrow> rat \<Rightarrow> string \<Rightarrow> 'w reader" where
  "bridge_read_topic tb source grp timeout selector ctx =
     tb_subscribe tb ctx
       (subscribe_options0\<lparr>uo_topic := source, uo_group_id := grp, uo_timeout := timeout,
          uo_wait := False, uo_selector := selector, uo_acknowledge := True\<rparr>)"

text \<open>\<open>BridgePanic\<close> is the nil dereference of a read that returns neither message nor error.\<close>

datatype 'w bridge_outcome = BridgeDone "'w relay_result" | BridgePanic "'w relay_state"

definition bridge_body ::
    "'w env \<Rightarrow> 'w ctx \<Rightarrow> (message_record \<Rightarrow> gerr + string) \<Rightarrow> 'w target_proc \<Rightarrow> 'w reader \<Rightarrow> string \<Rightarrow>
     bool \<Rightarrow> string \<Rightarrow> string \<Rightarrow> 'w relay_state \<Rightarrow> ('w relay_state, 'w bridge_outcome) flow" where
  "bridge_body env ctx marshal proc readf label quiet source target s =
     (if ctx (fw_world s) \<noteq> None then Return (BridgeDone (summarize_forward source target s))
      else case readf ctx (fw_world s) of
        ((m, Some e), w) \<Rightarrow>
          (let s1 = s\<lparr>fw_world := w\<rparr> in
           if ctx w \<noteq> None then Return (BridgeDone (summarize_forward source target s1))
           else if errors_is e ENoMessageAvailable \<or> errors_is e EDeadlineExceeded then Continue s1
           else Return (BridgeDone (Some (EWrap (label @ '' '' @ source @ '': '') e []), s1)))
      | ((None, None), w) \<Rightarrow> Return (BridgePanic (s\<lparr>fw_world := w\<rparr>))
      | ((Some m, None), w) \<Rightarrow>
          (case display_message_ndjson marshal (\<lambda>t w. snd (tp_write proc t w)) m w of
             (Some e, w2) \<Rightarrow>
               Return (BridgeDone (Some (EWrap ''write to target: '' e []),
                 emit_undelivered (ev_newline env) (m_data m) (s\<lparr>fw_world := w2\<rparr>)))
           | (None, w2) \<Rightarrow>
               (let n = fw_n s + 1 in
                Continue (s\<lparr>fw_world := w2, fw_n := n,
                  fw_stats := st_record (fw_stats s) (length (m_data m)),
                  fw_errw := fw_errw s @
                    (if \<not> quiet \<and> ev_verbose env
                     then ''bridged message '' @ int_text n @ '' from '' @ source @ newline else [])\<rparr>))))"

definition bridge_finish :: "'w target_proc \<Rightarrow> 'w bridge_outcome \<Rightarrow> 'w bridge_outcome" where
  "bridge_finish proc r =
     (case r of
        BridgeDone (e, s) \<Rightarrow> BridgeDone (e, s\<lparr>fw_world := tp_finish proc (fw_world s)\<rparr>)
      | BridgePanic s \<Rightarrow> BridgePanic (s\<lparr>fw_world := tp_finish proc (fw_world s)\<rparr>))"

definition bridge_loop ::
    "'w env \<Rightarrow> 'w ctx \<Rightarrow> (message_record \<Rightarrow> gerr + string) \<Rightarrow> 'w target_proc \<Rightarrow> 'w reader \<Rightarrow> string \<Rightarrow>
     bool \<Rightarrow> int \<Rightarrow> string \<Rightarrow> string \<Rightarrow> 'w relay_state \<Rightarrow> 'w bridge_outcome option" where
  "bridge_loop env ctx marshal proc readf label quiet count source target s0 =
     go_for (\<lambda>s. count = 0 \<or> fw_n s < count)
       (bridge_body env ctx marshal proc readf label quiet source target)
       (\<lambda>s. BridgeDone (summarize_forward source target s)) s0"

text \<open>
  \<open>ff_to_topic\<close> and \<open>ff_command\<close> play no part here; \<open>ff_from_topic\<close> is the flag \<open>--topic\<close>.
  \<open>timed d\<close> is \<open>timedOrInterruptCtx(cmd.Context(), d)\<close>.
\<close>

definition do_bridge ::
    "'w env \<Rightarrow> (int \<Rightarrow> 'w ctx) \<Rightarrow> (string \<Rightarrow> string option) \<Rightarrow> (message_record \<Rightarrow> gerr + string) \<Rightarrow>
     'w target_proc \<Rightarrow> forward_flags \<Rightarrow> string \<Rightarrow> string \<Rightarrow> 'w reader \<times> string \<Rightarrow> 'w \<Rightarrow>
     'w bridge_outcome option" where
  "do_bridge env timed getenv marshal proc ff source target rd w =
     (case parse_streaming_flags (ev_parse env) (ff_for ff) (ff_forever ff) (ff_stats ff) of
        Inl e \<Rightarrow> Some (BridgeDone (Some e, relay_init w))
      | Inr sf \<Rightarrow>
          (case start_target_process getenv proc target w of
             (Some e, w1) \<Rightarrow> Some (BridgeDone (Some e, relay_init w1))
           | (None, w1) \<Rightarrow>
               map_option (bridge_finish proc)
                 (bridge_loop env (timed (sf_duration sf)) marshal proc (fst rd) (snd rd)
                    (ff_quiet ff) (ff_count ff) source target (relay_init w1))))"

definition bridge_reader_topic :: "forward_flags \<Rightarrow> string \<Rightarrow> 'w topic_backend \<Rightarrow> 'w reader \<times> string" where
  "bridge_reader_topic ff source tb =
     (bridge_read_topic tb source (ff_group ff) (seconds_of (ff_timeout ff)) (ff_selector ff),
      ''subscribe from'')"

definition bridge_reader_queue :: "forward_flags \<Rightarrow> string \<Rightarrow> 'w queue_backend \<Rightarrow> 'w reader \<times> string" where
  "bridge_reader_queue ff source qb =
     (bridge_read_queue qb source (seconds_of (ff_timeout ff)) (ff_selector ff), ''receive from'')"

definition close_after_bridge :: "('w \<Rightarrow> gerr option \<times> 'w) \<Rightarrow> 'w bridge_outcome \<Rightarrow> 'w bridge_outcome" where
  "close_after_bridge close r =
     (case r of
        BridgeDone (e, s) \<Rightarrow> BridgeDone (e, s\<lparr>fw_world := close_adapter close (fw_world s)\<rparr>)
      | BridgePanic s \<Rightarrow> BridgePanic (s\<lparr>fw_world := close_adapter close (fw_world s)\<rparr>))"

definition wrap_bridge ::
    "'w env \<Rightarrow> (int \<Rightarrow> 'w ctx) \<Rightarrow> (string \<Rightarrow> string option) \<Rightarrow> (message_record \<Rightarrow> gerr + string) \<Rightarrow>
     'w target_proc \<Rightarrow> forward_flags \<Rightarrow> string \<Rightarrow> string \<Rightarrow> ('w, 'w queue_backend) factory option \<Rightarrow>
     ('w, 'w topic_backend) factory option \<Rightarrow> 'w \<Rightarrow> 'w bridge_outcome option" where
  "wrap_bridge env timed getenv marshal proc ff source target qf tf w =
     (if resolve_bridge_topology (ff_from_topic ff) (qf \<noteq> None) (tf \<noteq> None)
      then case tf of
             None \<Rightarrow> Some (BridgeDone (Some (ENew ''this broker does not support topic operations''), relay_init w))
           | Some f \<Rightarrow>
               (case f w of
                  (Inl e, w1) \<Rightarrow> Some (BridgeDone (Some e, relay_init w1))
                | (Inr tb, w1) \<Rightarrow>
                    map_option (close_after_bridge (tb_close tb))
                      (do_bridge env timed getenv marshal proc ff source target
                         (bridge_reader_topic ff source tb) w1))
      else case qf of
             None \<Rightarrow> Some (BridgeDone (Some (ENew ''this broker does not support queue operations''), relay_init w))
           | Some f \<Rightarrow>
               (case f w of
                  (Inl e, w1) \<Rightarrow> Some (BridgeDone (Some e, relay_init w1))
                | (Inr qb, w1) \<Rightarrow>
                    map_option (close_after_bridge (qb_close qb))
                      (do_bridge env timed getenv marshal proc ff source target
                         (bridge_reader_queue ff source qb) w1)))"

section \<open>Accounting\<close>

definition record_lines :: "(message_record \<Rightarrow> gerr + string) \<Rightarrow> message list \<Rightarrow> string list \<Rightarrow> bool" where
  "record_lines marshal fs ts \<longleftrightarrow>
     list_all2 (\<lambda>m t. \<exists>l. marshal (new_message_record m True) = Inr l \<and> t = l @ newline) fs ts"

fun bridge_state :: "'w bridge_outcome \<Rightarrow> 'w relay_state" where
  "bridge_state (BridgeDone r) = snd r"
| "bridge_state (BridgePanic s) = s"

fun bridge_exit :: "'w bridge_outcome \<Rightarrow> gerr option option" where
  "bridge_exit (BridgeDone r) = Some (fst r)"
| "bridge_exit (BridgePanic s) = None"

text \<open>
  \<open>bridge_account nl marshal source target exit ts us n out\<close>: of the messages \<open>ts\<close> taken, all
  but at most the last were handed on as the record lines \<open>us\<close>, \<open>n\<close> counts those, and the
  payload of the last is on the output, which ends with the summary when the run succeeded.
  \<open>exit\<close> is \<^const>\<open>None\<close> for a panic.
\<close>

definition bridge_account ::
    "bool \<Rightarrow> (message_record \<Rightarrow> gerr + string) \<Rightarrow> string \<Rightarrow> string \<Rightarrow> gerr option option \<Rightarrow>
     message list \<Rightarrow> string list \<Rightarrow> int \<Rightarrow> string \<Rightarrow> bool" where
  "bridge_account nl marshal source target exit ts us n out \<longleftrightarrow>
     (\<exists>fs rs. ts = fs @ rs \<and> record_lines marshal fs us \<and> n = int (length fs) \<and> length rs \<le> 1 \<and>
        (exit = None \<or> exit = Some None \<longrightarrow> rs = []) \<and>
        out = concat (map (\<lambda>m. undelivered_text nl (m_data m)) rs) @
          (if exit = Some None then forward_summary n source target else []))"

context feeder
begin

definition bridged :: "(message_record \<Rightarrow> gerr + string) \<Rightarrow> 's \<Rightarrow> 's relay_state \<Rightarrow> message list \<Rightarrow> bool" where
  "bridged marshal w0 s fs \<longleftrightarrow>
     (\<exists>ts. took (fw_world s) = took w0 @ fs \<and> map fst (texts (fw_world s)) = map fst (texts w0) @ ts \<and>
        record_lines marshal fs ts) \<and>
     fw_n s = int (length fs) \<and> fw_out s = []"

definition bridge_ended ::
    "bool \<Rightarrow> (message_record \<Rightarrow> gerr + string) \<Rightarrow> string \<Rightarrow> string \<Rightarrow> 's \<Rightarrow> 's bridge_outcome \<Rightarrow> bool" where
  "bridge_ended nl marshal source target w0 outcome \<longleftrightarrow>
     (\<exists>ts us. took (fw_world (bridge_state outcome)) = took w0 @ ts \<and>
        map fst (texts (fw_world (bridge_state outcome))) = map fst (texts w0) @ us \<and>
        bridge_account nl marshal source target (bridge_exit outcome) ts us
          (fw_n (bridge_state outcome)) (fw_out (bridge_state outcome)))"

lemma bridge_endedI:
  assumes "bridged marshal w0 s0 fs" and "took (fw_world (bridge_state r)) = took (fw_world s0) @ rs"
    and "texts (fw_world (bridge_state r)) = texts (fw_world s0)" and "fw_n (bridge_state r) = fw_n s0"
    and "length rs \<le> 1" and "bridge_exit r = None \<or> bridge_exit r = Some None \<longrightarrow> rs = []"
    and "fw_out (bridge_state r) = concat (map (\<lambda>m. undelivered_text nl (m_data m)) rs) @
      (if bridge_exit r = Some None then forward_summary (fw_n s0) source target else [])"
  shows "bridge_ended nl marshal source target w0 r"
proof -
  obtain ts where "took (fw_world s0) = took w0 @ fs" "fw_n s0 = int (length fs)"
    "map fst (texts (fw_world s0)) = map fst (texts w0) @ ts" "record_lines marshal fs ts"
    using assms(1) by (auto simp: bridged_def)
  moreover from this have "bridge_account nl marshal source target (bridge_exit r) (fs @ rs) ts
      (fw_n (bridge_state r)) (fw_out (bridge_state r))"
    unfolding bridge_account_def using assms(4-) by (intro exI [of _ fs] exI [of _ rs]) simp
  ultimately show ?thesis
    unfolding bridge_ended_def using assms(2,3) by (intro exI [of _ "fs @ rs"] exI [of _ ts]) simp
qed

lemma bridged_done:
  assumes "bridged marshal w0 s fs"
  shows "bridge_ended nl marshal source target w0 (BridgeDone (summarize_forward source target s))"
    and "bridge_ended nl marshal source target w0 (BridgeDone (Some e, s))"
    and "bridge_ended nl marshal source target w0 (BridgePanic s)"
  using assms
  by (intro bridge_endedI [OF assms, where rs = "[]"]; simp add: bridged_def summarize_forward_def)+

lemma bridge_body_bridged:
  assumes br: "bridged marshal w0 s fs" and wr: "tp_write proc = put_text"
  shows "case bridge_body env ctx marshal proc get label quiet source target s of
      Continue t \<Rightarrow> \<exists>fs. bridged marshal w0 t fs
    | Return r \<Rightarrow> bridge_ended (ev_newline env) marshal source target w0 r"
proof (cases "ctx (fw_world s) = None")
  case False
  then show ?thesis using bridged_done(1) [OF br] by (simp add: bridge_body_def)
next
  case ctx: True
  obtain m e w where rd: "get ctx (fw_world s) = ((m, e), w)" by (metis surj_pair)
  have w1: "texts w = texts (fw_world s)" and t1: "took w = took (fw_world s) @ read_msgs (m, e)"
    using read_texts [OF rd] read_took [OF rd] by auto
  show ?thesis
  proof (cases "\<exists>x. m = Some x \<and> e = None")
    case False
    then have "read_msgs (m, e) = []" by (cases m; cases e) auto
    then have b1: "bridged marshal w0 (s\<lparr>fw_world := w\<rparr>) fs" using br t1 w1 by (auto simp: bridged_def)
    show ?thesis
      using ctx rd False b1 bridged_done [OF b1]
      by (cases m; cases e) (auto simp: bridge_body_def Let_def)
  next
    case True
    then obtain x where x: "m = Some x" "e = None" by blast
    show ?thesis
    proof (cases "marshal (new_message_record x True)")
      case (Inl me)
      have "bridge_ended (ev_newline env) marshal source target w0
          (BridgeDone (Some d, emit_undelivered (ev_newline env) (m_data x) (s\<lparr>fw_world := w\<rparr>)))" for d
        using br t1 w1 x
        by (intro bridge_endedI [OF br, where rs = "[x]"]) (auto simp: emit_undelivered_def bridged_def)
      then show ?thesis using ctx rd x Inl by (simp add: bridge_body_def display_message_ndjson_def)
    next
      case (Inr l)
      obtain we w2 where pt: "put_text (l @ newline) w = (we, w2)" by (metis surj_pair)
      obtain s3 where s3: "bridge_body env ctx marshal proc get label quiet source target s = Continue s3"
          "fw_world s3 = w2" "fw_n s3 = fw_n s + 1" "fw_out s3 = fw_out s"
        using ctx rd x Inr pt wr by (simp add: bridge_body_def display_message_ndjson_def Let_def)
      obtain ts where ts: "took (fw_world s) = took w0 @ fs"
        "map fst (texts (fw_world s)) = map fst (texts w0) @ ts" "record_lines marshal fs ts"
        using br by (auto simp: bridged_def)
      have "record_lines marshal (fs @ [x]) (ts @ [l @ newline])"
        using ts(3) Inr by (auto simp: record_lines_def intro: list_all2_appendI)
      then have "bridged marshal w0 s3 (fs @ [x])"
        using put_texts [OF pt] ts t1 w1 x s3 br
        by (auto simp: bridged_def intro!: exI [of _ "ts @ [l @ newline]"])
      then show ?thesis by (auto simp: s3(1))
    qed
  qed
qed

lemma bridge_loop_ended:
  assumes run: "bridge_loop env ctx marshal proc get label quiet count source target (relay_init w0) = Some r"
    and wr: "tp_write proc = put_text"
  shows "bridge_ended (ev_newline env) marshal source target w0 r"
proof -
  let ?body = "bridge_body env ctx marshal proc get label quiet source target"
  note step = bridge_body_bridged [OF _ wr, where env = env and ctx = ctx and label = label
      and quiet = quiet and source = source and target = target]
  show ?thesis
  proof (rule go_for_invariant [where P = "\<lambda>s. \<exists>fs. bridged marshal w0 s fs",
        OF run [unfolded bridge_loop_def]])
    show "\<exists>fs. bridged marshal w0 (relay_init w0) fs"
      by (auto simp: bridged_def relay_init_def record_lines_def)
    show "\<exists>fs. bridged marshal w0 t fs"
      if "\<exists>fs. bridged marshal w0 s fs" "?body s = Continue t" for s t
      using that step by fastforce
    show "bridge_ended (ev_newline env) marshal source target w0 r"
      if "\<exists>fs. bridged marshal w0 s fs" "?body s = Return r" for s r
      using that step by fastforce
    show "bridge_ended (ev_newline env) marshal source target w0
        (BridgeDone (summarize_forward source target s))"
      if "\<exists>fs. bridged marshal w0 s fs" for s
      using that bridged_done(1) by blast
  qed
qed

end

section \<open>The traced target\<close>

definition traced_target :: "'w target_proc \<Rightarrow> 'w traced target_proc" where
  "traced_target p =
     \<lparr>tp_start = (\<lambda>sh cmd (w, tr). case tp_start p sh cmd w of
          (None, w') \<Rightarrow> (None, (w', tr @ [EvSpawn cmd])) | (Some e, w') \<Rightarrow> (Some e, (w', tr))),
      tp_write = (\<lambda>t (w, tr). case tp_write p t w of (e, w') \<Rightarrow> (e, (w', tr @ [EvFeed t e]))),
      tp_finish = (\<lambda>(w, tr). (tp_finish p w, tr @ [EvReap]))\<rparr>"

lemma traced_write_facts:
  "tp_write (traced_target p) t s = (e, s') \<Longrightarrow>
   fed s' = fed s @ [(t, e)] \<and> taken s' = taken s \<and> balance s' = balance s"
  by (cases s) (auto simp: traced_target_def fed_def taken_def balance_def split: prod.splits)

lemma traced_start_facts:
  "tp_start (traced_target p) sh cmd s = (e, s') \<Longrightarrow>
   fed s' = fed s \<and> taken s' = taken s \<and> balance s' = balance s + (if e = None then 1 else 0)"
  by (cases s) (auto simp: traced_target_def fed_def taken_def balance_def split: prod.splits option.splits)

lemma traced_finish_facts:
  "fed (tp_finish (traced_target p) s) = fed s \<and> taken (tp_finish (traced_target p) s) = taken s \<and>
   balance (tp_finish (traced_target p) s) = balance s - 1"
  by (cases s) (auto simp: traced_target_def fed_def taken_def balance_def)

interpretation bq: feeder "bridge_read_queue (traced_queue qb) source timeout selector" taken
    "tp_write (traced_target p)" fed
  for qb :: "'w queue_backend" and source timeout selector and p :: "'w target_proc"
  by unfold_locales
     (auto simp: bridge_read_queue_def dest: traced_receive_taken traced_receive_fed traced_write_facts)

interpretation bt: feeder "bridge_read_topic (traced_topic tb) source grp timeout selector" taken
    "tp_write (traced_target p)" fed
  for tb :: "'w topic_backend" and source grp timeout selector and p :: "'w target_proc"
  by unfold_locales
     (auto simp: bridge_read_topic_def dest: traced_subscribe_taken traced_subscribe_fed traced_write_facts)

lemma bridge_loop_keeps:
  fixes f :: "'w \<Rightarrow> 'x"
  assumes run: "bridge_loop env ctx marshal proc get label quiet count source target s0 = Some r"
    and get: "\<And>w r w'. get ctx w = (r, w') \<Longrightarrow> f w' = f w"
    and put: "\<And>t w e w'. tp_write proc t w = (e, w') \<Longrightarrow> f w' = f w"
  shows "f (fw_world (bridge_state r)) = f (fw_world s0)"
proof -
  let ?Q = "\<lambda>r. f (fw_world (bridge_state r)) = f (fw_world s0)"
  have put': "f (snd (tp_write proc t w)) = f w" for t w by (rule put) (rule surjective_pairing)
  have body: "case bridge_body env ctx marshal proc get label quiet source target s of
      Continue t \<Rightarrow> f (fw_world t) = f (fw_world s0) | Return r \<Rightarrow> ?Q r"
    if "f (fw_world s) = f (fw_world s0)" for s
    unfolding bridge_body_def display_message_ndjson_def
    using that
    by (auto simp: Let_def summarize_forward_def emit_undelivered_def put'
        dest!: get split: prod.split option.split sum.split)
  have "?Q r"
  proof (rule go_for_invariant [where P = "\<lambda>s. f (fw_world s) = f (fw_world s0)",
        OF run [unfolded bridge_loop_def]])
    show "f (fw_world t) = f (fw_world s0)"
      if "f (fw_world s) = f (fw_world s0)"
        "bridge_body env ctx marshal proc get label quiet source target s = Continue t" for s t
      using body [OF that(1)] that(2) by simp
    show "?Q r"
      if "f (fw_world s) = f (fw_world s0)"
        "bridge_body env ctx marshal proc get label quiet source target s = Return r" for s r
      using body [OF that(1)] that(2) by simp
  qed (auto simp: summarize_forward_def)
  then show ?thesis .
qed

definition bridge_report ::
    "bool \<Rightarrow> (message_record \<Rightarrow> gerr + string) \<Rightarrow> string \<Rightarrow> string \<Rightarrow> 'w traced bridge_outcome \<Rightarrow> bool" where
  "bridge_report nl marshal source target outcome \<longleftrightarrow>
     bridge_account nl marshal source target (bridge_exit outcome)
       (taken (fw_world (bridge_state outcome))) (map fst (fed (fw_world (bridge_state outcome))))
       (fw_n (bridge_state outcome)) (fw_out (bridge_state outcome))"

lemma bridge_report_start:
  "taken w = [] \<Longrightarrow> fed w = [] \<Longrightarrow> bridge_report nl marshal source target (BridgeDone (Some e, relay_init w))"
  by (simp add: bridge_report_def bridge_account_def record_lines_def relay_init_def)

text \<open>Closing changes the world only, in a way the report does not see.\<close>

definition map_world :: "('w \<Rightarrow> 'w) \<Rightarrow> 'w bridge_outcome \<Rightarrow> 'w bridge_outcome" where
  "map_world f r =
     (case r of BridgeDone (e, s) \<Rightarrow> BridgeDone (e, s\<lparr>fw_world := f (fw_world s)\<rparr>)
      | BridgePanic s \<Rightarrow> BridgePanic (s\<lparr>fw_world := f (fw_world s)\<rparr>))"

lemma map_world_closers:
  "bridge_finish proc = map_world (tp_finish proc)"
  "close_after_bridge close = map_world (close_adapter close)"
  by (auto simp: bridge_finish_def close_after_bridge_def map_world_def)

lemma bridge_state_map_world [simp]:
  "bridge_state (map_world f r) = bridge_state r\<lparr>fw_world := f (fw_world (bridge_state r))\<rparr>"
  "bridge_exit (map_world f r) = bridge_exit r"
  by (cases r; auto simp: map_world_def)+

lemma bridge_report_map_world:
  assumes "bridge_report nl marshal source target r"
    and "taken (f (fw_world (bridge_state r))) = taken (fw_world (bridge_state r))"
    and "fed (f (fw_world (bridge_state r))) = fed (fw_world (bridge_state r))"
  shows "bridge_report nl marshal source target (map_world f r)"
  using assms by (simp add: bridge_report_def)

definition bridge_endpoint :: "'w target_proc \<Rightarrow> 'w traced reader \<Rightarrow> bool" where
  "bridge_endpoint p get \<longleftrightarrow>
     feeder get taken (tp_write (traced_target p)) fed \<and>
     (\<forall>c w r w'. get c w = (r, w') \<longrightarrow> balance w' = balance w)"

lemma bridge_endpoints:
  "bridge_endpoint p (bridge_read_queue (traced_queue qb) source t sel)"
  "bridge_endpoint p (bridge_read_topic (traced_topic tb) source grp t sel)"
  unfolding bridge_endpoint_def
  by (simp_all add: bq.feeder_axioms bt.feeder_axioms)
     (auto simp: bridge_read_queue_def bridge_read_topic_def dest: traced_balance)

lemma do_bridge_report:
  assumes run: "do_bridge (traced_env env) timed getenv marshal (traced_target p) ff source target (get, label) w =
      Some outcome"
    and ep: "bridge_endpoint p get" and start: "taken w = []" "fed w = []"
  shows "bridge_report (ev_newline env) marshal source target outcome \<and>
    balance (fw_world (bridge_state outcome)) = balance w"
proof (cases "parse_streaming_flags (ev_parse env) (ff_for ff) (ff_forever ff) (ff_stats ff)")
  case (Inl e)
  then show ?thesis
    using run start by (auto simp: do_bridge_def traced_env_def bridge_report_start, simp add: relay_init_def)
next
  case (Inr sf)
  obtain e w1 where st: "start_target_process getenv (traced_target p) target w = (e, w1)" by (metis surj_pair)
  have w1: "fed w1 = []" "taken w1 = []" "balance w1 = balance w + (if e = None then 1 else 0)"
    using st start by (auto simp: start_target_process_def Let_def dest!: traced_start_facts)
  show ?thesis
  proof (cases e)
    case (Some x)
    then show ?thesis
      using run Inr st w1
      by (auto simp: do_bridge_def traced_env_def bridge_report_start, simp add: relay_init_def)
  next
    case None
    then obtain r where r: "bridge_loop (traced_env env) (timed (sf_duration sf)) marshal (traced_target p) get
        label (ff_quiet ff) (ff_count ff) source target (relay_init w1) = Some r"
      and o: "outcome = bridge_finish (traced_target p) r"
      using run Inr st by (auto simp: do_bridge_def traced_env_def)
    have fd: "feeder get taken (tp_write (traced_target p)) fed" using ep by (simp add: bridge_endpoint_def)
    have "feeder.bridge_ended taken fed (ev_newline env) marshal source target w1 r"
      using feeder.bridge_loop_ended [OF fd r] by (simp add: traced_env_def)
    then have rep: "bridge_report (ev_newline env) marshal source target r"
      using w1 by (auto simp: feeder.bridge_ended_def [OF fd] bridge_report_def)
    have "balance (fw_world (bridge_state r)) = balance (fw_world (relay_init w1))"
    proof (rule bridge_loop_keeps [OF r])
      show "balance w' = balance w" if "get (timed (sf_duration sf)) w = (x, w')" for w x w'
        using ep that unfolding bridge_endpoint_def by blast
    qed (blast dest: traced_write_facts)
    then show ?thesis
      unfolding o map_world_closers using rep w1 None
      by (simp add: bridge_report_map_world traced_finish_facts relay_init_def)
  qed
qed

lemma close_bridge_report:
  assumes "bridge_report nl marshal source target r \<and> balance (fw_world (bridge_state r)) = 1"
    and close: "\<And>s e s'. close s = (e, s') \<Longrightarrow>
      balance s' = balance s - 1 \<and> taken s' = taken s \<and> fed s' = fed s"
  shows "bridge_report nl marshal source target (close_after_bridge close r) \<and>
    balance (fw_world (bridge_state (close_after_bridge close r))) = 0"
proof -
  let ?w = "fw_world (bridge_state r)"
  have "balance (close_adapter close ?w) = balance ?w - 1 \<and> taken (close_adapter close ?w) = taken ?w \<and>
      fed (close_adapter close ?w) = fed ?w"
    unfolding close_adapter_def by (rule close) (rule surjective_pairing)
  then show ?thesis
    unfolding map_world_closers using assms(1) by (simp add: bridge_report_map_world)
qed

lemma traced_close_facts:
  "qb_close (traced_queue qb) s = (e, s') \<Longrightarrow> balance s' = balance s - 1 \<and> taken s' = taken s \<and> fed s' = fed s"
  "tb_close (traced_topic tb) s = (e, s') \<Longrightarrow> balance s' = balance s - 1 \<and> taken s' = taken s \<and> fed s' = fed s"
  by (cases s, auto simp: traced_queue_def traced_topic_def balance_def taken_def fed_def split: prod.splits)+

lemma traced_factory_start:
  assumes "traced_factory wrap f (w, []) = (r, s')"
  shows "taken s' = [] \<and> fed s' = [] \<and>
    ((\<exists>e. r = Inl e \<and> balance s' = 0) \<or> (\<exists>a. r = Inr (wrap a) \<and> balance s' = 1))"
  using assms by (auto simp: traced_factory_def taken_def fed_def balance_def split: prod.splits sum.splits)

section \<open>Properties\<close>


definition script_target :: "gerr option \<Rightarrow> script target_proc" where
  "script_target e = \<lparr>tp_start = (\<lambda>sh cmd w. (None, w)), tp_write = (\<lambda>t w. (e, w)), tp_finish = id\<rparr>"

lemmas bridge_run = wrap_bridge_def do_bridge_def bridge_loop_def bridge_body_def bridge_reader_queue_def
  bridge_read_queue_def resolve_bridge_topology_def start_target_process_def traced_target_def
  script_target_def traced_factory_def bridge_finish_def close_after_bridge_def close_adapter_def
  display_message_ndjson_def parse_streaming_flags_def parse_duration_flag_def summarize_forward_def
  traced_queue_def script_run

lemma script_bridge_run:
  "\<exists>s. wrap_bridge (traced_env script_env) (\<lambda>d w. sc_ctx (fst w)) (\<lambda>k. None) (\<lambda>r. Inr ''r'')
      (traced_target (script_target e)) (sample_forward []) ''q'' ''cat''
      (map_option (traced_factory traced_queue) (Some (\<lambda>w. (Inr script_queue, w))))
      (map_option (traced_factory traced_topic) None)
      (sample_script, []) = Some (BridgeDone (None, s)) \<and>
    fw_n s = 2 \<and> fw_out s = forward_summary 2 ''q'' ''cat'' \<and>
    fed (fw_world s) = [(''r'' @ newline, e), (''r'' @ newline, e)]"
  by (simp add: bridge_run sample_script_def sample_forward_def fed_def)


text \<open>
  The error of a write to the target process is not noticed: two targets that differ only in
  what their writes return give the same run.  With a target whose pipe is broken from the
  start, the bridge takes every message from its source, counts each as forwarded, puts none
  of them on its output and ends without an error.
\<close>

lemma bridge_ignores_write_errors:
  assumes "tp_start p = tp_start q" and "tp_finish p = tp_finish q"
    and "\<And>t w. snd (tp_write p t w) = snd (tp_write q t w)"
  shows "do_bridge env timed getenv marshal p ff source target rd w =
    do_bridge env timed getenv marshal q ff source target rd w"
  unfolding do_bridge_def bridge_loop_def bridge_body_def start_target_process_def bridge_finish_def
    assms by (rule refl)

lemma bridge_drops_to_dead_target:
  "\<exists>s. wrap_bridge (traced_env script_env) (\<lambda>d w. sc_ctx (fst w)) (\<lambda>k. None) (\<lambda>r. Inr ''r'')
      (traced_target (script_target (Some (ESyscall EPIPE)))) (sample_forward []) ''q'' ''cat''
      (map_option (traced_factory traced_queue) (Some (\<lambda>w. (Inr script_queue, w))))
      (map_option (traced_factory traced_topic) None)
      (sample_script, []) = Some (BridgeDone (None, s)) \<and>
    fw_n s = 2 \<and> fw_out s = forward_summary 2 ''q'' ''cat'' \<and>
    map snd (fed (fw_world s)) = replicate 2 (Some (ESyscall EPIPE))"
  using script_bridge_run [of "Some (ESyscall EPIPE)"] by (fastforce simp: numeral_2_eq_2)

end
