(* ===== verification/Shell_Syntax.thy ===== *)
theory Shell_Syntax
  imports Records
begin

text \<open>
  The syntax of the interactive shell (\<^verbatim>\<open>cmd/pipeline.go\<close>): splitting a line into commands
  and stages, splitting a stage into words, classifying and coalescing stages, aliases.
\<close>

abbreviation backslash :: rune where "backslash \<equiv> [CHR 0x5C]"
abbreviation quote1 :: rune where "quote1 \<equiv> [CHR 0x27]"
abbreviation quote2 :: rune where "quote2 \<equiv> [CHR 0x22]"

section \<open>Splitting on a delimiter\<close>

record split_state =
  sp_stages :: "string list"
  sp_current :: string
  sp_single :: bool
  sp_double :: bool
  sp_escaped :: bool

definition split_rune :: "rune \<Rightarrow> split_state \<Rightarrow> rune \<Rightarrow> split_state" where
  "split_rune delim s r =
     (let written = s\<lparr>sp_current := sp_current s @ r\<rparr> in
      if sp_escaped s then written\<lparr>sp_escaped := False\<rparr>
      else if r = backslash then written\<lparr>sp_escaped := True\<rparr>
      else if r = quote1 \<and> \<not> sp_double s then written\<lparr>sp_single := \<not> sp_single s\<rparr>
      else if r = quote2 \<and> \<not> sp_single s then written\<lparr>sp_double := \<not> sp_double s\<rparr>
      else if r = delim \<and> \<not> sp_single s \<and> \<not> sp_double s
      then s\<lparr>sp_stages := sp_stages s @ [trim_space (sp_current s)], sp_current := []\<rparr>
      else written)"

definition split_init :: split_state where
  "split_init = \<lparr>sp_stages = [], sp_current = [], sp_single = False, sp_double = False, sp_escaped = False\<rparr>"

definition split_on_delim :: "string \<Rightarrow> rune \<Rightarrow> string list" where
  "split_on_delim line delim =
     (let s = foldl (split_rune delim) split_init (runes line);
          rest = trim_space (sp_current s)
      in if rest \<noteq> [] then sp_stages s @ [rest] else sp_stages s)"

definition split_commands :: "string \<Rightarrow> string list" where
  "split_commands line = filter (\<lambda>s. s \<noteq> []) (split_on_delim line '';'')"

definition split_pipeline :: "string \<Rightarrow> string list" where
  "split_pipeline line = split_on_delim line ''|''"

section \<open>Splitting into words\<close>

record word_state =
  ws_words :: "string list"
  ws_word :: string
  ws_single :: bool
  ws_double :: bool

definition word_rune :: "word_state \<Rightarrow> rune \<Rightarrow> word_state" where
  "word_rune s r =
     (if r = quote1 \<and> \<not> ws_double s then s\<lparr>ws_single := \<not> ws_single s\<rparr>
      else if r = quote2 \<and> \<not> ws_single s then s\<lparr>ws_double := \<not> ws_double s\<rparr>
      else if space_rune r \<and> \<not> ws_single s \<and> \<not> ws_double s
      then (if ws_word s \<noteq> [] then s\<lparr>ws_words := ws_words s @ [ws_word s], ws_word := []\<rparr> else s)
      else s\<lparr>ws_word := ws_word s @ r\<rparr>)"

definition word_init :: word_state where
  "word_init = \<lparr>ws_words = [], ws_word = [], ws_single = False, ws_double = False\<rparr>"

definition shell_split :: "string \<Rightarrow> string list" where
  "shell_split t =
     (let s = foldl word_rune word_init (runes t)
      in if ws_word s \<noteq> [] then ws_words s @ [ws_word s] else ws_words s)"

section \<open>Stages and blocks\<close>

definition xmc_verbs :: "string list" where
  "xmc_verbs =
     [''send'', ''receive'', ''get'', ''peek'', ''request'', ''reply'', ''respond'', ''move'', ''forward'',
      ''bridge'', ''publish'', ''subscribe'', ''manage'', ''ping'', ''help'']"

record pipeline_stage =
  ps_is_verb :: bool
  ps_verb :: string
  ps_args :: "string list"
  ps_raw :: string

text \<open>The index of the first white space cannot be 0: the text has been trimmed.\<close>

definition classify_stage :: "string \<Rightarrow> pipeline_stage" where
  "classify_stage t =
     (let trimmed = trim_left t;
          word1 = concat (takeWhile (\<lambda>r. \<not> space_rune r) (segments trimmed))
      in if word1 \<in> set xmc_verbs
         then \<lparr>ps_is_verb = True, ps_verb = word1, ps_args = shell_split trimmed, ps_raw = t\<rparr>
         else \<lparr>ps_is_verb = False, ps_verb = [], ps_args = [], ps_raw = t\<rparr>)"

record pipeline_block =
  pb_is_verb :: bool
  pb_stages :: "pipeline_stage list"

definition coalesce_step :: "pipeline_block list \<Rightarrow> pipeline_stage \<Rightarrow> pipeline_block list" where
  "coalesce_step blocks s =
     (if ps_is_verb s then blocks @ [\<lparr>pb_is_verb = True, pb_stages = [s]\<rparr>]
      else if blocks \<noteq> [] \<and> \<not> pb_is_verb (last blocks)
      then butlast blocks @ [(last blocks)\<lparr>pb_stages := pb_stages (last blocks) @ [s]\<rparr>]
      else blocks @ [\<lparr>pb_is_verb = False, pb_stages = [s]\<rparr>])"

definition coalesce_stages :: "pipeline_stage list \<Rightarrow> pipeline_block list" where
  "coalesce_stages stages = foldl coalesce_step [] stages"

definition is_producer :: "string \<Rightarrow> bool" where
  "is_producer verb \<longleftrightarrow> verb \<in> {''send'', ''publish''}"

definition is_consumer :: "string \<Rightarrow> bool" where
  "is_consumer verb \<longleftrightarrow> verb \<in> {''receive'', ''get'', ''peek'', ''subscribe'', ''request''}"

definition ensure_flag :: "string list \<Rightarrow> string \<Rightarrow> string list" where
  "ensure_flag args flag = (if flag \<in> set args then args else args @ [flag])"

text \<open>\<open>containsVerb\<close> (\<^verbatim>\<open>cmd/shell.go\<close>) decides whether the shell runs a line itself.\<close>

definition contains_verb :: "string \<Rightarrow> bool" where
  "contains_verb line = list_ex (\<lambda>t. ps_is_verb (classify_stage t)) (split_pipeline line)"

section \<open>Aliases\<close>

function expand_template :: "string list \<Rightarrow> string \<Rightarrow> string" where
  "expand_template args [] = []"
| "expand_template args (c # t) =
     (if c = CHR 0x24 \<and> t \<noteq> []
      then (if hd t = CHR 0x40 \<or> hd t = CHR 0x2A then join '' '' args @ expand_template args (tl t)
            else (let ds = takeWhile is_digit t in
              if ds \<noteq> []
              then (let n = atoi ds in if 1 \<le> n \<and> n \<le> length args then args ! (n - 1) else [])
                @ expand_template args (dropWhile is_digit t)
              else c # expand_template args t))
      else c # expand_template args t)"
  by pat_completeness auto

termination
  by (relation "measure (length \<circ> snd)") (auto simp: le_imp_less_Suc length_dropWhile_le)

definition expand_alias :: "string \<Rightarrow> (string \<times> string) list \<Rightarrow> string" where
  "expand_alias line aliases =
     (if aliases = [] then line
      else case shell_split line of
        [] \<Rightarrow> line
      | name # args \<Rightarrow>
          (case map_of aliases name of None \<Rightarrow> line | Some tmpl \<Rightarrow> expand_template args tmpl))"

definition is_alias :: "string \<Rightarrow> (string \<times> string) list \<Rightarrow> bool" where
  "is_alias line aliases =
     (aliases \<noteq> [] \<and>
      (case shell_split line of [] \<Rightarrow> False | name # args \<Rightarrow> map_of aliases name \<noteq> None))"

section \<open>Words\<close>

text \<open>
  A reference grammar: a word is a sequence of bare and quoted parts; a line has white space
  between its words.
\<close>

datatype word_part = BarePart "rune list" | SinglePart "rune list" | DoublePart "rune list"

fun part_runes :: "word_part \<Rightarrow> rune list" where
  "part_runes (BarePart rs) = rs"
| "part_runes (SinglePart rs) = quote1 # rs @ [quote1]"
| "part_runes (DoublePart rs) = quote2 # rs @ [quote2]"

fun part_value :: "word_part \<Rightarrow> string" where
  "part_value (BarePart rs) = concat rs"
| "part_value (SinglePart rs) = concat rs"
| "part_value (DoublePart rs) = concat rs"

fun part_ok :: "word_part \<Rightarrow> bool" where
  "part_ok (BarePart rs) = (\<forall>r \<in> set rs. rune_ok r \<and> \<not> space_rune r \<and> r \<noteq> quote1 \<and> r \<noteq> quote2)"
| "part_ok (SinglePart rs) = (\<forall>r \<in> set rs. rune_ok r \<and> r \<noteq> quote1)"
| "part_ok (DoublePart rs) = (\<forall>r \<in> set rs. rune_ok r \<and> r \<noteq> quote2)"

definition word_value :: "word_part list \<Rightarrow> string" where
  "word_value ps = concat (map part_value ps)"

definition gap_ok :: "rune list \<Rightarrow> bool" where
  "gap_ok g \<longleftrightarrow> (\<forall>r \<in> set g. rune_ok r \<and> space_rune r)"

text \<open>Words, each with the white space after it: only the last may lack it.\<close>

fun words_ok :: "(word_part list \<times> rune list) list \<Rightarrow> bool" where
  "words_ok [] = True"
| "words_ok ((ps, g) # ws) = (list_all part_ok ps \<and> gap_ok g \<and> (g \<noteq> [] \<or> ws = []) \<and> words_ok ws)"

fun words_runes :: "(word_part list \<times> rune list) list \<Rightarrow> rune list" where
  "words_runes [] = []"
| "words_runes ((ps, g) # ws) = concat (map part_runes ps) @ g @ words_runes ws"

definition flush_word :: "word_state \<Rightarrow> word_state" where
  "flush_word s = (if ws_word s \<noteq> [] then s\<lparr>ws_words := ws_words s @ [ws_word s], ws_word := []\<rparr> else s)"

definition unquoted :: "word_state \<Rightarrow> bool" where
  "unquoted s \<longleftrightarrow> \<not> ws_single s \<and> \<not> ws_double s"

lemma quotes_no_space [simp]: "\<not> space_rune quote1" "\<not> space_rune quote2"
  by (simp_all add: space_rune_def space_runes_def)

lemma fold_bare:
  "\<forall>r \<in> set rs. \<not> space_rune r \<and> r \<noteq> quote1 \<and> r \<noteq> quote2 \<Longrightarrow>
   foldl word_rune s rs = s\<lparr>ws_word := ws_word s @ concat rs\<rparr>"
  by (induction rs arbitrary: s) (simp_all add: word_rune_def)

lemma fold_single:
  "\<forall>r \<in> set rs. r \<noteq> quote1 \<Longrightarrow> ws_single s \<Longrightarrow> \<not> ws_double s \<Longrightarrow>
   foldl word_rune s rs = s\<lparr>ws_word := ws_word s @ concat rs\<rparr>"
  by (induction rs arbitrary: s) (simp_all add: word_rune_def)

lemma fold_double:
  "\<forall>r \<in> set rs. r \<noteq> quote2 \<Longrightarrow> ws_double s \<Longrightarrow> \<not> ws_single s \<Longrightarrow>
   foldl word_rune s rs = s\<lparr>ws_word := ws_word s @ concat rs\<rparr>"
  by (induction rs arbitrary: s) (simp_all add: word_rune_def)

lemma fold_part:
  "part_ok p \<Longrightarrow> unquoted s \<Longrightarrow> foldl word_rune s (part_runes p) = s\<lparr>ws_word := ws_word s @ part_value p\<rparr>"
  by (cases p) (simp_all add: fold_bare fold_single fold_double unquoted_def word_rune_def)

lemma fold_parts:
  "list_all part_ok ps \<Longrightarrow> unquoted s \<Longrightarrow>
   foldl word_rune s (concat (map part_runes ps)) = s\<lparr>ws_word := ws_word s @ word_value ps\<rparr>"
  by (induction ps arbitrary: s) (simp_all add: fold_part word_value_def unquoted_def)

lemma fold_gap:
  "gap_ok g \<Longrightarrow> unquoted s \<Longrightarrow> g \<noteq> [] \<Longrightarrow> foldl word_rune s g = flush_word s"
proof (induction g arbitrary: s)
  case (Cons r g)
  have r: "word_rune s r = flush_word s"
    using Cons.prems by (auto simp: gap_ok_def word_rune_def flush_word_def unquoted_def)
  have "unquoted (flush_word s)" "flush_word (flush_word s) = flush_word s"
    using Cons.prems by (simp_all add: unquoted_def flush_word_def)
  with Cons r show ?case by (cases "g = []") (simp_all add: gap_ok_def)
qed simp

lemma runes_split:
  "words_ok ws \<Longrightarrow> \<forall>r \<in> set (words_runes ws). rune_ok r"
proof (induction ws rule: words_ok.induct)
  case (2 ps g ws)
  have "rune_ok r" if "part_ok p" "r \<in> set (part_runes p)" for p r
    using that by (cases p) auto
  with 2 show ?case by (auto simp: gap_ok_def list_all_iff)
qed simp

lemma fold_words:
  "words_ok ws \<Longrightarrow> unquoted s \<Longrightarrow> ws_word s = [] \<Longrightarrow>
   ws_words (flush_word (foldl word_rune s (words_runes ws))) =
     ws_words s @ filter (\<lambda>w. w \<noteq> []) (map (word_value \<circ> fst) ws)"
proof (induction ws arbitrary: s rule: words_ok.induct)
  case (2 ps g ws)
  let ?t = "s\<lparr>ws_word := word_value ps\<rparr>"
  have t: "foldl word_rune s (concat (map part_runes ps)) = ?t" "unquoted ?t"
    using 2 fold_parts [of ps s] by (simp_all add: unquoted_def)
  show ?case
  proof (cases "g = []")
    case True
    then show ?thesis using 2 t by (simp add: flush_word_def)
  next
    case False
    then have "foldl word_rune ?t g = flush_word ?t" using 2 t fold_gap by simp
    moreover have "unquoted (flush_word ?t)" "ws_word (flush_word ?t) = []"
      using t(2) by (simp_all add: unquoted_def flush_word_def)
    ultimately show ?thesis using 2 t by (auto simp: flush_word_def)
  qed
qed (simp add: flush_word_def)

section \<open>Delimited text\<close>

datatype atom = PlainRune rune | EscapedRune rune

datatype piece = OpenPiece atom | SinglePiece "atom list" | DoublePiece "atom list"

fun atom_runes :: "atom \<Rightarrow> rune list" where
  "atom_runes (PlainRune r) = [r]"
| "atom_runes (EscapedRune r) = [backslash, r]"

fun atom_ok :: "rune set \<Rightarrow> atom \<Rightarrow> bool" where
  "atom_ok special (PlainRune r) = (rune_ok r \<and> r \<noteq> backslash \<and> r \<notin> special)"
| "atom_ok special (EscapedRune r) = rune_ok r"

definition atoms_runes :: "atom list \<Rightarrow> rune list" where
  "atoms_runes xs = concat (map atom_runes xs)"

fun piece_runes :: "piece \<Rightarrow> rune list" where
  "piece_runes (OpenPiece x) = atom_runes x"
| "piece_runes (SinglePiece xs) = quote1 # atoms_runes xs @ [quote1]"
| "piece_runes (DoublePiece xs) = quote2 # atoms_runes xs @ [quote2]"

fun piece_ok :: "rune \<Rightarrow> piece \<Rightarrow> bool" where
  "piece_ok delim (OpenPiece x) = atom_ok {quote1, quote2, delim} x"
| "piece_ok delim (SinglePiece xs) = list_all (atom_ok {quote1}) xs"
| "piece_ok delim (DoublePiece xs) = list_all (atom_ok {quote2}) xs"

definition stage_runes :: "piece list \<Rightarrow> rune list" where
  "stage_runes ps = concat (map piece_runes ps)"

fun stages_runes :: "rune \<Rightarrow> piece list list \<Rightarrow> rune list" where
  "stages_runes delim [] = []"
| "stages_runes delim [ps] = stage_runes ps"
| "stages_runes delim (ps # qs # rest) = stage_runes ps @ delim # stages_runes delim (qs # rest)"

definition outside :: "split_state \<Rightarrow> bool" where
  "outside s \<longleftrightarrow> \<not> sp_single s \<and> \<not> sp_double s \<and> \<not> sp_escaped s"

definition delimiter :: "rune \<Rightarrow> bool" where
  "delimiter d \<longleftrightarrow> d = '';'' \<or> d = ''|''"

lemma fold_single_atoms:
  "list_all (atom_ok {quote1}) xs \<Longrightarrow> sp_single s \<Longrightarrow> \<not> sp_double s \<Longrightarrow> \<not> sp_escaped s \<Longrightarrow>
   foldl (split_rune d) s (atoms_runes xs) = s\<lparr>sp_current := sp_current s @ concat (atoms_runes xs)\<rparr>"
proof (induction xs arbitrary: s)
  case (Cons x xs)
  then show ?case by (cases x) (simp_all add: atoms_runes_def split_rune_def Let_def)
qed (simp add: atoms_runes_def)

lemma fold_double_atoms:
  "list_all (atom_ok {quote2}) xs \<Longrightarrow> sp_double s \<Longrightarrow> \<not> sp_single s \<Longrightarrow> \<not> sp_escaped s \<Longrightarrow>
   foldl (split_rune d) s (atoms_runes xs) = s\<lparr>sp_current := sp_current s @ concat (atoms_runes xs)\<rparr>"
proof (induction xs arbitrary: s)
  case (Cons x xs)
  then show ?case by (cases x) (simp_all add: atoms_runes_def split_rune_def Let_def)
qed (simp add: atoms_runes_def)

lemma fold_piece:
  assumes "piece_ok d p" and "outside s" and "delimiter d"
  shows "foldl (split_rune d) s (piece_runes p) = s\<lparr>sp_current := sp_current s @ concat (piece_runes p)\<rparr>"
proof (cases p)
  case (OpenPiece x)
  then show ?thesis
    using assms by (cases x) (auto simp: split_rune_def Let_def outside_def delimiter_def)
next
  case (SinglePiece xs)
  then show ?thesis
    using assms by (auto simp: split_rune_def Let_def outside_def delimiter_def fold_single_atoms)
next
  case (DoublePiece xs)
  then show ?thesis
    using assms by (auto simp: split_rune_def Let_def outside_def delimiter_def fold_double_atoms)
qed

lemma fold_stage:
  "list_all (piece_ok d) ps \<Longrightarrow> outside s \<Longrightarrow> delimiter d \<Longrightarrow>
   foldl (split_rune d) s (stage_runes ps) = s\<lparr>sp_current := sp_current s @ concat (stage_runes ps)\<rparr>"
  by (induction ps arbitrary: s) (simp_all add: stage_runes_def fold_piece outside_def)

lemma fold_stages:
  assumes "stages \<noteq> []" and "\<forall>ps \<in> set stages. list_all (piece_ok d) ps" and "outside s" and "delimiter d"
    and "sp_current s = []"
  shows "foldl (split_rune d) s (stages_runes d stages) =
    s\<lparr>sp_stages := sp_stages s @ map (trim_space \<circ> concat \<circ> stage_runes) (butlast stages),
      sp_current := concat (stage_runes (last stages))\<rparr>"
  using assms
proof (induction d stages arbitrary: s rule: stages_runes.induct)
  case (2 d ps)
  then show ?case by (simp add: fold_stage)
next
  case (3 d ps qs rest)
  let ?t = "s\<lparr>sp_stages := sp_stages s @ [trim_space (concat (stage_runes ps))]\<rparr>"
  have "foldl (split_rune d) s (stage_runes ps @ [d]) = ?t"
    using 3 by (auto simp: fold_stage split_rune_def Let_def outside_def delimiter_def)
  then have "foldl (split_rune d) s (stages_runes d (ps # qs # rest)) =
      foldl (split_rune d) ?t (stages_runes d (qs # rest))"
    by (metis append.assoc append_Cons append_Nil foldl_append stages_runes.simps(3))
  then show ?case using 3 by (simp add: outside_def)
qed simp

lemma rune_ok_delims [simp]: "rune_ok backslash" "rune_ok quote1" "rune_ok quote2" "delimiter d \<Longrightarrow> rune_ok d"
  by (auto simp: delimiter_def)

lemma atoms_runes_ok: "list_all (atom_ok sp) xs \<Longrightarrow> \<forall>r \<in> set (atoms_runes xs). rune_ok r"
proof (induction xs)
  case (Cons x xs)
  then show ?case by (cases x) (auto simp: atoms_runes_def)
qed (simp add: atoms_runes_def)

lemma piece_runes_ok: "piece_ok d p \<Longrightarrow> \<forall>r \<in> set (piece_runes p). rune_ok r"
proof (cases p)
  case (OpenPiece x)
  assume "piece_ok d p"
  then show ?thesis using OpenPiece by (cases x) auto
qed (auto dest: atoms_runes_ok)

lemma stages_runes_ok:
  "\<forall>ps \<in> set stages. list_all (piece_ok d) ps \<Longrightarrow> delimiter d \<Longrightarrow>
   \<forall>r \<in> set (stages_runes d stages). rune_ok r"
proof (induction d stages rule: stages_runes.induct)
  case (2 d ps)
  then show ?case using piece_runes_ok by (force simp: stage_runes_def list_all_iff)
next
  case (3 d ps qs rest)
  then show ?case using piece_runes_ok by (force simp: stage_runes_def list_all_iff)
qed simp

section \<open>Coalesced blocks\<close>

text \<open>
  The contract of \<open>coalesceStages\<close>: each block holds stages of one kind, a verb block exactly
  one, and two external blocks are never adjacent.
\<close>

definition block_ok :: "pipeline_block \<Rightarrow> bool" where
  "block_ok b \<longleftrightarrow> pb_stages b \<noteq> [] \<and> (\<forall>s \<in> set (pb_stages b). ps_is_verb s = pb_is_verb b) \<and>
     (pb_is_verb b \<longrightarrow> length (pb_stages b) = 1)"

definition coalesced :: "pipeline_block list \<Rightarrow> bool" where
  "coalesced bs \<longleftrightarrow> (\<forall>b \<in> set bs. block_ok b) \<and> successively (\<lambda>a b. pb_is_verb a \<or> pb_is_verb b) bs"

lemma coalesced_snoc:
  "coalesced (bs @ [b]) \<longleftrightarrow>
   coalesced bs \<and> block_ok b \<and> (bs \<noteq> [] \<longrightarrow> pb_is_verb (last bs) \<or> pb_is_verb b)"
  by (auto simp: coalesced_def successively_append_iff)

lemma coalesced_snoc2:
  "coalesced (bs @ [b, c]) \<longleftrightarrow> coalesced (bs @ [b]) \<and> block_ok c \<and> (pb_is_verb b \<or> pb_is_verb c)"
  using coalesced_snoc [of "bs @ [b]" c] by simp

lemma coalesce_snoc [simp]: "coalesce_stages (stages @ [s]) = coalesce_step (coalesce_stages stages) s"
  by (simp add: coalesce_stages_def)

lemma coalesce_stages_contract:
  "coalesced (coalesce_stages stages) \<and> concat (map pb_stages (coalesce_stages stages)) = stages"
proof (induction stages rule: rev_induct)
  case Nil
  then show ?case by (simp add: coalesce_stages_def coalesced_def)
next
  case (snoc s stages)
  note ih = this
  show ?case
  proof (cases "coalesce_stages stages" rule: rev_cases)
    case Nil
    have e: "coalesce_stages (stages @ [s]) = coalesce_step [] s" and "stages = []" 
      using ih unfolding coalesce_snoc Nil by simp_all
    then show ?thesis unfolding e by (simp add: coalesce_step_def coalesced_def block_ok_def)
  next
    case (snoc bs b)
    then have "coalesced (bs @ [b])" "concat (map pb_stages (bs @ [b])) = stages" using ih by auto
    then show ?thesis
      using snoc by (auto simp: coalesce_step_def coalesced_snoc coalesced_snoc2
        coalesced_snoc [of "[]", simplified] coalesced_snoc2 [of "[]", simplified] block_ok_def)
  qed
qed

lemma fold_external:
  assumes "\<forall>s \<in> set ss. \<not> ps_is_verb s" and "\<not> pb_is_verb b"
  shows "foldl coalesce_step (bs @ [b]) ss = bs @ [b\<lparr>pb_stages := pb_stages b @ ss\<rparr>]"
  using assms by (induction ss arbitrary: b) (simp_all add: coalesce_step_def)

lemma fold_block:
  assumes "block_ok b" and "bs \<noteq> [] \<longrightarrow> pb_is_verb (last bs) \<or> pb_is_verb b"
  shows "foldl coalesce_step bs (pb_stages b) = bs @ [b]"
proof (cases "pb_stages b")
  case (Cons s ss)
  show ?thesis
  proof (cases "pb_is_verb b")
    case True
    then show ?thesis using assms Cons by (simp add: block_ok_def coalesce_step_def)
  next
    case False
    then have ext: "\<not> ps_is_verb s" "\<forall>s \<in> set ss. \<not> ps_is_verb s" "bs \<noteq> [] \<longrightarrow> pb_is_verb (last bs)"
      using assms Cons by (auto simp: block_ok_def)
    then have "coalesce_step bs s = bs @ [\<lparr>pb_is_verb = False, pb_stages = [s]\<rparr>]"
      by (auto simp: coalesce_step_def)
    then show ?thesis
      using False Cons fold_external [OF ext(2), of "\<lparr>pb_is_verb = False, pb_stages = [s]\<rparr>" bs] by simp
  qed
qed (use assms in \<open>simp add: block_ok_def\<close>)

lemma coalesce_concat: "coalesced bs \<Longrightarrow> coalesce_stages (concat (map pb_stages bs)) = bs"
proof (induction bs rule: rev_induct)
  case (snoc b bs)
  then show ?case
    using fold_block [of b bs] by (simp add: coalesced_snoc coalesce_stages_def)
qed (simp add: coalesce_stages_def)

section \<open>Alias templates\<close>

datatype template_part = TemplateChar char | TemplateArg nat | TemplateAll

fun template_text :: "template_part list \<Rightarrow> string" where
  "template_text [] = []"
| "template_text (TemplateChar c # ps) = c # template_text ps"
| "template_text (TemplateArg n # ps) = CHR 0x24 # nat_text n @ template_text ps"
| "template_text (TemplateAll # ps) = CHR 0x24 # CHR 0x40 # template_text ps"

text \<open>
  A dollar character stands for itself where no parameter follows it; the digits of a
  parameter end where the next part starts.
\<close>

fun template_ok :: "template_part list \<Rightarrow> bool" where
  "template_ok [] = True"
| "template_ok (TemplateChar c # ps) =
     ((c = CHR 0x24 \<longrightarrow> template_text ps = [] \<or>
        (let d = hd (template_text ps) in \<not> is_digit d \<and> d \<noteq> CHR 0x40 \<and> d \<noteq> CHR 0x2A)) \<and> template_ok ps)"
| "template_ok (TemplateArg n # ps) =
     ((template_text ps = [] \<or> \<not> is_digit (hd (template_text ps))) \<and> template_ok ps)"
| "template_ok (TemplateAll # ps) = template_ok ps"

fun template_value :: "string list \<Rightarrow> template_part list \<Rightarrow> string" where
  "template_value args [] = []"
| "template_value args (TemplateChar c # ps) = c # template_value args ps"
| "template_value args (TemplateArg n # ps) =
     (if n = 0 \<or> length args < n then [] else args ! (n - 1)) @ template_value args ps"
| "template_value args (TemplateAll # ps) = join '' '' args @ template_value args ps"

lemma digit_not_all: "is_digit d \<Longrightarrow> d \<noteq> CHR 0x40 \<and> d \<noteq> CHR 0x2A"
  by (auto simp: is_digit_def)

lemma expand_template_value: "template_ok ps \<Longrightarrow> expand_template args (template_text ps) = template_value args ps"
proof (induction ps rule: template_ok.induct)
  case (2 c ps)
  show ?case
  proof (cases "c = CHR 0x24 \<and> template_text ps \<noteq> []")
    case True
    then have "takeWhile is_digit (template_text ps) = []"
      using 2 by (cases "template_text ps") (auto simp: Let_def)
    then show ?thesis using 2 True by (auto simp: Let_def)
  qed (use 2 in auto)
next
  case (3 n ps)
  obtain d ds where n: "nat_text n = d # ds" using nat_text_digits [of n] by (cases "nat_text n") auto
  have "takeWhile is_digit (nat_text n @ template_text ps) = nat_text n \<and>
      dropWhile is_digit (nat_text n @ template_text ps) = template_text ps"
    by (rule takeWhile_digits) (use 3 nat_text_digits in auto)
  moreover have "d \<noteq> CHR 0x40 \<and> d \<noteq> CHR 0x2A" using nat_text_digits [of n] n by (auto dest: digit_not_all)
  ultimately show ?case using 3 n nat_text_digits [of n] by (auto simp: Let_def)
qed simp_all

section \<open>Properties\<close>

text \<open>
  C25: \<open>shellSplit\<close> is exact on the quoting language: for any words made of bare, single-quoted
  and double-quoted parts with white space between them, the result is the values of the
  words in order, adjacent parts joined, quotes removed, white space and the other quote kept
  inside quotes.  Words with an empty value, such as a pair of quotes alone, are dropped.
\<close>

theorem shell_split_words:
  assumes "words_ok ws" and "gap_ok g"
  shows "shell_split (concat (g @ words_runes ws)) = filter (\<lambda>w. w \<noteq> []) (map (word_value \<circ> fst) ws)"
proof -
  have r: "runes (concat (g @ words_runes ws)) = g @ words_runes ws"
    by (rule runes_concat) (use assms runes_split in \<open>auto simp: gap_ok_def\<close>)
  have u: "unquoted word_init" by (simp add: unquoted_def word_init_def)
  have "foldl word_rune word_init g = word_init"
    using fold_gap [OF assms(2) u] by (cases "g = []") (auto simp: flush_word_def word_init_def)
  then have "ws_words (flush_word (foldl word_rune word_init (g @ words_runes ws))) =
      filter (\<lambda>w. w \<noteq> []) (map (word_value \<circ> fst) ws)"
    using fold_words [OF assms(1) u] by (simp add: word_init_def)
  then show ?thesis by (simp only: shell_split_def r Let_def) (auto simp: flush_word_def split: if_splits)
qed

theorem shell_split_words_witness:
  "shell_split (''send q '' @ quote1 @ ''a b'' @ quote1 @ quote2 @ quote1 @ quote2 @ ''c '' @ quote1 @ quote1 @ ''  '') =
    [''send'', ''q'', ''a b'' @ quote1 @ ''c'']"
  using shell_split_words
    [of "[([BarePart [''s'', ''e'', ''n'', ''d'']], ['' '']), ([BarePart [''q'']], ['' '']),
        ([SinglePart [''a'', '' '', ''b''], DoublePart [quote1], BarePart [''c'']], ['' '']),
        ([SinglePart []], ['' '', '' ''])]" "[]"]
  by (simp add: gap_ok_def space_rune_def space_runes_def word_value_def)

text \<open>
  \<open>splitOnDelim\<close> is exact: a line made of stages separated by the delimiter is split into
  the trimmed stages, whatever delimiters, quotes and escapes occur inside quotes or after a
  backslash; only a blank last stage is dropped.
\<close>

theorem split_on_delim_stages:
  assumes "stages \<noteq> []" and "\<forall>ps \<in> set stages. list_all (piece_ok d) ps" and "delimiter d"
  shows "split_on_delim (concat (stages_runes d stages)) d =
    (let ts = map (trim_space \<circ> concat \<circ> stage_runes) stages in if last ts = [] then butlast ts else ts)"
proof -
  have "foldl (split_rune d) split_init (stages_runes d stages) =
      split_init\<lparr>sp_stages := map (trim_space \<circ> concat \<circ> stage_runes) (butlast stages),
        sp_current := concat (stage_runes (last stages))\<rparr>"
    using fold_stages [OF assms(1,2) _ assms(3), of split_init] by (simp add: split_init_def outside_def)
  moreover let ?f = "trim_space \<circ> concat \<circ> stage_runes"
  have "butlast (map ?f stages) @ [trim_space (concat (stage_runes (last stages)))] = map ?f stages"
    using append_butlast_last_id [of "map ?f stages"] assms(1) by (simp add: last_map)
  ultimately show ?thesis
    using runes_concat [OF stages_runes_ok [OF assms(2,3)]] assms(1)
    by (simp add: split_on_delim_def Let_def last_map map_butlast)
qed

theorem split_on_delim_stages_witness:
  "split_on_delim (''a '' @ quote1 @ '';'' @ quote1 @ '' '' @ backslash @ ''; ; b;'') '';'' =
    [''a '' @ quote1 @ '';'' @ quote1 @ '' '' @ backslash @ '';'', ''b'']"
  using split_on_delim_stages
    [of "[[OpenPiece (PlainRune ''a''), OpenPiece (PlainRune '' ''), SinglePiece [PlainRune '';''],
          OpenPiece (PlainRune '' ''), OpenPiece (EscapedRune '';''), OpenPiece (PlainRune '' '')],
        [OpenPiece (PlainRune '' ''), OpenPiece (PlainRune ''b'')], []]" "'';''"]
  by (simp add: delimiter_def stage_runes_def atoms_runes_def trim_space_def trim_left_def trim_right_def
      space_runes_def has_prefix_def Let_def)

text \<open>
  C26: \<open>coalesceStages\<close> computes the only grouping of the stages into blocks in which every
  verb stands alone and every maximal run of external stages is one block.
\<close>

theorem coalesce_stages_unique:
  "coalesced bs \<and> concat (map pb_stages bs) = stages \<longleftrightarrow> bs = coalesce_stages stages"
  using coalesce_concat [of bs] coalesce_stages_contract [of stages] by auto

text \<open>
  \<open>expandAlias\<close> is exact on templates: the line of an alias becomes its template with
  \<open>$n\<close> replaced by the \<open>n\<close>-th argument (nothing when there is none) and \<open>$@\<close> by all of
  them; a line that starts with no alias is unchanged.
\<close>

theorem expand_alias_template:
  "(shell_split line = name # args \<and> map_of aliases name = Some (template_text ps) \<and> template_ok ps \<longrightarrow>
      expand_alias line aliases = template_value args ps) \<and>
   (\<not> is_alias line aliases \<longrightarrow> expand_alias line aliases = line)"
  by (auto simp: expand_alias_def is_alias_def expand_template_value split: list.splits option.splits)

theorem expand_alias_template_witness:
  "expand_alias ''rr q 5'' [(''rr'', ''receive $1 -n $2 $7$@$'')] = ''receive q -n 5 q 5$'' \<and>
   expand_alias ''ls q'' [(''rr'', ''receive $1'')] = ''ls q''"
proof -
  have s: "shell_split ''rr q 5'' = [''rr'', ''q'', ''5'']" "shell_split ''ls q'' = [''ls'', ''q'']"
    by code_simp+
  have t: "template_text (map TemplateChar ''receive '' @ TemplateArg 1 # map TemplateChar '' -n '' @
        [TemplateArg 2, TemplateChar CHR '' '', TemplateArg 7, TemplateAll, TemplateChar CHR 0x24]) =
      ''receive $1 -n $2 $7$@$''" by code_simp
  show ?thesis
    using expand_alias_template [of "''rr q 5''" "''rr''" "[''q'', ''5'']" "[(''rr'', ''receive $1 -n $2 $7$@$'')]"
        "map TemplateChar ''receive '' @ TemplateArg 1 # map TemplateChar '' -n '' @
          [TemplateArg 2, TemplateChar CHR '' '', TemplateArg 7, TemplateAll, TemplateChar CHR 0x24]", unfolded t]
      expand_alias_template [of "''ls q''" _ _ "[(''rr'', ''receive $1'')]"]
    by (simp add: s is_alias_def is_digit_def nat_text.simps digit_char_def)
qed

end
