(* ===== verification/Shell_Session.thy ===== *)
theory Shell_Session
  imports Relay Bridge Shell_Syntax
begin

text \<open>
  The shell session (\<^verbatim>\<open>cmd/pipeline.go\<close>, \<^verbatim>\<open>cmd/shell.go\<close>): the adapters that a session opens
  lazily and shares between its commands, the wiring of a pipeline, and the concurrent
  execution of its blocks.
\<close>

section \<open>The session's adapters\<close>

record 'w session =
  sn_queue :: "'w queue_backend option"
  sn_topic :: "'w topic_backend option"
  sn_world :: 'w

datatype stream = StreamIn | StreamOut | StreamPipe nat

text \<open>
  Around the session: its factories, its aliases, whether the broker has management commands;
  and, as arguments of the model, cobra's flag parsing for \<open>forward\<close> and \<open>bridge\<close>, the body of
  a verb's command on its adapters, arguments, streams and context (\<^const>\<open>True\<close> for a cancelled
  one; \<^const>\<open>None\<close> when it never returns), the user's shell, and the error of the \<open>i\<close>-th
  \<open>os.Pipe\<close>.  The theory \<open>Shell_Verbs\<close> puts the modelled commands in the place of the bodies.
\<close>

record 'w shell_env =
  sh_queue :: "('w, 'w queue_backend) factory option"
  sh_topic :: "('w, 'w topic_backend) factory option"
  sh_aliases :: "(string \<times> string) list"
  sh_manage :: bool
  sh_flags :: "string \<Rightarrow> string list \<Rightarrow> gerr + forward_flags"
  sh_body :: "string \<Rightarrow> 'w queue_backend option \<Rightarrow> 'w topic_backend option \<Rightarrow> string list \<Rightarrow>
     stream \<Rightarrow> stream \<Rightarrow> bool \<Rightarrow> 'w \<Rightarrow> (gerr option \<times> 'w) option"
  sh_shell :: "string \<Rightarrow> stream \<Rightarrow> stream \<Rightarrow> 'w \<Rightarrow> gerr option \<times> 'w"
  sh_pipe :: "nat \<Rightarrow> gerr option"

definition get_queue_adapter ::
    "'w shell_env \<Rightarrow> 'w session \<Rightarrow> (gerr + 'w queue_backend) \<times> 'w session" where
  "get_queue_adapter env s =
     (case sn_queue s of
        Some a \<Rightarrow> (Inr a, s)
      | None \<Rightarrow>
          (case sh_queue env of
             None \<Rightarrow> (Inl (ENew ''this broker does not support queue operations''), s)
           | Some f \<Rightarrow>
               (case f (sn_world s) of
                  (Inl e, w) \<Rightarrow> (Inl e, s\<lparr>sn_world := w\<rparr>)
                | (Inr a, w) \<Rightarrow> (Inr a, s\<lparr>sn_queue := Some a, sn_world := w\<rparr>))))"

definition get_topic_adapter ::
    "'w shell_env \<Rightarrow> 'w session \<Rightarrow> (gerr + 'w topic_backend) \<times> 'w session" where
  "get_topic_adapter env s =
     (case sn_topic s of
        Some a \<Rightarrow> (Inr a, s)
      | None \<Rightarrow>
          (case sh_topic env of
             None \<Rightarrow> (Inl (ENew ''this broker does not support topic operations''), s)
           | Some f \<Rightarrow>
               (case f (sn_world s) of
                  (Inl e, w) \<Rightarrow> (Inl e, s\<lparr>sn_world := w\<rparr>)
                | (Inr a, w) \<Rightarrow> (Inr a, s\<lparr>sn_topic := Some a, sn_world := w\<rparr>))))"

definition close_session :: "'w session \<Rightarrow> 'w session" where
  "close_session s =
     (let s1 = (case sn_queue s of None \<Rightarrow> s
          | Some a \<Rightarrow> s\<lparr>sn_queue := None, sn_world := snd (qb_close a (sn_world s))\<rparr>)
      in (case sn_topic s1 of None \<Rightarrow> s1
          | Some a \<Rightarrow> s1\<lparr>sn_topic := None, sn_world := snd (tb_close a (sn_world s1))\<rparr>))"

section \<open>Verbs\<close>

text \<open>
  The adapters a verb's command gets from the session, in order.  Most verbs get theirs when
  their command is built, before it parses its flags; \<open>forward\<close> and \<open>bridge\<close> after, since
  their flags decide.  \<open>ping\<close> has no builder.
\<close>

datatype adapter_kind = QueueAdapter | TopicAdapter

definition verb_needs :: "'w shell_env \<Rightarrow> string \<Rightarrow> string list \<Rightarrow> gerr + adapter_kind list" where
  "verb_needs env verb args =
     (if verb = ''forward''
      then (case sh_flags env verb args of
          Inl e \<Rightarrow> Inl e
        | Inr ff \<Rightarrow>
            (let (from_topic, to_topic) = resolve_forward_topology (ff_from_topic ff) (ff_to_topic ff)
                   (sh_queue env \<noteq> None) (sh_topic env \<noteq> None)
             in Inr ((if \<not> from_topic \<or> \<not> to_topic then [QueueAdapter] else []) @
                     (if from_topic \<or> to_topic then [TopicAdapter] else []))))
      else if verb = ''bridge''
      then (case sh_flags env verb args of
          Inl e \<Rightarrow> Inl e
        | Inr ff \<Rightarrow>
            Inr (if resolve_bridge_topology (ff_from_topic ff) (sh_queue env \<noteq> None) (sh_topic env \<noteq> None)
                 then [TopicAdapter] else [QueueAdapter]))
      else if verb \<in> {''send'', ''receive'', ''get'', ''peek'', ''request'', ''reply'', ''respond'', ''move''}
      then Inr [QueueAdapter]
      else if verb \<in> {''publish'', ''subscribe''} then Inr [TopicAdapter]
      else if verb = ''manage'' \<and> sh_manage env then Inr []
      else if verb = ''help'' then Inr []
      else Inl (ENew (''unknown verb: '' @ verb)))"

record 'w handles =
  hn_queue :: "'w queue_backend option"
  hn_topic :: "'w topic_backend option"

definition no_handles :: "'w handles" where
  "no_handles = \<lparr>hn_queue = None, hn_topic = None\<rparr>"

definition acquire ::
    "'w shell_env \<Rightarrow> adapter_kind \<Rightarrow> 'w handles \<Rightarrow> 'w session \<Rightarrow> (gerr option \<times> 'w handles) \<times> 'w session" where
  "acquire env k h s =
     (case k of
        QueueAdapter \<Rightarrow>
          (case get_queue_adapter env s of
             (Inl e, s') \<Rightarrow> ((Some e, h), s')
           | (Inr a, s') \<Rightarrow> ((None, h\<lparr>hn_queue := Some a\<rparr>), s'))
      | TopicAdapter \<Rightarrow>
          (case get_topic_adapter env s of
             (Inl e, s') \<Rightarrow> ((Some e, h), s')
           | (Inr a, s') \<Rightarrow> ((None, h\<lparr>hn_topic := Some a\<rparr>), s')))"

fun acquire_all ::
    "'w shell_env \<Rightarrow> adapter_kind list \<Rightarrow> 'w handles \<Rightarrow> 'w session \<Rightarrow> (gerr option \<times> 'w handles) \<times> 'w session" where
  "acquire_all env [] h s = ((None, h), s)"
| "acquire_all env (k # ks) h s =
     (case acquire env k h s of
        ((Some e, h'), s') \<Rightarrow> ((Some e, h'), s')
      | ((None, h'), s') \<Rightarrow> acquire_all env ks h' s')"

definition stage_args :: "string \<Rightarrow> string list \<Rightarrow> bool \<Rightarrow> bool \<Rightarrow> string list" where
  "stage_args verb args verb_in verb_out =
     (let a = (if verb_in \<and> is_producer verb then ensure_flag args ''--ndjson'' else args)
      in if verb_out \<and> is_consumer verb then ensure_flag a ''--ndjson'' else a)"

section \<open>Blocks and their wiring\<close>

record plan_item =
  pl_block :: pipeline_block
  pl_in :: stream
  pl_out :: stream
  pl_verb_in :: bool
  pl_verb_out :: bool

definition item_stage :: "plan_item \<Rightarrow> pipeline_stage" where
  "item_stage it = hd (pb_stages (pl_block it))"

definition item_verb :: "plan_item \<Rightarrow> string" where
  "item_verb it = ps_verb (item_stage it)"

definition item_args :: "plan_item \<Rightarrow> string list" where
  "item_args it = tl (stage_args (item_verb it) (ps_args (item_stage it)) (pl_verb_in it) (pl_verb_out it))"

definition run_body ::
    "'w shell_env \<Rightarrow> plan_item \<Rightarrow> 'w handles \<Rightarrow> bool \<Rightarrow> 'w session \<Rightarrow> (gerr option \<times> 'w session) option" where
  "run_body env it h cancelled s =
     map_option (\<lambda>(e, w). (e, s\<lparr>sn_world := w\<rparr>))
       (sh_body env (item_verb it) (hn_queue h) (hn_topic h) (item_args it) (pl_in it) (pl_out it)
         cancelled (sn_world s))"

definition execute_verb ::
    "'w shell_env \<Rightarrow> plan_item \<Rightarrow> bool \<Rightarrow> 'w session \<Rightarrow> (gerr option \<times> 'w session) option" where
  "execute_verb env it cancelled s =
     (case verb_needs env (item_verb it) (item_args it) of
        Inl e \<Rightarrow> Some (Some e, s)
      | Inr needs \<Rightarrow>
          (case acquire_all env needs no_handles s of
             ((Some e, h), s') \<Rightarrow> Some (Some e, s')
           | ((None, h), s') \<Rightarrow> run_body env it h cancelled s'))"

definition execute_external ::
    "'w shell_env \<Rightarrow> plan_item \<Rightarrow> 'w session \<Rightarrow> gerr option \<times> 'w session" where
  "execute_external env it s =
     (case sh_shell env (join '' | '' (map ps_raw (pb_stages (pl_block it)))) (pl_in it) (pl_out it)
         (sn_world s) of
        (e, w) \<Rightarrow> (e, s\<lparr>sn_world := w\<rparr>))"

definition execute_block ::
    "'w shell_env \<Rightarrow> plan_item \<Rightarrow> bool \<Rightarrow> 'w session \<Rightarrow> (gerr option \<times> 'w session) option" where
  "execute_block env it cancelled s =
     (if pb_is_verb (pl_block it) then execute_verb env it cancelled s
      else Some (execute_external env it s))"

definition prev_block_is_verb :: "pipeline_block list \<Rightarrow> nat \<Rightarrow> bool" where
  "prev_block_is_verb blocks i \<longleftrightarrow> i > 0 \<and> pb_is_verb (blocks ! (i - 1))"

definition wire_block :: "pipeline_block list \<Rightarrow> nat \<Rightarrow> plan_item" where
  "wire_block blocks i =
     (let reader = (if i = 0 then StreamIn else StreamPipe (i - 1)); b = blocks ! i in
      if i = length blocks - 1
      then \<lparr>pl_block = b, pl_in = reader, pl_out = StreamOut,
        pl_verb_in = (i \<noteq> 0 \<and> pb_is_verb b \<and> prev_block_is_verb blocks i), pl_verb_out = False\<rparr>
      else \<lparr>pl_block = b, pl_in = reader, pl_out = StreamPipe i, pl_verb_in = False,
        pl_verb_out = (pb_is_verb b \<and> pb_is_verb (blocks ! (i + 1)))\<rparr>)"

text \<open>The blocks that are started: an \<open>os.Pipe\<close> that fails ends the loop over the blocks.\<close>

definition pipe_failure :: "'w shell_env \<Rightarrow> pipeline_block list \<Rightarrow> nat option" where
  "pipe_failure env blocks = find (\<lambda>i. sh_pipe env i \<noteq> None) [0..<length blocks - 1]"

definition wire :: "'w shell_env \<Rightarrow> pipeline_block list \<Rightarrow> plan_item list" where
  "wire env blocks =
     map (wire_block blocks)
       [0..<case pipe_failure env blocks of None \<Rightarrow> length blocks | Some i \<Rightarrow> i]"

definition line_blocks :: "string \<Rightarrow> pipeline_block list" where
  "line_blocks line = coalesce_stages (map classify_stage (split_pipeline line))"

section \<open>Concurrent execution\<close>

text \<open>
  The goroutines of one pipeline.  A task is a block not yet started, a verb that still needs
  some adapters, or a finished block.  One step of a task is one call under the session's
  mutex, or the body of its command.  The first error is kept and cancels the context of
  the others (\<^verbatim>\<open>errgroup\<close>).
\<close>

datatype 'w task =
    TaskStart plan_item
  | TaskVerb plan_item "adapter_kind list" "'w handles"
  | TaskDone

record 'w group =
  gr_session :: "'w session"
  gr_tasks :: "'w task list"
  gr_err :: "gerr option"

definition finish_task :: "nat \<Rightarrow> gerr option \<times> 'w session \<Rightarrow> 'w group \<Rightarrow> 'w group" where
  "finish_task i r g =
     g\<lparr>gr_session := snd r, gr_tasks := (gr_tasks g)[i := TaskDone],
       gr_err := (case gr_err g of None \<Rightarrow> fst r | Some e \<Rightarrow> Some e)\<rparr>"

definition task_step :: "'w shell_env \<Rightarrow> nat \<Rightarrow> 'w group \<Rightarrow> 'w group option" where
  "task_step env i g =
     (case gr_tasks g ! i of
        TaskDone \<Rightarrow> None
      | TaskStart it \<Rightarrow>
          Some (if pb_is_verb (pl_block it)
            then (case verb_needs env (item_verb it) (item_args it) of
                Inl e \<Rightarrow> finish_task i (Some e, gr_session g) g
              | Inr needs \<Rightarrow> g\<lparr>gr_tasks := (gr_tasks g)[i := TaskVerb it needs no_handles]\<rparr>)
            else finish_task i (execute_external env it (gr_session g)) g)
      | TaskVerb it [] h \<Rightarrow>
          map_option (\<lambda>r. finish_task i r g) (run_body env it h (gr_err g \<noteq> None) (gr_session g))
      | TaskVerb it (k # ks) h \<Rightarrow>
          Some (case acquire env k h (gr_session g) of
              ((Some e, h'), s') \<Rightarrow> finish_task i (Some e, s') g
            | ((None, h'), s') \<Rightarrow> g\<lparr>gr_session := s', gr_tasks := (gr_tasks g)[i := TaskVerb it ks h']\<rparr>))"

inductive group_step :: "'w shell_env \<Rightarrow> 'w group \<Rightarrow> 'w group \<Rightarrow> bool" for env where
  task: "i < length (gr_tasks g) \<Longrightarrow> task_step env i g = Some g' \<Longrightarrow> group_step env g g'"

inductive_cases group_stepE: "group_step env g g'"

inductive group_run :: "'w shell_env \<Rightarrow> 'w group \<Rightarrow> 'w group \<Rightarrow> bool" for env where
  refl: "group_run env g g"
| step: "group_run env g g1 \<Longrightarrow> group_step env g1 g2 \<Longrightarrow> group_run env g g2"

definition start_group :: "plan_item list \<Rightarrow> 'w session \<Rightarrow> 'w group" where
  "start_group items s = \<lparr>gr_session = s, gr_tasks = map TaskStart items, gr_err = None\<rparr>"

definition group_done :: "'w group \<Rightarrow> bool" where
  "group_done g \<longleftrightarrow> (\<forall>t \<in> set (gr_tasks g). t = TaskDone)"

text \<open>
  One pipeline: \<open>g.Wait()\<close> returns when every task is done.  When a pipe cannot be created
  the call returns at once, whatever the tasks already started have done so far.
\<close>

inductive run_one_pipeline ::
    "'w shell_env \<Rightarrow> string \<Rightarrow> 'w session \<Rightarrow> gerr option \<Rightarrow> 'w session \<Rightarrow> bool" for env where
  no_stage: "split_pipeline line = [] \<Longrightarrow> run_one_pipeline env line s None s"
| single: "line_blocks line = [b] \<Longrightarrow>
    execute_block env (wire_block [b] 0) False s = Some (e, s') \<Longrightarrow> run_one_pipeline env line s e s'"
| waited: "line_blocks line = bs \<Longrightarrow> 1 < length bs \<Longrightarrow> pipe_failure env bs = None \<Longrightarrow>
    group_run env (start_group (wire env bs) s) g \<Longrightarrow> group_done g \<Longrightarrow>
    run_one_pipeline env line s (gr_err g) (gr_session g)"
| no_pipe: "line_blocks line = bs \<Longrightarrow> 1 < length bs \<Longrightarrow> pipe_failure env bs = Some i \<Longrightarrow>
    sh_pipe env i = Some e \<Longrightarrow> group_run env (start_group (wire env bs) s) g \<Longrightarrow>
    run_one_pipeline env line s (Some (EWrap ''create pipe: '' e [])) (gr_session g)"

text \<open>The commands of a line, in order, up to the first error.\<close>

inductive run_commands ::
    "'w shell_env \<Rightarrow> string list \<Rightarrow> 'w session \<Rightarrow> gerr option \<Rightarrow> 'w session \<Rightarrow> bool" for env where
  all_done: "run_commands env [] s None s"
| failed: "run_one_pipeline env c s (Some e) s' \<Longrightarrow> run_commands env (c # cs) s (Some e) s'"
| again: "run_one_pipeline env c s None s1 \<Longrightarrow> run_commands env cs s1 e s2 \<Longrightarrow>
    run_commands env (c # cs) s e s2"

definition execute_pipeline ::
    "'w shell_env \<Rightarrow> string \<Rightarrow> 'w session \<Rightarrow> gerr option \<Rightarrow> 'w session \<Rightarrow> bool" where
  "execute_pipeline env line s e s' =
     run_commands env (split_commands (expand_alias line (sh_aliases env))) s e s'"

section \<open>The read-eval loop\<close>

datatype shell_action =
    ActSkip | ActQuit | ActHelp "string list" | ActSystem string | ActPipeline string

definition shell_action :: "(string \<times> string) list \<Rightarrow> string \<Rightarrow> shell_action" where
  "shell_action aliases raw =
     (let line = trim_space raw in
      if line = [] then ActSkip
      else if line = ''exit'' \<or> line = ''quit'' then ActQuit
      else if line = ''help'' \<or> has_prefix line ''help '' then ActHelp (tl (shell_split line))
      else if has_prefix line ''!'' then ActSystem (trim_space (tl line))
      else if \<not> contains_verb line \<and> \<not> is_alias line aliases then ActSystem (trim_space line)
      else ActPipeline line)"

text \<open>
  What one line does to the session; errors are printed and the loop goes on.  \<open>help\<close> prints,
  and an empty system command is not run.
\<close>

inductive shell_line :: "'w shell_env \<Rightarrow> string \<Rightarrow> 'w session \<Rightarrow> 'w session \<Rightarrow> bool" for env where
  quiet: "shell_action (sh_aliases env) raw \<in> {ActSkip, ActSystem []} \<union> range ActHelp \<Longrightarrow> shell_line env raw s s"
| system: "shell_action (sh_aliases env) raw = ActSystem cmdline \<Longrightarrow> cmdline \<noteq> [] \<Longrightarrow>
    sh_shell env cmdline StreamIn StreamOut (sn_world s) = (e, w) \<Longrightarrow> shell_line env raw s (s\<lparr>sn_world := w\<rparr>)"
| pipeline: "shell_action (sh_aliases env) raw = ActPipeline line \<Longrightarrow> execute_pipeline env line s e s' \<Longrightarrow>
    shell_line env raw s s'"

text \<open>The session of a whole shell: lines until the user quits or the input ends, then the close.\<close>

inductive shell_session :: "'w shell_env \<Rightarrow> 'w session \<Rightarrow> 'w session \<Rightarrow> bool" for env where
  start: "shell_session env s s"
| line: "shell_session env s s1 \<Longrightarrow> shell_line env raw s1 s2 \<Longrightarrow> shell_session env s s2"

definition new_session :: "'w \<Rightarrow> 'w session" where
  "new_session w = \<lparr>sn_queue = None, sn_topic = None, sn_world = w\<rparr>"

section \<open>Termination of a pipeline\<close>

text \<open>The steps a task still has to make, at most.\<close>

fun task_work :: "'w task \<Rightarrow> nat" where
  "task_work (TaskStart it) = 4"
| "task_work (TaskVerb it needs h) = Suc (length needs)"
| "task_work TaskDone = 0"

definition group_work :: "'w group \<Rightarrow> nat" where
  "group_work g = sum_list (map task_work (gr_tasks g))"

lemma verb_needs_length:
  assumes "verb_needs env verb args = Inr needs"
  shows "length needs \<le> 2"
proof -
  have "length needs \<le> 2"
    if "(if a then (case sh_flags env verb args of Inl e \<Rightarrow> Inl e
            | Inr ff \<Rightarrow> (case p ff of (from_topic, to_topic) \<Rightarrow>
                Inr ((if \<not> from_topic \<or> \<not> to_topic then [QueueAdapter] else []) @
                  (if from_topic \<or> to_topic then [TopicAdapter] else []))))
        else if b then (case sh_flags env verb args of Inl e \<Rightarrow> Inl e
            | Inr ff \<Rightarrow> Inr (if q ff then [TopicAdapter] else [QueueAdapter]))
        else if c then Inr [QueueAdapter] else if d then Inr [TopicAdapter]
        else if e1 then Inr [] else if e2 then Inr [] else Inl z) = Inr needs"
    for a b c d e1 e2 p q z
    using that by (auto split: if_splits sum.splits prod.splits)
  from this [OF assms [unfolded verb_needs_def Let_def]] show ?thesis .
qed

lemma work_update:
  "i < length ts \<Longrightarrow> sum_list (map task_work (ts[i := t])) + task_work (ts ! i) =
    sum_list (map task_work ts) + task_work t"
  by (induction ts arbitrary: i) (auto simp: nth_Cons split: nat.splits)

lemma task_step_update:
  assumes "task_step env i g = Some g'"
  shows "\<exists>t. gr_tasks g' = (gr_tasks g)[i := t] \<and> task_work t < task_work (gr_tasks g ! i)"
proof (cases "gr_tasks g ! i")
  case (TaskStart it)
  then show ?thesis
    using assms verb_needs_length [of env "item_verb it" "item_args it"]
    by (auto simp: task_step_def finish_task_def split: if_splits sum.splits)
next
  case (TaskVerb it needs h)
  show ?thesis
  proof (cases needs)
    case Nil
    then have "gr_tasks g' = (gr_tasks g)[i := TaskDone]"
      using assms TaskVerb by (auto simp: task_step_def finish_task_def)
    then show ?thesis using TaskVerb by auto
  next
    case (Cons k ks)
    then show ?thesis
      using assms TaskVerb by (auto simp: task_step_def finish_task_def split: prod.splits option.splits)
  qed
qed (use assms in \<open>simp add: task_step_def\<close>)

lemma group_step_work: "group_step env g g' \<Longrightarrow> group_work g' < group_work g"
proof (erule group_stepE)
  fix i assume i: "i < length (gr_tasks g)" and "task_step env i g = Some g'"
  then obtain t where t: "gr_tasks g' = (gr_tasks g)[i := t]" "task_work t < task_work (gr_tasks g ! i)"
    using task_step_update by blast
  then show "group_work g' < group_work g"
    using work_update [OF i, of t] by (simp add: group_work_def)
qed

text \<open>A task that is in the body of a command that never returns.\<close>

definition task_blocked :: "'w shell_env \<Rightarrow> 'w group \<Rightarrow> 'w task \<Rightarrow> bool" where
  "task_blocked env g t \<longleftrightarrow>
     (\<exists>it h. t = TaskVerb it [] h \<and> run_body env it h (gr_err g \<noteq> None) (gr_session g) = None)"

lemma task_step_None:
  "i < length (gr_tasks g) \<Longrightarrow> task_step env i g = None \<longleftrightarrow> gr_tasks g ! i = TaskDone \<or> task_blocked env g (gr_tasks g ! i)"
  by (auto simp: task_step_def task_blocked_def split: task.splits list.splits)

lemma group_stuck:
  "(\<nexists>g'. group_step env g g') \<longleftrightarrow> (\<forall>t \<in> set (gr_tasks g). t = TaskDone \<or> task_blocked env g t)"
proof
  assume stuck: "\<nexists>g'. group_step env g g'"
  show "\<forall>t \<in> set (gr_tasks g). t = TaskDone \<or> task_blocked env g t"
  proof
    fix t assume "t \<in> set (gr_tasks g)"
    then obtain i where i: "i < length (gr_tasks g)" "gr_tasks g ! i = t" by (auto simp: in_set_conv_nth)
    then have "task_step env i g = None" using stuck group_step.task by (metis option.exhaust)
    then show "t = TaskDone \<or> task_blocked env g t" using i task_step_None by blast
  qed
next
  assume "\<forall>t \<in> set (gr_tasks g). t = TaskDone \<or> task_blocked env g t"
  then have "i < length (gr_tasks g) \<Longrightarrow> task_step env i g = None" for i by (simp add: task_step_None)
  then show "\<nexists>g'. group_step env g g'" by (auto elim!: group_stepE)
qed

lemma group_run_length: "group_run env g g' \<Longrightarrow> length (gr_tasks g') = length (gr_tasks g)"
proof (induction rule: group_run.induct)
  case (step g g1 g2)
  then show ?case by (auto elim!: group_stepE dest: task_step_update)
qed simp

lemma group_run_trans: "group_run env g1 g2 \<Longrightarrow> group_run env g g1 \<Longrightarrow> group_run env g g2"
  by (induction rule: group_run.induct) (auto intro: group_run.step)

lemma group_finishes:
  "\<exists>g'. group_run env g g' \<and> (\<forall>t \<in> set (gr_tasks g'). t = TaskDone \<or> task_blocked env g' t)"
proof (induction "group_work g" arbitrary: g rule: less_induct)
  case less
  show ?case
  proof (cases "\<exists>g1. group_step env g g1")
    case False
    then show ?thesis using group_stuck group_run.refl by blast
  next
    case True
    then obtain g1 where s: "group_step env g g1" by blast
    then obtain g' where "group_run env g1 g'" "\<forall>t \<in> set (gr_tasks g'). t = TaskDone \<or> task_blocked env g' t"
      using less group_step_work by blast
    then show ?thesis using s group_run.refl group_run.step group_run_trans by metis
  qed
qed

section \<open>The life of the session's connections\<close>

text \<open>
  What the session may rely on: \<open>live\<close>, the number of open connections, goes up by one when a
  factory succeeds and down by one when an adapter it made is closed; the bodies of the
  commands and the user's shell leave it alone.
\<close>

locale shell_life =
  fixes env :: "'w shell_env"
    and live :: "'w \<Rightarrow> int"
    and made_queue :: "'w queue_backend \<Rightarrow> bool"
    and made_topic :: "'w topic_backend \<Rightarrow> bool"
  assumes queue_fail: "sh_queue env = Some f \<Longrightarrow> f w = (Inl e, w') \<Longrightarrow> live w' = live w"
    and queue_ok: "sh_queue env = Some f \<Longrightarrow> f w = (Inr q, w') \<Longrightarrow> live w' = live w + 1 \<and> made_queue q"
    and topic_fail: "sh_topic env = Some h \<Longrightarrow> h w = (Inl e, w') \<Longrightarrow> live w' = live w"
    and topic_ok: "sh_topic env = Some h \<Longrightarrow> h w = (Inr t, w') \<Longrightarrow> live w' = live w + 1 \<and> made_topic t"
    and queue_closed: "made_queue q \<Longrightarrow> qb_close q w = (oe, w') \<Longrightarrow> live w' = live w - 1"
    and topic_closed: "made_topic t \<Longrightarrow> tb_close t w = (oe, w') \<Longrightarrow> live w' = live w - 1"
    and body_live: "pred_option made_queue oq \<Longrightarrow> pred_option made_topic ot \<Longrightarrow>
      sh_body env verb oq ot args i u c w = Some (oe, w') \<Longrightarrow> live w' = live w"
    and shell_live: "sh_shell env cmdline i u w = (oe, w') \<Longrightarrow> live w' = live w"
begin

definition session_owned :: "'w session \<Rightarrow> bool" where
  "session_owned s \<longleftrightarrow>
     live (sn_world s) = of_bool (sn_queue s \<noteq> None) + of_bool (sn_topic s \<noteq> None) \<and>
     pred_option made_queue (sn_queue s) \<and> pred_option made_topic (sn_topic s)"

text \<open>The adapters a task holds are those of the session.\<close>

definition task_shares :: "'w session \<Rightarrow> 'w task \<Rightarrow> bool" where
  "task_shares s t = (case t of
     TaskVerb it needs h \<Rightarrow> (hn_queue h = None \<or> hn_queue h = sn_queue s) \<and> (hn_topic h = None \<or> hn_topic h = sn_topic s)
   | _ \<Rightarrow> True)"

definition group_owned :: "'w group \<Rightarrow> bool" where
  "group_owned g \<longleftrightarrow> session_owned (gr_session g) \<and> (\<forall>t \<in> set (gr_tasks g). task_shares (gr_session g) t)"

text \<open>A step of the session keeps the adapters it has.\<close>

definition session_grows :: "'w session \<Rightarrow> 'w session \<Rightarrow> bool" where
  "session_grows s s' \<longleftrightarrow>
     (sn_queue s \<noteq> None \<longrightarrow> sn_queue s' = sn_queue s) \<and> (sn_topic s \<noteq> None \<longrightarrow> sn_topic s' = sn_topic s)"

lemma shares_grows: "task_shares s t \<Longrightarrow> session_grows s s' \<Longrightarrow> task_shares s' t"
  by (cases t) (auto simp: task_shares_def session_grows_def)

lemma get_queue_owned:
  assumes "get_queue_adapter env s = (r, s')" and "session_owned s"
  shows "session_owned s' \<and> session_grows s s' \<and> (\<forall>a. r = Inr a \<longrightarrow> sn_queue s' = Some a)"
proof (cases "sn_queue s")
  case (Some a)
  then show ?thesis using assms by (auto simp: get_queue_adapter_def session_grows_def)
next
  case no_queue: None
  show ?thesis
  proof (cases "sh_queue env")
    case None
    then show ?thesis using assms no_queue by (auto simp: get_queue_adapter_def session_grows_def)
  next
    case (Some f)
    obtain x w where x: "f (sn_world s) = (x, w)" by (metis surj_pair)
    show ?thesis
      using assms no_queue Some x queue_fail [OF Some] queue_ok [OF Some]
      by (cases x) (auto simp: get_queue_adapter_def session_owned_def session_grows_def)
  qed
qed

lemma get_topic_owned:
  assumes "get_topic_adapter env s = (r, s')" and "session_owned s"
  shows "session_owned s' \<and> session_grows s s' \<and> (\<forall>a. r = Inr a \<longrightarrow> sn_topic s' = Some a)"
proof (cases "sn_topic s")
  case (Some a)
  then show ?thesis using assms by (auto simp: get_topic_adapter_def session_grows_def)
next
  case no_topic: None
  show ?thesis
  proof (cases "sh_topic env")
    case None
    then show ?thesis using assms no_topic by (auto simp: get_topic_adapter_def session_grows_def)
  next
    case (Some f)
    obtain x w where x: "f (sn_world s) = (x, w)" by (metis surj_pair)
    show ?thesis
      using assms no_topic Some x topic_fail [OF Some] topic_ok [OF Some]
      by (cases x) (auto simp: get_topic_adapter_def session_owned_def session_grows_def)
  qed
qed

lemma acquire_owned:
  assumes "acquire env k h s = ((e, h'), s')" and "session_owned s" and "task_shares s (TaskVerb it ks h)"
  shows "session_owned s' \<and> session_grows s s' \<and> task_shares s' (TaskVerb it ks' h')"
proof (cases k)
  case QueueAdapter
  obtain r t where g: "get_queue_adapter env s = (r, t)" by (metis surj_pair)
  then show ?thesis
    using get_queue_owned [OF g assms(2)] assms QueueAdapter
    by (auto simp: acquire_def task_shares_def session_grows_def split: sum.splits)
next
  case TopicAdapter
  obtain r t where g: "get_topic_adapter env s = (r, t)" by (metis surj_pair)
  then show ?thesis
    using get_topic_owned [OF g assms(2)] assms TopicAdapter
    by (auto simp: acquire_def task_shares_def session_grows_def split: sum.splits)
qed

lemma world_owned: "session_owned s \<Longrightarrow> live w = live (sn_world s) \<Longrightarrow> session_owned (s\<lparr>sn_world := w\<rparr>)"
  by (simp add: session_owned_def)

lemma body_owned:
  assumes "run_body env it h c s = Some (e, s')" and "session_owned s" and "task_shares s (TaskVerb it ks h)"
  shows "session_owned s' \<and> session_grows s s'"
proof -
  have "pred_option made_queue (hn_queue h)" "pred_option made_topic (hn_topic h)"
    using assms(2,3) by (auto simp: task_shares_def session_owned_def)
  then show ?thesis
    using assms(1,2) world_owned body_live by (auto simp: run_body_def session_grows_def)
qed

lemma external_owned: "execute_external env it s = (e, s') \<Longrightarrow> session_owned s \<Longrightarrow> session_owned s' \<and> session_grows s s'"
  using world_owned shell_live by (auto simp: execute_external_def session_grows_def split: prod.splits)

lemma acquire_all_owned:
  "acquire_all env ks h s = ((e, h'), s') \<Longrightarrow> session_owned s \<Longrightarrow> task_shares s (TaskVerb it ks h) \<Longrightarrow>
   session_owned s' \<and> task_shares s' (TaskVerb it [] h')"
proof (induction ks arbitrary: h s)
  case Nil
  then show ?case by (simp add: task_shares_def)
next
  case (Cons k ks)
  obtain e1 h1 s1 where a: "acquire env k h s = ((e1, h1), s1)" by (metis surj_pair)
  have "session_owned s1 \<and> task_shares s1 (TaskVerb it ks h1)" for ks
    using acquire_owned [OF a Cons.prems(2,3)] by blast
  then show ?case using Cons a by (auto split: option.splits)
qed

lemma block_owned:
  assumes "execute_block env it c s = Some (e, s')" and "session_owned s"
  shows "session_owned s'"
proof (cases "pb_is_verb (pl_block it)")
  case False
  then show ?thesis using assms external_owned by (simp add: execute_block_def)
next
  case verb: True
  show ?thesis
  proof (cases "verb_needs env (item_verb it) (item_args it)")
    case (Inl x)
    then show ?thesis using assms verb by (simp add: execute_block_def execute_verb_def)
  next
    case (Inr needs)
    obtain e1 h1 s1 where a: "acquire_all env needs no_handles s = ((e1, h1), s1)" by (metis surj_pair)
    have "session_owned s1 \<and> task_shares s1 (TaskVerb it [] h1)"
      by (rule acquire_all_owned [OF a assms(2)]) (simp add: task_shares_def no_handles_def)
    then show ?thesis
      using assms verb Inr a body_owned [of it h1 c s1]
      by (auto simp: execute_block_def execute_verb_def split: option.splits)
  qed
qed

lemma group_update:
  assumes "group_owned g" and "session_owned s'" and "session_grows (gr_session g) s'" and "task_shares s' t"
  shows "group_owned \<lparr>gr_session = s', gr_tasks = (gr_tasks g)[i := t], gr_err = e\<rparr>"
  using assms shares_grows
  by (auto simp: group_owned_def dest!: set_update_subset_insert [THEN subsetD])

lemma grows_refl [simp]: "session_grows s s"
  by (simp add: session_grows_def)

lemma finish_owned:
  assumes "group_owned g" and "session_owned (snd r)" and "session_grows (gr_session g) (snd r)"
  shows "group_owned (finish_task i r g)"
  using group_update [OF assms(1-3), of TaskDone i] by (simp add: finish_task_def task_shares_def group_owned_def)

lemma task_step_owned:
  assumes "task_step env i g = Some g'" and "group_owned g" and "i < length (gr_tasks g)"
  shows "group_owned g'"
proof -
  have own: "session_owned (gr_session g)" and "gr_tasks g ! i \<in> set (gr_tasks g)"
    using assms by (simp_all add: group_owned_def)
  then have shares: "task_shares (gr_session g) (gr_tasks g ! i)" using assms(2) by (simp add: group_owned_def)
  show ?thesis
  proof (cases "gr_tasks g ! i")
    case (TaskStart it)
    obtain e s' where x: "execute_external env it (gr_session g) = (e, s')" by (metis surj_pair)
    have "group_owned (finish_task i (e, s') g)"
      using finish_owned [OF assms(2), of "(e, s')"] external_owned [OF x own] by simp
    moreover have "group_owned (finish_task i (Some e1, gr_session g) g)" for e1
      using finish_owned [OF assms(2), of "(Some e1, gr_session g)"] own by simp
    moreover have "group_owned (g\<lparr>gr_tasks := (gr_tasks g)[i := TaskVerb it needs no_handles]\<rparr>)" for needs
      using group_update [OF assms(2) own, of "TaskVerb it needs no_handles" i]
      by (simp add: task_shares_def no_handles_def group_owned_def)
    ultimately show ?thesis
      using assms(1) TaskStart x by (auto simp: task_step_def split: if_splits sum.splits)
  next
    case (TaskVerb it needs h)
    show ?thesis
    proof (cases needs)
      case Nil
      then obtain e s' where x: "run_body env it h (gr_err g \<noteq> None) (gr_session g) = Some (e, s')"
        using assms(1) TaskVerb by (auto simp: task_step_def)
      have "group_owned (finish_task i (e, s') g)"
        using finish_owned [OF assms(2), of "(e, s')"] body_owned [OF x own] shares TaskVerb by simp
      then show ?thesis using assms(1) TaskVerb Nil x by (auto simp: task_step_def)
    next
      case (Cons k ks)
      obtain e h' s' where x: "acquire env k h (gr_session g) = ((e, h'), s')" by (metis surj_pair)
      note a = acquire_owned [OF x own, of it needs ks]
      have "group_owned (finish_task i (e1, s') g)" for e1
        using finish_owned [OF assms(2), of "(e1, s')"] a shares TaskVerb by simp
      moreover have "group_owned (g\<lparr>gr_session := s', gr_tasks := (gr_tasks g)[i := TaskVerb it ks h']\<rparr>)"
        using group_update [OF assms(2), of s' "TaskVerb it ks h'" i] a shares TaskVerb
        by (simp add: group_owned_def)
      ultimately show ?thesis
        using assms(1) TaskVerb Cons x by (auto simp: task_step_def split: option.splits)
    qed
  qed (use assms in \<open>simp add: task_step_def\<close>)
qed

lemma group_run_owned: "group_run env g g' \<Longrightarrow> group_owned g \<Longrightarrow> group_owned g'"
  by (induction rule: group_run.induct) (auto elim!: group_stepE intro: task_step_owned)

lemma start_owned: "session_owned s \<Longrightarrow> group_owned (start_group items s)"
  by (auto simp: group_owned_def start_group_def task_shares_def)

lemma pipeline_owned: "run_one_pipeline env line s e s' \<Longrightarrow> session_owned s \<Longrightarrow> session_owned s'"
proof (induction rule: run_one_pipeline.induct)
  case (single line b s e s')
  then show ?case using block_owned by blast
next
  case (waited line bs s g)
  then show ?case using group_run_owned start_owned unfolding group_owned_def by blast
next
  case (no_pipe line bs i e s g)
  then show ?case using group_run_owned start_owned unfolding group_owned_def by blast
qed

lemma commands_owned: "run_commands env cs s e s' \<Longrightarrow> session_owned s \<Longrightarrow> session_owned s'"
  by (induction rule: run_commands.induct) (auto intro: pipeline_owned)

lemma line_owned: "shell_line env raw s s' \<Longrightarrow> session_owned s \<Longrightarrow> session_owned s'"
  by (induction rule: shell_line.induct)
     (auto simp: execute_pipeline_def intro: commands_owned world_owned dest: shell_live)

lemma shell_session_owned: "shell_session env s s' \<Longrightarrow> session_owned s \<Longrightarrow> session_owned s'"
  by (induction rule: shell_session.induct) (auto intro: line_owned)

lemma close_owned: "session_owned s \<Longrightarrow> live (sn_world (close_session s)) = 0 \<and>
    sn_queue (close_session s) = None \<and> sn_topic (close_session s) = None"
proof -
  assume own: "session_owned s"
  obtain e1 w1 where c1: "\<And>a. sn_queue s = Some a \<Longrightarrow> qb_close a (sn_world s) = (e1, w1)"
    by (metis option.sel surj_pair)
  obtain e2 w2 where c2: "\<And>a. sn_topic s = Some a \<Longrightarrow> tb_close a (if sn_queue s = None then sn_world s else w1) = (e2, w2)"
    by (metis option.sel surj_pair)
  show ?thesis
    using own queue_closed [OF _ c1] topic_closed [OF _ c2] c1 c2
    by (cases "sn_queue s"; cases "sn_topic s") (auto simp: close_session_def session_owned_def Let_def)
qed

end

lemma step_err_kept:
  assumes "task_step env i g = Some g'" and "gr_err g = Some e"
  shows "gr_err g' = Some e"
proof (cases "gr_tasks g ! i")
  case (TaskStart it)
  then show ?thesis using assms by (auto simp: task_step_def finish_task_def split: if_splits sum.splits)
next
  case (TaskVerb it needs h)
  then show ?thesis
    using assms by (cases needs) (auto simp: task_step_def finish_task_def split: prod.splits option.splits)
qed (use assms in \<open>simp add: task_step_def\<close>)

lemma run_err_kept: "group_run env g g' \<Longrightarrow> gr_err g = Some e \<Longrightarrow> gr_err g' = Some e"
  by (induction rule: group_run.induct) (auto elim!: group_stepE dest: step_err_kept)

section \<open>One block alone\<close>

text \<open>What a lone task still computes.\<close>

fun task_result :: "'w shell_env \<Rightarrow> 'w task \<Rightarrow> gerr option \<Rightarrow> 'w session \<Rightarrow> (gerr option \<times> 'w session) option" where
  "task_result env (TaskStart it) e s = execute_block env it False s"
| "task_result env (TaskVerb it needs h) e s =
     (case acquire_all env needs h s of
        ((Some e1, h'), s') \<Rightarrow> Some (Some e1, s')
      | ((None, h'), s') \<Rightarrow> run_body env it h' False s')"
| "task_result env TaskDone e s = Some (e, s)"

definition lone :: "'w group \<Rightarrow> bool" where
  "lone g \<longleftrightarrow> (\<exists>t. gr_tasks g = [t] \<and> (t \<noteq> TaskDone \<longrightarrow> gr_err g = None))"

abbreviation lone_result :: "'w shell_env \<Rightarrow> 'w group \<Rightarrow> (gerr option \<times> 'w session) option" where
  "lone_result env g \<equiv> task_result env (hd (gr_tasks g)) (gr_err g) (gr_session g)"

lemma lone_step:
  assumes "lone g" and "group_step env g g'"
  shows "lone g' \<and> lone_result env g' = lone_result env g"
proof -
  obtain t where t: "gr_tasks g = [t]" "t \<noteq> TaskDone \<longrightarrow> gr_err g = None" using assms(1) by (auto simp: lone_def)
  have s: "task_step env 0 g = Some g'" using assms(2) t by (auto elim!: group_stepE)
  show ?thesis
  proof (cases t)
    case (TaskStart it)
    then show ?thesis
      using s t by (auto simp: task_step_def lone_def finish_task_def execute_block_def execute_verb_def
          split: if_splits sum.splits)
  next
    case (TaskVerb it needs h)
    then show ?thesis
      using s t by (cases needs) (auto simp: task_step_def lone_def finish_task_def
          split: prod.splits option.splits)
  qed (use s t in \<open>simp add: task_step_def\<close>)
qed

lemma lone_run: "group_run env g g' \<Longrightarrow> lone g \<Longrightarrow> lone g' \<and> lone_result env g' = lone_result env g"
  by (induction rule: group_run.induct) (auto dest: lone_step)

lemma lone_blocked:
  assumes "lone g" and "\<forall>t \<in> set (gr_tasks g). t = TaskDone \<or> task_blocked env g t"
  shows "group_done g \<and> lone_result env g = Some (gr_err g, gr_session g) \<or> lone_result env g = None"
  using assms by (auto simp: lone_def task_blocked_def group_done_def)

section \<open>Properties\<close>



text \<open>
  C24: the wiring of a pipeline: the first block reads the input of the line, the last writes
  its output, every other end is joined to its neighbour's by one pipe.  A consumer before
  another verb writes NDJSON.  A producer after another verb reads NDJSON only when it is the
  last block; anywhere else its arguments are untouched, although the verb before it writes
  NDJSON.
\<close>

theorem wire_framing:
  assumes "i < length blocks"
  shows "pl_in (wire_block blocks 0) = StreamIn \<and>
    pl_out (wire_block blocks (length blocks - 1)) = StreamOut \<and>
    (i + 1 < length blocks \<longrightarrow>
       pl_out (wire_block blocks i) = StreamPipe i \<and> pl_in (wire_block blocks (i + 1)) = StreamPipe i) \<and>
    (\<forall>st v rest. blocks ! i = \<lparr>pb_is_verb = True, pb_stages = [st]\<rparr> \<and> ps_verb st = v \<and> ps_args st = v # rest \<longrightarrow>
       (i + 1 < length blocks \<and> pb_is_verb (blocks ! (i + 1)) \<and> is_consumer v \<longrightarrow>
          item_args (wire_block blocks i) = ensure_flag rest ''--ndjson'') \<and>
       (0 < i \<and> pb_is_verb (blocks ! (i - 1)) \<and> is_producer v \<longrightarrow>
          item_args (wire_block blocks i) =
            (if i + 1 = length blocks then ensure_flag rest ''--ndjson'' else rest)))"
proof -
  have v: "ensure_flag (v # rest) ''--ndjson'' = v # ensure_flag rest ''--ndjson''"
    if "is_consumer v \<or> is_producer v" for v and rest :: "string list"
    using that by (auto simp: ensure_flag_def is_consumer_def is_producer_def)
  have x: "\<not> (is_consumer v \<and> is_producer v)" for v
    by (auto simp: is_consumer_def is_producer_def)
  show ?thesis
    using assms v x
    by (auto simp: wire_block_def Let_def item_args_def item_verb_def item_stage_def stage_args_def prev_block_is_verb_def)
qed

definition sample_blocks :: "pipeline_block list" where
  "sample_blocks = line_blocks ''receive a | send b | send c''"

lemma sample_blocks_value:
  "sample_blocks =
     [\<lparr>pb_is_verb = True, pb_stages = [\<lparr>ps_is_verb = True, ps_verb = ''receive'', ps_args = [''receive'', ''a''], ps_raw = ''receive a''\<rparr>]\<rparr>,
      \<lparr>pb_is_verb = True, pb_stages = [\<lparr>ps_is_verb = True, ps_verb = ''send'', ps_args = [''send'', ''b''], ps_raw = ''send b''\<rparr>]\<rparr>,
      \<lparr>pb_is_verb = True, pb_stages = [\<lparr>ps_is_verb = True, ps_verb = ''send'', ps_args = [''send'', ''c''], ps_raw = ''send c''\<rparr>]\<rparr>]"
  by code_simp

theorem wire_framing_witness:
  "item_args (wire_block sample_blocks 0) = [''a'', ''--ndjson''] \<and>
   item_args (wire_block sample_blocks 1) = [''b''] \<and> item_args (wire_block sample_blocks 2) = [''c'', ''--ndjson'']"
  using wire_framing [of 0 sample_blocks] wire_framing [of 1 sample_blocks] wire_framing [of 2 sample_blocks]
  by (simp add: sample_blocks_value is_consumer_def is_producer_def ensure_flag_def)


text \<open>
  Verbs that the shell recognises but cannot build, and lines whose verbs it does not see.
\<close>

lemma ping_unknown:
  "''ping'' \<in> set xmc_verbs \<and> verb_needs env ''ping'' args = Inl (ENew ''unknown verb: ping'')"
  by (simp add: xmc_verbs_def verb_needs_def)

lemma verbs_after_semicolon: "shell_action [] ''ls; send q x'' = ActSystem ''ls; send q x''"
  by code_simp

end
