(* ===== verification/Shell_Verbs.thy ===== *)
theory Shell_Verbs
  imports Produce Requests Shell_Session
begin

text \<open>
  The modelled commands as the bodies of the shell's verbs (\<open>buildVerbCommand\<close>,
  \<open>executeVerb\<close> of \<^verbatim>\<open>cmd/pipeline.go\<close>): the shell composed with every command of the
  development, and the life of its connections.
\<close>

section \<open>The body of a verb's command\<close>

text \<open>
  Arguments of the model: cobra's parsing of each command's flags, the environment of a
  command on its streams and context, the bodies of \<open>manage\<close> and \<open>help\<close>.
\<close>

record move_args =
  ma_source :: string
  ma_destination :: string
  ma_count :: int
  ma_selector :: string
  ma_timeout :: int

record 'w verbs =
  vb_consume_flags :: "string \<Rightarrow> string list \<Rightarrow> gerr + consume_flags \<times> string list"
  vb_produce_flags :: "string \<Rightarrow> string list \<Rightarrow> gerr + produce_args \<times> string list"
  vb_request_flags :: "string list \<Rightarrow> gerr + request_args \<times> string list"
  vb_reply_flags :: "string list \<Rightarrow> gerr + reply_args \<times> string list"
  vb_move_flags :: "string list \<Rightarrow> gerr + move_args"
  vb_forward_flags :: "string \<Rightarrow> string list \<Rightarrow> gerr + forward_flags \<times> string \<times> string"
  vb_resolver :: "target_resolver option"
  vb_produce_extra :: "string list \<Rightarrow> (string \<times> string) list"
  vb_consume_extra :: "string list \<Rightarrow> (string \<times> string) list"
  vb_random :: "8 word list \<times> 8 word list"
  vb_one_decimal :: "rat \<Rightarrow> string"
  vb_getenv :: "string \<Rightarrow> string option"
  vb_marshal :: "message_record \<Rightarrow> gerr + string"
  vb_ctx :: "bool \<Rightarrow> 'w ctx"
  vb_timed :: "bool \<Rightarrow> int \<Rightarrow> 'w ctx"
  vb_consume :: "stream \<Rightarrow> bool \<Rightarrow> 'w consume_env"
  vb_produce :: "bool \<Rightarrow> 'w produce_env"
  vb_relay :: "stream \<Rightarrow> bool \<Rightarrow> 'w env"
  vb_input :: "stream \<Rightarrow> 'w \<Rightarrow> input"
  vb_target :: "'w target_proc"
  vb_other :: "string \<Rightarrow> string list \<Rightarrow> stream \<Rightarrow> 'w \<Rightarrow> gerr option \<times> 'w"

definition consume_done :: "'w consume_result option \<Rightarrow> (gerr option \<times> 'w) option" where
  "consume_done = map_option (\<lambda>(e, s). (e, cs_world s))"

definition relay_done :: "'w relay_result option \<Rightarrow> (gerr option \<times> 'w) option" where
  "relay_done = map_option (\<lambda>(e, s). (e, fw_world s))"

definition reply_done :: "'w reply_result option \<Rightarrow> (gerr option \<times> 'w) option" where
  "reply_done = map_option (\<lambda>(e, s). (e, rs_world s))"

text \<open>A panic ends the process: the body does not return.\<close>

definition forward_done :: "'w forward_outcome option \<Rightarrow> (gerr option \<times> 'w) option" where
  "forward_done r = (case r of Some (FDone (e, s)) \<Rightarrow> Some (e, fw_world s) | _ \<Rightarrow> None)"

definition bridge_done :: "'w bridge_outcome option \<Rightarrow> (gerr option \<times> 'w) option" where
  "bridge_done r = (case r of Some (BridgeDone (e, s)) \<Rightarrow> Some (e, fw_world s) | _ \<Rightarrow> None)"

definition queue_body ::
    "'w verbs \<Rightarrow> string \<Rightarrow> 'w queue_backend \<Rightarrow> string list \<Rightarrow> stream \<Rightarrow> stream \<Rightarrow> bool \<Rightarrow> 'w \<Rightarrow>
     (gerr option \<times> 'w) option" where
  "queue_body v verb qb args i u c w =
     (if verb = ''send''
      then (case vb_produce_flags v verb args of Inl e \<Rightarrow> Some (Some e, w)
          | Inr (a, rest) \<Rightarrow> Some (do_send (vb_produce v c) a (vb_input v i w) rest qb (vb_resolver v)
              (vb_produce_extra v args) w))
      else if verb = ''request''
      then (case vb_request_flags v args of Inl e \<Rightarrow> Some (Some e, w)
          | Inr (a, rest) \<Rightarrow> Some (do_request (vb_random v) (vb_one_decimal v) (vb_ctx v c) (vb_consume v u c) a
              (vb_input v i w) rest qb w))
      else if verb = ''reply'' \<or> verb = ''respond''
      then (case vb_reply_flags v args of Inl e \<Rightarrow> Some (Some e, w)
          | Inr (a, rest) \<Rightarrow> reply_done (do_reply (vb_relay v u c) a rest qb w))
      else if verb = ''move''
      then (case vb_move_flags v args of Inl e \<Rightarrow> Some (Some e, w)
          | Inr a \<Rightarrow> relay_done (do_move (vb_relay v u c) qb (ma_source a) (ma_destination a) (ma_count a)
              (ma_selector a) (ma_timeout a) w))
      else (case vb_consume_flags v verb args of Inl e \<Rightarrow> Some (Some e, w)
          | Inr (fl, rest) \<Rightarrow> consume_done (do_receive (vb_consume v u c) fl rest qb (verb \<noteq> ''peek'')
              (vb_resolver v) (vb_consume_extra v args) w)))"

definition topic_body ::
    "'w verbs \<Rightarrow> string \<Rightarrow> 'w topic_backend \<Rightarrow> string list \<Rightarrow> stream \<Rightarrow> stream \<Rightarrow> bool \<Rightarrow> 'w \<Rightarrow>
     (gerr option \<times> 'w) option" where
  "topic_body v verb tb args i u c w =
     (if verb = ''publish''
      then (case vb_produce_flags v verb args of Inl e \<Rightarrow> Some (Some e, w)
          | Inr (a, rest) \<Rightarrow> Some (do_publish (vb_produce v c) a (vb_input v i w) rest tb (vb_resolver v)
              (vb_produce_extra v args) w))
      else (case vb_consume_flags v verb args of Inl e \<Rightarrow> Some (Some e, w)
          | Inr (fl, rest) \<Rightarrow> consume_done (do_subscribe (vb_consume v u c) fl rest tb (vb_resolver v)
              (vb_consume_extra v args) w)))"

definition bridge_reader ::
    "forward_flags \<Rightarrow> string \<Rightarrow> 'w queue_backend option \<Rightarrow> 'w topic_backend option \<Rightarrow> ('w reader \<times> string) option" where
  "bridge_reader ff source q t =
     (case (t, q) of
        (Some tb, _) \<Rightarrow> Some (bridge_reader_topic ff source tb)
      | (None, Some qb) \<Rightarrow> Some (bridge_reader_queue ff source qb)
      | (None, None) \<Rightarrow> None)"

definition verb_body ::
    "'w verbs \<Rightarrow> string \<Rightarrow> 'w queue_backend option \<Rightarrow> 'w topic_backend option \<Rightarrow> string list \<Rightarrow>
     stream \<Rightarrow> stream \<Rightarrow> bool \<Rightarrow> 'w \<Rightarrow> (gerr option \<times> 'w) option" where
  "verb_body v verb q t args i u c w =
     (if verb = ''forward''
      then (case vb_forward_flags v verb args of Inl e \<Rightarrow> Some (Some e, w)
          | Inr (ff, source, destination) \<Rightarrow>
              forward_done (do_forward (vb_relay v u c) ff source destination q t w))
      else if verb = ''bridge''
      then (case vb_forward_flags v verb args of Inl e \<Rightarrow> Some (Some e, w)
          | Inr (ff, source, target) \<Rightarrow>
              (case bridge_reader ff source q t of
                 None \<Rightarrow> None
               | Some rd \<Rightarrow> bridge_done (do_bridge (vb_relay v u c) (vb_timed v c) (vb_getenv v) (vb_marshal v)
                   (vb_target v) ff source target rd w)))
      else case q of
        Some qb \<Rightarrow> queue_body v verb qb args i u c w
      | None \<Rightarrow> (case t of
            Some tb \<Rightarrow> topic_body v verb tb args i u c w
          | None \<Rightarrow> Some (vb_other v verb args u w)))"

text \<open>The environment of a shell on these bodies.\<close>

definition verbs_env ::
    "('w, 'w queue_backend) factory option \<Rightarrow> ('w, 'w topic_backend) factory option \<Rightarrow>
     (string \<times> string) list \<Rightarrow> bool \<Rightarrow> (string \<Rightarrow> stream \<Rightarrow> stream \<Rightarrow> 'w \<Rightarrow> gerr option \<times> 'w) \<Rightarrow>
     (nat \<Rightarrow> gerr option) \<Rightarrow> 'w verbs \<Rightarrow> 'w shell_env" where
  "verbs_env qf tf aliases manage shell pipe v =
     \<lparr>sh_queue = qf, sh_topic = tf, sh_aliases = aliases, sh_manage = manage,
      sh_flags = (\<lambda>verb args. map_sum id fst (vb_forward_flags v verb args)),
      sh_body = verb_body v, sh_shell = shell, sh_pipe = pipe\<rparr>"

section \<open>The verbs on traced backends\<close>

definition traced_verbs :: "'w verbs \<Rightarrow> 'w traced verbs" where
  "traced_verbs v =
     \<lparr>vb_consume_flags = vb_consume_flags v, vb_produce_flags = vb_produce_flags v,
      vb_request_flags = vb_request_flags v, vb_reply_flags = vb_reply_flags v,
      vb_move_flags = vb_move_flags v, vb_forward_flags = vb_forward_flags v, vb_resolver = vb_resolver v,
      vb_produce_extra = vb_produce_extra v, vb_consume_extra = vb_consume_extra v, vb_random = vb_random v,
      vb_one_decimal = vb_one_decimal v, vb_getenv = vb_getenv v, vb_marshal = vb_marshal v,
      vb_ctx = (\<lambda>c s. vb_ctx v c (fst s)), vb_timed = (\<lambda>c d s. vb_timed v c d (fst s)),
      vb_consume = (\<lambda>u c. traced_consume_env (vb_consume v u c)),
      vb_produce = (\<lambda>c. traced_produce_env (vb_produce v c)),
      vb_relay = (\<lambda>u c. traced_env (vb_relay v u c)),
      vb_input = (\<lambda>i s. vb_input v i (fst s)), vb_target = traced_target (vb_target v),
      vb_other = (\<lambda>verb args u s. case vb_other v verb args u (fst s) of (e, w) \<Rightarrow> (e, (w, snd s)))\<rparr>"

text \<open>A measure of the world that every broker call, write and shell call keeps.\<close>

lemma do_move_keeps:
  fixes f :: "'w \<Rightarrow> 'x"
  assumes run: "do_move env qb source destination count selector timeout w0 = Some (e, s)"
    and get: "\<And>c x w r w'. qb_receive qb c x w = (r, w') \<Longrightarrow> f w' = f w"
    and put: "\<And>c x w r w'. qb_send qb c x w = (r, w') \<Longrightarrow> f w' = f w"
  shows "f (fw_world s) = f w0"
proof (cases "source = destination")
  case True
  then show ?thesis using run by (auto simp: do_move_def relay_init_def)
next
  case False
  let ?body = "move_body env (move_read qb source (seconds_of timeout) selector)
    (move_write qb destination) source destination"
  have body: "case ?body s of Continue t \<Rightarrow> f (fw_world t) = f (fw_world s)
    | Return r \<Rightarrow> f (fw_world (snd r)) = f (fw_world s)" for s
    unfolding move_body_def move_read_def move_write_def
    by (auto simp: Let_def summarize_move_def emit_undelivered_def
        dest!: get put split: prod.split option.split)
  have "f (fw_world (snd (e, s))) = f w0"
  proof (rule go_for_invariant [where P = "\<lambda>s. f (fw_world s) = f w0" and
        Q = "\<lambda>r. f (fw_world (snd r)) = f w0"])
    show "go_for (\<lambda>s. count = 0 \<or> fw_n s < count) ?body (summarize_move source destination) (relay_init w0) = Some (e, s)"
      using run False by (simp add: do_move_def)
    show "f (fw_world t) = f w0" if "f (fw_world s) = f w0" "?body s = Continue t" for s t
      using body [of s] that by simp
    show "f (fw_world (snd r)) = f w0" if "f (fw_world s) = f w0" "?body s = Return r" for s r
      using body [of s] that by simp
  qed (auto simp: relay_init_def summarize_move_def)
  then show ?thesis by simp
qed

lemma do_reply_keeps:
  fixes f :: "'w \<Rightarrow> 'x"
  assumes run: "do_reply env a args qb w0 = Some (e, s)"
    and get: "\<And>c x w r w'. qb_receive qb c x w = (r, w') \<Longrightarrow> f w' = f w"
    and put: "\<And>c x w r w'. qb_send qb c x w = (r, w') \<Longrightarrow> f w' = f w"
    and sh: "\<And>c i w r w'. ev_shell env c i w = (r, w') \<Longrightarrow> f w' = f w"
  shows "f (rs_world s) = f w0"
proof (cases "reply_setup (ev_parse env) a args")
  case (Inl x)
  then show ?thesis using run by (auto simp: do_reply_def reply_init_def)
next
  case (Inr st)
  obtain sf count cfg where p: "st = (sf, count, cfg)" by (cases st)
  let ?ctx = "ev_stream_ctx env (sf_duration sf)" and ?opts = "reply_receive_opts a (args ! 0)"
  let ?body = "reply_step env ?ctx qb ?opts cfg (sf_follow sf \<or> count = 0)"
  have rb: "f (rs_world s') = f (rs_world s)" if "reply_body env cfg m s = (r, s')" for m s r s'
    using that sh by (auto simp: reply_body_def split: if_splits prod.splits sum.splits)
  have resp: "f (rs_world s') = f (rs_world s)" if "respond_to_request env ?ctx qb m cfg s = (r, s')" for m s r s'
    using that by (auto simp: respond_to_request_def dest!: rb put split: if_splits prod.splits sum.splits)
  have body: "case ?body s of Continue t \<Rightarrow> f (rs_world t) = f (rs_world s)
    | Return r \<Rightarrow> f (rs_world (snd r)) = f (rs_world s)" for s
    unfolding reply_step_def
    by (auto simp: Let_def dest!: get resp split: prod.split option.split)
  have "f (rs_world (snd (e, s))) = f w0"
  proof (rule go_for_invariant [where P = "\<lambda>s. f (rs_world s) = f w0" and
        Q = "\<lambda>r. f (rs_world (snd r)) = f w0"])
    show "go_for (\<lambda>s. count = 0 \<or> rs_served s < count) ?body (\<lambda>s. (None, s)) (reply_init w0) = Some (e, s)"
      using run Inr p by (simp add: do_reply_def reply_loop_def)
    show "f (rs_world t) = f w0" if "f (rs_world s) = f w0" "?body s = Continue t" for s t
      using body [of s] that by simp
    show "f (rs_world (snd r)) = f w0" if "f (rs_world s) = f w0" "?body s = Return r" for s r
      using body [of s] that by simp
  qed (auto simp: reply_init_def)
  then show ?thesis by simp
qed

lemma scan_each_keeps:
  assumes "scan_each mx rderr body ls st = (e, st')"
    and "\<And>l st e st'. body l st = (e, st') \<Longrightarrow> f (snd st') = f (snd st)"
  shows "f (snd st') = f (snd st)"
  using assms(1)
proof (induction ls arbitrary: st)
  case Nil
  then show ?case by (auto split: option.splits)
next
  case (Cons l ls)
  show ?case
    using Cons.prems Cons.IH assms(2) [of "drop_cr l" st]
    by (auto split: if_splits prod.splits option.splits)
qed

lemma run_produce_keeps:
  fixes f :: "'w \<Rightarrow> 'x"
  assumes run: "run_produce env inp args pf emit emit_record w0 = (e, w1)"
    and sleep: "\<And>d w. f (pe_sleep env d w) = f w"
    and emit: "\<And>x w r w'. emit x w = (r, w') \<Longrightarrow> f w' = f w"
    and rec: "\<And>x w r w'. emit_record x w = (r, w') \<Longrightarrow> f w' = f w"
  shows "f w1 = f w0"
proof -
  let ?f = "\<lambda>st. f (snd st)"
  have wait: "?f (limiter_wait env st) = ?f st" for st
    by (simp add: limiter_wait_def sleep split: prod.split)
  have limited: "?f st' = ?f st"
    if "limited env em x st = (r, st')" "\<And>x w r w'. em x w = (r, w') \<Longrightarrow> f w' = f w"
    for x :: 'b and em st r st'
    using that wait [of st] by (auto simp: limited_def split: prod.splits)
  have counted: "produce_counted env emit data n st = (r, st') \<Longrightarrow> ?f st' = ?f st" for data n st r st'
  proof (induction n arbitrary: st)
    case (Suc n)
    then show ?case by (auto split: if_splits prod.splits option.splits dest!: limited [OF _ emit])
  qed simp
  have lines: "?f st' = ?f st"
    if "for_each_input_line inp (limited env emit) st = (r, n, st')" for st r n st'
  proof -
    have "f (snd (snd (n, st'))) = f (snd (snd (0 :: nat, st)))"
      using that unfolding for_each_input_line_def
      by (rule scan_each_keeps [where f = ?f])
         (auto split: prod.splits option.splits dest!: limited [OF _ emit])
    then show ?thesis by simp
  qed
  have records: "?f st' = ?f st"
    if "for_each_record (pe_unmarshal env) inp (limited env emit_record) st = (r, n, st')" for st r n st'
  proof -
    have "f (snd (snd (n, st'))) = f (snd (snd (0 :: nat, st)))"
      using that unfolding for_each_record_def
      by (rule scan_each_keeps [where f = ?f])
         (auto simp: visit_record_def Let_def split: prod.splits option.splits if_splits sum.splits
            dest!: limited [OF _ rec])
    then show ?thesis by simp
  qed
  show ?thesis
    using run by (auto simp: run_produce_def split: if_splits prod.splits sum.splits dest!: lines records counted)
qed

section \<open>No verb opens or closes a connection\<close>

lemma traced_outs_balance:
  "ce_data_out (traced_consume_env env) t s = (e, s') \<Longrightarrow> balance s' = balance s"
  "ce_meta_out (traced_consume_env env) t s = (e, s') \<Longrightarrow> balance s' = balance s"
  by (auto simp: traced_consume_env_def traced_writer_def silent_writer_def balance_def split: prod.splits)

lemma config_outs_balance:
  "cc_data_out (consume_config_of (traced_consume_env env) fl sf omit) t s = (e, s') \<Longrightarrow> balance s' = balance s"
  "cc_meta_out (consume_config_of (traced_consume_env env) fl sf omit) t s = (e, s') \<Longrightarrow> balance s' = balance s"
  by (simp_all add: consume_config_of_def traced_outs_balance)

lemma traced_browser_balance:
  "br_next (traced_browser b) c s = (r, s') \<Longrightarrow> balance s' = balance s"
  "br_close (traced_browser b) s = (e, s') \<Longrightarrow> balance s' = balance s"
  by (cases s; auto simp: traced_browser_def balance_def split: prod.splits)+

lemma traced_browse_opens:
  assumes "qb_browse (traced_queue qb) = Some browse" and "browse c x s = (r, s')"
  shows "balance s' = balance s \<and> (\<forall>b. r = Inr b \<longrightarrow> (\<exists>b0. b = traced_browser b0))"
  using assms by (cases s) (auto simp: traced_queue_def balance_def split: prod.splits sum.splits)

lemma traced_native_balance:
  "qb_request (traced_queue qb) = Some rq \<Longrightarrow> rq c x s = (r, s') \<Longrightarrow> balance s' = balance s"
  by (cases s) (auto simp: traced_queue_def balance_def split: prod.splits)

lemma run_consume_balance:
  assumes run: "run_consume sc summary get (consume_config_of (traced_consume_env env) fl sf omit) d stats w0 = Some r"
    and get: "\<And>w x w'. get (sc d) w = (x, w') \<Longrightarrow> balance w' = balance w"
  shows "balance (cs_world (snd r)) = balance w0"
  by (rule run_consume_pres [where P = "\<lambda>w. balance w = balance w0", OF run])
     (auto simp del: config_outs dest: get config_outs_balance)

lemma subscribe_run_balance:
  "run_consume sc summary (\<lambda>ctx. tb_subscribe (traced_topic tb) ctx opts)
     (consume_config_of (traced_consume_env env) fl sf omit) d stats w0 = Some r \<Longrightarrow>
   balance (cs_world (snd r)) = balance w0"
  by (erule run_consume_balance) (rule traced_subscribe_balance)

lemma do_subscribe_balance:
  assumes "do_subscribe (traced_consume_env env) fl args (traced_topic tb) res extra w = Some (e, s)"
  shows "balance (cs_world s) = balance w"
proof -
  let ?p = "parse_streaming_flags (ce_parse (traced_consume_env env)) (cf_for fl) (cf_forever fl) (cf_stats fl)"
  let ?r = "resolve_consume_target (cf_routing fl) args res True"
  show ?thesis
  proof (cases "\<exists>sf topic. ?p = Inr sf \<and> ?r = Inr topic")
    case True
    then obtain sf topic where "?p = Inr sf" "?r = Inr topic" by blast
    then show ?thesis
      using assms by (auto simp: do_subscribe_def Let_def dest!: subscribe_run_balance)
  next
    case False
    then show ?thesis
      using assms by (cases ?p; cases ?r) (auto simp: do_subscribe_def Let_def consume_init_def)
  qed
qed

lemma do_receive_balance:
  assumes "do_receive (traced_consume_env env) fl args (traced_queue qb) ack res extra w = Some (e, s)"
  shows "balance (cs_world s) = balance w"
proof -
  let ?p = "parse_streaming_flags (ce_parse (traced_consume_env env)) (cf_for fl) (cf_forever fl) (cf_stats fl)"
  let ?r = "resolve_consume_target (cf_routing fl) args res False"
  show ?thesis
  proof (cases "\<exists>sf queue. ?p = Inr sf \<and> ?r = Inr queue")
    case True
    then obtain sf queue where ok: "?p = Inr sf" "?r = Inr queue" by blast
    let ?opts = "receive_opts (traced_consume_env env) fl queue ack extra"
    let ?run = "\<lambda>receive. run_consume (ce_stream_ctx (traced_consume_env env)) (ce_summary (traced_consume_env env))
        receive (consume_config_of (traced_consume_env env) fl sf (cf_omit fl)) (sf_duration sf) (sf_stats sf)"
    have plain: "balance (cs_world s1) = balance w1"
      if "?run (\<lambda>ctx. qb_receive (traced_queue qb) ctx ?opts) w1 = Some (e1, s1)" for w1 e1 s1
      using run_consume_balance [OF that] by (simp add: traced_receive_balance)
    show ?thesis
    proof (cases "ack \<or> qb_browse (traced_queue qb) = None")
      case True
      then have "?run (\<lambda>ctx. qb_receive (traced_queue qb) ctx ?opts) w = Some (e, s)"
        using assms ok by (cases ack) (auto simp: do_receive_def Let_def)
      then show ?thesis by (rule plain)
    next
      case False
      then obtain browse where b: "\<not> ack" "qb_browse (traced_queue qb) = Some browse" by auto
      obtain x w1 where x: "browse (ce_parent (traced_consume_env env)) ?opts w = (x, w1)" by (metis surj_pair)
      note bo = traced_browse_opens [OF b(2) x]
      show ?thesis
      proof (cases x)
        case (Inl y)
        then show ?thesis
          using assms ok b x bo plain by (auto simp: do_receive_def Let_def consume_init_def split: if_splits)
      next
        case (Inr br)
        then obtain b0 where br: "br = traced_browser b0" using bo by auto
        then obtain e1 s1 where r: "?run (br_next (traced_browser b0)) w1 = Some (e1, s1)"
          and s: "s = s1\<lparr>cs_world := close_adapter (br_close (traced_browser b0)) (cs_world s1)\<rparr>"
          using assms ok b x Inr by (auto simp: do_receive_def Let_def)
        have "balance (cs_world s1) = balance w1"
          using run_consume_balance [OF r] by (simp add: traced_browser_balance(1))
        moreover obtain ce w2 where c: "br_close (traced_browser b0) (cs_world s1) = (ce, w2)" by (metis surj_pair)
        ultimately show ?thesis using bo s traced_browser_balance(2) [OF c] by (simp add: close_adapter_def)
      qed
    qed
  next
    case False
    then show ?thesis
      using assms by (cases ?p; cases ?r) (auto simp: do_receive_def Let_def consume_init_def)
  qed
qed

lemma do_request_balance:
  assumes "do_request rnd od ctx (traced_consume_env env) a inp args (traced_queue qb) w = (e, w')"
  shows "balance w' = balance w"
proof -
  have rq: "request rnd ctx (traced_queue qb) opts w = (r, w1) \<Longrightarrow> balance w1 = balance w" for opts r w1
    by (rule request_keeps) (auto dest: traced_native_balance traced_balance)
  have out: "balance w2 = balance w1"
    if "display_message (ce_data_out (traced_consume_env env)) (ce_meta_out (traced_consume_env env)) nl m verb w1 = (e1, w2)"
    for nl m verb w1 e1 w2
    by (rule display_message_pres [where P = "\<lambda>w. balance w = balance w1", OF that])
       (auto dest: traced_outs_balance)
  have json: "balance w2 = balance w1"
    if "display_message_json mar (ce_data_out (traced_consume_env env)) m verb w1 = (e1, w2)" for mar m verb w1 e1 w2
    using that traced_outs_balance(1) [OF surjective_pairing, of env _ w1]
    by (auto simp: display_message_json_def print_text_def split: sum.splits)
  show ?thesis
    using assms
    by (auto simp: do_request_def Let_def display_message_format_def
        dest!: rq out json traced_outs_balance split: sum.splits prod.splits option.splits if_splits)
qed

lemma traced_sleep_balance: "balance (pe_sleep (traced_produce_env env) d w) = balance w"
  by (simp add: traced_produce_env_def balance_def)

lemma do_send_balance:
  assumes "do_send (traced_produce_env env) a inp args (traced_queue qb) res extra w = (e, w')"
  shows "balance w' = balance w"
proof -
  have run: "balance w2 = balance w1"
    if "run_produce (traced_produce_env env) inp args1 pf (\<lambda>data. qb_send (traced_queue qb) ctx (so data))
        (\<lambda>rec w. case record_payload rec of Inl e \<Rightarrow> (Some e, w) | Inr data \<Rightarrow> qb_send (traced_queue qb) ctx (sr rec data) w)
        w1 = (e1, w2)" for args1 pf ctx so sr w1 e1 w2
    by (rule run_produce_keeps [OF that traced_sleep_balance])
       (auto dest: traced_send_balance split: sum.splits)
  show ?thesis
    using assms by (auto simp: do_send_def dest!: run split: sum.splits prod.splits)
qed

lemma do_publish_balance:
  assumes "do_publish (traced_produce_env env) a inp args (traced_topic tb) res extra w = (e, w')"
  shows "balance w' = balance w"
proof -
  have run: "balance w2 = balance w1"
    if "run_produce (traced_produce_env env) inp args1 pf (\<lambda>data. tb_publish (traced_topic tb) ctx (po data))
        (\<lambda>rec w. case record_payload rec of Inl e \<Rightarrow> (Some e, w) | Inr data \<Rightarrow> tb_publish (traced_topic tb) ctx (pr rec data) w)
        w1 = (e1, w2)" for args1 pf ctx po pr w1 e1 w2
    by (rule run_produce_keeps [OF that traced_sleep_balance])
       (auto dest: traced_publish_balance split: sum.splits)
  show ?thesis
    using assms by (auto simp: do_publish_def dest!: run split: sum.splits prod.splits)
qed

lemma do_bridge_balance:
  assumes run: "do_bridge (traced_env env) timed getenv marshal (traced_target p) ff source target (get, label) w =
      Some outcome"
    and get: "\<And>c w r w'. get c w = (r, w') \<Longrightarrow> balance w' = balance w"
  shows "balance (fw_world (bridge_state outcome)) = balance w"
proof (cases "parse_streaming_flags (ev_parse (traced_env env)) (ff_for ff) (ff_forever ff) (ff_stats ff)")
  case (Inl e)
  then show ?thesis using run by (auto simp: do_bridge_def relay_init_def)
next
  case (Inr sf)
  obtain e w1 where st: "start_target_process getenv (traced_target p) target w = (e, w1)" by (metis surj_pair)
  have w1: "balance w1 = balance w + (if e = None then 1 else 0)"
    using st by (auto simp: start_target_process_def Let_def dest!: traced_start_facts)
  show ?thesis
  proof (cases e)
    case (Some x)
    then show ?thesis using run Inr st w1 by (auto simp: do_bridge_def relay_init_def)
  next
    case None
    then obtain r where r: "bridge_loop (traced_env env) (timed (sf_duration sf)) marshal (traced_target p) get
        label (ff_quiet ff) (ff_count ff) source target (relay_init w1) = Some r"
      and o: "outcome = bridge_finish (traced_target p) r"
      using run Inr st by (auto simp: do_bridge_def)
    have "balance (fw_world (bridge_state r)) = balance (fw_world (relay_init w1))"
      by (rule bridge_loop_keeps [OF r]) (blast dest: get traced_write_facts)+
    then show ?thesis
      unfolding o map_world_closers using w1 None by (simp add: traced_finish_facts relay_init_def)
  qed
qed

abbreviation is_traced_queue :: "'w traced queue_backend \<Rightarrow> bool" where
  "is_traced_queue q \<equiv> \<exists>b. q = traced_queue b"

abbreviation is_traced_topic :: "'w traced topic_backend \<Rightarrow> bool" where
  "is_traced_topic t \<equiv> \<exists>b. t = traced_topic b"

lemma body_refuses:
  "(case p of Inl e \<Rightarrow> Some (Some e, w) | Inr x \<Rightarrow> f x) = Some (e, w') \<Longrightarrow>
   w' = w \<or> (\<exists>x. p = Inr x \<and> f x = Some (e, w'))"
  by (auto split: sum.splits)

lemma queue_body_balance:
  assumes "queue_body (traced_verbs v) verb (traced_queue qb) args i u c w = Some (e, w')"
  shows "balance w' = balance w"
proof -
  have produce: "balance w' = balance w"
    if "(case p of Inl e \<Rightarrow> Some (Some e, w)
        | Inr (a, rest) \<Rightarrow> Some (do_send (vb_produce (traced_verbs v) c) a inp rest (traced_queue qb) rs ex w)) = Some (e, w')"
    for p inp rs ex
    using body_refuses [OF that] by (auto simp: traced_verbs_def dest: do_send_balance)
  have request: "balance w' = balance w"
    if "(case p of Inl e \<Rightarrow> Some (Some e, w)
        | Inr (a, rest) \<Rightarrow> Some (do_request rnd od ctx (vb_consume (traced_verbs v) u c) a inp rest (traced_queue qb) w)) = Some (e, w')"
    for p rnd od ctx inp
    using body_refuses [OF that] by (auto simp: traced_verbs_def dest: do_request_balance)
  have reply: "balance w' = balance w"
    if r: "(case p of Inl e \<Rightarrow> Some (Some e, w)
        | Inr (a, rest) \<Rightarrow> reply_done (do_reply (vb_relay (traced_verbs v) u c) a rest (traced_queue qb) w)) = Some (e, w')"
    for p
  proof -
    have keeps: "balance (rs_world s) = balance w"
      if "do_reply (traced_env env) a rest (traced_queue qb) w = Some (x, s)" for env a rest x s
      by (rule do_reply_keeps [OF that]) (auto simp: traced_env_def dest: traced_balance)
    show ?thesis
      using body_refuses [OF r] by (auto simp: traced_verbs_def reply_done_def dest: keeps)
  qed
  have move: "balance w' = balance w"
    if r: "(case p of Inl e \<Rightarrow> Some (Some e, w)
        | Inr a \<Rightarrow> relay_done (do_move env (traced_queue qb) (ma_source a) (ma_destination a) (ma_count a)
            (ma_selector a) (ma_timeout a) w)) = Some (e, w')" for p env
  proof -
    have keeps: "balance (fw_world s) = balance w"
      if "do_move env (traced_queue qb) a b n sel t w = Some (x, s)" for a b n sel t x s
      by (rule do_move_keeps [OF that]) (auto dest: traced_balance)
    show ?thesis using body_refuses [OF r] by (auto simp: relay_done_def dest: keeps)
  qed
  have receive: "balance w' = balance w"
    if "(case p of Inl e \<Rightarrow> Some (Some e, w)
        | Inr (fl, rest) \<Rightarrow> consume_done (do_receive (vb_consume (traced_verbs v) u c) fl rest (traced_queue qb) ack rs ex w))
        = Some (e, w')" for p ack rs ex
    using body_refuses [OF that] by (auto simp: traced_verbs_def consume_done_def dest: do_receive_balance)
  show ?thesis
    using assms unfolding queue_body_def
    by (simp only: split: if_split_asm) (erule produce request reply move receive)+
qed

lemma topic_body_balance:
  assumes "topic_body (traced_verbs v) verb (traced_topic tb) args i u c w = Some (e, w')"
  shows "balance w' = balance w"
proof (cases "verb = ''publish''")
  case True
  then have "(case vb_produce_flags (traced_verbs v) verb args of Inl e \<Rightarrow> Some (Some e, w)
      | Inr (a, rest) \<Rightarrow> Some (do_publish (vb_produce (traced_verbs v) c) a (vb_input (traced_verbs v) i w) rest
          (traced_topic tb) (vb_resolver (traced_verbs v)) (vb_produce_extra (traced_verbs v) args) w)) = Some (e, w')"
    using assms by (simp add: topic_body_def)
  from body_refuses [OF this] show ?thesis by (auto simp: traced_verbs_def dest: do_publish_balance)
next
  case False
  then have "(case vb_consume_flags (traced_verbs v) verb args of Inl e \<Rightarrow> Some (Some e, w)
      | Inr (fl, rest) \<Rightarrow> consume_done (do_subscribe (vb_consume (traced_verbs v) u c) fl rest (traced_topic tb)
          (vb_resolver (traced_verbs v)) (vb_consume_extra (traced_verbs v) args) w)) = Some (e, w')"
    using assms by (simp add: topic_body_def)
  from body_refuses [OF this] show ?thesis
    by (auto simp: traced_verbs_def consume_done_def dest: do_subscribe_balance)
qed

lemma forward_body_balance:
  assumes "forward_done (do_forward (traced_env env) ff source destination (map_option traced_queue qbo)
      (map_option traced_topic tbo) w) = Some (e, w')"
  shows "balance w' = balance w"
proof -
  obtain s where s: "do_forward (traced_env env) ff source destination (map_option traced_queue qbo)
      (map_option traced_topic tbo) w = Some (FDone (e, s))" "w' = fw_world s"
    using assms by (auto simp: forward_done_def split: option.splits forward_outcome.splits)
  show ?thesis
  proof (cases "qbo = None \<and> tbo = None")
    case True
    from s(1) show ?thesis
    proof (cases rule: do_forward_cases)
      case (ran r)
      from ran(2) show ?thesis
      proof (cases rule: forward_ranE)
        case (1 sf get put)
        have "balance (fw_world s) = balance w"
          by (rule forward_loop_keeps [where e = e])
             (use 1 ran in \<open>auto simp: traced_env_def dest: traced_shell_balance\<close>)
        then show ?thesis using s(2) by simp
      qed
    qed (use s True in \<open>auto simp: relay_init_def\<close>)
  next
    case False
    then show ?thesis using do_forward_balance [OF s(1)] s(2) by auto
  qed
qed

lemma bridge_body_balance:
  assumes "bridge_done (do_bridge (traced_env env) timed getenv marshal (traced_target p) ff source target rd w) =
      Some (e, w')"
    and "bridge_reader ff source (map_option traced_queue qbo) (map_option traced_topic tbo) = Some rd"
  shows "balance w' = balance w"
proof -
  obtain get label where rd: "rd = (get, label)" by (cases rd)
  obtain s where s: "do_bridge (traced_env env) timed getenv marshal (traced_target p) ff source target (get, label) w =
      Some (BridgeDone (e, s))" "w' = fw_world s"
    using assms(1) rd by (auto simp: bridge_done_def split: option.splits bridge_outcome.splits)
  have "balance w2 = balance w1" if "get c w1 = (r, w2)" for c w1 r w2
    using assms(2) rd that
    by (cases qbo; cases tbo)
       (auto simp: bridge_reader_def bridge_reader_topic_def bridge_reader_queue_def bridge_read_topic_def
          bridge_read_queue_def dest: traced_balance)
  from do_bridge_balance [OF s(1) this] show ?thesis using s(2) by simp
qed

lemma verb_body_balance:
  assumes "verb_body (traced_verbs v) verb (map_option traced_queue qbo) (map_option traced_topic tbo) args i u c w =
      Some (e, w')"
  shows "balance w' = balance w"
proof -
  let ?q = "map_option traced_queue qbo" and ?t = "map_option traced_topic tbo"
  consider (forward) "verb = ''forward''" | (bridge) "verb = ''bridge''"
    | (other) "verb \<noteq> ''forward''" "verb \<noteq> ''bridge''" by blast
  then show ?thesis
  proof cases
    case forward
    then have "(case vb_forward_flags (traced_verbs v) verb args of Inl e \<Rightarrow> Some (Some e, w)
        | Inr (ff, source, destination) \<Rightarrow> forward_done (do_forward (vb_relay (traced_verbs v) u c) ff source
            destination ?q ?t w)) = Some (e, w')"
      using assms by (simp add: verb_body_def)
    from body_refuses [OF this] show ?thesis by (auto simp: traced_verbs_def dest: forward_body_balance)
  next
    case bridge
    then have "(case vb_forward_flags (traced_verbs v) verb args of Inl e \<Rightarrow> Some (Some e, w)
        | Inr (ff, source, target) \<Rightarrow> (case bridge_reader ff source ?q ?t of None \<Rightarrow> None
            | Some rd \<Rightarrow> bridge_done (do_bridge (vb_relay (traced_verbs v) u c) (vb_timed (traced_verbs v) c)
                (vb_getenv (traced_verbs v)) (vb_marshal (traced_verbs v)) (vb_target (traced_verbs v)) ff source
                target rd w))) = Some (e, w')"
      using assms by (simp add: verb_body_def)
    from body_refuses [OF this] show ?thesis
      by (auto simp: traced_verbs_def dest: bridge_body_balance split: option.splits)
  next
    case other
    then show ?thesis
      using assms
      by (cases qbo; cases tbo)
         (auto simp: verb_body_def traced_verbs_def [of v, THEN arg_cong [where f = vb_other]] balance_def
            split: prod.splits dest: queue_body_balance topic_body_balance)
  qed
qed

section \<open>The session on traced backends\<close>

definition traced_session_env ::
    "('w, 'w queue_backend) factory option \<Rightarrow> ('w, 'w topic_backend) factory option \<Rightarrow>
     (string \<times> string) list \<Rightarrow> bool \<Rightarrow> (string \<Rightarrow> stream \<Rightarrow> stream \<Rightarrow> 'w \<Rightarrow> gerr option \<times> 'w) \<Rightarrow>
     (nat \<Rightarrow> gerr option) \<Rightarrow> 'w verbs \<Rightarrow> 'w traced shell_env" where
  "traced_session_env qf tf aliases manage shell pipe v =
     verbs_env (map_option (traced_factory traced_queue) qf) (map_option (traced_factory traced_topic) tf)
       aliases manage (\<lambda>cmdline i u s. case shell cmdline i u (fst s) of (e, w) \<Rightarrow> (e, (w, snd s))) pipe
       (traced_verbs v)"

lemma traced_handle:
  assumes "pred_option (\<lambda>a. \<exists>b. a = wrap b) q"
  shows "\<exists>b. q = map_option wrap b"
proof (cases q)
  case (Some a)
  then obtain b where "a = wrap b" using assms by auto
  then show ?thesis using Some by (intro exI [of _ "Some b"]) simp
qed (auto intro: exI [of _ None])

lemma traced_factory_result:
  "traced_factory wrap f s = (Inl e, s') \<Longrightarrow> balance s' = balance s"
  "traced_factory wrap f s = (Inr a, s') \<Longrightarrow> balance s' = balance s + 1 \<and> (\<exists>b. a = wrap b)"
  by (auto simp: traced_factory_def balance_def split: prod.splits sum.splits)

interpretation shl: shell_life "traced_session_env qf tf aliases manage shell pipe v" balance
    is_traced_queue is_traced_topic
  for qf :: "('w, 'w queue_backend) factory option" and tf aliases manage shell pipe v
proof
  show "balance w' = balance w"
    if made: "pred_option is_traced_queue oq" "pred_option is_traced_topic ot"
      and run: "sh_body (traced_session_env qf tf aliases manage shell pipe v) verb oq ot args i u c w = Some (oe, w')"
    for oq ot verb args i u c w oe and w' :: "'w traced"
  proof -
    obtain qbo tbo where "oq = map_option traced_queue qbo" "ot = map_option traced_topic tbo"
      
      using traced_handle [OF made(1)] traced_handle [OF made(2)] by blast
    then show ?thesis
      using run verb_body_balance [of v verb qbo tbo args i u c w oe w']
      by (simp add: traced_session_env_def verbs_env_def)
  qed
qed (auto simp: traced_session_env_def verbs_env_def dest: traced_factory_result traced_queue_close_balance
    traced_topic_close_balance split: prod.splits, simp add: balance_def)

section \<open>Properties\<close>


text \<open>A session of one line: the shell reads a message from a queue and sends another.\<close>

definition sample_verbs :: "script verbs" where
  "sample_verbs =
     \<lparr>vb_consume_flags = (\<lambda>verb args. Inl EEOF), vb_produce_flags = (\<lambda>verb args. Inl EEOF),
      vb_request_flags = (\<lambda>args. Inl EEOF), vb_reply_flags = (\<lambda>args. Inl EEOF),
      vb_move_flags = (\<lambda>args. Inr \<lparr>ma_source = args ! 0, ma_destination = args ! 1, ma_count = 1,
        ma_selector = [], ma_timeout = 0\<rparr>),
      vb_forward_flags = (\<lambda>verb args. Inl EEOF), vb_resolver = None, vb_produce_extra = (\<lambda>args. []),
      vb_consume_extra = (\<lambda>args. []), vb_random = ([], []), vb_one_decimal = (\<lambda>r. []),
      vb_getenv = (\<lambda>n. None), vb_marshal = (\<lambda>r. Inl EEOF), vb_ctx = (\<lambda>c w. None), vb_timed = (\<lambda>c d w. None),
      vb_consume = (\<lambda>u c. script_consume_env), vb_produce = (\<lambda>c. sample_produce_env), vb_relay = (\<lambda>u c. script_env),
      vb_input = (\<lambda>i w. \<lparr>in_data = [], in_err = None, in_file = None\<rparr>), vb_target = script_target None, vb_other = (\<lambda>verb args u w. (None, w))\<rparr>"

abbreviation sample_session_env :: "script traced shell_env" where
  "sample_session_env \<equiv> traced_session_env (Some (\<lambda>w. (Inr script_queue, w))) None [] False
     (\<lambda>cmdline i u w. (None, w)) (\<lambda>i. None) sample_verbs"

lemma sample_line: "line_blocks ''move a b'' = [\<lparr>pb_is_verb = True, pb_stages =
    [\<lparr>ps_is_verb = True, ps_verb = ''move'', ps_args = [''move'', ''a'', ''b''], ps_raw = ''move a b''\<rparr>]\<rparr>]"
  by code_simp

lemma sample_line_action:
  "shell_action [] ''move a b'' = ActPipeline ''move a b''" "split_commands ''move a b'' = [''move a b'']"
  by code_simp+

lemma sample_move:
  "\<exists>s. execute_block sample_session_env (wire_block (line_blocks ''move a b'') 0) False
      (new_session (sample_script, [])) = Some (None, s) \<and> sn_queue s \<noteq> None"
  unfolding sample_line
  by (simp add: execute_block_def execute_verb_def wire_block_def item_verb_def item_args_def item_stage_def
      stage_args_def verb_needs_def is_producer_def is_consumer_def acquire_def get_queue_adapter_def
      new_session_def traced_session_env_def verbs_env_def traced_factory_def run_body_def verb_body_def
      queue_body_def traced_verbs_def sample_verbs_def relay_done_def no_handles_def move_run sample_script_def)


end
