(* ===== verification/Json.thy ===== *)
theory Json
  imports Runes
begin

text \<open>
  What the sources use of \<^verbatim>\<open>encoding/json\<close>: the text that \<open>Marshal\<close> writes, the value that
  \<open>Unmarshal\<close> reads into an \<open>any\<close> or a struct, and the decoding of struct fields.  Numbers
  are kept as their literals; the members of an object are in the order of the text.
\<close>

section \<open>Values and their text\<close>

datatype json =
    JNull
  | JBool bool
  | JNum string
  | JStr string
  | JArr "json list"
  | JObj "(string \<times> json) list"

definition hex_char :: "nat \<Rightarrow> char" where
  "hex_char n = (if n < 10 then char_of (48 + n) else char_of (87 + n))"

definition unicode_escape :: "nat \<Rightarrow> string" where
  "unicode_escape n =
     [CHR 0x5C, CHR ''u'', hex_char (n div 4096 mod 16), hex_char (n div 256 mod 16),
      hex_char (n div 16 mod 16), hex_char (n mod 16)]"

text \<open>Control characters with an escape of their own.\<close>

definition short_escapes :: "(char \<times> char) list" where
  "short_escapes =
     [(CHR 0x22, CHR 0x22), (CHR 0x5C, CHR 0x5C), (CHR 0x08, CHR ''b''), (CHR 0x0C, CHR ''f''),
      (CHR 0x0A, CHR ''n''), (CHR 0x0D, CHR ''r''), (CHR 0x09, CHR ''t'')]"

definition escape_ascii :: "char \<Rightarrow> string" where
  "escape_ascii c =
     (case map_of short_escapes c of
        Some e \<Rightarrow> [CHR 0x5C, e]
      | None \<Rightarrow>
          (if byte c < 0x20 \<or> c \<in> {CHR 0x3C, CHR 0x3E, CHR 0x26} then unicode_escape (byte c) else [c]))"

definition escape_segment :: "rune \<Rightarrow> string" where
  "escape_segment r =
     (if \<not> utf8_valid r then unicode_escape 0xFFFD
      else if length r = 1 then escape_ascii (hd r)
      else if r = [CHR 0xE2, CHR 0x80, CHR 0xA8] then unicode_escape 0x2028
      else if r = [CHR 0xE2, CHR 0x80, CHR 0xA9] then unicode_escape 0x2029
      else r)"

definition json_quote :: "string \<Rightarrow> string" where
  "json_quote s = CHR 0x22 # concat (map escape_segment (segments s)) @ [CHR 0x22]"

fun json_text :: "json \<Rightarrow> string" where
  "json_text JNull = ''null''"
| "json_text (JBool b) = (if b then ''true'' else ''false'')"
| "json_text (JNum t) = t"
| "json_text (JStr s) = json_quote s"
| "json_text (JArr vs) = ''['' @ join '','' (map json_text vs) @ '']''"
| "json_text (JObj kvs) = ''{'' @ join '','' (map (\<lambda>kv. json_quote (fst kv) @ '':'' @ json_text (snd kv)) kvs) @ ''}''"

section \<open>Reading\<close>

definition json_space :: "char \<Rightarrow> bool" where
  "json_space c \<longleftrightarrow> c \<in> {CHR '' '', CHR 0x09, CHR 0x0A, CHR 0x0D}"

definition skip_space :: "string \<Rightarrow> string" where
  "skip_space s = dropWhile json_space s"

definition hex_value :: "char \<Rightarrow> nat option" where
  "hex_value c =
     (let n = byte c in
      if 48 \<le> n \<and> n \<le> 57 then Some (n - 48)
      else if 97 \<le> n \<and> n \<le> 102 then Some (n - 87)
      else if 65 \<le> n \<and> n \<le> 70 then Some (n - 55) else None)"

fun hex4_value :: "string \<Rightarrow> (nat \<times> string) option" where
  "hex4_value (a # b # c # d # s) =
     (case (hex_value a, hex_value b, hex_value c, hex_value d) of
        (Some x, Some y, Some z, Some u) \<Rightarrow> Some (x * 4096 + y * 256 + z * 16 + u, s)
      | _ \<Rightarrow> None)"
| "hex4_value s = None"

text \<open>\<open>utf8.EncodeRune\<close>; a surrogate or a number out of range gives U+FFFD.\<close>

definition encode_rune :: "nat \<Rightarrow> string" where
  "encode_rune n =
     (if n < 0x80 then [char_of n]
      else if n < 0x800 then [char_of (0xC0 + n div 64), char_of (0x80 + n mod 64)]
      else if (0xD800 \<le> n \<and> n < 0xE000) \<or> 0x110000 \<le> n then [CHR 0xEF, CHR 0xBF, CHR 0xBD]
      else if n < 0x10000
      then [char_of (0xE0 + n div 4096), char_of (0x80 + n div 64 mod 64), char_of (0x80 + n mod 64)]
      else [char_of (0xF0 + n div 262144), char_of (0x80 + n div 4096 mod 64),
            char_of (0x80 + n div 64 mod 64), char_of (0x80 + n mod 64)])"

definition simple_escape :: "char \<Rightarrow> char option" where
  "simple_escape c =
     map_of [(CHR 0x22, CHR 0x22), (CHR 0x5C, CHR 0x5C), (CHR 0x2F, CHR 0x2F), (CHR ''b'', CHR 0x08),
       (CHR ''f'', CHR 0x0C), (CHR ''n'', CHR 0x0A), (CHR ''r'', CHR 0x0D), (CHR ''t'', CHR 0x09)] c"

text \<open>
  One \<open>\u\<close> escape, after its \<open>u\<close>: a surrogate pair is one rune, an unpaired surrogate
  U+FFFD.
\<close>

definition unicode_unescape :: "string \<Rightarrow> (string \<times> string) option" where
  "unicode_unescape s =
     (case hex4_value s of
        None \<Rightarrow> None
      | Some (n, s1) \<Rightarrow>
          (if 0xD800 \<le> n \<and> n < 0xE000
           then (case (if take 2 s1 = [CHR 0x5C, CHR ''u''] then hex4_value (drop 2 s1) else None) of
                   Some (m, s2) \<Rightarrow>
                     (if n < 0xDC00 \<and> 0xDC00 \<le> m \<and> m < 0xE000
                      then Some (encode_rune (0x10000 + (n - 0xD800) * 1024 + (m - 0xDC00)), s2)
                      else Some (encode_rune 0xFFFD, s1))
                 | None \<Rightarrow> Some (encode_rune 0xFFFD, s1))
           else Some (encode_rune n, s1)))"

lemma hex4_shorter: "hex4_value s = Some (n, t) \<Longrightarrow> length t < length s"
  by (cases s rule: hex4_value.cases) (auto split: option.splits)

lemma unicode_unescape_shorter: "unicode_unescape s = Some (r, t) \<Longrightarrow> length t < length s"
  unfolding unicode_unescape_def
  by (auto split: option.splits if_splits dest!: hex4_shorter)

definition prepend :: "string \<Rightarrow> (string \<times> string) option \<Rightarrow> (string \<times> string) option" where
  "prepend r = map_option (\<lambda>(t, rest). (r @ t, rest))"

text \<open>A string literal, after its opening quote: its value and what follows its closing one.\<close>

function unquote :: "string \<Rightarrow> (string \<times> string) option" where
  "unquote [] = None"
| "unquote (c # s) =
     (if c = CHR 0x22 then Some ([], s)
      else if c = CHR 0x5C
      then (case s of
              [] \<Rightarrow> None
            | d # t \<Rightarrow>
                (case simple_escape d of
                   Some e \<Rightarrow> prepend [e] (unquote t)
                 | None \<Rightarrow>
                     (if d = CHR ''u''
                      then (case unicode_unescape t of
                              None \<Rightarrow> None
                            | Some (r, t1) \<Rightarrow> prepend r (unquote t1))
                      else None)))
      else if byte c < 0x20 then None
      else (let n = rune_length (c # s)
            in prepend (rune_text (c # take (n - 1) s)) (unquote (drop (n - 1) s))))"
  by pat_completeness auto

termination
  by (relation "measure length") (auto dest: unicode_unescape_shorter)

section \<open>Numbers\<close>

definition number_int :: "string \<Rightarrow> (string \<times> string) option" where
  "number_int s =
     (case s of
        [] \<Rightarrow> None
      | c # t \<Rightarrow>
          (if c = CHR ''0'' then Some ([c], t)
           else if is_digit c then Some (takeWhile is_digit s, dropWhile is_digit s) else None))"

definition number_frac :: "string \<Rightarrow> (string \<times> string) option" where
  "number_frac s =
     (if s \<noteq> [] \<and> hd s = CHR ''.''
      then (let ds = takeWhile is_digit (tl s)
            in if ds = [] then None else Some (hd s # ds, dropWhile is_digit (tl s)))
      else Some ([], s))"

definition exp_sign :: "string \<Rightarrow> string \<times> string" where
  "exp_sign s = (if s \<noteq> [] \<and> hd s \<in> {CHR ''+'', CHR ''-''} then ([hd s], tl s) else ([], s))"

definition number_exp :: "string \<Rightarrow> (string \<times> string) option" where
  "number_exp s =
     (if s \<noteq> [] \<and> hd s \<in> {CHR ''e'', CHR ''E''}
      then (case exp_sign (tl s) of
              (sg, t) \<Rightarrow>
                (let ds = takeWhile is_digit t
                 in if ds = [] then None else Some (hd s # sg @ ds, dropWhile is_digit t)))
      else Some ([], s))"

definition number_sign :: "string \<Rightarrow> string \<times> string" where
  "number_sign s = (if s \<noteq> [] \<and> hd s = CHR ''-'' then ([CHR ''-''], tl s) else ([], s))"

definition parse_number :: "string \<Rightarrow> (string \<times> string) option" where
  "parse_number s =
     (case number_sign s of
        (sg, s1) \<Rightarrow>
          (case number_int s1 of
             None \<Rightarrow> None
           | Some (i, s2) \<Rightarrow>
               (case number_frac s2 of
                  None \<Rightarrow> None
                | Some (f, s3) \<Rightarrow>
                    (case number_exp s3 of
                       None \<Rightarrow> None
                     | Some (e, s4) \<Rightarrow> Some (sg @ i @ f @ e, s4)))))"

section \<open>The parser\<close>

text \<open>
  \<open>n\<close> is fuel; a call consumes at least one byte before the next, so the length of the text
  is enough (\<open>parse_fuel\<close> below).  \<open>d\<close> is the nesting depth, which \<^verbatim>\<open>encoding/json\<close> bounds.
\<close>

definition max_nesting :: nat where
  "max_nesting = 10000"

fun parse_value :: "nat \<Rightarrow> nat \<Rightarrow> string \<Rightarrow> (json \<times> string) option"
  and parse_elements :: "nat \<Rightarrow> nat \<Rightarrow> string \<Rightarrow> (json list \<times> string) option"
  and parse_members :: "nat \<Rightarrow> nat \<Rightarrow> string \<Rightarrow> ((string \<times> json) list \<times> string) option" where
  "parse_value 0 d s = None"
| "parse_value (Suc n) d s =
     (case skip_space s of
        [] \<Rightarrow> None
      | c # t \<Rightarrow>
          (if c = CHR 0x22 then map_option (\<lambda>(v, r). (JStr v, r)) (unquote t)
           else if c = CHR 0x7B
           then (if max_nesting \<le> d then None
                 else if skip_space t \<noteq> [] \<and> hd (skip_space t) = CHR 0x7D
                 then Some (JObj [], tl (skip_space t))
                 else map_option (\<lambda>(ms, r). (JObj ms, r)) (parse_members n (Suc d) t))
           else if c = CHR 0x5B
           then (if max_nesting \<le> d then None
                 else if skip_space t \<noteq> [] \<and> hd (skip_space t) = CHR 0x5D
                 then Some (JArr [], tl (skip_space t))
                 else map_option (\<lambda>(vs, r). (JArr vs, r)) (parse_elements n (Suc d) t))
           else if has_prefix (c # t) ''true'' then Some (JBool True, drop 4 (c # t))
           else if has_prefix (c # t) ''false'' then Some (JBool False, drop 5 (c # t))
           else if has_prefix (c # t) ''null'' then Some (JNull, drop 4 (c # t))
           else map_option (\<lambda>(v, r). (JNum v, r)) (parse_number (c # t))))"
| "parse_elements 0 d s = None"
| "parse_elements (Suc n) d s =
     (case parse_value n d s of
        None \<Rightarrow> None
      | Some (v, r) \<Rightarrow>
          (case skip_space r of
             [] \<Rightarrow> None
           | c # t \<Rightarrow>
               (if c = CHR 0x2C then map_option (\<lambda>(vs, r). (v # vs, r)) (parse_elements n d t)
                else if c = CHR 0x5D then Some ([v], t) else None)))"
| "parse_members 0 d s = None"
| "parse_members (Suc n) d s =
     (case skip_space s of
        [] \<Rightarrow> None
      | q # t \<Rightarrow>
          (if q \<noteq> CHR 0x22 then None
           else case unquote t of
             None \<Rightarrow> None
           | Some (k, r1) \<Rightarrow>
               (case skip_space r1 of
                  [] \<Rightarrow> None
                | c # r2 \<Rightarrow>
                    (if c \<noteq> CHR 0x3A then None
                     else case parse_value n d r2 of
                       None \<Rightarrow> None
                     | Some (v, r3) \<Rightarrow>
                         (case skip_space r3 of
                            [] \<Rightarrow> None
                          | e # r4 \<Rightarrow>
                              (if e = CHR 0x2C
                               then map_option (\<lambda>(ms, r). ((k, v) # ms, r)) (parse_members n d r4)
                               else if e = CHR 0x7D then Some ([(k, v)], r4) else None))))))"

definition json_parse :: "string \<Rightarrow> json option" where
  "json_parse s =
     (case parse_value (Suc (length s)) 0 s of
        Some (v, r) \<Rightarrow> if skip_space r = [] then Some v else None
      | None \<Rightarrow> None)"

section \<open>String literals\<close>

text \<open>The pieces that ranging over a string consumes.\<close>

lemma find_four:
  "(\<exists>n \<in> {1, 2, 3, 4}. find P [1, 2, 3, 4] = Some n \<and> P n \<and> (\<forall>k \<in> {1, 2, 3, 4 :: nat}. k < n \<longrightarrow> \<not> P k)) \<or>
   find P [1, 2, 3, 4] = None \<and> (\<forall>n \<in> {1, 2, 3, 4}. \<not> P n)"
  by auto

lemma rune_length_cases:
  obtains (found) n where "n \<in> {1, 2, 3, 4}" "rune_length s = n" "n \<le> length s" "utf8_valid (take n s)"
      "\<forall>k \<in> {1, 2, 3, 4}. k < n \<longrightarrow> \<not> (k \<le> length s \<and> utf8_valid (take k s))"
    | (bad) "rune_length s = 1" "\<forall>n \<in> {1, 2, 3, 4}. \<not> (n \<le> length s \<and> utf8_valid (take n s))"
proof -
  note f = find_four [of "\<lambda>n. n \<le> length s \<and> utf8_valid (take n s)"]
  show thesis
    using f
  proof
    assume "\<exists>n \<in> {1, 2, 3, 4}. find (\<lambda>n. n \<le> length s \<and> utf8_valid (take n s)) [1, 2, 3, 4] = Some n \<and>
      (n \<le> length s \<and> utf8_valid (take n s)) \<and>
      (\<forall>k \<in> {1, 2, 3, 4}. k < n \<longrightarrow> \<not> (k \<le> length s \<and> utf8_valid (take k s)))"
    then obtain n where n: "n \<in> {1, 2, 3, 4}"
      "find (\<lambda>n. n \<le> length s \<and> utf8_valid (take n s)) [1, 2, 3, 4] = Some n"
      "n \<le> length s" "utf8_valid (take n s)"
      "\<forall>k \<in> {1, 2, 3, 4}. k < n \<longrightarrow> \<not> (k \<le> length s \<and> utf8_valid (take k s))" by blast
    show thesis
      by (rule found [OF n(1) _ n(3-5)]) (unfold rune_length_def n(2), simp)
  next
    assume b: "find (\<lambda>n. n \<le> length s \<and> utf8_valid (take n s)) [1, 2, 3, 4] = None \<and>
      (\<forall>n \<in> {1, 2, 3, 4}. \<not> (n \<le> length s \<and> utf8_valid (take n s)))"
    show thesis
      by (rule bad) (unfold rune_length_def conjunct1 [OF b], simp, rule conjunct2 [OF b])
  qed
qed

lemma head_segment: "n \<noteq> 0 \<Longrightarrow> c # take (n - 1) cs = take n (c # cs) \<and> drop (n - 1) cs = drop n (c # cs)"
  by (cases n) auto

lemma segment_ok: "r \<in> set (segments s) \<Longrightarrow> rune_ok r \<or> (length r = 1 \<and> \<not> utf8_valid r)"
  supply utf8_valid.simps(2) [simp del]
proof (induction s rule: segments.induct)
  case (2 c cs)
  let ?s = "c # cs"
  let ?n = "rune_length ?s"
  have head: "rune_ok (take ?n ?s) \<or> (length (take ?n ?s) = 1 \<and> \<not> utf8_valid (take ?n ?s))"
  proof (cases ?s rule: rune_length_cases)
    case bad
    then show ?thesis by auto
  next
    case (found n)
    have least: "\<not> (k \<le> length (take n ?s) \<and> utf8_valid (take k (take n ?s)))" if "k \<in> {1, 2, 3, 4}" "k < n" for k
      using found that by (auto simp: min_def)
    have "rune_length (take n ?s) = n"
    proof (cases "take n ?s" rule: rune_length_cases)
      case (found m)
      then show ?thesis using least [of m] \<open>n \<le> length ?s\<close> by (cases "m < n") auto
    next
      case bad
      then show ?thesis using \<open>n \<in> _\<close> \<open>n \<le> length ?s\<close> \<open>utf8_valid (take n ?s)\<close> by auto
    qed
    then have "rune_ok (take n ?s)" using found by (auto simp: rune_ok_def)
    then show ?thesis using found by simp
  qed
  have "?n \<noteq> 0" by (cases ?s rule: rune_length_cases) auto
  note h = head_segment [OF this, of c cs]
  show ?case using 2 head h by (auto simp: Let_def)
qed simp

lemma hex_char_value: "n < 16 \<Longrightarrow> hex_value (hex_char n) = Some n"
  by (simp add: hex_value_def hex_char_def Let_def)

lemma hex4_escape:
  assumes "n < 0x10000"
  shows "hex4_value (drop 2 (unicode_escape n) @ rest) = Some (n, rest)"
proof -
  have d: "n div 256 = n div 16 div 16" "n div 4096 = n div 16 div 16 div 16" by (simp_all flip: div_mult2_eq)
  have m: "m = m div 16 * 16 + m mod 16" for m :: nat by simp
  have "n div 16 div 16 div 16 < 16" using assms by (simp flip: div_mult2_eq)
  then have "n div 16 div 16 div 16 mod 16 = n div 16 div 16 div 16" by simp
  then have v: "n div 4096 mod 16 * 4096 + n div 256 mod 16 * 256 + n div 16 mod 16 * 16 + n mod 16 = n"
    unfolding d using m [of n] m [of "n div 16"] m [of "n div 16 div 16"] by linarith
  show ?thesis by (simp add: unicode_escape_def hex_char_value v)
qed

lemma unquote_unicode:
  assumes "n < 0x10000" and "\<not> (0xD800 \<le> n \<and> n < 0xE000)"
  shows "unquote (unicode_escape n @ rest) = prepend (encode_rune n) (unquote rest)"
proof -
  have u: "unicode_unescape (drop 2 (unicode_escape n) @ rest) = Some (encode_rune n, rest)"
    using hex4_escape [OF assms(1), of rest] by (simp add: unicode_unescape_def if_not_P [OF assms(2)])
  have s: "unicode_escape n @ rest = CHR 0x5C # CHR ''u'' # (drop 2 (unicode_escape n) @ rest)"
    by (simp add: unicode_escape_def)
  show ?thesis unfolding s by (simp add: u simple_escape_def)
qed

lemma unquote_short:
  assumes "map_of short_escapes c = Some e"
  shows "unquote (CHR 0x5C # e # rest) = prepend [c] (unquote rest)"
  using assms by (auto simp: short_escapes_def simple_escape_def split: if_splits)

lemma unquote_ascii:
  assumes "byte c < 0x80"
  shows "unquote (escape_ascii c @ rest) = prepend [c] (unquote rest)"
proof (cases "map_of short_escapes c")
  case (Some e)
  then show ?thesis using unquote_short by (simp add: escape_ascii_def)
next
  case None
  then have c: "c \<noteq> CHR 0x22" "c \<noteq> CHR 0x5C" by (auto simp: short_escapes_def split: if_splits)
  show ?thesis
  proof (cases "byte c < 0x20 \<or> c \<in> {CHR 0x3C, CHR 0x3E, CHR 0x26}")
    case True
    then have "escape_ascii c = unicode_escape (byte c)" using None by (simp add: escape_ascii_def)
    moreover have "encode_rune (byte c) = [c]" using assms by (simp add: encode_rune_def)
    ultimately show ?thesis using unquote_unicode [of "byte c" rest] assms by simp
  next
    case False
    then have e: "escape_ascii c = [c]" using None by (auto simp: escape_ascii_def)
    have "rune_length (c # rest) = 1" using rune_length_append [of "[c]" rest] assms by simp
    then show ?thesis using c e False assms by (simp add: rune_text_def Let_def)
  qed
qed

lemma unquote_long:
  assumes "rune_ok r" and "length r \<noteq> 1"
  shows "unquote (r @ rest) = prepend r (unquote rest)"
proof -
  obtain c cs where r: "r = c # cs" "cs \<noteq> []" using assms by (cases r) (auto simp: rune_ok_def)
  have "\<not> utf8_valid [c]"
  proof
    assume "utf8_valid [c]"
    then have "rune_length r = 1" using r by (simp add: rune_length_def del: utf8_valid.simps)
    then show False using assms by (simp add: rune_ok_def)
  qed
  then have "\<not> byte c < 0x80" by auto
  then have c: "c \<noteq> CHR 0x22" "c \<noteq> CHR 0x5C" "\<not> byte c < 0x20" by auto
  have "rune_length (c # (cs @ rest)) = Suc (length cs)" using rune_length_append [OF assms(1), of rest] r by simp
  then show ?thesis
    using c r assms(1) by (simp add: rune_text_def rune_ok_def Let_def)
qed

lemma encode_separators:
  "encode_rune 0xFFFD = [CHR 0xEF, CHR 0xBF, CHR 0xBD]" "encode_rune 0x2028 = [CHR 0xE2, CHR 0x80, CHR 0xA8]"
  "encode_rune 0x2029 = [CHR 0xE2, CHR 0x80, CHR 0xA9]"
  by (simp_all add: encode_rune_def char_of_eq_iff)

lemma unquote_segment:
  assumes "rune_ok r \<or> (length r = 1 \<and> \<not> utf8_valid r)"
  shows "unquote (escape_segment r @ rest) = prepend (rune_text r) (unquote rest)"
  supply utf8_valid.simps(2) [simp del]
proof (cases "utf8_valid r")
  case False
  then show ?thesis
    using unquote_unicode [where n = "0xFFFD" and rest = rest] by (simp add: escape_segment_def rune_text_def encode_separators)
next
  case True
  then have ok: "rune_ok r" "rune_text r = r" using assms by (auto simp: rune_text_def)
  show ?thesis
  proof (cases "length r = 1")
    case True
    then obtain c where c: "r = [c]" by (cases r) auto
    then have "byte c < 0x80" using \<open>utf8_valid r\<close> by (simp add: utf8_valid.simps(2) split: if_splits)
    then show ?thesis using unquote_ascii \<open>utf8_valid r\<close> ok c by (simp add: escape_segment_def)
  next
    case False
    consider (ls) "r = [CHR 0xE2, CHR 0x80, CHR 0xA8]" | (ps) "r = [CHR 0xE2, CHR 0x80, CHR 0xA9]"
      | (raw) "r \<noteq> [CHR 0xE2, CHR 0x80, CHR 0xA8]" "r \<noteq> [CHR 0xE2, CHR 0x80, CHR 0xA9]" by blast
    then show ?thesis
    proof cases
      case ls
      then show ?thesis
        using unquote_unicode [where n = "0x2028" and rest = rest] ok \<open>utf8_valid r\<close> by (simp add: escape_segment_def encode_separators)
    next
      case ps
      then show ?thesis
        using unquote_unicode [where n = "0x2029" and rest = rest] ok \<open>utf8_valid r\<close> by (simp add: escape_segment_def encode_separators)
    next
      case raw
      then show ?thesis
        using unquote_long [OF ok(1) False] ok \<open>utf8_valid r\<close> False by (simp add: escape_segment_def)
    qed
  qed
qed

text \<open>A quoted string reads back, with every byte that is not UTF-8 replaced by U+FFFD.\<close>

lemma unquote_quote:
  "unquote (concat (map escape_segment (segments s)) @ CHR 0x22 # rest) = Some (concat (runes s), rest)"
proof -
  have "unquote (concat (map escape_segment rs) @ CHR 0x22 # rest) = Some (concat (map rune_text rs), rest)"
    if "\<forall>r \<in> set rs. rune_ok r \<or> (length r = 1 \<and> \<not> utf8_valid r)" for rs
    using that
    by (induction rs) (auto simp: unquote_segment prepend_def)
  from this [of "segments s"] segment_ok show ?thesis unfolding runes_def by blast
qed

lemma concat_segments: "concat (segments s) = s"
  by (induction s rule: segments.induct) (simp_all add: Let_def)

lemma utf8_head:
  assumes v: "utf8_valid (a # t)"
  obtains h u where "a # t = h @ u" "length h \<in> {1, 2, 3, 4}" "utf8_valid u" "\<And>w. utf8_valid (h @ w) = utf8_valid w"
proof (cases "byte a < 0x80")
  case True
  show thesis by (rule that [of "[a]" t]) (use v True in simp_all)
next
  case one: False
  obtain b s1 where t: "t = b # s1" using v one by (cases t) simp_all
  show thesis
  proof (cases "in_range 0xC2 0xDF a")
    case True
    then have c: "continuation b" "utf8_valid s1" using v one t by simp_all
    show thesis by (rule that [of "[a, b]" s1]) (use c t one True in simp_all)
  next
    case two: False
    obtain c s2 where s1: "s1 = c # s2" using v one two t by (cases s1) simp_all
    show thesis
    proof (cases "in_range 0xE0 0xEF a")
      case True
      note r = v [unfolded t s1 utf8_valid.simps(2) [of a] if_not_P [OF one] list.case if_not_P [OF two] if_P [OF True]]
      show thesis
        by (rule that [of "[a, b, c]" s2])
          (use r t s1 one two True in \<open>simp_all only: append_Cons append_Nil utf8_valid.simps(2) [of a] list.case if_False if_True
              list.size\<close>, simp_all)
    next
      case three: False
      obtain d s3 where s2: "s2 = d # s3" using v one two three t s1 by (cases s2) simp_all
      note r = v [unfolded t s1 s2 utf8_valid.simps(2) [of a] if_not_P [OF one] list.case if_not_P [OF two] if_not_P [OF three]]
      show thesis
        by (rule that [of "[a, b, c, d]" s3])
          (use r t s1 s2 one two three in \<open>simp_all only: append_Cons append_Nil utf8_valid.simps(2) [of a] list.case if_False if_True
              list.size\<close>, simp_all)
    qed
  qed
qed

lemma utf8_valid_append: "utf8_valid a \<Longrightarrow> utf8_valid (a @ b) = utf8_valid b"
  supply utf8_valid.simps(2) [simp del]
proof (induction a rule: length_induct)
  case (1 a)
  show ?case
  proof (cases a)
    case (Cons c cs)
    obtain h u where h: "c # cs = h @ u" "length h \<in> {1, 2, 3, 4}" "utf8_valid u" "\<And>w. utf8_valid (h @ w) = utf8_valid w"
      using utf8_head 1(2) Cons by blast
    then have "length u < length a" using Cons by (auto simp: arg_cong [OF h(1), of length, simplified])
    then show ?thesis using 1(1) h Cons by auto
  qed simp
qed

lemma valid_prefix:
  assumes "utf8_valid (a # t)"
  shows "\<exists>n \<in> {1, 2, 3, 4}. n \<le> length (a # t) \<and> utf8_valid (take n (a # t))"
proof -
  obtain h u where h: "a # t = h @ u" "length h \<in> {1, 2, 3, 4}" "\<And>w. utf8_valid (h @ w) = utf8_valid w"
    using utf8_head [OF assms] by metis
  have "utf8_valid h" using h(3) [of "[]"] by simp
  then show ?thesis unfolding h(1) by (intro bexI [OF _ h(2)]) simp
qed

lemma valid_segments: "utf8_valid s \<Longrightarrow> r \<in> set (segments s) \<Longrightarrow> utf8_valid r"
  supply utf8_valid.simps(2) [simp del]
proof (induction s rule: segments.induct)
  case (2 c cs)
  let ?s = "c # cs"
  have n: "rune_length ?s \<noteq> 0" "utf8_valid (take (rune_length ?s) ?s)"
    using valid_prefix [OF 2(2)] by (cases ?s rule: rune_length_cases; auto)+
  note h = head_segment [OF n(1), of c cs]
  have "utf8_valid (drop (rune_length ?s) ?s)"
    using utf8_valid_append [OF n(2), of "drop (rune_length ?s) ?s"] 2(2) by simp
  then show ?case using 2 n h by (auto simp: Let_def)
qed simp

lemma concat_runes_valid: "utf8_valid s \<Longrightarrow> concat (runes s) = s"
proof -
  assume "utf8_valid s"
  then have "map rune_text (segments s) = segments s"
    using valid_segments by (intro map_idI) (auto simp: rune_text_def)
  then show ?thesis by (simp add: runes_def concat_segments)
qed

section \<open>Numbers end at a separator\<close>

definition stops :: "string \<Rightarrow> bool" where
  "stops rest \<longleftrightarrow> rest = [] \<or> \<not> (is_digit (hd rest) \<or> hd rest \<in> {CHR ''.'', CHR ''e'', CHR ''E''})"

lemma while_append:
  "rest = [] \<or> \<not> P (hd rest) \<Longrightarrow>
   takeWhile P (s @ rest) = takeWhile P s \<and> dropWhile P (s @ rest) = dropWhile P s @ rest"
  by (induction s) (cases rest; simp)+

lemma digits_append:
  "stops rest \<Longrightarrow> takeWhile is_digit (s @ rest) = takeWhile is_digit s \<and>
     dropWhile is_digit (s @ rest) = dropWhile is_digit s @ rest"
  by (rule while_append) (auto simp: stops_def)

lemma number_int_append: "number_int s = Some (i, r) \<Longrightarrow> stops rest \<Longrightarrow> number_int (s @ rest) = Some (i, r @ rest)"
  using digits_append [of rest s] by (cases s) (auto simp: number_int_def split: if_splits)

lemma number_frac_append: "number_frac s = Some (f, r) \<Longrightarrow> stops rest \<Longrightarrow> number_frac (s @ rest) = Some (f, r @ rest)"
  using digits_append [of rest "tl s"]
  by (cases s; cases rest) (auto simp: number_frac_def Let_def stops_def split: if_splits)

lemma number_exp_append: "number_exp s = Some (e, r) \<Longrightarrow> stops rest \<Longrightarrow> number_exp (s @ rest) = Some (e, r @ rest)"
proof (cases "s \<noteq> [] \<and> hd s \<in> {CHR ''e'', CHR ''E''}")
  case False
  assume *: "number_exp s = Some (e, r)" "stops rest"
  then show ?thesis using False by (cases s; cases rest) (auto simp: number_exp_def stops_def)
next
  case True
  assume *: "number_exp s = Some (e, r)" "stops rest"
  obtain sg t where t: "exp_sign (tl s) = (sg, t)" by fastforce
  have ne: "s \<noteq> []" "tl s \<noteq> []" using * True by (auto simp: number_exp_def exp_sign_def)
  then have "exp_sign (tl (s @ rest)) = (sg, t @ rest)" using t by (auto simp: exp_sign_def split: if_splits)
  then show ?thesis
    using * True t ne digits_append [OF *(2), of t] by (auto simp: number_exp_def Let_def split: if_splits)
qed

lemma parse_number_append:
  assumes "parse_number s = Some (t, r)" and "stops rest"
  shows "parse_number (s @ rest) = Some (t, r @ rest)"
proof -
  obtain sg s1 where sg: "number_sign s = (sg, s1)" by fastforce
  obtain i s2 where i: "number_int s1 = Some (i, s2)" using assms(1) sg by (auto simp: parse_number_def split: option.splits)
  obtain f s3 where f: "number_frac s2 = Some (f, s3)" using assms(1) sg i by (auto simp: parse_number_def split: option.splits)
  obtain e s4 where e: "number_exp s3 = Some (e, s4)" using assms(1) sg i f by (auto simp: parse_number_def split: option.splits)
  have s: "s \<noteq> []" using sg i by (auto simp: number_sign_def number_int_def)
  then have "number_sign (s @ rest) = (sg, s1 @ rest)" using sg by (auto simp: number_sign_def split: if_splits)
  then show ?thesis
    using assms(1) sg i f e number_int_append [OF i assms(2)] number_frac_append [OF f assms(2)] number_exp_append [OF e assms(2)]
    by (simp add: parse_number_def)
qed

definition num_ok :: "string \<Rightarrow> bool" where
  "num_ok t \<longleftrightarrow> parse_number t = Some (t, [])"

lemma num_head: "num_ok t \<Longrightarrow> t \<noteq> [] \<and> (hd t = CHR ''-'' \<or> is_digit (hd t))"
  by (cases t) (auto simp: num_ok_def parse_number_def number_sign_def number_int_def is_digit_def split: if_splits option.splits)

lemma nat_text_head: "0 < n \<Longrightarrow> hd (nat_text n) \<noteq> CHR ''0''"
proof (induction n rule: nat_text.induct)
  case (1 n)
  have d: "hd (nat_text (n div 10)) \<noteq> CHR ''0''" if "\<not> n < 10" using that 1 by simp
  have ne: "nat_text (n div 10) \<noteq> []" using nat_text_digits [of "n div 10"] by blast
  show ?case
  proof (cases "n < 10")
    case True
    have "digit_char n \<noteq> CHR ''0''"
    proof
      assume "digit_char n = CHR ''0''"
      then have "byte (digit_char n) = byte CHR ''0''" by simp
      then show False using byte_digit_char [OF True] 1(2) by simp
    qed
    then show ?thesis using True by (simp add: nat_text.simps [of n])
  next
    case False
    then show ?thesis using d ne by (simp add: nat_text.simps [of n])
  qed
qed

lemma num_ok_nat: "num_ok (nat_text n)"
proof (cases "n = 0")
  case True
  then show ?thesis
    by (simp add: num_ok_def parse_number_def number_sign_def number_int_def number_frac_def number_exp_def nat_text.simps [of 0] digit_char_def char_of_eq_iff is_digit_def)
next
  case False
  obtain c t where c: "nat_text n = c # t" "\<forall>d \<in> set (c # t). is_digit d" using nat_text_digits [of n] by (cases "nat_text n") auto
  have "c \<noteq> CHR ''0''" using nat_text_head [of n] False c by simp
  moreover have "c \<noteq> CHR ''-''" using c by (auto simp: is_digit_def)
  ultimately show ?thesis
    using c takeWhile_digits [of "c # t" "[]"]
    by (auto simp: num_ok_def parse_number_def number_sign_def number_int_def number_frac_def number_exp_def)
qed

lemma num_ok_int: "num_ok (int_text i)"
proof (cases "i < 0")
  case False
  then show ?thesis using num_ok_nat by (simp add: int_text_def)
next
  case True
  obtain c t where c: "nat_text (nat (- i)) = c # t" using nat_text_digits by (cases "nat_text (nat (- i))") auto
  have "c \<noteq> CHR ''-''" using nat_text_digits [of "nat (- i)"] c by (auto simp: is_digit_def)
  then show ?thesis using True num_ok_nat [of "nat (- i)"] c
    by (auto simp: int_text_def num_ok_def parse_number_def number_sign_def split: option.splits)
qed

section \<open>Parsing reads back what is written\<close>

text \<open>Values whose numbers are literals and which are nested at most \<open>k\<close> deep.\<close>

fun json_ok :: "nat \<Rightarrow> json \<Rightarrow> bool" where
  "json_ok k (JNum t) = num_ok t"
| "json_ok k (JArr vs) = (0 < k \<and> (\<forall>v \<in> set vs. json_ok (k - 1) v))"
| "json_ok k (JObj kvs) = (0 < k \<and> (\<forall>kv \<in> set kvs. json_ok (k - 1) (snd kv)))"
| "json_ok k _ = True"

text \<open>What is left of a value in a text: bytes of a string that are not UTF-8 become U+FFFD.\<close>

definition clean_text :: "string \<Rightarrow> string" where
  "clean_text s = concat (runes s)"

fun clean :: "json \<Rightarrow> json" where
  "clean (JStr s) = JStr (clean_text s)"
| "clean (JArr vs) = JArr (map clean vs)"
| "clean (JObj kvs) = JObj (map (\<lambda>kv. (clean_text (fst kv), clean (snd kv))) kvs)"
| "clean j = j"

lemma clean_text_valid: "utf8_valid s \<Longrightarrow> clean_text s = s"
  by (simp add: clean_text_def concat_runes_valid)

lemma json_ok_mono: "json_ok k j \<Longrightarrow> k \<le> n \<Longrightarrow> json_ok n j"
proof (induction j arbitrary: k n)
  case (JArr vs)
  have "json_ok (n - 1) v" if "v \<in> set vs" for v
    by (rule JArr.IH [OF that, of "k - 1"]) (use JArr.prems that in auto)
  then show ?case using JArr.prems by auto
next
  case (JObj kvs)
  have "json_ok (n - 1) (snd kv)" if "kv \<in> set kvs" for kv
    using JObj.IH [of kv "snd kv" "k - 1" "n - 1"] JObj.prems that by (cases kv) auto
  then show ?case using JObj.prems by auto
qed simp_all

lemma skip_space_cons: "\<not> json_space c \<Longrightarrow> skip_space (c # s) = c # s"
  by (simp add: skip_space_def)

lemma json_text_head:
  assumes "json_ok k j"
  obtains c t where "json_text j = c # t" "\<not> json_space c" "c \<noteq> CHR 0x5D" "c \<noteq> CHR 0x7D"
proof (cases j)
  case (JNum x)
  obtain c t where x: "x = c # t" using num_head [of x] assms JNum by (cases x) auto
  have "c = CHR ''-'' \<or> is_digit c" using num_head [of x] assms JNum x by auto
  then have "\<not> json_space c \<and> c \<noteq> CHR 0x5D \<and> c \<noteq> CHR 0x7D" by (auto simp: json_space_def is_digit_def)
  then show thesis using that JNum x by simp
next
  case (JBool b)
  then show thesis using that by (cases b) (auto simp: json_space_def)
qed (use that in \<open>auto simp: json_quote_def json_space_def split: if_splits\<close>)

lemma parse_value_string:
  "0 < n \<Longrightarrow> parse_value n d (json_quote s @ rest) = Some (JStr (clean_text s), rest)"
  by (cases n) (simp_all add: json_quote_def skip_space_cons json_space_def unquote_quote clean_text_def)

lemma parse_value_number:
  assumes "num_ok t" and "stops rest" and "0 < n"
  shows "parse_value n d (t @ rest) = Some (JNum t, rest)"
proof -
  obtain c u where t: "t = c # u" "c = CHR ''-'' \<or> is_digit c" using num_head [OF assms(1)] by (cases t) auto
  have c: "\<not> json_space c" "c \<noteq> CHR 0x22" "c \<noteq> CHR 0x7B" "c \<noteq> CHR 0x5B" "c \<noteq> CHR ''t''" "c \<noteq> CHR ''f''" "c \<noteq> CHR ''n''"
    using t(2) by (auto simp: json_space_def is_digit_def)
  have "parse_number (t @ rest) = Some (t, rest)"
    using parse_number_append [of t t "[]" rest] assms by (simp add: num_ok_def)
  then show ?thesis using c t assms(3) by (cases n) (auto simp: skip_space_cons has_prefix_def)
qed

lemma parse_elements_text:
  assumes "\<And>v n rest. v \<in> set vs \<Longrightarrow> length (json_text v) \<le> n \<Longrightarrow> stops rest \<Longrightarrow>
      parse_value n d (json_text v @ rest) = Some (clean v, rest)"
    and "vs \<noteq> []" and "length (join '','' (map json_text vs)) < n"
  shows "parse_elements n d (join '','' (map json_text vs) @ CHR 0x5D # rest) = Some (map clean vs, rest)"
  using assms
proof (induction vs arbitrary: n)
  case (Cons v vs)
  obtain m where n: "n = Suc m" using Cons(4) by (cases n) auto
  show ?case
  proof (cases vs)
    case Nil
    then show ?thesis
      using Cons(2) [of v m "CHR 0x5D # rest"] Cons(4) n
      by (simp add: skip_space_cons json_space_def stops_def is_digit_def)
  next
    case (Cons w ws)
    have "parse_elements m d (join '','' (map json_text vs) @ CHR 0x5D # rest) = Some (map clean vs, rest)"
      by (rule Cons.IH) (use Cons.prems n Cons in auto)
    then show ?thesis
      using Cons.prems(1) [of v m "CHR 0x2C # join '','' (map json_text vs) @ CHR 0x5D # rest"] Cons.prems(3) n Cons
      by (simp add: skip_space_cons json_space_def stops_def is_digit_def)
  qed
qed simp

abbreviation member_text :: "string \<times> json \<Rightarrow> string" where
  "member_text kv \<equiv> json_quote (fst kv) @ '':'' @ json_text (snd kv)"

lemma parse_members_text:
  assumes "\<And>kv n rest. kv \<in> set kvs \<Longrightarrow> length (json_text (snd kv)) \<le> n \<Longrightarrow> stops rest \<Longrightarrow>
      parse_value n d (json_text (snd kv) @ rest) = Some (clean (snd kv), rest)"
    and "kvs \<noteq> []" and "length (join '','' (map member_text kvs)) < n"
  shows "parse_members n d (join '','' (map member_text kvs) @ CHR 0x7D # rest) = Some (map (\<lambda>kv. (clean_text (fst kv), clean (snd kv))) kvs, rest)"
  using assms
proof (induction kvs arbitrary: n)
  case (Cons kv kvs)
  obtain m where n: "n = Suc m" using Cons(4) by (cases n) auto
  have k: "unquote (concat (map escape_segment (segments (fst kv))) @ CHR 0x22 # r) = Some (clean_text (fst kv), r)" for r
    by (simp add: unquote_quote clean_text_def)
  show ?case
  proof (cases kvs)
    case Nil
    then show ?thesis
      using Cons(2) [of kv m "CHR 0x7D # rest"] Cons(4) n k
      by (simp add: json_quote_def skip_space_cons json_space_def stops_def is_digit_def)
  next
    case (Cons w ws)
    have "parse_members m d (join '','' (map member_text kvs) @ CHR 0x7D # rest) = Some (map (\<lambda>kv. (clean_text (fst kv), clean (snd kv))) kvs, rest)"
      by (rule Cons.IH) (use Cons.prems n Cons in auto)
    then show ?thesis
      using Cons.prems(1) [of kv m "CHR 0x2C # join '','' (map member_text kvs) @ CHR 0x7D # rest"] Cons.prems(3) n Cons k
      by (simp add: json_quote_def skip_space_cons json_space_def stops_def is_digit_def)
  qed
qed simp

lemma parse_json_text:
  "json_ok k j \<Longrightarrow> k + d \<le> max_nesting \<Longrightarrow> length (json_text j) \<le> n \<Longrightarrow> stops rest \<Longrightarrow>
   parse_value n d (json_text j @ rest) = Some (clean j, rest)"
proof (induction j arbitrary: k d n rest)
  case JNull
  then show ?case by (cases n) (simp_all add: skip_space_cons json_space_def has_prefix_def)
next
  case (JBool b)
  then show ?case by (cases n; cases b) (simp_all add: skip_space_cons json_space_def has_prefix_def)
next
  case (JNum t)
  then show ?case using parse_value_number [of t rest n d] num_head [of t] by auto
next
  case (JStr s)
  then show ?case using parse_value_string [of n d s rest] by (simp add: json_quote_def)
next
  case (JArr vs)
  obtain m where n: "n = Suc m" using JArr.prems(3) by (cases n) auto
  have d: "\<not> max_nesting \<le> d" "k - 1 + Suc d \<le> max_nesting" using JArr.prems(1,2) by auto
  show ?case
  proof (cases "vs = []")
    case True
    then show ?thesis using n d by (simp add: skip_space_cons json_space_def)
  next
    case False
    then obtain v ws where vs: "vs = v # ws" by (cases vs) auto
    have "json_ok (k - 1) v" using JArr.prems(1) vs by simp
    then obtain c t where c: "json_text v = c # t" "\<not> json_space c" "c \<noteq> CHR 0x5D"
      by (rule json_text_head) blast
    then have j: "\<exists>u. join '','' (map json_text vs) = c # u" using vs by (cases ws) auto
    have e: "parse_elements m (Suc d) (join '','' (map json_text vs) @ CHR 0x5D # rest) = Some (map clean vs, rest)"
    proof (rule parse_elements_text)
      show "parse_value n' (Suc d) (json_text v' @ rest') = Some (clean v', rest')"
        if "v' \<in> set vs" "length (json_text v') \<le> n'" "stops rest'" for v' n' rest'
        by (rule JArr.IH [OF that(1) _ d(2) that(2,3)]) (use JArr.prems(1) that(1) in simp)
    qed (use False JArr.prems(3) n in auto)
    then show ?thesis using j c n d by (auto simp: skip_space_cons json_space_def)
  qed
next
  case (JObj kvs)
  obtain m where n: "n = Suc m" using JObj.prems(3) by (cases n) auto
  have d: "\<not> max_nesting \<le> d" "k - 1 + Suc d \<le> max_nesting" using JObj.prems(1,2) by auto
  show ?case
  proof (cases "kvs = []")
    case True
    then show ?thesis using n d by (simp add: skip_space_cons json_space_def)
  next
    case False
    have j: "\<exists>u. join '','' (map member_text kvs) = CHR 0x22 # u"
      using False by (cases kvs rule: remdups_adj.cases) (auto simp: json_quote_def)
    have e: "parse_members m (Suc d) (join '','' (map member_text kvs) @ CHR 0x7D # rest) =
        Some (map (\<lambda>kv. (clean_text (fst kv), clean (snd kv))) kvs, rest)"
    proof (rule parse_members_text)
      show "parse_value n' (Suc d) (json_text (snd kv) @ rest') = Some (clean (snd kv), rest')"
        if "kv \<in> set kvs" "length (json_text (snd kv)) \<le> n'" "stops rest'" for kv n' rest'
        using JObj.IH [of kv "snd kv" "k - 1" "Suc d" n' rest'] that JObj.prems(1) d(2)
        by (cases kv) auto
    qed (use False JObj.prems(3) n in auto)
    then show ?thesis using j n d by (auto simp: skip_space_cons json_space_def)
  qed
qed

lemma json_parse_text: "json_ok k j \<Longrightarrow> k \<le> max_nesting \<Longrightarrow> json_parse (json_text j) = Some (clean j)"
  using parse_json_text [of k j 0 "Suc (length (json_text j))" "[]"]
  by (simp add: json_parse_def stops_def skip_space_def)

text \<open>Enough fuel is the number of bytes read: \<open>json_parse\<close> misses no value for lack of it.\<close>

lemma skip_space_shorter: "length (skip_space s) \<le> length s"
  by (simp add: skip_space_def length_dropWhile_le)

lemma unquote_shorter: "unquote s = Some (v, r) \<Longrightarrow> length r < length s"
  supply unquote.simps(2) [simp del]
proof (induction s arbitrary: v r rule: unquote.induct)
  case (2 c s)
  note u = 2(4) [unfolded unquote.simps(2) [of c s]]
  consider "c = CHR 0x22" | "c \<noteq> CHR 0x22" "c = CHR 0x5C" | "c \<noteq> CHR 0x22" "c \<noteq> CHR 0x5C" by blast
  then show ?case
  proof cases
    case 2
    note c = this
    obtain e t where s: "s = e # t" using u c by (cases s) simp_all
    show ?thesis
    proof (cases "simple_escape e")
      case (Some x)
      then obtain w where "unquote t = Some (w, r)" using u c s by (auto simp: prepend_def)
      then show ?thesis using "2.IH"(2) [OF c s Some] s by fastforce
    next
      case None
      then obtain x t1 where t1: "unicode_unescape t = Some (x, t1)" "e = CHR ''u''"
        using u c s None by (cases "unicode_unescape t") (auto split: if_splits)
      then obtain w where "unquote t1 = Some (w, r)" using u c s None by (auto simp: prepend_def)
      then show ?thesis using "2.IH"(1) [OF c s None t1(2,1) refl] s unicode_unescape_shorter [OF t1(1)] by fastforce
    qed
  next
    case 3
    then have c: "\<not> byte c < 0x20" using u by (simp split: if_splits)
    then obtain w where w: "unquote (drop (rune_length (c # s) - 1) s) = Some (w, r)"
      using u 3 by (auto simp: prepend_def Let_def)
    have "length r < length (drop (rune_length (c # s) - 1) s)" by (rule "2.IH"(3) [OF 3 c refl w])
    then show ?thesis by simp
  qed (use u in simp)
qed simp

lemma number_shorter:
  assumes "parse_number s = Some (v, r)"
  shows "length r < length s"
proof -
  obtain sg s1 where sg: "number_sign s = (sg, s1)" by fastforce
  obtain i s2 where i: "number_int s1 = Some (i, s2)" using assms sg by (auto simp: parse_number_def split: option.splits)
  obtain f s3 where f: "number_frac s2 = Some (f, s3)" using assms sg i by (auto simp: parse_number_def split: option.splits)
  obtain e where e: "number_exp s3 = Some (e, r)" using assms sg i f by (auto simp: parse_number_def split: option.splits)
  have "length s1 \<le> length s" using sg by (auto simp: number_sign_def split: if_splits)
  moreover have "length s2 < length s1"
    using i length_dropWhile_le [of is_digit "tl s1"] by (cases s1) (auto simp: number_int_def split: if_splits)
  moreover have "length s3 \<le> length s2"
    using f length_dropWhile_le [of is_digit "tl s2"] by (cases s2) (auto simp: number_frac_def Let_def split: if_splits)
  moreover have "length r \<le> length s3"
    using e length_dropWhile_le [of is_digit "snd (exp_sign (tl s3))"]
    by (cases s3; cases "tl s3") (auto simp: number_exp_def exp_sign_def Let_def split: if_splits)
  ultimately show ?thesis by linarith
qed

lemma parse_enough:
  "(\<forall>d s v r. parse_value n d s = Some (v, r) \<longrightarrow>
     length r < length s \<and> (\<forall>m. length s - length r \<le> m \<longrightarrow> parse_value m d s = Some (v, r))) \<and>
   (\<forall>d s vs r. parse_elements n d s = Some (vs, r) \<longrightarrow>
     length r < length s \<and> (\<forall>m. length s - length r \<le> m \<longrightarrow> parse_elements m d s = Some (vs, r))) \<and>
   (\<forall>d s ms r. parse_members n d s = Some (ms, r) \<longrightarrow>
     length r < length s \<and> (\<forall>m. length s - length r \<le> m \<longrightarrow> parse_members m d s = Some (ms, r)))"
  (is "?V n \<and> ?E n \<and> ?M n")
proof (induction n)
  case (Suc n)
  note V = Suc [THEN conjunct1, rule_format] and E = Suc [THEN conjunct2, THEN conjunct1, rule_format]
    and M = Suc [THEN conjunct2, THEN conjunct2, rule_format]
  have "?V (Suc n)"
  proof (intro allI impI)
    fix d s v r
    assume p: "parse_value (Suc n) d s = Some (v, r)"
    obtain c t where ct: "skip_space s = c # t" using p by (cases "skip_space s") simp_all
    then have len: "length t < length s" using skip_space_shorter [of s] by simp
    consider (obj) ms where "c = CHR 0x7B" "\<not> max_nesting \<le> d" "\<not> (skip_space t \<noteq> [] \<and> hd (skip_space t) = CHR 0x7D)"
        "parse_members n (Suc d) t = Some (ms, r)" "v = JObj ms"
      | (arr) vs where "c = CHR 0x5B" "\<not> max_nesting \<le> d" "\<not> (skip_space t \<noteq> [] \<and> hd (skip_space t) = CHR 0x5D)"
        "parse_elements n (Suc d) t = Some (vs, r)" "v = JArr vs"
      | (leaf) "length r < length s" "\<forall>m. parse_value (Suc m) d s = Some (v, r)"
    proof (cases "c = CHR 0x7B \<or> c = CHR 0x5B")
      case True
      have sh: "length (tl (skip_space t)) < length s" using skip_space_shorter [of t] len by simp
      show thesis
      proof (cases "c = CHR 0x7B")
        case True
        then show thesis
          using p ct obj leaf sh by (cases "skip_space t \<noteq> [] \<and> hd (skip_space t) = CHR 0x7D") (auto split: if_splits)
      next
        case False
        then show thesis
          using p ct True arr leaf sh by (cases "skip_space t \<noteq> [] \<and> hd (skip_space t) = CHR 0x5D") (auto split: if_splits)
      qed
    next
      case False
      have "parse_value (Suc m) d s = parse_value (Suc n) d s" for m using ct False by simp
      then have "\<forall>m. parse_value (Suc m) d s = Some (v, r)" using p by simp
      moreover have "length r < length s"
        using p ct False len skip_space_shorter [of s] unquote_shorter [of t] number_shorter [of "c # t"]
        by (auto split: if_splits)
      ultimately show thesis using leaf by blast
    qed
    then show "length r < length s \<and> (\<forall>m. length s - length r \<le> m \<longrightarrow> parse_value m d s = Some (v, r))"
    proof cases
      case obj
      have "parse_value m d s = Some (v, r)" if "length s - length r \<le> m" for m
        using that M [OF obj(4)] obj ct len by (cases m) auto
      then show ?thesis using M [OF obj(4)] len by auto
    next
      case arr
      have "parse_value m d s = Some (v, r)" if "length s - length r \<le> m" for m
        using that E [OF arr(4)] arr ct len by (cases m) auto
      then show ?thesis using E [OF arr(4)] len by auto
    next
      case leaf
      have "parse_value m d s = Some (v, r)" if "length s - length r \<le> m" for m
        using leaf that by (cases m) auto
      then show ?thesis using leaf by blast
    qed
  qed
  moreover have "?E (Suc n)"
  proof (intro allI impI)
    fix d s vs r
    assume p: "parse_elements (Suc n) d s = Some (vs, r)"
    obtain v r1 where v: "parse_value n d s = Some (v, r1)" using p by (auto split: option.splits)
    obtain c t where ct: "skip_space r1 = c # t" using p v by (cases "skip_space r1") simp_all
    note vl = V [OF v] and sh = skip_space_shorter [of r1, unfolded ct]
    show "length r < length s \<and> (\<forall>m. length s - length r \<le> m \<longrightarrow> parse_elements m d s = Some (vs, r))"
    proof (cases "c = CHR 0x2C")
      case True
      then obtain ws where ws: "parse_elements n d t = Some (ws, r)" "vs = v # ws" using p v ct by auto
      note el = E [OF ws(1)]
      have "parse_elements m d s = Some (vs, r)" if "length s - length r \<le> m" for m
        using that vl sh el v ct ws True by (cases m) auto
      then show ?thesis using vl sh el by auto
    next
      case False
      have "parse_elements m d s = Some (vs, r)" if "length s - length r \<le> m" for m
        using that p vl sh v ct False by (cases m) (auto split: if_splits)
      then show ?thesis using p vl sh v ct False by (auto split: if_splits)
    qed
  qed
  moreover have "?M (Suc n)"
  proof (intro allI impI)
    fix d s ms r
    assume p: "parse_members (Suc n) d s = Some (ms, r)"
    obtain t where t: "skip_space s = CHR 0x22 # t" using p by (cases "skip_space s") (simp_all split: if_splits)
    obtain k r1 where k: "unquote t = Some (k, r1)" using p t by (auto split: option.splits)
    obtain r2 where r2: "skip_space r1 = CHR 0x3A # r2" using p t k by (cases "skip_space r1") (simp_all split: if_splits)
    obtain v r3 where v: "parse_value n d r2 = Some (v, r3)" using p t k r2 by (auto split: option.splits)
    obtain c r4 where ct: "skip_space r3 = c # r4" using p t k r2 v by (cases "skip_space r3") simp_all
    note vl = V [OF v] and sh = skip_space_shorter [of s, unfolded t] unquote_shorter [OF k]
      skip_space_shorter [of r1, unfolded r2] skip_space_shorter [of r3, unfolded ct]
    show "length r < length s \<and> (\<forall>m. length s - length r \<le> m \<longrightarrow> parse_members m d s = Some (ms, r))"
    proof (cases "c = CHR 0x2C")
      case True
      then obtain ns where ns: "parse_members n d r4 = Some (ns, r)" "ms = (k, v) # ns" using p t k r2 v ct by auto
      note el = M [OF ns(1)]
      have "parse_members m d s = Some (ms, r)" if "length s - length r \<le> m" for m
        using that vl sh el t k r2 v ct ns True by (cases m) auto
      then show ?thesis using vl sh el by auto
    next
      case False
      have "parse_members m d s = Some (ms, r)" if "length s - length r \<le> m" for m
        using that p vl sh t k r2 v ct False by (cases m) (auto split: if_splits)
      then show ?thesis using p vl sh t k r2 v ct False by (auto split: if_splits)
    qed
  qed
  ultimately show ?case by blast
qed simp

lemma json_parse_fuel:
  "json_parse s = Some v \<longleftrightarrow> (\<exists>n r. parse_value n 0 s = Some (v, r) \<and> skip_space r = [])"
  supply parse_value.simps [simp del]
proof
  assume "json_parse s = Some v"
  then show "\<exists>n r. parse_value n 0 s = Some (v, r) \<and> skip_space r = []"
    by (cases "parse_value (Suc (length s)) 0 s")
      (auto simp: json_parse_def intro!: exI [of _ "Suc (length s)"] split: if_splits)
next
  assume "\<exists>n r. parse_value n 0 s = Some (v, r) \<and> skip_space r = []"
  then obtain n r where r: "parse_value n 0 s = Some (v, r)" "skip_space r = []" by blast
  have "length s - length r \<le> Suc (length s)" by simp
  then have "parse_value (Suc (length s)) 0 s = Some (v, r)"
    using parse_enough [of n, THEN conjunct1, rule_format, OF r(1)] by blast
  then show "json_parse s = Some v" using r by (simp add: json_parse_def)
qed

end
