(* ===== verification/Decode.thy ===== *)
theory Decode
  imports Json Backends "HOL-Library.AList"
begin

text \<open>
  The decoding of a JSON object into the fields of a Go struct, and the texts that
  \<^verbatim>\<open>encoding/json\<close> keeps as they are: a \<open>json.RawMessage\<close> holds the bytes of its value, and
  writing it only compacts them.
\<close>

section \<open>Members with their bytes\<close>

text \<open>The members of an object text, after its opening brace: key, bytes of the value, value.\<close>

type_synonym members = "(string \<times> string \<times> json) list"

fun raw_members :: "nat \<Rightarrow> string \<Rightarrow> members" where
  "raw_members 0 s = []"
| "raw_members (Suc n) s =
     (case skip_space s of
        [] \<Rightarrow> []
      | q # t \<Rightarrow>
          (case unquote t of
             None \<Rightarrow> []
           | Some (k, r1) \<Rightarrow>
               (let r2 = skip_space (tl (skip_space r1))
                in case parse_value (Suc (length r2)) 0 r2 of
                     None \<Rightarrow> []
                   | Some (v, r3) \<Rightarrow>
                       (k, take (length r2 - length r3) r2, v) #
                       (case skip_space r3 of
                          [] \<Rightarrow> []
                        | c # r4 \<Rightarrow> if c = CHR 0x2C then raw_members n r4 else []))))"

text \<open>
  \<open>json.Unmarshal(raw, &st)\<close>: the members to store, none for \<open>null\<close>; \<^const>\<open>None\<close> for a
  syntax error or a value that is no object.
\<close>

definition struct_members :: "string \<Rightarrow> members option" where
  "struct_members raw =
     (case json_parse raw of
        Some (JObj kvs) \<Rightarrow> Some (if kvs = [] then [] else raw_members (length raw) (tl (skip_space raw)))
      | Some JNull \<Rightarrow> Some []
      | _ \<Rightarrow> None)"

section \<open>Fields\<close>

text \<open>
  A member goes to the field whose name it equals up to case folding, which for ASCII field
  names also folds the Kelvin sign and the long s.
\<close>

definition fold_rune :: "rune \<Rightarrow> rune" where
  "fold_rune r =
     (if r = [CHR 0xE2, CHR 0x84, CHR 0xAA] then ''k''
      else if r = [CHR 0xC5, CHR 0xBF] then ''s'' else to_lower r)"

definition fold_name :: "string \<Rightarrow> string" where
  "fold_name s = concat (map fold_rune (runes s))"

text \<open>
  Every member of the field is stored in the order of the text, over what the field holds;
  a value of another type makes the whole decoding an error.
\<close>

fun store_values :: "(string \<Rightarrow> json \<Rightarrow> 'a \<Rightarrow> 'a option) \<Rightarrow> (string \<times> json) list \<Rightarrow> 'a \<Rightarrow> 'a option" where
  "store_values f [] old = Some old"
| "store_values f ((raw, v) # vs) old =
     (case f raw v old of None \<Rightarrow> None | Some x \<Rightarrow> store_values f vs x)"

definition get_field :: "(string \<Rightarrow> json \<Rightarrow> 'a \<Rightarrow> 'a option) \<Rightarrow> 'a \<Rightarrow> string \<Rightarrow> members \<Rightarrow> 'a option" where
  "get_field f zero name ms =
     store_values f (map snd (filter (\<lambda>m. fold_name (fst m) = fold_name name) ms)) zero"

definition str_value :: "string \<Rightarrow> json \<Rightarrow> string \<Rightarrow> string option" where
  "str_value raw v old = (case v of JNull \<Rightarrow> Some old | JStr s \<Rightarrow> Some s | _ \<Rightarrow> None)"

definition bool_value :: "string \<Rightarrow> json \<Rightarrow> bool \<Rightarrow> bool option" where
  "bool_value raw v old = (case v of JNull \<Rightarrow> Some old | JBool b \<Rightarrow> Some b | _ \<Rightarrow> None)"

text \<open>\<open>strconv.ParseInt(s, 10, 64)\<close> on a number literal.\<close>

definition parse_int64 :: "string \<Rightarrow> int option" where
  "parse_int64 t =
     (case number_sign t of
        (sg, ds) \<Rightarrow>
          (let i = (if sg = [] then int (atoi ds) else - int (atoi ds))
           in if ds \<noteq> [] \<and> (\<forall>d \<in> set ds. is_digit d) \<and> - (2 ^ 63) \<le> i \<and> i < 2 ^ 63 then Some i else None))"

definition int_value :: "string \<Rightarrow> json \<Rightarrow> int \<Rightarrow> int option" where
  "int_value raw v old = (case v of JNull \<Rightarrow> Some old | JNum t \<Rightarrow> parse_int64 t | _ \<Rightarrow> None)"

text \<open>A pointer field: \<open>null\<close> makes it nil.\<close>

definition ptr_value ::
    "(string \<Rightarrow> json \<Rightarrow> 'a \<Rightarrow> 'a option) \<Rightarrow> 'a \<Rightarrow> string \<Rightarrow> json \<Rightarrow> 'a option \<Rightarrow> 'a option option" where
  "ptr_value f zero raw v old =
     (if v = JNull then Some None
      else map_option Some (f raw v (case old of None \<Rightarrow> zero | Some x \<Rightarrow> x)))"

text \<open>A \<open>json.RawMessage\<close>: the bytes, also of \<open>null\<close>; an absent field is the empty text.\<close>

definition raw_value :: "string \<Rightarrow> json \<Rightarrow> string \<Rightarrow> string option" where
  "raw_value raw v old = Some raw"

text \<open>
  What depends on floating point is an argument: \<open>cd_float\<close> is \<open>strconv.ParseFloat\<close> of a
  literal (\<^const>\<open>None\<close> out of range) and \<open>cd_text\<close> the \<open>%v\<close> rendering of that number;
  \<open>cd_any\<close> is the JSON value that \<open>Marshal\<close> writes for a Go value, or its error; \<open>cd_error\<close>
  is the text of the decoder's error on an input.
\<close>

record codec =
  cd_float :: "string \<Rightarrow> rat option"
  cd_text :: "string \<Rightarrow> string"
  cd_any :: "anyval \<Rightarrow> gerr + json"
  cd_error :: "string \<Rightarrow> string"

definition float_value :: "codec \<Rightarrow> string \<Rightarrow> json \<Rightarrow> rat \<Rightarrow> rat option" where
  "float_value cd raw v old = (case v of JNull \<Rightarrow> Some old | JNum t \<Rightarrow> cd_float cd t | _ \<Rightarrow> None)"

fun all_some :: "'a option list \<Rightarrow> 'a list option" where
  "all_some [] = Some []"
| "all_some (x # xs) =
     (case x of None \<Rightarrow> None | Some y \<Rightarrow> map_option (Cons y) (all_some xs))"

text \<open>A value of type \<open>any\<close>; a repeated key of an object keeps the last value.\<close>

definition update_all :: "(string \<times> 'a) list \<Rightarrow> (string \<times> 'a) list \<Rightarrow> (string \<times> 'a) list" where
  "update_all kvs old = foldl (\<lambda>m (k, v). AList.update k v m) old kvs"

fun json_any :: "codec \<Rightarrow> json \<Rightarrow> anyval option" where
  "json_any cd JNull = Some ANil"
| "json_any cd (JBool b) = Some (ABool b)"
| "json_any cd (JNum t) = (if cd_float cd t = None then None else Some (AFloat (cd_text cd t)))"
| "json_any cd (JStr s) = Some (AStr s)"
| "json_any cd (JArr vs) = map_option AList (all_some (map (json_any cd) vs))"
| "json_any cd (JObj kvs) =
     map_option (\<lambda>ms. AMap (update_all ms []))
       (all_some (map (\<lambda>kv. map_option (Pair (fst kv)) (json_any cd (snd kv))) kvs))"

text \<open>A map field: \<open>null\<close> makes it nil, an object adds its members to those it has.\<close>

definition props_value :: "codec \<Rightarrow> string \<Rightarrow> json \<Rightarrow> props \<Rightarrow> props option" where
  "props_value cd raw v old =
     (case v of
        JNull \<Rightarrow> Some []
      | JObj kvs \<Rightarrow>
          map_option (\<lambda>ms. update_all ms old)
            (all_some (map (\<lambda>kv. map_option (Pair (fst kv)) (json_any cd (snd kv))) kvs))
      | _ \<Rightarrow> None)"

definition str_field :: "string \<Rightarrow> members \<Rightarrow> string option" where
  "str_field = get_field str_value []"

definition bool_field :: "string \<Rightarrow> members \<Rightarrow> bool option" where
  "bool_field = get_field bool_value False"

definition int_field :: "string \<Rightarrow> members \<Rightarrow> int option" where
  "int_field = get_field int_value 0"

definition int_ptr_field :: "string \<Rightarrow> members \<Rightarrow> int option option" where
  "int_ptr_field = get_field (ptr_value int_value 0) None"

definition float_ptr_field :: "codec \<Rightarrow> string \<Rightarrow> members \<Rightarrow> rat option option" where
  "float_ptr_field cd = get_field (ptr_value (float_value cd) 0) None"

definition raw_field :: "string \<Rightarrow> members \<Rightarrow> string option" where
  "raw_field = get_field raw_value []"

definition props_field :: "codec \<Rightarrow> string \<Rightarrow> members \<Rightarrow> props option" where
  "props_field cd = get_field (props_value cd) []"

section \<open>Compacting\<close>

text \<open>
  How \<open>Marshal\<close> writes a \<open>RawMessage\<close>: blanks outside of strings are dropped, and the
  characters that it escapes for HTML and JavaScript are escaped.  The flag says whether
  the text begins inside a string.
\<close>

fun compact :: "bool \<Rightarrow> string \<Rightarrow> string" where
  "compact b [] = []"
| "compact False (c # s) =
     (if json_space c then compact False s else c # compact (c = CHR 0x22) s)"
| "compact True (c # s) =
     (if c = CHR 0x22 then c # compact False s
      else if c = CHR 0x5C
      then (case s of [] \<Rightarrow> [c] | e # t \<Rightarrow> c # e # compact True t)
      else if c \<in> {CHR 0x3C, CHR 0x3E, CHR 0x26} then unicode_escape (byte c) @ compact True s
      else if c = CHR 0xE2 \<and> take 2 s = [CHR 0x80, CHR 0xA8] then unicode_escape 0x2028 @ compact True (drop 2 s)
      else if c = CHR 0xE2 \<and> take 2 s = [CHR 0x80, CHR 0xA9] then unicode_escape 0x2029 @ compact True (drop 2 s)
      else c # compact True s)"

end
