(* ===== verification/Compact.thy ===== *)
theory Compact
  imports Decode
begin

text \<open>
  Compacting a JSON text changes neither its value nor puts a line break into it, whatever
  bytes its strings hold.  So a value that the sources keep as \<open>json.RawMessage\<close> and write out
  again is the value they received.
\<close>

section \<open>Runes and what follows them\<close>

abbreviation continued :: "string \<Rightarrow> string" where
  "continued \<equiv> takeWhile continuation"

lemma head_continued:
  assumes "utf8_valid (a # t)" and "\<not> byte a < 0x80"
  obtains h u where "t = h @ u" "length h \<in> {1, 2, 3}" "utf8_valid (a # h)" "list_all continuation h"
proof -
  note one = assms(2)
  obtain b s1 where t: "t = b # s1" using assms by (cases t) simp_all
  show thesis
  proof (cases "in_range 0xC2 0xDF a")
    case True
    then have "continuation b" using assms t by simp
    then show thesis using that [of "[b]" s1] t one True by simp
  next
    case two: False
    obtain c s2 where s1: "s1 = c # s2" using assms(1) one two t by (cases s1) simp_all
    show thesis
    proof (cases "in_range 0xE0 0xEF a")
      case True
      note r = assms(1) [unfolded t s1 utf8_valid.simps(2) [of a] if_not_P [OF one] list.case if_not_P [OF two] if_P [OF True]]
      then have "continuation b" by (auto simp: in_range_def split: if_splits)
      then show thesis using that [of "[b, c]" s2] t s1 r one two True
        by (simp add: utf8_valid.simps(2) [of a])
    next
      case three: False
      obtain d s3 where s2: "s2 = d # s3" using assms(1) one two three t s1 by (cases s2) simp_all
      note r = assms(1) [unfolded t s1 s2 utf8_valid.simps(2) [of a] if_not_P [OF one] list.case if_not_P [OF two] if_not_P [OF three]]
      then have "continuation b" by (auto simp: in_range_def split: if_splits)
      then show thesis using that [of "[b, c, d]" s3] t s1 s2 r one two three
        by (simp add: utf8_valid.simps(2) [of a])
    qed
  qed
qed

lemma rune_tail_continued:
  assumes "\<not> byte c < 0x80"
  shows "list_all continuation (take (rune_length (c # s) - 1) s)"
  supply utf8_valid.simps(2) [simp del]
proof (cases "c # s" rule: rune_length_cases)
  case (found n)
  obtain m where m: "n = Suc m" using found(1) by auto
  have "utf8_valid (c # take m s)" using found m by simp
  then obtain h u where h: "take m s = h @ u" "length h \<in> {1, 2, 3}" "utf8_valid (c # h)" "list_all continuation h"
    using assms by (rule head_continued)
  have hs: "take (length h) s = h"
    using h(1) by (metis append_eq_conv_conj length_append min.cobounded2 length_take take_take le_add1 min.orderE min.absorb1)
  have len: "length h \<le> m" using h(1) found(1,3) m by (metis le_add1 length_append length_take min.bounded_iff)
  have v: "Suc (length h) \<le> length (c # s) \<and> utf8_valid (take (Suc (length h)) (c # s))"
    using h(3) hs len found(3) m by auto
  have k: "Suc (length h) \<in> {1, 2, 3, 4}" using h(2) by auto
  have "\<not> Suc (length h) < n" using found(5) v k by blast
  then have "length h = m" using len m by simp
  then show ?thesis using h(4) hs found(2) m by simp
qed simp

lemma continued_take:
  "list_all continuation (take n s) \<Longrightarrow> continued s = continued s' \<Longrightarrow> n \<le> length s \<Longrightarrow>
   take n s' = take n s \<and> n \<le> length s'"
proof (induction n arbitrary: s s')
  case (Suc n)
  obtain b t where s: "s = b # t" "continuation b" using Suc.prems(1,3) by (cases s) auto
  have e: "b # continued t = continued s'" using Suc.prems(2) s by simp
  then obtain t' where s': "s' = b # t'" "continued t = continued t'" by (cases s') (simp_all split: if_splits)
  have "list_all continuation (take n t)" "n \<le> length t" using Suc.prems(1,3) s(1) by simp_all
  then show ?case using Suc.IH [OF _ s'(2)] s(1) s'(1) by simp
qed simp

lemma rune_length_continued:
  assumes "\<not> byte c < 0x80" and "continued s = continued s'"
  shows "rune_length (c # s) = rune_length (c # s')"
  supply utf8_valid.simps(2) [simp del]
proof -
  have ext: "k \<le> length (c # u') \<and> utf8_valid (take k (c # u'))"
    if u: "continued u = continued u'" and f: "rune_length (c # u) = k" "k \<in> {1, 2, 3, 4}" "k \<le> length (c # u)" "utf8_valid (take k (c # u))"
    for k u u'
  proof -
    have "take (k - 1) u' = take (k - 1) u \<and> k - 1 \<le> length u'"
      by (rule continued_take [OF _ u]) (use rune_tail_continued [OF assms(1), of u] f in auto)
    then show ?thesis using f by (cases k) auto
  qed
  show ?thesis
  proof (cases "c # s" rule: rune_length_cases)
    case 1: (found n)
    have n: "n \<le> length (c # s') \<and> utf8_valid (take n (c # s'))" by (rule ext [OF assms(2) 1(2,1,3,4)])
    show ?thesis
    proof (cases "c # s'" rule: rune_length_cases)
      case 2: (found m)
      have m: "m \<le> length (c # s) \<and> utf8_valid (take m (c # s))" by (rule ext [OF assms(2) [symmetric] 2(2,1,3,4)])
      have "\<not> m < n" "\<not> n < m" using 1 2 n m by blast+
      then show ?thesis using 1(2) 2(2) by simp
    qed (use 1 n in blast)
  next
    case bad
    show ?thesis
    proof (cases "c # s'" rule: rune_length_cases)
      case (found m)
      have "m \<le> length (c # s) \<and> utf8_valid (take m (c # s))" by (rule ext [OF assms(2) [symmetric] found(2,1,3,4)])
      then show ?thesis using bad found(1) by blast
    qed (use bad in simp)
  qed
qed

section \<open>Strings\<close>

text \<open>
  \<open>x\<close> and \<open>c\<close> are the contents of a string literal with the value \<open>v\<close> before and after
  compacting.  Whether they begin with the escape of a low surrogate matters to the escape
  in front of them.
\<close>

definition low_escape :: "string \<Rightarrow> bool" where
  "low_escape s \<longleftrightarrow> take 2 s = [CHR 0x5C, CHR ''u''] \<and>
     (case hex4_value (drop 2 s) of Some (m, t) \<Rightarrow> 0xDC00 \<le> m \<and> m < 0xE000 | None \<Rightarrow> False)"

definition recoded :: "string \<Rightarrow> string \<Rightarrow> string \<Rightarrow> bool" where
  "recoded x c v \<longleftrightarrow>
     continued c = continued x \<and> CHR 0x0A \<notin> set c \<and>
     (\<forall>t. compact True (x @ CHR 0x22 # t) = c @ CHR 0x22 # compact False t) \<and>
     (\<forall>rest. unquote (c @ CHR 0x22 # rest) = Some (v, rest)) \<and>
     low_escape (c @ [CHR 0x22]) = low_escape (x @ [CHR 0x22])"

lemma quote_not_continued: "continued (x @ CHR 0x22 # t) = continued x"
  by (induction x) (simp_all add: in_range_def)

lemma low_escape_other: "c \<noteq> CHR 0x5C \<Longrightarrow> \<not> low_escape (c # s)"
  by (simp add: low_escape_def)

lemma recoded_nil: "recoded [] [] []"
  by (simp add: recoded_def low_escape_other)

lemma recoded_simple:
  assumes "simple_escape e = Some d" and "recoded x c v"
  shows "recoded (CHR 0x5C # e # x) (CHR 0x5C # e # c) (d # v)"
proof -
  have e: "e \<noteq> CHR ''u''" "e \<noteq> CHR 0x0A" using assms(1) by (auto simp: simple_escape_def)
  have "\<not> low_escape (CHR 0x5C # e # z)" for z using e by (simp add: low_escape_def)
  then show ?thesis
    using assms e by (simp add: recoded_def in_range_def prepend_def)
qed

lemma unicode_escape_line: "CHR 0x0A \<notin> set (unicode_escape n)"
proof -
  have "CHR 0x0A \<noteq> hex_char m" if "m < 16" for m
  proof -
    have "hex_value (CHR 0x0A) = None" by (simp add: hex_value_def)
    then show ?thesis using hex_char_value [OF that] by auto
  qed
  then show ?thesis by (simp add: unicode_escape_def)
qed

lemma low_escape_unicode:
  "n < 0x10000 \<Longrightarrow> low_escape (unicode_escape n @ s) \<longleftrightarrow> 0xDC00 \<le> n \<and> n < 0xE000"
  using hex4_escape [of n s] by (simp add: low_escape_def unicode_escape_def)

text \<open>A character that is not escaped: an escape that stands for it, or the rune itself.\<close>

lemma recoded_ascii:
  assumes "byte a < 0x80" and "\<not> byte a < 0x20" and "a \<noteq> CHR 0x22" and "a \<noteq> CHR 0x5C" and "recoded x c v"
  shows "\<exists>c'. recoded (a # x) c' (a # v)"
proof (cases "a \<in> {CHR 0x3C, CHR 0x3E, CHR 0x26}")
  case True
  let ?e = "unicode_escape (byte a)"
  have "encode_rune (byte a) = [a]" using assms(1) by (simp add: encode_rune_def)
  then have u: "unquote (?e @ z) = prepend [a] (unquote z)" for z
    using unquote_unicode [of "byte a" z] assms(1) by simp
  have l: "\<not> low_escape (?e @ z)" for z using low_escape_unicode [of "byte a" z] assms(1) by simp
  have k: "continued (?e @ c) = []" "\<not> continuation a"
    using assms(1) by (simp_all add: unicode_escape_def in_range_def)
  have m: "compact True (a # z) = ?e @ compact True z" for z
    by (simp only: compact.simps(3) if_not_P [OF assms(3)] if_not_P [OF assms(4)] if_P [OF True])
  have "recoded (a # x) (?e @ c) (a # v)"
    unfolding recoded_def append_Cons append_assoc m u
    using assms(5) l k unicode_escape_line [of "byte a"] low_escape_other [OF assms(4)]
    by (simp add: recoded_def prepend_def)
  then show ?thesis by blast
next
  case False
  have n: "rune_length (a # z) = 1" for z using rune_length_append [of "[a]" z] assms(1) by simp
  have "\<not> (a = CHR 0xE2 \<and> P)" for P using assms(1) by auto
  then have m: "compact True (a # z) = a # compact True z" for z
    by (simp only: compact.simps(3) if_not_P [OF assms(3)] if_not_P [OF assms(4)] if_not_P [OF False] if_False)
  have u: "unquote (a # z) = prepend [a] (unquote z)" for z
    using assms(1-4) n by (simp add: rune_text_def Let_def)
  have k: "\<not> continuation a" "a \<noteq> CHR 0x0A" using assms(1,2) by (auto simp: in_range_def)
  have "recoded (a # x) (a # c) (a # v)"
    unfolding recoded_def append_Cons append_assoc m u
    using assms(5) k low_escape_other [OF assms(4)]
    by (simp add: recoded_def prepend_def)
  then show ?thesis by blast
qed

lemma compact_plain:
  assumes "b \<noteq> CHR 0x22" and "b \<noteq> CHR 0x5C" and "b \<notin> {CHR 0x3C, CHR 0x3E, CHR 0x26}"
    and "\<not> (b = CHR 0xE2 \<and> take 2 w = [CHR 0x80, CHR 0xA8])" and "\<not> (b = CHR 0xE2 \<and> take 2 w = [CHR 0x80, CHR 0xA9])"
  shows "compact True (b # w) = b # compact True w"
  by (simp only: compact.simps(3) if_not_P [OF assms(1)] if_not_P [OF assms(2)] if_not_P [OF assms(3)] if_not_P [OF assms(4)] if_not_P [OF assms(5)])

lemma continuation_plain:
  "continuation b \<Longrightarrow> b \<noteq> CHR 0x22 \<and> b \<noteq> CHR 0x5C \<and> b \<notin> {CHR 0x3C, CHR 0x3E, CHR 0x26} \<and> b \<noteq> CHR 0xE2 \<and> b \<noteq> CHR 0x0A"
  by (auto simp: in_range_def)

lemma compact_continued: "list_all continuation h \<Longrightarrow> compact True (h @ z) = h @ compact True z"
proof (induction h)
  case (Cons b h)
  then have "compact True (b # (h @ z)) = b # compact True (h @ z)"
    using continuation_plain [of b] by (intro compact_plain) auto
  then show ?case using Cons by simp
qed simp

lemma continued_append: "list_all continuation h \<Longrightarrow> continued (h @ z) = h @ continued z"
  by (induction h) auto

lemma separator_length:
  assumes "b = CHR 0xA8 \<or> b = CHR 0xA9"
  shows "rune_length (CHR 0xE2 # CHR 0x80 # b # s) = 3"
  supply utf8_valid.simps(2) [simp del]
proof -
  let ?r = "[CHR 0xE2, CHR 0x80, b]"
  have v: "\<not> utf8_valid [CHR 0xE2]" "\<not> utf8_valid [CHR 0xE2, CHR 0x80]"
    by (simp_all add: in_range_def utf8_valid.simps(2))
  have w: "utf8_valid ?r"
    using assms by (elim disjE) (simp_all add: in_range_def utf8_valid.simps(2))
  have "rune_length ?r = 3"
  proof (cases ?r rule: rune_length_cases)
    case (found n)
    have "n \<noteq> 1" "n \<noteq> 2" "n \<noteq> 4" using found(3,4) v by auto
    then show ?thesis using found(1,2) by auto
  next
    case bad
    then show ?thesis using w by auto
  qed
  then have "rune_ok ?r" using w by (simp add: rune_ok_def)
  then show ?thesis using rune_length_append [of ?r s] by simp
qed

lemma recoded_long:
  assumes a: "\<not> byte a < 0x80" and x: "recoded x c v" and s: "s = h @ x @ CHR 0x22 # r"
    and h: "length h = rune_length (a # s) - 1"
  shows "\<exists>c'. recoded (a # h @ x) c' (rune_text (a # h) @ v)"
  supply utf8_valid.simps(2) [simp del] compact.simps(3) [simp del] unquote.simps(2) [simp del]
proof -
  have H: "list_all continuation h" using rune_tail_continued [OF a, of s] s h by simp
  have plain: "a \<noteq> CHR 0x22" "a \<noteq> CHR 0x5C" "a \<notin> {CHR 0x3C, CHR 0x3E, CHR 0x26}" "a \<noteq> CHR 0x0A" "\<not> byte a < 0x20"
    using a by auto
  have n: "rune_length (a # h @ y @ CHR 0x22 # z) = rune_length (a # s)" if "continued y = continued x" for y z
    by (rule rune_length_continued [OF a]) (use s that in \<open>simp add: continued_append [OF H] quote_not_continued\<close>)
  have xs: "continued c = continued x" "CHR 0x0A \<notin> set c" "\<And>t. compact True (x @ CHR 0x22 # t) = c @ CHR 0x22 # compact False t"
    "\<And>rest. unquote (c @ CHR 0x22 # rest) = Some (v, rest)"
    using x by (auto simp: recoded_def)
  note l = low_escape_other [OF plain(2)]
  show ?thesis
  proof (cases "a = CHR 0xE2 \<and> (h = [CHR 0x80, CHR 0xA8] \<or> h = [CHR 0x80, CHR 0xA9])")
    case True
    define k :: nat where "k = (if h = [CHR 0x80, CHR 0xA8] then 0x2028 else 0x2029)"
    have v: "rune_text (a # h) = a # h" "encode_rune k = a # h"
      using True by (auto simp: k_def encode_separators rune_text_def in_range_def utf8_valid.simps(2))
    have u: "unquote (unicode_escape k @ z) = prepend (a # h) (unquote z)" for z
      using unquote_unicode [of k z] v(2) by (simp add: k_def split: if_splits)
    have m: "compact True (a # h @ z) = unicode_escape k @ compact True z" for z
      using True by (auto simp: k_def compact.simps(3))
    have lk: "\<not> low_escape (unicode_escape k @ z)" for z using low_escape_unicode [of k z] by (auto simp: k_def)
    have ck: "continued (unicode_escape k @ z) = []" "\<not> continuation a" for z
      using True by (auto simp: unicode_escape_def in_range_def)
    have "recoded (a # h @ x) (unicode_escape k @ c) (rune_text (a # h) @ v)"
      unfolding recoded_def append_Cons append_assoc m u v
      using xs lk ck unicode_escape_line [of k] l by (simp add: prepend_def)
    then show ?thesis by blast
  next
    case False
    have sep: "\<not> (a = CHR 0xE2 \<and> take 2 (h @ x @ CHR 0x22 # z) = [CHR 0x80, b])" if "b = CHR 0xA8 \<or> b = CHR 0xA9" for b z
    proof
      assume e: "a = CHR 0xE2 \<and> take 2 (h @ x @ CHR 0x22 # z) = [CHR 0x80, b]"
      obtain y where y: "h @ x @ CHR 0x22 # z = CHR 0x80 # b # y"
        using e by (metis append_Cons append_Nil append_take_drop_id)
      have "length h = 2" using h n [OF refl, of z] separator_length [OF that, of y] e unfolding y by simp
      then have "h = [CHR 0x80, b]" using e by simp
      then show False using False e that by auto
    qed
    have m: "compact True (a # h @ x @ CHR 0x22 # t) = a # h @ c @ CHR 0x22 # compact False t" for t
    proof -
      have "compact True (a # h @ x @ CHR 0x22 # t) = a # compact True (h @ x @ CHR 0x22 # t)"
        by (rule compact_plain [OF plain(1-3) sep sep]) simp_all
      then show ?thesis using compact_continued [OF H] xs(3) by simp
    qed
    have u: "unquote (a # h @ c @ CHR 0x22 # rest) = Some (rune_text (a # h) @ v, rest)" for rest
      using n [OF xs(1), of rest] h plain(1,2,5) xs(4) by (simp add: unquote.simps(2) [of a] Let_def prepend_def)
    have nl: "CHR 0x0A \<notin> set h" using H continuation_plain by (auto simp: list_all_iff)
    have "recoded (a # h @ x) (a # h @ c) (rune_text (a # h) @ v)"
      unfolding recoded_def append_Cons append_assoc m u
      using xs nl plain(4) l continued_append [OF H] by simp
    then show ?thesis by blast
  qed
qed

lemma hex4_digits:
  assumes "hex4_value s = Some (n, t)"
  shows "\<exists>h. s = h @ t \<and> length h = 4 \<and> (\<forall>d \<in> set h. hex_value d \<noteq> None) \<and> (\<forall>z. hex4_value (h @ z) = Some (n, z))"
proof -
  obtain a b c d u where s: "s = a # b # c # d # u" using assms by (cases s rule: hex4_value.cases) auto
  show ?thesis
    by (rule exI [of _ "[a, b, c, d]"]) (use assms s in \<open>auto split: option.splits\<close>)
qed

lemma hex_plain:
  "hex_value d \<noteq> None \<Longrightarrow> d \<noteq> CHR 0x22 \<and> d \<noteq> CHR 0x5C \<and> d \<notin> {CHR 0x3C, CHR 0x3E, CHR 0x26} \<and> d \<noteq> CHR 0xE2 \<and> d \<noteq> CHR 0x0A"
  by (auto simp: hex_value_def Let_def)

lemma hex_line: "\<forall>d \<in> set h. hex_value d \<noteq> None \<Longrightarrow> CHR 0x0A \<notin> set h"
  using hex_plain [of "CHR 0x0A"] by blast

lemma compact_hex: "\<forall>d \<in> set h. hex_value d \<noteq> None \<Longrightarrow> compact True (h @ z) = h @ compact True z"
proof (induction h)
  case (Cons d h)
  then have "compact True (d # (h @ z)) = d # compact True (h @ z)"
    using hex_plain [of d] by (intro compact_plain) auto
  then show ?case using Cons by simp
qed simp

lemma hex4_quote: "hex4_value (y @ CHR 0x22 # rest) = None \<or> 4 \<le> length y"
proof (rule ccontr)
  assume *: "\<not> (hex4_value (y @ CHR 0x22 # rest) = None \<or> 4 \<le> length y)"
  then obtain n t where "hex4_value (y @ CHR 0x22 # rest) = Some (n, t)" by auto
  then obtain h where h: "y @ CHR 0x22 # rest = h @ t" "length h = 4" "\<forall>d \<in> set h. hex_value d \<noteq> None"
    using hex4_digits by blast
  have "CHR 0x22 = (y @ CHR 0x22 # rest) ! length y" by simp
  also have "\<dots> = h ! length y" using h(1,2) * by (simp add: nth_append)
  finally have "CHR 0x22 \<in> set h" using h(2) * by simp
  then show False using h(3) hex_plain by blast
qed

lemma low_escape_quote: "low_escape (y @ CHR 0x22 # rest) = low_escape (y @ [CHR 0x22])"
proof (cases "2 \<le> length y")
  case True
  then obtain a b z where y: "y = a # b # z" by (cases y; cases "tl y") auto
  show ?thesis
  proof (cases "4 \<le> length z")
    case True
    then obtain c d e f u where "z = c # d # e # f # u" by (cases z rule: hex4_value.cases) auto
    then show ?thesis using y by (simp add: low_escape_def split: option.splits)
  next
    case False
    then show ?thesis using hex4_quote [of z rest] hex4_quote [of z "[]"] y by (auto simp: low_escape_def)
  qed
next
  case False
  then show ?thesis by (cases y; cases "tl y") (auto simp: low_escape_def)
qed

lemma unescape_low:
  "unicode_unescape s =
     (case hex4_value s of
        None \<Rightarrow> None
      | Some (n, s1) \<Rightarrow>
          (if 0xD800 \<le> n \<and> n < 0xDC00 \<and> low_escape s1
           then map_option (\<lambda>(m, s2). (encode_rune (0x10000 + (n - 0xD800) * 1024 + (m - 0xDC00)), s2)) (hex4_value (drop 2 s1))
           else if 0xD800 \<le> n \<and> n < 0xE000 then Some (encode_rune 0xFFFD, s1)
           else Some (encode_rune n, s1)))"
  by (auto simp: unicode_unescape_def low_escape_def split: option.splits)

lemma recoded_unicode:
  assumes u: "unicode_unescape t = Some (u, t1)" and t1: "t1 = x @ CHR 0x22 # r" and x: "recoded x c v"
  shows "\<exists>h. t = h @ t1 \<and> recoded (CHR 0x5C # CHR ''u'' # h @ x) (CHR 0x5C # CHR ''u'' # h @ c) (u @ v)"
  supply compact.simps(3) [simp del] unquote.simps(2) [simp del]
proof -
  obtain n s1 where n: "hex4_value t = Some (n, s1)" using u by (auto simp: unescape_low split: option.splits)
  then obtain h where h: "t = h @ s1" "length h = 4" "\<forall>d \<in> set h. hex_value d \<noteq> None" "\<And>z. hex4_value (h @ z) = Some (n, z)"
    using hex4_digits by blast
  have xs: "continued c = continued x" "CHR 0x0A \<notin> set c" "\<And>t. compact True (x @ CHR 0x22 # t) = c @ CHR 0x22 # compact False t"
    "\<And>rest. unquote (c @ CHR 0x22 # rest) = Some (v, rest)" "low_escape (c @ [CHR 0x22]) = low_escape (x @ [CHR 0x22])"
    using x by (auto simp: recoded_def)
  have k: "\<not> continuation CHR 0x5C" by (simp add: in_range_def)
  have fin: "recoded (CHR 0x5C # CHR ''u'' # g @ x) (CHR 0x5C # CHR ''u'' # g @ c) (u @ v)"
    if g: "\<And>z. compact True (CHR 0x5C # CHR ''u'' # g @ z) = CHR 0x5C # CHR ''u'' # g @ compact True z"
      "CHR 0x0A \<notin> set g" "\<And>z. low_escape (CHR 0x5C # CHR ''u'' # g @ z) = low_escape (CHR 0x5C # CHR ''u'' # g)"
      "\<And>rest. unicode_unescape (g @ c @ CHR 0x22 # rest) = Some (u, c @ CHR 0x22 # rest)" for g
  proof -
    have q: "unquote (CHR 0x5C # CHR ''u'' # g @ c @ CHR 0x22 # rest) = Some (u @ v, rest)" for rest
      using g(4) [of rest] xs(4) [of rest] by (simp add: unquote.simps(2) simple_escape_def prepend_def)
    show ?thesis
      unfolding recoded_def append_Cons append_assoc g(1) g(3) q using k xs g(2) by simp
  qed
  show ?thesis
  proof (cases "0xD800 \<le> n \<and> n < 0xDC00 \<and> low_escape s1")
    case True
    then obtain m s2 where m: "hex4_value (drop 2 s1) = Some (m, s2)" "take 2 s1 = [CHR 0x5C, CHR ''u'']" "0xDC00 \<le> m" "m < 0xE000"
      by (auto simp: low_escape_def split: option.splits)
    then obtain g where g: "drop 2 s1 = g @ s2" "length g = 4" "\<forall>d \<in> set g. hex_value d \<noteq> None" "\<And>z. hex4_value (g @ z) = Some (m, z)"
      using hex4_digits by blast
    have s1: "s1 = CHR 0x5C # CHR ''u'' # g @ s2"
      using m(2) g(1) by (metis append_Cons append_Nil append_take_drop_id)
    have e: "u = encode_rune (0x10000 + (n - 0xD800) * 1024 + (m - 0xDC00))" "t1 = s2"
      using u n True m(1) by (auto simp: unescape_low)
    have "recoded (CHR 0x5C # CHR ''u'' # (h @ CHR 0x5C # CHR ''u'' # g) @ x) (CHR 0x5C # CHR ''u'' # (h @ CHR 0x5C # CHR ''u'' # g) @ c) (u @ v)"
    proof (rule fin)
      show "compact True (CHR 0x5C # CHR ''u'' # (h @ CHR 0x5C # CHR ''u'' # g) @ z) =
          CHR 0x5C # CHR ''u'' # (h @ CHR 0x5C # CHR ''u'' # g) @ compact True z" for z
        using compact_hex [OF h(3)] compact_hex [OF g(3)] by (simp add: compact.simps(3))
      show "CHR 0x0A \<notin> set (h @ CHR 0x5C # CHR ''u'' # g)" using hex_line [OF h(3)] hex_line [OF g(3)] by simp
      show "low_escape (CHR 0x5C # CHR ''u'' # (h @ CHR 0x5C # CHR ''u'' # g) @ z) = low_escape (CHR 0x5C # CHR ''u'' # (h @ CHR 0x5C # CHR ''u'' # g))" for z
        using h(4) by (simp add: low_escape_def)
      show "unicode_unescape ((h @ CHR 0x5C # CHR ''u'' # g) @ c @ CHR 0x22 # rest) = Some (u, c @ CHR 0x22 # rest)" for rest
        using h(4) g(4) True m e by (simp add: unescape_low low_escape_def)
    qed
    then show ?thesis using h(1) s1 e(2) by (intro exI [of _ "h @ CHR 0x5C # CHR ''u'' # g"]) simp
  next
    case False
    have e: "t1 = s1" using u n False by (auto simp: unescape_low split: if_splits)
    have l: "low_escape (c @ CHR 0x22 # rest) = low_escape s1" for rest
      using xs(5) low_escape_quote e t1 by metis
    have "recoded (CHR 0x5C # CHR ''u'' # h @ x) (CHR 0x5C # CHR ''u'' # h @ c) (u @ v)"
    proof (rule fin)
      show "compact True (CHR 0x5C # CHR ''u'' # h @ z) = CHR 0x5C # CHR ''u'' # h @ compact True z" for z
        using compact_hex [OF h(3)] by (simp add: compact.simps(3))
      show "CHR 0x0A \<notin> set h" by (rule hex_line [OF h(3)])
      show "low_escape (CHR 0x5C # CHR ''u'' # h @ z) = low_escape (CHR 0x5C # CHR ''u'' # h)" for z
        using h(4) h(4) [of "[]"] by (simp add: low_escape_def)
      show "unicode_unescape (h @ c @ CHR 0x22 # rest) = Some (u, c @ CHR 0x22 # rest)" for rest
        using u n False h(4) l [of rest] by (auto simp: unescape_low split: if_splits)
    qed
    then show ?thesis using h(1) e by blast
  qed
qed

text \<open>Every string literal that is read is of this kind.\<close>

lemma unquote_recoded: "unquote s = Some (v, r) \<Longrightarrow> \<exists>x c. s = x @ CHR 0x22 # r \<and> recoded x c v"
  supply unquote.simps(2) [simp del] utf8_valid.simps(2) [simp del]
proof (induction s arbitrary: v r rule: unquote.induct)
  case (2 a s)
  note u = 2(4) [unfolded unquote.simps(2) [of a s]]
  consider "a = CHR 0x22" | "a \<noteq> CHR 0x22" "a = CHR 0x5C" | "a \<noteq> CHR 0x22" "a \<noteq> CHR 0x5C" by blast
  then show ?case
  proof cases
    case 1
    then show ?thesis using u recoded_nil by (intro exI [of _ "[]"]) simp
  next
    case 2
    note a = this
    obtain e t where s: "s = e # t" using u a by (cases s) simp_all
    show ?thesis
    proof (cases "simple_escape e")
      case (Some d)
      then obtain w where w: "unquote t = Some (w, r)" "v = d # w" using u a s by (auto simp: prepend_def)
      obtain x c where "t = x @ CHR 0x22 # r" "recoded x c w" using "2.IH"(2) [OF a s Some w(1)] by blast
      then have "a # s = (CHR 0x5C # e # x) @ CHR 0x22 # r \<and> recoded (CHR 0x5C # e # x) (CHR 0x5C # e # c) v"
        using recoded_simple [OF Some] a s w(2) by simp
      then show ?thesis by blast
    next
      case None
      then obtain y t1 where y: "unicode_unescape t = Some (y, t1)" "e = CHR ''u''"
        using u a s by (cases "unicode_unescape t") (auto split: if_splits)
      then obtain w where w: "unquote t1 = Some (w, r)" "v = y @ w" using u a s None by (auto simp: prepend_def)
      obtain x c where x: "t1 = x @ CHR 0x22 # r" "recoded x c w" using "2.IH"(1) [OF a s None y(2,1) refl w(1)] by blast
      obtain h where *: "t = h @ t1" "recoded (CHR 0x5C # CHR ''u'' # h @ x) (CHR 0x5C # CHR ''u'' # h @ c) v"
        using recoded_unicode [OF y(1) x] w(2) by blast
      have **: "a # s = (CHR 0x5C # CHR ''u'' # h @ x) @ CHR 0x22 # r" using *(1) a s y(2) x(1) by simp
      show ?thesis using *(2) ** by blast
    qed
  next
    case 3
    then have c: "\<not> byte a < 0x20" using u by (simp split: if_splits)
    let ?n = "rune_length (a # s) - 1"
    obtain w where w: "unquote (drop ?n s) = Some (w, r)" "v = rune_text (a # take ?n s) @ w"
      using u 3 c by (cases "unquote (drop ?n s)") (auto simp: prepend_def Let_def)
    obtain x c where x: "drop ?n s = x @ CHR 0x22 # r" "recoded x c w" using "2.IH"(3) [OF 3 c refl w(1)] by blast
    show ?thesis
    proof (cases "byte a < 0x80")
      case True
      then have "?n = 0" using rune_length_append [of "[a]" s] by simp
      then have n: "s = x @ CHR 0x22 # r" "v = a # w" using x w(2) True by (auto simp: rune_text_def utf8_valid.simps(2))
      then show ?thesis using recoded_ascii [OF True c 3 x(2)] by (metis append_Cons)
    next
      case False
      have len: "rune_length (a # s) \<le> length (a # s)" by (cases "a # s" rule: rune_length_cases) auto
      have s: "s = take ?n s @ x @ CHR 0x22 # r" using x(1) by (metis append_take_drop_id)
      have "\<exists>c'. recoded (a # take ?n s @ x) c' (rune_text (a # take ?n s) @ w)"
        by (rule recoded_long [OF False x(2) s]) (use len in auto)
      then show ?thesis using s w(2) by (metis append_Cons append_assoc)
    qed
  qed
qed simp

section \<open>Numbers\<close>

lemma digits_of: "\<forall>d \<in> set (takeWhile is_digit s). is_digit d"
  by (auto dest: set_takeWhileD)

lemma digit_head:
  assumes "\<forall>d \<in> set ds. is_digit d" and "ds \<noteq> []"
  shows "hd ds \<noteq> CHR ''-''" and "hd ds \<noteq> CHR ''+''"
proof -
  have "is_digit (hd ds)" using assms by simp
  then show "hd ds \<noteq> CHR ''-''" "hd ds \<noteq> CHR ''+''" by (auto simp: is_digit_def)
qed

lemma number_int_exact:
  assumes "number_int s = Some (i, r)"
  shows "s = i @ r \<and> i \<noteq> [] \<and> (\<forall>d \<in> set i. is_digit d) \<and>
    (\<forall>z. z = [] \<or> \<not> is_digit (hd z) \<longrightarrow> number_int (i @ z) = Some (i, z))"
proof -
  obtain c t where s: "s = c # t" using assms by (cases s) (simp_all add: number_int_def)
  show ?thesis
  proof (cases "c = CHR ''0''")
    case True
    then have "i = ''0''" "r = t" using assms s by (simp_all add: number_int_def)
    then show ?thesis using True s by (simp add: number_int_def is_digit_def)
  next
    case False
    then have i: "i = takeWhile is_digit s" "r = dropWhile is_digit s" "is_digit c"
      using assms s by (simp_all add: number_int_def split: if_splits)
    obtain i' where i': "i = c # i'" using i(1,3) s by simp
    have "number_int (i @ z) = Some (i, z)" if z: "z = [] \<or> \<not> is_digit (hd z)" for z
    proof -
      have "takeWhile is_digit (i @ z) = i \<and> dropWhile is_digit (i @ z) = z"
        by (rule takeWhile_digits [OF _ z]) (unfold i(1), rule digits_of)
      then show ?thesis using i(3) i' False by (simp add: number_int_def)
    qed
    moreover have "s = i @ r" unfolding i(1,2) by simp
    moreover have "\<forall>d \<in> set i. is_digit d" unfolding i(1) by (rule digits_of)
    ultimately show ?thesis using i' by simp
  qed
qed

lemma number_frac_exact:
  assumes "number_frac s = Some (f, r)"
  shows "s = f @ r \<and> (f \<noteq> [] \<longrightarrow> hd f = CHR ''.'') \<and> (\<forall>d \<in> set f. is_digit d \<or> d = CHR ''.'') \<and>
   (\<forall>z. z = [] \<or> \<not> is_digit (hd z) \<and> hd z \<noteq> CHR ''.'' \<longrightarrow> number_frac (f @ z) = Some (f, z))"
proof (cases "s \<noteq> [] \<and> hd s = CHR ''.''")
  case True
  then obtain t where s: "s = CHR ''.'' # t" by (cases s) auto
  have f: "f = CHR ''.'' # takeWhile is_digit t" "r = dropWhile is_digit t" "takeWhile is_digit t \<noteq> []"
    using assms s by (simp_all add: number_frac_def Let_def split: if_splits)
  have fz: "number_frac (f @ z) = Some (f, z)" if "z = [] \<or> \<not> is_digit (hd z)" for z
    using takeWhile_digits [OF digits_of that, of t] f(1,3) by (simp add: number_frac_def Let_def)
  then show ?thesis using fz [of "[]"] f s digits_of [of t] by auto
next
  case False
  then have "f = [] \<and> r = s" using assms by (auto simp: number_frac_def)
  then show ?thesis by (simp add: number_frac_def)
qed

lemma number_exp_exact:
  assumes "number_exp s = Some (e, r)"
  shows "s = e @ r \<and> (e \<noteq> [] \<longrightarrow> hd e = CHR ''e'' \<or> hd e = CHR ''E'') \<and>
   (\<forall>d \<in> set e. is_digit d \<or> d \<in> {CHR ''e'', CHR ''E'', CHR ''+'', CHR ''-''}) \<and> number_exp e = Some (e, [])"
proof (cases "s \<noteq> [] \<and> hd s \<in> {CHR ''e'', CHR ''E''}")
  case False
  then show ?thesis using assms by (auto simp: number_exp_def split: if_splits)
next
  case True
  obtain sg t where t: "exp_sign (tl s) = (sg, t)" by fastforce
  let ?ds = "takeWhile is_digit t"
  have e: "e = hd s # sg @ ?ds" "r = dropWhile is_digit t" "?ds \<noteq> []" using assms True t by (auto simp: number_exp_def Let_def split: if_splits)
  have tl: "tl s = sg @ t" "\<forall>d \<in> set sg. d \<in> {CHR ''+'', CHR ''-''}" using t by (cases "tl s"; auto simp: exp_sign_def split: if_splits)+
  have ds: "\<forall>d \<in> set ?ds. is_digit d" by (rule digits_of)
  then have h: "hd ?ds \<noteq> CHR ''+''" "hd ?ds \<noteq> CHR ''-''" using e(3) digit_head by blast+
  have sg: "sg = [] \<or> sg = [CHR ''+''] \<or> sg = [CHR ''-'']" using t by (auto simp: exp_sign_def split: if_splits)
  have x: "exp_sign (sg @ ?ds) = (sg, ?ds)"
    using sg by (elim disjE) (simp_all add: exp_sign_def h)
  have "takeWhile is_digit ?ds = ?ds \<and> dropWhile is_digit ?ds = []"
    using takeWhile_digits [OF ds, of "[]"] by simp
  then have n: "number_exp e = Some (e, [])"
    unfolding e(1) using True e(3) by (simp add: number_exp_def x Let_def)
  have s: "s = hd s # tl s" using True by (cases s) auto
  have "s = e @ r" by (subst s) (simp add: e(1,2) tl(1))
  moreover have "\<forall>d \<in> set e. is_digit d \<or> d \<in> {CHR ''e'', CHR ''E'', CHR ''+'', CHR ''-''}"
    unfolding e(1) using True tl(2) ds by auto
  moreover have "hd e = CHR ''e'' \<or> hd e = CHR ''E''" unfolding e(1) using True by simp
  ultimately show ?thesis using n by simp
qed

lemma number_exact:
  assumes "parse_number s = Some (t, r)"
  shows "s = t @ r \<and> num_ok t \<and> (\<forall>d \<in> set t. is_digit d \<or> d \<in> {CHR ''.'', CHR ''e'', CHR ''E'', CHR ''+'', CHR ''-''})"
proof -
  obtain sg s1 where sg: "number_sign s = (sg, s1)" by fastforce
  obtain i s2 where i: "number_int s1 = Some (i, s2)" using assms sg by (auto simp: parse_number_def split: option.splits)
  obtain f s3 where f: "number_frac s2 = Some (f, s3)" using assms sg i by (auto simp: parse_number_def split: option.splits)
  obtain e where e: "number_exp s3 = Some (e, r)" "t = sg @ i @ f @ e"
    using assms sg i f by (auto simp: parse_number_def split: option.splits)
  note ii = number_int_exact [OF i] and ff = number_frac_exact [OF f] and ee = number_exp_exact [OF e(1)]
  have e1: "e = [] \<or> \<not> is_digit (hd e) \<and> hd e \<noteq> CHR ''.''" using ee by (auto simp: is_digit_def)
  have f1: "f @ e = [] \<or> \<not> is_digit (hd (f @ e))" using ff e1 by (cases f) (auto simp: is_digit_def)
  have s1: "s = sg @ s1" "sg = [] \<or> sg = [CHR ''-'']" using sg by (cases s; auto simp: number_sign_def split: if_splits)+
  have "hd i \<noteq> CHR ''-''" using ii digit_head by blast
  then have "number_sign t = (sg, i @ f @ e)" using s1(2) ii e(2) by (auto simp: number_sign_def)
  moreover have "number_int (i @ f @ e) = Some (i, f @ e)" using ii f1 by blast
  moreover have "number_frac (f @ e) = Some (f, e)" using ff e1 by blast
  ultimately have "num_ok t" using ee e(2) by (simp add: num_ok_def parse_number_def)
  then show ?thesis using s1 ii ff ee e(2) by auto
qed

section \<open>Values\<close>

text \<open>A text and what compacting makes of it outside of a string.\<close>

definition kept :: "string \<Rightarrow> string \<Rightarrow> bool" where
  "kept x c \<longleftrightarrow> CHR 0x0A \<notin> set c \<and> (\<forall>t. compact False (x @ t) = c @ compact False t)"

lemma kept_append: "kept x c \<Longrightarrow> kept y e \<Longrightarrow> kept (x @ y) (c @ e)"
  by (simp add: kept_def)

lemma kept_char: "\<not> json_space a \<Longrightarrow> a \<noteq> CHR 0x22 \<Longrightarrow> kept [a] [a]"
  by (auto simp: kept_def json_space_def)

lemma kept_plain: "\<forall>a \<in> set x. \<not> json_space a \<and> a \<noteq> CHR 0x22 \<Longrightarrow> kept x x"
proof (induction x)
  case (Cons a x)
  then show ?case using kept_append [of "[a]" "[a]" x x] kept_char [of a] by simp
qed (simp add: kept_def)

lemma kept_string: "recoded x c v \<Longrightarrow> kept (CHR 0x22 # x @ [CHR 0x22]) (CHR 0x22 # c @ [CHR 0x22])"
  by (simp add: kept_def recoded_def json_space_def)

definition spaces :: "string \<Rightarrow> string" where
  "spaces s = takeWhile json_space s"

lemma spaces_skip: "s = spaces s @ skip_space s"
  by (simp add: spaces_def skip_space_def)

lemma kept_spaces: "kept (spaces s) []"
proof -
  have "\<forall>a \<in> set x. json_space a \<Longrightarrow> compact False (x @ t) = compact False t" for x t
    by (induction x) auto
  moreover have "\<forall>a \<in> set (spaces s). json_space a" by (auto simp: spaces_def dest: set_takeWhileD)
  ultimately show ?thesis by (simp add: kept_def)
qed

lemma kept_skip:
  assumes "skip_space s = x @ r" and "kept x c"
  shows "\<exists>y. s = y @ r \<and> kept y c"
  using kept_append [OF kept_spaces assms(2), of s] spaces_skip [of s] assms(1)
  by (intro exI [of _ "spaces s @ x"]) simp

lemma kept_skip_char:
  assumes "skip_space s = a # r" and "\<not> json_space a" and "a \<noteq> CHR 0x22"
  shows "\<exists>y. s = y @ r \<and> kept y [a]"
  using kept_skip [of s "[a]" r "[a]"] kept_char assms by simp

text \<open>The first character of a value is no blank and no closing bracket.\<close>

definition opens :: "string \<Rightarrow> bool" where
  "opens c \<longleftrightarrow> (\<exists>a t. c = a # t \<and> \<not> json_space a \<and> a \<noteq> CHR 0x5D \<and> a \<noteq> CHR 0x7D)"

lemma opens_append: "opens c \<Longrightarrow> opens (c @ t)"
  by (auto simp: opens_def)

lemma opens_skip: "opens c \<Longrightarrow> skip_space c = c"
  by (auto simp: opens_def skip_space_cons)

text \<open>More fuel than bytes reads the same.\<close>

lemma more_fuel:
  "parse_value n d s = Some (v, r) \<Longrightarrow> length s \<le> m \<Longrightarrow> parse_value m d s = Some (v, r)"
  "parse_elements n d s = Some (vs, r) \<Longrightarrow> length s \<le> m \<Longrightarrow> parse_elements m d s = Some (vs, r)"
  "parse_members n d s = Some (ms, r) \<Longrightarrow> length s \<le> m \<Longrightarrow> parse_members m d s = Some (ms, r)"
  using parse_enough [of n] by (metis diff_le_self le_trans)+

definition recodes_value :: "nat \<Rightarrow> string \<Rightarrow> json \<Rightarrow> string \<Rightarrow> bool" where
  "recodes_value d s v r \<longleftrightarrow> (\<exists>x c. s = x @ r \<and> kept x c \<and> opens c \<and>
     (\<forall>rest. stops rest \<longrightarrow> (\<exists>m. parse_value m d (c @ rest) = Some (v, rest))))"

definition recodes_elements :: "nat \<Rightarrow> string \<Rightarrow> json list \<Rightarrow> string \<Rightarrow> bool" where
  "recodes_elements d s vs r \<longleftrightarrow> (\<exists>x c. s = x @ r \<and> kept x c \<and> opens c \<and>
     (\<forall>rest. \<exists>m. parse_elements m d (c @ rest) = Some (vs, rest)))"

definition recodes_members :: "nat \<Rightarrow> string \<Rightarrow> (string \<times> json) list \<Rightarrow> string \<Rightarrow> bool" where
  "recodes_members d s ms r \<longleftrightarrow> (\<exists>x c. s = x @ r \<and> kept x c \<and> opens c \<and>
     (\<forall>rest. \<exists>m. parse_members m d (c @ rest) = Some (ms, rest)))"

lemma recodes_valueI:
  "s = x @ r \<Longrightarrow> kept x c \<Longrightarrow> opens c \<Longrightarrow> (\<And>rest. stops rest \<Longrightarrow> \<exists>m. parse_value m d (c @ rest) = Some (v, rest)) \<Longrightarrow>
   recodes_value d s v r"
  unfolding recodes_value_def by blast

lemma opens_char: "\<not> json_space a \<Longrightarrow> a \<noteq> CHR 0x5D \<Longrightarrow> a \<noteq> CHR 0x7D \<Longrightarrow> opens (a # c)"
  by (simp add: opens_def)

lemma recodes_leaf:
  assumes "skip_space s = x @ r" and "kept x x" and "opens x" and "\<And>rest. stops rest \<Longrightarrow> parse_value (Suc 0) d (x @ rest) = Some (v, rest)"
  shows "recodes_value d s v r"
  unfolding recodes_value_def using kept_skip [OF assms(1,2)] assms(3,4) by blast

lemma recodes_string:
  assumes "skip_space s = CHR 0x22 # t" and "unquote t = Some (v, r)"
  shows "recodes_value d s (JStr v) r"
proof -
  obtain x c where x: "t = x @ CHR 0x22 # r" "recoded x c v" using unquote_recoded [OF assms(2)] by blast
  have "skip_space s = (CHR 0x22 # x @ [CHR 0x22]) @ r" using assms(1) x(1) by simp
  from kept_skip [OF this kept_string [OF x(2)]]
  obtain y where y: "s = y @ r" "kept y (CHR 0x22 # c @ [CHR 0x22])" by blast
  have "parse_value (Suc 0) d ((CHR 0x22 # c @ [CHR 0x22]) @ rest) = Some (JStr v, rest)" for rest
    using x(2) by (simp add: skip_space_cons json_space_def recoded_def)
  then show ?thesis
    by (intro recodes_valueI [OF y] opens_char) (auto simp: json_space_def simp del: parse_value.simps)
qed

lemma recodes_array:
  assumes "skip_space s = CHR 0x5B # t" and "\<not> max_nesting \<le> d" and "recodes_elements (Suc d) t vs r"
  shows "recodes_value d s (JArr vs) r"
proof -
  obtain x c where x: "t = x @ r" "kept x c" "opens c" "\<forall>rest. \<exists>m. parse_elements m (Suc d) (c @ rest) = Some (vs, rest)"
    using assms(3) by (auto simp: recodes_elements_def)
  have "skip_space s = (CHR 0x5B # x) @ r" using assms(1) x(1) by simp
  moreover have "kept (CHR 0x5B # x) (CHR 0x5B # c)"
    using kept_append [OF kept_char [of "CHR 0x5B"] x(2)] by (simp add: json_space_def)
  ultimately obtain y where y: "s = y @ r" "kept y (CHR 0x5B # c)" using kept_skip by blast
  have "\<exists>m. parse_value m d ((CHR 0x5B # c) @ rest) = Some (JArr vs, rest)" for rest
  proof -
    obtain m where m: "parse_elements m (Suc d) (c @ rest) = Some (vs, rest)" using x(4) by blast
    have "parse_value (Suc m) d ((CHR 0x5B # c) @ rest) = Some (JArr vs, rest)"
      using m assms(2) x(3) opens_skip [OF opens_append [OF x(3)], of rest]
      by (auto simp: skip_space_cons json_space_def opens_def)
    then show ?thesis by blast
  qed
  then show ?thesis
    by (intro recodes_valueI [OF y] opens_char) (auto simp: json_space_def)
qed

lemma recodes_object:
  assumes "skip_space s = CHR 0x7B # t" and "\<not> max_nesting \<le> d" and "recodes_members (Suc d) t ms r"
  shows "recodes_value d s (JObj ms) r"
proof -
  obtain x c where x: "t = x @ r" "kept x c" "opens c" "\<forall>rest. \<exists>m. parse_members m (Suc d) (c @ rest) = Some (ms, rest)"
    using assms(3) by (auto simp: recodes_members_def)
  have "skip_space s = (CHR 0x7B # x) @ r" using assms(1) x(1) by simp
  moreover have "kept (CHR 0x7B # x) (CHR 0x7B # c)"
    using kept_append [OF kept_char [of "CHR 0x7B"] x(2)] by (simp add: json_space_def)
  ultimately obtain y where y: "s = y @ r" "kept y (CHR 0x7B # c)" using kept_skip by blast
  have "\<exists>m. parse_value m d ((CHR 0x7B # c) @ rest) = Some (JObj ms, rest)" for rest
  proof -
    obtain m where m: "parse_members m (Suc d) (c @ rest) = Some (ms, rest)" using x(4) by blast
    have "parse_value (Suc m) d ((CHR 0x7B # c) @ rest) = Some (JObj ms, rest)"
      using m assms(2) x(3) opens_skip [OF opens_append [OF x(3)], of rest]
      by (auto simp: skip_space_cons json_space_def opens_def)
    then show ?thesis by blast
  qed
  then show ?thesis
    by (intro recodes_valueI [OF y] opens_char) (auto simp: json_space_def)
qed

lemma recodes_empty:
  assumes "skip_space s = a # t" and "skip_space t = b # r" and "\<not> max_nesting \<le> d"
    and "(a, b, v) \<in> {(CHR 0x5B, CHR 0x5D, JArr []), (CHR 0x7B, CHR 0x7D, JObj [])}"
  shows "recodes_value d s v r"
proof -
  have ab: "\<not> json_space a" "a \<noteq> CHR 0x22" "\<not> json_space b" "b \<noteq> CHR 0x22" "a \<noteq> CHR 0x5D" "a \<noteq> CHR 0x7D"
    using assms(4) by (auto simp: json_space_def)
  obtain z where z: "t = z @ r" "kept z [b]" using kept_skip_char [OF assms(2) ab(3,4)] by blast
  have "skip_space s = (a # z) @ r" using assms(1) z(1) by simp
  moreover have "kept (a # z) [a, b]" using kept_append [OF kept_char [OF ab(1,2)] z(2)] by simp
  ultimately obtain y where y: "s = y @ r" "kept y [a, b]" using kept_skip by blast
  have "parse_value (Suc 0) d ([a, b] @ rest) = Some (v, rest)" for rest
    using assms(3,4) by (auto simp: skip_space_cons json_space_def)
  then show ?thesis
    by (intro recodes_valueI [OF y] opens_char ab) (auto simp del: parse_value.simps)
qed

lemma stops_separator: "a \<in> {CHR 0x2C, CHR 0x5D, CHR 0x7D} \<Longrightarrow> stops (a # s)"
  by (auto simp: stops_def is_digit_def)

lemma value_then:
  assumes "recodes_value d s v r" and "skip_space r = a # t" and "a \<in> {CHR 0x2C, CHR 0x5D, CHR 0x7D}"
  obtains x c where "s = x @ t" "kept x (c @ [a])" "opens c"
    "\<And>rest m. length (c @ a # rest) \<le> m \<Longrightarrow> parse_value m d (c @ a # rest) = Some (v, a # rest)"
proof -
  have a: "\<not> json_space a" "a \<noteq> CHR 0x22" using assms(3) by (auto simp: json_space_def)
  obtain x c where x: "s = x @ r" "kept x c" "opens c"
    "\<forall>rest. stops rest \<longrightarrow> (\<exists>m. parse_value m d (c @ rest) = Some (v, rest))"
    using assms(1) by (auto simp: recodes_value_def)
  obtain z where z: "r = z @ t" "kept z [a]" using kept_skip_char [OF assms(2) a] by blast
  show thesis
  proof (rule that [of "x @ z" c])
    show "s = (x @ z) @ t" using x(1) z(1) by simp
    show "kept (x @ z) (c @ [a])" by (rule kept_append [OF x(2) z(2)])
    show "parse_value m d (c @ a # rest) = Some (v, a # rest)" if "length (c @ a # rest) \<le> m" for rest m
      using x(4) stops_separator [OF assms(3)] more_fuel(1) [OF _ that] by blast
  qed (rule x(3))
qed

lemma recodes_elements_last:
  assumes "recodes_value d s v r1" and "skip_space r1 = CHR 0x5D # r"
  shows "recodes_elements d s [v] r"
proof -
  obtain x c where x: "s = x @ r" "kept x (c @ [CHR 0x5D])" "opens c"
    "\<And>rest m. length (c @ CHR 0x5D # rest) \<le> m \<Longrightarrow> parse_value m d (c @ CHR 0x5D # rest) = Some (v, CHR 0x5D # rest)"
    by (rule value_then [OF assms]) auto
  have "parse_elements (Suc (length (c @ CHR 0x5D # rest))) d ((c @ [CHR 0x5D]) @ rest) = Some ([v], rest)" for rest
    using x(4) [OF le_refl, of rest] by (simp add: skip_space_cons json_space_def)
  then show ?thesis unfolding recodes_elements_def using x(1,2) opens_append [OF x(3)] by blast
qed

lemma recodes_elements_cons:
  assumes "recodes_value d s v r1" and "skip_space r1 = CHR 0x2C # r2" and "recodes_elements d r2 vs r"
  shows "recodes_elements d s (v # vs) r"
proof -
  obtain x c where x: "s = x @ r2" "kept x (c @ [CHR 0x2C])" "opens c"
    "\<And>rest m. length (c @ CHR 0x2C # rest) \<le> m \<Longrightarrow> parse_value m d (c @ CHR 0x2C # rest) = Some (v, CHR 0x2C # rest)"
    by (rule value_then [OF assms(1,2)]) auto
  obtain y e where y: "r2 = y @ r" "kept y e" "\<forall>rest. \<exists>m. parse_elements m d (e @ rest) = Some (vs, rest)"
    using assms(3) by (auto simp: recodes_elements_def)
  have "parse_elements (Suc (length (c @ CHR 0x2C # e @ rest))) d ((c @ [CHR 0x2C] @ e) @ rest) = Some (v # vs, rest)" for rest
  proof -
    obtain m where "parse_elements m d (e @ rest) = Some (vs, rest)" using y(3) by blast
    then have "parse_elements (length (c @ CHR 0x2C # e @ rest)) d (e @ rest) = Some (vs, rest)"
      by (rule more_fuel(2)) simp
    then show ?thesis using x(4) [OF le_refl, of "e @ rest"] by (simp add: skip_space_cons json_space_def)
  qed
  moreover have "kept (x @ y) (c @ [CHR 0x2C] @ e)" using kept_append [OF x(2) y(2)] by simp
  ultimately show ?thesis
    unfolding recodes_elements_def using x(1) y(1) opens_append [OF x(3)] by (metis append_assoc)
qed

text \<open>A key with its colon.\<close>

lemma recodes_key:
  assumes "skip_space s = CHR 0x22 # t" and "unquote t = Some (k, r1)" and "skip_space r1 = CHR 0x3A # r2"
  obtains y c where "s = y @ r2" "kept y (CHR 0x22 # c @ [CHR 0x22, CHR 0x3A])" "\<And>rest. unquote (c @ CHR 0x22 # rest) = Some (k, rest)"
proof -
  obtain x c where x: "t = x @ CHR 0x22 # r1" "recoded x c k" using unquote_recoded [OF assms(2)] by blast
  obtain z where z: "r1 = z @ r2" "kept z [CHR 0x3A]" using kept_skip_char [OF assms(3)] by (auto simp: json_space_def)
  have "skip_space s = (CHR 0x22 # x @ CHR 0x22 # z) @ r2" using assms(1) x(1) z(1) by simp
  moreover have "kept (CHR 0x22 # x @ CHR 0x22 # z) (CHR 0x22 # c @ [CHR 0x22, CHR 0x3A])"
    using kept_append [OF kept_string [OF x(2)] z(2)] by simp
  ultimately obtain y where "s = y @ r2" "kept y (CHR 0x22 # c @ [CHR 0x22, CHR 0x3A])" using kept_skip by blast
  then show thesis using that x(2) by (auto simp: recoded_def)
qed

lemma recodes_members_last:
  assumes k: "skip_space s = CHR 0x22 # t" "unquote t = Some (k, r1)" "skip_space r1 = CHR 0x3A # r2"
    and v: "recodes_value d r2 v r3" "skip_space r3 = CHR 0x7D # r"
  shows "recodes_members d s [(k, v)] r"
proof -
  obtain y c where y: "s = y @ r2" "kept y (CHR 0x22 # c @ [CHR 0x22, CHR 0x3A])" "\<And>rest. unquote (c @ CHR 0x22 # rest) = Some (k, rest)"
    by (rule recodes_key [OF k]) auto
  obtain x e where x: "r2 = x @ r" "kept x (e @ [CHR 0x7D])" "opens e"
    "\<And>rest m. length (e @ CHR 0x7D # rest) \<le> m \<Longrightarrow> parse_value m d (e @ CHR 0x7D # rest) = Some (v, CHR 0x7D # rest)"
    by (rule value_then [OF v]) auto
  let ?c = "CHR 0x22 # c @ [CHR 0x22, CHR 0x3A] @ e @ [CHR 0x7D]"
  have "parse_members (Suc (length (e @ CHR 0x7D # rest))) d (?c @ rest) = Some ([(k, v)], rest)" for rest
    using x(4) [OF le_refl, of rest] y(3) by (simp add: skip_space_cons json_space_def)
  moreover have "kept (y @ x) ?c" using kept_append [OF y(2) x(2)] by simp
  moreover have "opens ?c" by (simp add: opens_def json_space_def)
  ultimately show ?thesis unfolding recodes_members_def using x(1) y(1) by (metis append_assoc)
qed

lemma recodes_members_cons:
  assumes k: "skip_space s = CHR 0x22 # t" "unquote t = Some (k, r1)" "skip_space r1 = CHR 0x3A # r2"
    and v: "recodes_value d r2 v r3" "skip_space r3 = CHR 0x2C # r4" and ms: "recodes_members d r4 ms r"
  shows "recodes_members d s ((k, v) # ms) r"
proof -
  obtain y c where y: "s = y @ r2" "kept y (CHR 0x22 # c @ [CHR 0x22, CHR 0x3A])" "\<And>rest. unquote (c @ CHR 0x22 # rest) = Some (k, rest)"
    by (rule recodes_key [OF k]) auto
  obtain x e where x: "r2 = x @ r4" "kept x (e @ [CHR 0x2C])" "opens e"
    "\<And>rest m. length (e @ CHR 0x2C # rest) \<le> m \<Longrightarrow> parse_value m d (e @ CHR 0x2C # rest) = Some (v, CHR 0x2C # rest)"
    by (rule value_then [OF v]) auto
  obtain z g where z: "r4 = z @ r" "kept z g" "\<forall>rest. \<exists>m. parse_members m d (g @ rest) = Some (ms, rest)"
    using ms by (auto simp: recodes_members_def)
  let ?c = "CHR 0x22 # c @ [CHR 0x22, CHR 0x3A] @ e @ [CHR 0x2C] @ g"
  have "parse_members (Suc (length (e @ CHR 0x2C # g @ rest))) d (?c @ rest) = Some ((k, v) # ms, rest)" for rest
  proof -
    obtain m where "parse_members m d (g @ rest) = Some (ms, rest)" using z(3) by blast
    then have "parse_members (length (e @ CHR 0x2C # g @ rest)) d (g @ rest) = Some (ms, rest)"
      by (rule more_fuel(3)) simp
    then show ?thesis using x(4) [OF le_refl, of "g @ rest"] y(3) by (simp add: skip_space_cons json_space_def)
  qed
  moreover have "kept (y @ x @ z) ?c" using kept_append [OF y(2) kept_append [OF x(2) z(2)]] by simp
  moreover have "opens ?c" by (simp add: opens_def json_space_def)
  ultimately show ?thesis unfolding recodes_members_def using x(1) y(1) z(1) by (metis append_assoc)
qed

lemma recodes_word:
  assumes "has_prefix s w" and "skip_space z = s" and "(w, v) \<in> {(''true'', JBool True), (''false'', JBool False), (''null'', JNull)}"
  shows "recodes_value d z v (drop (length w) s)"
proof (rule recodes_leaf)
  show "skip_space z = w @ drop (length w) s"
    using assms(1,2) by (simp add: has_prefix_def) (metis append_take_drop_id)
  show "kept w w" using assms(3) by (intro kept_plain) (auto simp: json_space_def)
  show "opens w" using assms(3) by (auto simp: opens_def json_space_def)
  show "parse_value (Suc 0) d (w @ rest) = Some (v, rest)" for rest
    using assms(3) by (auto simp: skip_space_cons json_space_def has_prefix_def)
qed

lemma recodes_number:
  assumes "parse_number s = Some (t, r)" and "skip_space z = s"
  shows "recodes_value d z (JNum t) r"
proof (rule recodes_leaf)
  note t = number_exact [OF assms(1)]
  show "skip_space z = t @ r" using assms(2) t by simp
  show "kept t t" using t by (intro kept_plain) (auto simp: json_space_def is_digit_def)
  show "opens t" using num_head [of t] t by (cases t) (auto simp: opens_def json_space_def is_digit_def)
  show "parse_value (Suc 0) d (t @ rest) = Some (JNum t, rest)" if "stops rest" for rest
    using parse_value_number [OF _ that, of t "Suc 0" d] t by simp
qed

lemma parse_recodes:
  "(\<forall>d s v r. parse_value n d s = Some (v, r) \<longrightarrow> recodes_value d s v r) \<and>
   (\<forall>d s vs r. parse_elements n d s = Some (vs, r) \<longrightarrow> recodes_elements d s vs r) \<and>
   (\<forall>d s ms r. parse_members n d s = Some (ms, r) \<longrightarrow> recodes_members d s ms r)"
  (is "?V n \<and> ?E n \<and> ?M n")
proof (induction n)
  case (Suc n)
  note V = Suc [THEN conjunct1, rule_format] and E = Suc [THEN conjunct2, THEN conjunct1, rule_format]
    and M = Suc [THEN conjunct2, THEN conjunct2, rule_format]
  have "?V (Suc n)"
  proof (intro allI impI)
    fix d s v r
    assume p: "parse_value (Suc n) d s = Some (v, r)"
    obtain a t where at: "skip_space s = a # t" using p by (cases "skip_space s") simp_all
    consider (str) "a = CHR 0x22" | (obj) "a = CHR 0x7B" | (arr) "a = CHR 0x5B"
      | (other) "a \<noteq> CHR 0x22" "a \<noteq> CHR 0x7B" "a \<noteq> CHR 0x5B" by blast
    then show "recodes_value d s v r"
    proof cases
      case str
      then obtain x where "unquote t = Some (x, r)" "v = JStr x" using p at by auto
      then show ?thesis using recodes_string at str by simp
    next
      case obj
      then have d: "\<not> max_nesting \<le> d" using p at by auto
      show ?thesis
      proof (cases "skip_space t \<noteq> [] \<and> hd (skip_space t) = CHR 0x7D")
        case True
        then have "skip_space t = CHR 0x7D # r" "v = JObj []" using p at obj d by (cases "skip_space t"; simp)+
        then show ?thesis using recodes_empty [OF at _ d] obj by simp
      next
        case False
        then obtain ms where "parse_members n (Suc d) t = Some (ms, r)" "v = JObj ms" using p at obj d by auto
        then show ?thesis using recodes_object [OF _ d M] at obj by simp
      qed
    next
      case arr
      then have d: "\<not> max_nesting \<le> d" using p at by auto
      show ?thesis
      proof (cases "skip_space t \<noteq> [] \<and> hd (skip_space t) = CHR 0x5D")
        case True
        then have "skip_space t = CHR 0x5D # r" "v = JArr []" using p at arr d by (cases "skip_space t"; simp)+
        then show ?thesis using recodes_empty [OF at _ d] arr by simp
      next
        case False
        then obtain vs where "parse_elements n (Suc d) t = Some (vs, r)" "v = JArr vs" using p at arr d by auto
        then show ?thesis using recodes_array [OF _ d E] at arr by simp
      qed
    next
      case other
      consider (w) w where "has_prefix (a # t) w" "r = drop (length w) (a # t)"
          "(w, v) \<in> {(''true'', JBool True), (''false'', JBool False), (''null'', JNull)}"
        | (num) x where "parse_number (a # t) = Some (x, r)" "v = JNum x"
      proof (cases "has_prefix (a # t) ''true''")
        case True
        then show thesis using w [of "''true''"] p at other by (auto simp: eval_nat_numeral)
      next
        case nt: False
        show thesis
        proof (cases "has_prefix (a # t) ''false''")
          case True
          then show thesis using w [of "''false''"] p at other nt by (auto simp: eval_nat_numeral)
        next
          case nf: False
          show thesis
          proof (cases "has_prefix (a # t) ''null''")
            case True
            then show thesis using w [of "''null''"] p at other nt nf by (auto simp: eval_nat_numeral)
          next
            case False
            then show thesis using num p at other nt nf by auto
          qed
        qed
      qed
      then show ?thesis
      proof cases
        case w
        then show ?thesis using recodes_word [OF w(1) at w(3)] by simp
      next
        case num
        then show ?thesis using recodes_number [OF num(1) at] by simp
      qed
    qed
  qed
  moreover have "?E (Suc n)"
  proof (intro allI impI)
    fix d s vs r
    assume p: "parse_elements (Suc n) d s = Some (vs, r)"
    obtain v r1 where v: "parse_value n d s = Some (v, r1)" using p by (auto split: option.splits)
    obtain c t where ct: "skip_space r1 = c # t" using p v by (cases "skip_space r1") simp_all
    show "recodes_elements d s vs r"
    proof (cases "c = CHR 0x2C")
      case True
      then obtain ws where "parse_elements n d t = Some (ws, r)" "vs = v # ws" using p v ct by auto
      then show ?thesis using recodes_elements_cons [OF V [OF v] _ E] ct True by simp
    next
      case False
      then have "c = CHR 0x5D" "vs = [v]" "r = t" using p v ct by (auto split: if_splits)
      then show ?thesis using recodes_elements_last [OF V [OF v]] ct by simp
    qed
  qed
  moreover have "?M (Suc n)"
  proof (intro allI impI)
    fix d s ms r
    assume p: "parse_members (Suc n) d s = Some (ms, r)"
    obtain t where t: "skip_space s = CHR 0x22 # t" using p by (cases "skip_space s") (simp_all split: if_splits)
    obtain k r1 where k: "unquote t = Some (k, r1)" using p t by (auto split: option.splits)
    obtain r2 where r2: "skip_space r1 = CHR 0x3A # r2" using p t k by (cases "skip_space r1") (simp_all split: if_splits)
    obtain v r3 where v: "parse_value n d r2 = Some (v, r3)" using p t k r2 by (auto split: option.splits)
    obtain c r4 where ct: "skip_space r3 = c # r4" using p t k r2 v by (cases "skip_space r3") simp_all
    show "recodes_members d s ms r"
    proof (cases "c = CHR 0x2C")
      case True
      then obtain ns where "parse_members n d r4 = Some (ns, r)" "ms = (k, v) # ns" using p t k r2 v ct by auto
      then show ?thesis using recodes_members_cons [OF t k r2 V [OF v] _ M] ct True by simp
    next
      case False
      then have "c = CHR 0x7D" "ms = [(k, v)]" "r = r4" using p t k r2 v ct by (auto split: if_splits)
      then show ?thesis using recodes_members_last [OF t k r2 V [OF v]] ct by simp
    qed
  qed
  ultimately show ?case by blast
qed simp

text \<open>
  The bytes of a value, compacted, are one line and read as the same value wherever they
  are put.
\<close>

definition one_value :: "string \<Rightarrow> json \<Rightarrow> nat \<Rightarrow> bool" where
  "one_value c v d \<longleftrightarrow> CHR 0x0A \<notin> set c \<and> opens c \<and>
     (\<forall>rest m. stops rest \<longrightarrow> length (c @ rest) \<le> m \<longrightarrow> parse_value m d (c @ rest) = Some (v, rest))"

lemma compact_value:
  assumes "parse_value n d s = Some (v, r)"
  shows "one_value (compact False (take (length s - length r) s)) v d"
proof -
  obtain x c where x: "s = x @ r" "kept x c" "opens c"
    "\<forall>rest. stops rest \<longrightarrow> (\<exists>m. parse_value m d (c @ rest) = Some (v, rest))"
    using parse_recodes [of n, THEN conjunct1, rule_format, OF assms(1)] unfolding recodes_value_def by blast
  have "compact False x = c" using x(2) unfolding kept_def by (metis append_Nil2 compact.simps(1))
  moreover have "take (length s - length r) s = x" using x(1) by simp
  ultimately show ?thesis using x(2-4) more_fuel(1) unfolding one_value_def by (metis kept_def)
qed

section \<open>Members\<close>

text \<open>What reads at one depth reads at every smaller one.\<close>

lemma shallower_all:
  "(\<forall>d e s x. parse_value n d s = Some x \<longrightarrow> e \<le> d \<longrightarrow> parse_value n e s = Some x) \<and>
   (\<forall>d e s x. parse_elements n d s = Some x \<longrightarrow> e \<le> d \<longrightarrow> parse_elements n e s = Some x) \<and>
   (\<forall>d e s x. parse_members n d s = Some x \<longrightarrow> e \<le> d \<longrightarrow> parse_members n e s = Some x)"
  (is "?V n \<and> ?E n \<and> ?M n")
proof (induction n)
  case (Suc n)
  note V = Suc [THEN conjunct1, rule_format] and E = Suc [THEN conjunct2, THEN conjunct1, rule_format]
    and M = Suc [THEN conjunct2, THEN conjunct2, rule_format]
  have "?V (Suc n)"
  proof (intro allI impI)
    fix d e s x
    assume p: "parse_value (Suc n) d s = Some x" and e: "e \<le> d"
    obtain a t where at: "skip_space s = a # t" using p by (cases "skip_space s") simp_all
    have es: "Suc e \<le> Suc d" using e by simp
    show "parse_value (Suc n) e s = Some x"
    proof (cases "a = CHR 0x7B \<or> a = CHR 0x5B")
      case True
      then have d: "\<not> max_nesting \<le> d" "\<not> max_nesting \<le> e" using p at e by auto
      show ?thesis using True p at d M [OF _ es, of t] E [OF _ es, of t]
        by (elim disjE) (auto split: if_splits)
    next
      case False
      then have "parse_value (Suc n) e s = parse_value (Suc n) d s" using at by simp
      then show ?thesis using p by simp
    qed
  qed
  moreover have "?E (Suc n)"
  proof (intro allI impI)
    fix d e s x
    assume p: "parse_elements (Suc n) d s = Some x" and e: "e \<le> d"
    obtain v r1 where v: "parse_value n d s = Some (v, r1)" using p by (auto split: option.splits)
    obtain c t where ct: "skip_space r1 = c # t" using p v by (cases "skip_space r1") simp_all
    show "parse_elements (Suc n) e s = Some x"
      using p v ct V [OF v e] E [OF _ e, of t] by (auto split: if_splits)
  qed
  moreover have "?M (Suc n)"
  proof (intro allI impI)
    fix d e s x
    assume p: "parse_members (Suc n) d s = Some x" and e: "e \<le> d"
    obtain t where t: "skip_space s = CHR 0x22 # t" using p by (cases "skip_space s") (simp_all split: if_splits)
    obtain k r1 where k: "unquote t = Some (k, r1)" using p t by (auto split: option.splits)
    obtain r2 where r2: "skip_space r1 = CHR 0x3A # r2" using p t k by (cases "skip_space r1") (simp_all split: if_splits)
    obtain v r3 where v: "parse_value n d r2 = Some (v, r3)" using p t k r2 by (auto split: option.splits)
    obtain c r4 where ct: "skip_space r3 = c # r4" using p t k r2 v by (cases "skip_space r3") simp_all
    show "parse_members (Suc n) e s = Some x"
      using p t k r2 v ct V [OF v e] M [OF _ e, of r4] by (auto split: if_splits)
  qed
  ultimately show ?case by blast
qed simp

lemma parse_skip: "parse_value n d (skip_space s) = parse_value n d s"
  by (cases n) (simp_all add: skip_space_def)

text \<open>The members with their bytes are the members of the object, each with the bytes of its value.\<close>

lemma raw_members_parse:
  "parse_members n d s = Some (ms, r) \<Longrightarrow> n \<le> m \<Longrightarrow>
   map (\<lambda>(k, raw, v). (k, v)) (raw_members m s) = ms \<and>
   (\<forall>(k, raw, v) \<in> set (raw_members m s). one_value (compact False raw) v d)"
  supply parse_value.simps [simp del]
proof (induction n arbitrary: s ms m)
  case (Suc n)
  obtain m' where m: "m = Suc m'" "n \<le> m'" using Suc.prems(2) by (cases m) auto
  note p = Suc.prems(1)
  obtain t where t: "skip_space s = CHR 0x22 # t" using p by (cases "skip_space s") (simp_all split: if_splits)
  obtain k r1 where k: "unquote t = Some (k, r1)" using p t by (auto split: option.splits)
  obtain r2 where r2: "skip_space r1 = CHR 0x3A # r2" using p t k by (cases "skip_space r1") (simp_all split: if_splits)
  obtain v r3 where v: "parse_value n d r2 = Some (v, r3)" using p t k r2 by (auto split: option.splits)
  obtain c r4 where ct: "skip_space r3 = c # r4" using p t k r2 v by (cases "skip_space r3") simp_all
  have "parse_value n 0 (skip_space r2) = Some (v, r3)"
    unfolding parse_skip using shallower_all [of n, THEN conjunct1, rule_format, OF v] by simp
  then have v0: "parse_value (Suc (length (skip_space r2))) 0 (skip_space r2) = Some (v, r3)"
    by (rule more_fuel) simp
  let ?raw = "take (length (skip_space r2) - length r3) (skip_space r2)"
  have "parse_value n d (skip_space r2) = Some (v, r3)" using v by (simp add: parse_skip)
  note one = compact_value [OF this]
  have rm: "raw_members m s = (k, ?raw, v) # (if c = CHR 0x2C then raw_members m' r4 else [])"
    using t k r2 v0 ct m(1) by (simp add: Let_def)
  show ?case
  proof (cases "c = CHR 0x2C")
    case True
    then obtain ns where ns: "parse_members n d r4 = Some (ns, r)" "ms = (k, v) # ns" using p t k r2 v ct by auto
    then show ?thesis using Suc.IH [OF ns(1) m(2)] rm one True by simp
  next
    case False
    then have "ms = [(k, v)]" using p t k r2 v ct by (auto split: if_splits)
    then show ?thesis using rm one False by simp
  qed
qed simp

lemma struct_members_parse:
  assumes "struct_members raw = Some ms"
  shows "(json_parse raw = Some JNull \<and> ms = [] \<or> json_parse raw = Some (JObj (map (\<lambda>(k, raw, v). (k, v)) ms))) \<and>
    (\<forall>(k, raw, v) \<in> set ms. one_value (compact False raw) v (Suc 0))"
proof (cases "json_parse raw")
  case (Some j)
  show ?thesis
  proof (cases j)
    case (JObj kvs)
    obtain n r where p: "parse_value (Suc n) 0 raw = Some (JObj kvs, r)" "n = length raw"
      using Some JObj by (auto simp: json_parse_def simp del: parse_value.simps split: option.splits if_splits)
    show ?thesis
    proof (cases "kvs = []")
      case True
      then show ?thesis using assms Some JObj by (simp add: struct_members_def)
    next
      case False
      have ms: "ms = raw_members (length raw) (tl (skip_space raw))" using assms Some JObj False by (simp add: struct_members_def)
      obtain t where "skip_space raw = CHR 0x7B # t" "parse_members n (Suc 0) t = Some (kvs, r)"
        using p(1) False by (cases "skip_space raw") (auto split: if_splits)
      then show ?thesis using raw_members_parse [of n "Suc 0" t kvs r "length raw"] p(2) ms Some JObj by simp
    qed
  qed (use assms Some in \<open>auto simp: struct_members_def\<close>)
qed (use assms in \<open>simp add: struct_members_def\<close>)

section \<open>Writing\<close>

lemma escape_segment_line:
  assumes "rune_ok r \<or> (length r = 1 \<and> \<not> utf8_valid r)"
  shows "CHR 0x0A \<notin> set (escape_segment r)"
  supply utf8_valid.simps(2) [simp del]
proof (cases "utf8_valid r")
  case False
  then show ?thesis using unicode_escape_line by (simp add: escape_segment_def)
next
  case True
  then obtain a h where r: "r = a # h" using assms by (cases r) (auto simp: rune_ok_def)
  show ?thesis
  proof (cases "h = []")
    case True
    have "CHR 0x0A \<notin> set (escape_ascii a)"
      using unicode_escape_line [of "byte a"] by (auto simp: escape_ascii_def short_escapes_def split: option.splits if_splits)
    then show ?thesis using r True \<open>utf8_valid r\<close> by (simp add: escape_segment_def)
  next
    case False
    have ok: "rune_length r = length r" using assms \<open>utf8_valid r\<close> by (auto simp: rune_ok_def)
    have a: "\<not> byte a < 0x80"
    proof
      assume "byte a < 0x80"
      then have "rune_length r = 1" using rune_length_append [of "[a]" h] r by simp
      then show False using ok r False by simp
    qed
    then have "list_all continuation h" using rune_tail_continued [of a h] ok r by simp
    then have "CHR 0x0A \<notin> set h" using continuation_plain by (metis list_all_iff)
    moreover have "a \<noteq> CHR 0x0A" using a by auto
    ultimately have "CHR 0x0A \<notin> set r" using r by simp
    then show ?thesis using unicode_escape_line r False by (auto simp: escape_segment_def)
  qed
qed

lemma json_quote_line: "CHR 0x0A \<notin> set (json_quote s)"
  using escape_segment_line segment_ok by (fastforce simp: json_quote_def)

lemma join_line: "CHR 0x0A \<notin> set sep \<Longrightarrow> \<forall>t \<in> set ts. CHR 0x0A \<notin> set t \<Longrightarrow> CHR 0x0A \<notin> set (join sep ts)"
  by (induction sep ts rule: join.induct) auto

lemma json_text_line: "json_ok k j \<Longrightarrow> CHR 0x0A \<notin> set (json_text j)"
proof (induction j arbitrary: k)
  case (JNum t)
  then show ?case using number_exact [of t t "[]"] by (auto simp: num_ok_def is_digit_def)
next
  case (JStr s)
  then show ?case by (simp add: json_quote_line)
next
  case (JArr vs)
  then have "\<forall>t \<in> set (map json_text vs). CHR 0x0A \<notin> set t" by auto
  then show ?case using join_line [of "'',''"] by simp
next
  case (JObj kvs)
  have "CHR 0x0A \<notin> set (json_text (snd kv))" if "kv \<in> set kvs" for kv
    using JObj.IH [of kv "snd kv" "k - 1"] JObj.prems that by (cases kv) auto
  then have "\<forall>t \<in> set (map member_text kvs). CHR 0x0A \<notin> set t" using json_quote_line by auto
  then show ?case using join_line [of "'',''" "map member_text kvs"] by simp
qed simp_all

lemma one_value_text:
  assumes "json_ok k j" and "k + d \<le> max_nesting"
  shows "one_value (json_text j) (clean j) d"
proof -
  have "opens (json_text j)" using json_text_head [OF assms(1)] unfolding opens_def by metis
  moreover have "parse_value m d (json_text j @ rest) = Some (clean j, rest)"
    if "stops rest" "length (json_text j @ rest) \<le> m" for rest m
    by (rule parse_json_text [OF assms _ that(1)]) (use that(2) in simp)
  ultimately show ?thesis using json_text_line [OF assms(1)] unfolding one_value_def by blast
qed

text \<open>An object written member by member.\<close>

definition object_text :: "(string \<times> string) list \<Rightarrow> string" where
  "object_text ms = CHR 0x7B # join '','' (map (\<lambda>m. json_quote (fst m) @ '':'' @ snd m) ms) @ [CHR 0x7D]"

lemma parse_object_members:
  assumes "\<forall>m \<in> set ms. one_value (fst (snd m)) (snd (snd m)) d" and "ms \<noteq> []"
    and "length (join '','' (map (\<lambda>m. json_quote (fst m) @ '':'' @ fst (snd m)) ms) @ CHR 0x7D # rest) < n"
  shows "parse_members n d (join '','' (map (\<lambda>m. json_quote (fst m) @ '':'' @ fst (snd m)) ms) @ CHR 0x7D # rest) =
    Some (map (\<lambda>m. (clean_text (fst m), snd (snd m))) ms, rest)"
  using assms
proof (induction ms arbitrary: n)
  case (Cons m ms)
  obtain l where n: "n = Suc l" using Cons(4) by (cases n) auto
  have k: "unquote (concat (map escape_segment (segments (fst m))) @ CHR 0x22 # r) = Some (clean_text (fst m), r)" for r
    by (simp add: unquote_quote clean_text_def)
  have one: "parse_value l d (fst (snd m) @ r) = Some (snd (snd m), r)"
    if "stops r" "length (fst (snd m) @ r) \<le> l" for r
    using Cons.prems(1) that by (simp add: one_value_def)
  show ?case
  proof (cases ms)
    case Nil
    then show ?thesis
      using one [of "CHR 0x7D # rest"] Cons.prems(3) n k
      by (simp add: json_quote_def skip_space_cons json_space_def stops_def is_digit_def)
  next
    case (Cons w ws)
    let ?t = "join '','' (map (\<lambda>m. json_quote (fst m) @ '':'' @ fst (snd m)) ms) @ CHR 0x7D # rest"
    have "parse_members l d ?t = Some (map (\<lambda>m. (clean_text (fst m), snd (snd m))) ms, rest)"
      by (rule Cons.IH) (use Cons.prems n Cons in auto)
    then show ?thesis
      using one [of "CHR 0x2C # ?t"] Cons.prems(3) n Cons k
      by (simp add: json_quote_def skip_space_cons json_space_def stops_def is_digit_def)
  qed
qed simp

lemma parse_object_text:
  assumes "\<forall>m \<in> set ms. one_value (fst (snd m)) (snd (snd m)) (Suc 0)" and "ms \<noteq> []"
  shows "json_parse (object_text (map (\<lambda>m. (fst m, fst (snd m))) ms)) = Some (JObj (map (\<lambda>m. (clean_text (fst m), snd (snd m))) ms)) \<and>
    CHR 0x0A \<notin> set (object_text (map (\<lambda>m. (fst m, fst (snd m))) ms))"
proof -
  let ?j = "join '','' (map (\<lambda>m. json_quote (fst m) @ '':'' @ fst (snd m)) ms)"
  have o: "object_text (map (\<lambda>m. (fst m, fst (snd m))) ms) = CHR 0x7B # ?j @ [CHR 0x7D]"
    by (simp add: object_text_def comp_def)
  have "\<forall>t \<in> set (map (\<lambda>m. json_quote (fst m) @ '':'' @ fst (snd m)) ms). CHR 0x0A \<notin> set t"
    using assms(1) json_quote_line by (auto simp: one_value_def)
  then have "CHR 0x0A \<notin> set ?j" by (intro join_line) simp_all
  moreover have "json_parse (CHR 0x7B # ?j @ [CHR 0x7D]) = Some (JObj (map (\<lambda>m. (clean_text (fst m), snd (snd m))) ms))"
  proof -
    have "parse_members (length (CHR 0x7B # ?j @ [CHR 0x7D])) (Suc 0) (?j @ [CHR 0x7D]) =
        Some (map (\<lambda>m. (clean_text (fst m), snd (snd m))) ms, [])"
      by (rule parse_object_members [OF assms]) simp
    moreover have "\<exists>u. ?j = CHR 0x22 # u"
      using assms(2) by (cases ms rule: remdups_adj.cases) (auto simp: json_quote_def)
    ultimately have v: "parse_value (Suc n) 0 (CHR 0x7B # ?j @ [CHR 0x7D]) =
        Some (JObj (map (\<lambda>m. (clean_text (fst m), snd (snd m))) ms), [])"
      if "n = length (CHR 0x7B # ?j @ [CHR 0x7D])" for n
      unfolding that [symmetric] by (auto simp: skip_space_cons json_space_def max_nesting_def)
    show ?thesis unfolding json_parse_def v [OF refl] by (simp add: skip_space_def)
  qed
  ultimately show ?thesis unfolding o by simp
qed

end
