(* ===== verification/Mcp_Server.thy ===== *)
theory Mcp_Server
  imports Compact Records
begin

text \<open>
  \<^verbatim>\<open>mcp/server.go\<close>: the tool registry, the dispatch of a JSON-RPC message and the two
  transports.  A handler works on the world \<open>'w\<close>; it returns a result or an error, or it
  panics.
\<close>

section \<open>Requests and responses\<close>

definition protocol_version :: string where
  "protocol_version = ''2025-06-18''"

definition supported_versions :: "string list" where
  "supported_versions = [''2024-11-05'', ''2025-03-26'', ''2025-06-18'']"

text \<open>An absent \<open>id\<close> or \<open>params\<close> is the empty text, which no JSON value is.\<close>

record rpc_request =
  rq_jsonrpc :: string
  rq_id :: string
  rq_method :: string
  rq_params :: string

record rpc_error =
  re_code :: int
  re_message :: string

text \<open>A result is the JSON value that \<open>Marshal\<close> makes of it, or the error of \<open>Marshal\<close>.\<close>

record rpc_response =
  rs_id :: string
  rs_result :: "(gerr + json) option"
  rs_error :: "rpc_error option"

definition code_parse_error :: int where "code_parse_error = -32700"
definition code_invalid_request :: int where "code_invalid_request = -32600"
definition code_method_not_found :: int where "code_method_not_found = -32601"
definition code_invalid_params :: int where "code_invalid_params = -32602"
definition code_internal_error :: int where "code_internal_error = -32603"

lemmas rpc_codes = code_parse_error_def code_invalid_request_def code_method_not_found_def
  code_invalid_params_def code_internal_error_def

definition decode_request :: "string \<Rightarrow> rpc_request option" where
  "decode_request raw =
     (case struct_members raw of
        None \<Rightarrow> None
      | Some ms \<Rightarrow>
          (case (str_field ''jsonrpc'' ms, raw_field ''id'' ms, str_field ''method'' ms, raw_field ''params'' ms) of
             (Some v, Some i, Some m, Some p) \<Rightarrow>
               Some \<lparr>rq_jsonrpc = v, rq_id = i, rq_method = m, rq_params = p\<rparr>
           | _ \<Rightarrow> None))"

text \<open>A Go map is written with its keys sorted.\<close>

definition json_map :: "(string \<times> json) list \<Rightarrow> json" where
  "json_map kvs = JObj (sort_key fst kvs)"

definition error_json :: "rpc_error \<Rightarrow> json" where
  "error_json e = JObj [(''code'', JNum (int_text (re_code e))), (''message'', JStr (re_message e))]"

text \<open>\<open>json.Marshal\<close> of the response struct, with its \<open>omitempty\<close> fields.\<close>

definition marshal_response :: "rpc_response \<Rightarrow> gerr + string" where
  "marshal_response r =
     (let head = (''jsonrpc'', json_quote ''2.0'') #
        (if rs_id r = [] then [] else [(''id'', compact False (rs_id r))]);
        err = (case rs_error r of None \<Rightarrow> [] | Some e \<Rightarrow> [(''error'', json_text (error_json e))])
      in case rs_result r of
           None \<Rightarrow> Inr (object_text (head @ err))
         | Some (Inl e) \<Rightarrow> Inl e
         | Some (Inr v) \<Rightarrow> Inr (object_text (head @ [(''result'', json_text v)] @ err)))"

definition encode_error :: "string \<Rightarrow> int \<Rightarrow> string \<Rightarrow> string" where
  "encode_error i code text =
     (case marshal_response \<lparr>rs_id = i, rs_result = None, rs_error = Some \<lparr>re_code = code, re_message = text\<rparr>\<rparr> of
        Inl e \<Rightarrow> [] | Inr b \<Rightarrow> b)"

definition encode :: "rpc_response \<Rightarrow> string" where
  "encode resp =
     (case marshal_response resp of
        Inl e \<Rightarrow> encode_error (rs_id resp) code_internal_error ''failed to encode response''
      | Inr b \<Rightarrow> b)"

section \<open>Tools\<close>

record content_block =
  cb_type :: string
  cb_text :: string

record tool_result =
  tr_content :: "content_block list"
  tr_is_error :: bool
  tr_structured :: "(gerr + json) option"

datatype outcome = Returned "gerr + tool_result" | Panicked string

record 'w tool =
  tl_name :: string
  tl_description :: string
  tl_schema :: json
  tl_annotations :: "(string \<times> json) list"
  tl_handler :: "'w ctx \<Rightarrow> string \<Rightarrow> 'w \<Rightarrow> outcome \<times> 'w"

record 'w server =
  sv_name :: string
  sv_version :: string
  sv_tools :: "'w tool list"
  sv_by_name :: "string \<rightharpoonup> 'w tool"

definition new_server :: "string \<Rightarrow> string \<Rightarrow> 'w server" where
  "new_server name version = \<lparr>sv_name = name, sv_version = version, sv_tools = [], sv_by_name = Map.empty\<rparr>"

definition add_tool :: "'w server \<Rightarrow> 'w tool \<Rightarrow> 'w server" where
  "add_tool s t =
     (let s1 = (if sv_by_name s (tl_name t) = None then s\<lparr>sv_tools := sv_tools s @ [t]\<rparr> else s)
      in s1\<lparr>sv_by_name := (sv_by_name s1)(tl_name t \<mapsto> t)\<rparr>)"

definition block_json :: "content_block \<Rightarrow> json" where
  "block_json b =
     JObj ((''type'', JStr (cb_type b)) # (if cb_text b = [] then [] else [(''text'', JStr (cb_text b))]))"

definition tool_result_json :: "tool_result \<Rightarrow> gerr + json" where
  "tool_result_json r =
     (let head = [(''content'', JArr (map block_json (tr_content r)))] @
        (if tr_is_error r then [(''isError'', JBool True)] else [])
      in case tr_structured r of
           None \<Rightarrow> Inr (JObj head)
         | Some (Inl e) \<Rightarrow> Inl e
         | Some (Inr v) \<Rightarrow> Inr (JObj (head @ [(''structuredContent'', v)])))"

definition error_result :: "gerr \<Rightarrow> tool_result" where
  "error_result e =
     \<lparr>tr_content = [\<lparr>cb_type = ''text'', cb_text = err_text e\<rparr>], tr_is_error = True, tr_structured = None\<rparr>"

section \<open>Dispatch\<close>

definition run_tool :: "'w ctx \<Rightarrow> 'w tool \<Rightarrow> string \<Rightarrow> 'w \<Rightarrow> (gerr + tool_result) \<times> 'w" where
  "run_tool ctx t args w =
     (case tl_handler t ctx args w of
        (Returned r, w') \<Rightarrow> (r, w')
      | (Panicked v, w') \<Rightarrow> (Inl (ENew (''tool '' @ tl_name t @ '' panicked: '' @ v)), w'))"

definition initialize :: "'w server \<Rightarrow> string \<Rightarrow> json" where
  "initialize s params =
     (let requested = (if params = [] then None
                       else Option.bind (struct_members params) (str_field ''protocolVersion''));
          negotiated = (case requested of
              Some v \<Rightarrow> if v \<in> set supported_versions then v else protocol_version
            | None \<Rightarrow> protocol_version)
      in json_map [(''protocolVersion'', JStr negotiated),
           (''capabilities'', json_map [(''tools'', json_map [])]),
           (''serverInfo'', json_map [(''name'', JStr (sv_name s)), (''version'', JStr (sv_version s))])])"

definition tool_json :: "'w tool \<Rightarrow> json" where
  "tool_json t =
     json_map ([(''name'', JStr (tl_name t)), (''description'', JStr (tl_description t)),
        (''inputSchema'', tl_schema t)] @
        (if tl_annotations t = [] then [] else [(''annotations'', json_map (tl_annotations t))]))"

definition tools_list :: "'w server \<Rightarrow> json" where
  "tools_list s = json_map [(''tools'', JArr (map tool_json (sv_tools s)))]"

definition tools_call ::
    "'w server \<Rightarrow> 'w ctx \<Rightarrow> string \<Rightarrow> 'w \<Rightarrow> (rpc_error + (gerr + json)) \<times> 'w" where
  "tools_call s ctx params w =
     (case Option.bind (struct_members params)
         (\<lambda>ms. case (str_field ''name'' ms, raw_field ''arguments'' ms) of
            (Some n, Some a) \<Rightarrow> Some (n, a) | _ \<Rightarrow> None) of
        None \<Rightarrow> (Inl \<lparr>re_code = code_invalid_params, re_message = ''invalid tools/call params''\<rparr>, w)
      | Some (name, args) \<Rightarrow>
          (case sv_by_name s name of
             None \<Rightarrow> (Inl \<lparr>re_code = code_invalid_params, re_message = ''unknown tool: '' @ name\<rparr>, w)
           | Some t \<Rightarrow>
               (case run_tool ctx t args w of
                  (Inl e, w') \<Rightarrow> (Inr (tool_result_json (error_result e)), w')
                | (Inr r, w') \<Rightarrow> (Inr (tool_result_json r), w'))))"

definition route ::
    "'w server \<Rightarrow> 'w ctx \<Rightarrow> string \<Rightarrow> string \<Rightarrow> 'w \<Rightarrow> (rpc_error + (gerr + json)) \<times> 'w" where
  "route s ctx meth params w =
     (if meth = ''initialize'' then (Inr (Inr (initialize s params)), w)
      else if meth = ''ping'' then (Inr (Inr (json_map [])), w)
      else if meth = ''tools/list'' then (Inr (Inr (tools_list s)), w)
      else if meth = ''tools/call'' then tools_call s ctx params w
      else (Inl \<lparr>re_code = code_method_not_found, re_message = ''method not found: '' @ meth\<rparr>, w))"

text \<open>\<^const>\<open>None\<close> is a notification: no response is owed.\<close>

definition handle :: "'w server \<Rightarrow> 'w ctx \<Rightarrow> string \<Rightarrow> 'w \<Rightarrow> string option \<times> 'w" where
  "handle s ctx raw w =
     (case decode_request raw of
        None \<Rightarrow> (Some (encode_error [] code_parse_error ''parse error''), w)
      | Some req \<Rightarrow>
          (if rq_jsonrpc req \<noteq> ''2.0'' \<or> rq_method req = []
           then (if rq_id req = [] then (None, w)
                 else (Some (encode_error (rq_id req) code_invalid_request ''invalid request''), w))
           else if rq_id req = [] then (None, w)
           else (case route s ctx (rq_method req) (rq_params req) w of
                   (Inl e, w') \<Rightarrow>
                     (Some (encode \<lparr>rs_id = rq_id req, rs_result = None, rs_error = Some e\<rparr>), w')
                 | (Inr r, w') \<Rightarrow>
                     (Some (encode \<lparr>rs_id = rq_id req, rs_result = Some r, rs_error = None\<rparr>), w'))))"

section \<open>Standard input and output\<close>

definition trim_newline :: "string \<Rightarrow> string" where
  "trim_newline b = rev (dropWhile (\<lambda>c. c = CHR 0x0A \<or> c = CHR 0x0D) (rev b))"

text \<open>The lines that the reader goroutine sends: empty ones are dropped.\<close>

definition stdin_lines :: "string \<Rightarrow> string list" where
  "stdin_lines s = filter (\<lambda>l. l \<noteq> []) (map trim_newline (split_lines s))"

text \<open>
  The state of \<open>ServeStdio\<close>: the lines not yet received, the read error behind them
  (\<^const>\<open>None\<close> at the end of the file), the flushes to standard output with what each
  returned, the world, and the result once the loop has returned.
\<close>

record 'w stdio =
  io_lines :: "string list"
  io_read_error :: "gerr option"
  io_log :: "(string \<times> gerr option) list"
  io_world :: 'w
  io_result :: "gerr option option"

definition stdio_start :: "string \<Rightarrow> gerr option \<Rightarrow> 'w \<Rightarrow> 'w stdio" where
  "stdio_start input rderr w =
     \<lparr>io_lines = stdin_lines input, io_read_error = rderr, io_log = [], io_world = w, io_result = None\<rparr>"

definition stdio_serve ::
    "'w server \<Rightarrow> 'w ctx \<Rightarrow> (string \<Rightarrow> 'w \<Rightarrow> gerr option \<times> 'w) \<Rightarrow> 'w stdio \<Rightarrow> 'w stdio" where
  "stdio_serve s ctx put st =
     (case handle s ctx (hd (io_lines st)) (io_world st) of
        (None, w) \<Rightarrow> st\<lparr>io_lines := tl (io_lines st), io_world := w\<rparr>
      | (Some resp, w) \<Rightarrow>
          (case put (resp @ newline) w of
             (e, w') \<Rightarrow>
               st\<lparr>io_lines := tl (io_lines st), io_log := io_log st @ [(resp @ newline, e)], io_world := w',
                  io_result := map_option Some e\<rparr>))"

text \<open>
  One turn of the loop: any ready case of the \<open>select\<close> may be taken.  Behind a read error
  the closed channel is ready as well as the error.
\<close>

inductive stdio_step ::
    "'w server \<Rightarrow> 'w ctx \<Rightarrow> (string \<Rightarrow> 'w \<Rightarrow> gerr option \<times> 'w) \<Rightarrow> 'w stdio \<Rightarrow> 'w stdio \<Rightarrow> bool"
  for s ctx put where
  cancelled: "io_result st = None \<Longrightarrow> ctx (io_world st) \<noteq> None \<Longrightarrow>
    stdio_step s ctx put st (st\<lparr>io_result := Some None\<rparr>)"
| served: "io_result st = None \<Longrightarrow> io_lines st \<noteq> [] \<Longrightarrow>
    stdio_step s ctx put st (stdio_serve s ctx put st)"
| closed: "io_result st = None \<Longrightarrow> io_lines st = [] \<Longrightarrow>
    stdio_step s ctx put st (st\<lparr>io_result := Some None\<rparr>)"
| failed: "io_result st = None \<Longrightarrow> io_lines st = [] \<Longrightarrow> io_read_error st = Some e \<Longrightarrow>
    stdio_step s ctx put st (st\<lparr>io_result := Some (Some e)\<rparr>)"

section \<open>HTTP\<close>

record http_reply =
  hp_status :: int
  hp_type :: string
  hp_body :: string

definition http_error :: "string \<Rightarrow> int \<Rightarrow> http_reply" where
  "http_error text status =
     \<lparr>hp_status = status, hp_type = ''text/plain; charset=utf-8'', hp_body = text @ newline\<rparr>"

definition body_limit :: nat where
  "body_limit = 32 * 1024 * 1024"

text \<open>\<open>io.ReadAll\<close> of the limited body: what lies behind the limit is not read.\<close>

definition read_body :: "input \<Rightarrow> gerr + string" where
  "read_body body =
     (if length (in_data body) < body_limit
      then (case in_err body of Some e \<Rightarrow> Inl e | None \<Rightarrow> Inr (in_data body))
      else Inr (take body_limit (in_data body)))"

definition serve_http_message :: "'w server \<Rightarrow> 'w ctx \<Rightarrow> input \<Rightarrow> 'w \<Rightarrow> http_reply \<times> 'w" where
  "serve_http_message s ctx body w =
     (case read_body body of
        Inl e \<Rightarrow> (http_error ''failed to read request body'' 400, w)
      | Inr text \<Rightarrow>
          (case handle s ctx text w of
             (None, w') \<Rightarrow> (\<lparr>hp_status = 202, hp_type = [], hp_body = []\<rparr>, w')
           | (Some resp, w') \<Rightarrow> (\<lparr>hp_status = 200, hp_type = ''application/json'', hp_body = resp\<rparr>, w')))"

text \<open>The endpoint and the probe, as the mux calls them.\<close>

definition serve_endpoint :: "'w server \<Rightarrow> 'w ctx \<Rightarrow> string \<Rightarrow> input \<Rightarrow> 'w \<Rightarrow> http_reply \<times> 'w" where
  "serve_endpoint s ctx meth body w =
     (if meth = ''POST'' then serve_http_message s ctx body w
      else if meth = ''GET'' then (http_error ''streaming not supported'' 405, w)
      else (http_error ''method not allowed'' 405, w))"

definition serve_healthz :: "'w \<Rightarrow> http_reply \<times> 'w" where
  "serve_healthz w = (\<lparr>hp_status = 200, hp_type = ''text/plain; charset=utf-8'', hp_body = ''ok''\<rparr>, w)"

section \<open>What a client reads\<close>

text \<open>
  The identifier that a message carries: its last \<open>id\<close> member, none if it has none.
\<close>

definition request_ids :: "string \<Rightarrow> json list" where
  "request_ids raw =
     (case json_parse raw of
        Some (JObj kvs) \<Rightarrow>
          (let vs = map snd (filter (\<lambda>kv. fold_name (fst kv) = ''id'') kvs)
           in if vs = [] then [] else [last vs])
      | _ \<Rightarrow> [])"

text \<open>
  The results of tools, their schemas and annotations nest less deeply than the decoder of
  a client allows, and their numbers are numbers.
\<close>

definition tool_ok :: "'w tool \<Rightarrow> bool" where
  "tool_ok t \<longleftrightarrow> json_ok 9000 (tl_schema t) \<and> (\<forall>kv \<in> set (tl_annotations t). json_ok 9000 (snd kv)) \<and>
     (\<forall>ctx args w r w' v. tl_handler t ctx args w = (Returned (Inr r), w') \<longrightarrow> tr_structured r = Some (Inr v) \<longrightarrow> json_ok 9000 v)"

definition server_ok :: "'w server \<Rightarrow> bool" where
  "server_ok s \<longleftrightarrow> (\<forall>t \<in> set (sv_tools s). tool_ok t) \<and> (\<forall>n t. sv_by_name s n = Some t \<longrightarrow> tool_ok t)"

lemma store_raw: "store_values raw_value vs old = Some (if vs = [] then old else fst (last vs))"
  by (induction vs arbitrary: old) (auto simp: raw_value_def)

lemma fold_id: "fold_name ''id'' = ''id''"
  by (simp add: fold_name_def fold_rune_def runes_def rune_length_def rune_text_def to_lower_def to_lower_char_def)

text \<open>The bytes kept for the \<open>id\<close> of a request are those of its identifier.\<close>

lemma decode_id:
  assumes "decode_request raw = Some req"
  shows "(rq_id req = [] \<and> request_ids raw = []) \<or>
    (\<exists>v. request_ids raw = [v] \<and> rq_id req \<noteq> [] \<and> one_value (compact False (rq_id req)) v (Suc 0))"
proof -
  obtain ms where ms: "struct_members raw = Some ms" "raw_field ''id'' ms = Some (rq_id req)"
    using assms by (auto simp: decode_request_def split: option.splits)
  let ?ids = "filter (\<lambda>m. fold_name (fst m) = ''id'') ms"
  have id: "rq_id req = (if ?ids = [] then [] else fst (snd (last ?ids)))"
    using ms(2) by (auto simp: raw_field_def get_field_def store_raw fold_id last_map)
  note p = struct_members_parse [OF ms(1)]
  have ri: "request_ids raw = (if ?ids = [] then [] else [snd (snd (last ?ids))])"
  proof (cases "json_parse raw = Some JNull")
    case True
    then show ?thesis using p by (auto simp: request_ids_def)
  next
    case False
    then have j: "json_parse raw = Some (JObj (map (\<lambda>(k, raw, v). (k, v)) ms))" using p by blast
    have "map snd (filter (\<lambda>kv. fold_name (fst kv) = ''id'') (map (\<lambda>(k, raw, v). (k, v)) ms)) = map (snd \<circ> snd) ?ids"
      by (induction ms) auto
    then show ?thesis using j by (simp add: request_ids_def Let_def last_map)
  qed
  show ?thesis
  proof (cases "?ids = []")
    case False
    then have "last ?ids \<in> set ms" using last_in_set by fastforce
    then have one: "one_value (compact False (fst (snd (last ?ids)))) (snd (snd (last ?ids))) (Suc 0)"
      using p by fastforce
    then have "fst (snd (last ?ids)) \<noteq> []" by (auto simp: one_value_def opens_def)
    then show ?thesis using id ri False one by simp
  qed (use id ri in simp)
qed

lemma names_clean:
  "clean_text ''jsonrpc'' = ''jsonrpc''" "clean_text ''id'' = ''id''" "clean_text ''result'' = ''result''"
  "clean_text ''error'' = ''error''" "clean_text ''2.0'' = ''2.0''"
  by (simp_all add: clean_text_valid)

lemma error_json_ok: "json_ok 2 (error_json e)"
  by (simp add: error_json_def num_ok_int)

lemma marshal_reads:
  assumes "rs_id r = [] \<and> ids = [] \<or> (\<exists>v. ids = [v] \<and> rs_id r \<noteq> [] \<and> one_value (compact False (rs_id r)) v (Suc 0))"
    and "rs_result r = None \<and> rs_error r = Some e \<and> k = ''error'' \<and> j = error_json e \<or>
      rs_result r = Some (Inr j) \<and> rs_error r = None \<and> k = ''result'' \<and> json_ok 9998 j"
  shows "\<exists>b. marshal_response r = Inr b \<and> CHR 0x0A \<notin> set b \<and>
    json_parse b = Some (JObj ((''jsonrpc'', JStr ''2.0'') # map (Pair ''id'') ids @ [(k, clean j)]))"
proof -
  let ?ms = "(''jsonrpc'', json_quote ''2.0'', JStr ''2.0'') # map (\<lambda>v. (''id'', compact False (rs_id r), v)) ids @ [(k, json_text j, clean j)]"
  have v: "one_value (json_quote ''2.0'') (JStr ''2.0'') (Suc 0)"
    using one_value_text [of 0 "JStr ''2.0''" "Suc 0"] by (simp add: max_nesting_def names_clean)
  have "json_ok 9998 j" using assms(2) json_ok_mono [OF error_json_ok, of 9998] by auto
  then have "one_value (json_text j) (clean j) (Suc 0)" by (rule one_value_text) (simp add: max_nesting_def)
  then have one: "\<forall>m \<in> set ?ms. one_value (fst (snd m)) (snd (snd m)) (Suc 0)" using v assms(1) by auto
  have "marshal_response r = Inr (object_text (map (\<lambda>m. (fst m, fst (snd m))) ?ms))"
    using assms by (auto simp: marshal_response_def Let_def)
  moreover have "map (\<lambda>m. (clean_text (fst m), snd (snd m))) ?ms = (''jsonrpc'', JStr ''2.0'') # map (Pair ''id'') ids @ [(k, clean j)]"
    using assms(2) by (auto simp: names_clean)
  ultimately show ?thesis using parse_object_text [OF one] by simp
qed

lemma json_map_ok: "\<forall>kv \<in> set kvs. json_ok k (snd kv) \<Longrightarrow> json_ok (Suc k) (json_map kvs)"
  by (simp add: json_map_def)

lemma initialize_ok: "json_ok 3 (initialize s params)"
proof -
  have "json_ok 2 (json_map [(''tools'', json_map [])])" "json_ok 2 (json_map [(''name'', JStr a), (''version'', JStr b)])" for a b
    using json_ok_mono [of 1 _ 2] by (simp_all add: json_map_def)
  then show ?thesis
    using json_map_ok [of _ 2] by (simp add: initialize_def Let_def eval_nat_numeral)
qed

lemma tools_list_ok:
  assumes "server_ok s"
  shows "json_ok 9998 (tools_list s)"
proof -
  have "json_ok 9002 (tool_json t)" if "t \<in> set (sv_tools s)" for t
  proof -
    have t: "json_ok 9000 (tl_schema t)" "\<forall>kv \<in> set (tl_annotations t). json_ok 9000 (snd kv)"
      using assms that by (auto simp: server_ok_def tool_ok_def)
    have "json_ok 9001 (json_map (tl_annotations t))" using json_map_ok [OF t(2)] by simp
    then show ?thesis
      using json_map_ok [of "[(''name'', JStr (tl_name t)), (''description'', JStr (tl_description t)), (''inputSchema'', tl_schema t)] @
        (if tl_annotations t = [] then [] else [(''annotations'', json_map (tl_annotations t))])" 9001]
        json_ok_mono [OF t(1), of 9001] by (auto simp: tool_json_def)
  qed
  then have "json_ok 9003 (JArr (map tool_json (sv_tools s)))" by simp
  then have "json_ok 9004 (tools_list s)" using json_map_ok [of _ 9003] by (simp add: tools_list_def)
  then show ?thesis by (rule json_ok_mono) simp
qed

lemma tool_result_ok:
  assumes "tool_result_json r = Inr v" and "\<forall>x. tr_structured r = Some (Inr x) \<longrightarrow> json_ok 9000 x"
  shows "json_ok 9998 v"
  using assms json_ok_mono [of 9000 _ 9997]
  by (auto simp: tool_result_json_def Let_def block_json_def split: option.splits sum.splits if_splits)

lemma route_ok:
  assumes "server_ok s" and "route s ctx meth params w = (Inr (Inr v), w')"
  shows "json_ok 9998 v"
proof -
  have call: "json_ok 9998 v" if c: "tools_call s ctx params w = (Inr (Inr v), w')"
  proof -
    obtain n a where na: "Option.bind (struct_members params) (\<lambda>ms. case (str_field ''name'' ms, raw_field ''arguments'' ms) of
        (Some n, Some a) \<Rightarrow> Some (n, a) | _ \<Rightarrow> None) = Some (n, a)"
      using c by (auto simp: tools_call_def split: option.splits)
    obtain t where t: "sv_by_name s n = Some t" using c na by (auto simp: tools_call_def split: option.splits)
    obtain res w1 where res: "run_tool ctx t a w = (res, w1)" by fastforce
    show ?thesis
    proof (cases res)
      case (Inl e)
      then have "tool_result_json (error_result e) = Inr v" using c na t res by (simp add: tools_call_def)
      then show ?thesis by (rule tool_result_ok) (simp add: error_result_def)
    next
      case (Inr r)
      then have v: "tool_result_json r = Inr v" using c na t res by (simp add: tools_call_def)
      have "tl_handler t ctx a w = (Returned (Inr r), w1)"
        using res Inr by (auto simp: run_tool_def split: prod.splits outcome.splits)
      moreover have "tool_ok t" using assms(1) t by (auto simp: server_ok_def)
      ultimately have "\<forall>x. tr_structured r = Some (Inr x) \<longrightarrow> json_ok 9000 x" unfolding tool_ok_def by blast
      then show ?thesis by (rule tool_result_ok [OF v])
    qed
  qed
  show ?thesis
    using assms(2) call json_ok_mono [OF initialize_ok, of 9998] tools_list_ok [OF assms(1)]
    by (auto simp: route_def json_map_def split: if_splits)
qed

lemma encode_reads:
  assumes "rs_id r = [] \<and> ids = [] \<or> (\<exists>v. ids = [v] \<and> rs_id r \<noteq> [] \<and> one_value (compact False (rs_id r)) v (Suc 0))"
    and "rs_result r = None \<and> rs_error r \<noteq> None \<or> rs_error r = None \<and> (\<exists>x. rs_result r = Some x \<and> (\<forall>v. x = Inr v \<longrightarrow> json_ok 9998 v))"
  shows "CHR 0x0A \<notin> set (encode r) \<and> (\<exists>k j. k \<in> {''result'', ''error''} \<and>
    json_parse (encode r) = Some (JObj ((''jsonrpc'', JStr ''2.0'') # map (Pair ''id'') ids @ [(k, j)])))"
proof -
  have err: "CHR 0x0A \<notin> set (encode_error (rs_id r) c t) \<and> (\<exists>k j. k \<in> {''result'', ''error''} \<and>
    json_parse (encode_error (rs_id r) c t) = Some (JObj ((''jsonrpc'', JStr ''2.0'') # map (Pair ''id'') ids @ [(k, j)])))" for c t
    using marshal_reads [of "\<lparr>rs_id = rs_id r, rs_result = None, rs_error = Some \<lparr>re_code = c, re_message = t\<rparr>\<rparr>" ids] assms(1)
    by (fastforce simp: encode_error_def)
  show ?thesis
    using assms(2)
  proof
    assume "rs_result r = None \<and> rs_error r \<noteq> None"
    then obtain e where "rs_result r = None" "rs_error r = Some e" by auto
    then show ?thesis using marshal_reads [OF assms(1), of e "''error''" "error_json e"] by (auto simp: encode_def)
  next
    assume "rs_error r = None \<and> (\<exists>x. rs_result r = Some x \<and> (\<forall>v. x = Inr v \<longrightarrow> json_ok 9998 v))"
    then obtain x where x: "rs_error r = None" "rs_result r = Some x" "\<forall>v. x = Inr v \<longrightarrow> json_ok 9998 v" by blast
    show ?thesis
    proof (cases x)
      case (Inl e)
      then have "encode r = encode_error (rs_id r) code_internal_error ''failed to encode response''"
        using x by (simp add: encode_def marshal_response_def)
      then show ?thesis using err by simp
    next
      case (Inr v)
      then show ?thesis using marshal_reads [OF assms(1), of _ "''result''" v] x by (auto simp: encode_def)
    qed
  qed
qed

lemma handle_reads:
  assumes "server_ok s"
  shows "case handle s ctx raw w of
      (None, w') \<Rightarrow> decode_request raw \<noteq> None \<and> request_ids raw = [] \<and> w' = w
    | (Some resp, w') \<Rightarrow>
        (decode_request raw = None \<or> request_ids raw \<noteq> []) \<and> CHR 0x0A \<notin> set resp \<and>
        (\<exists>k j. k \<in> {''result'', ''error''} \<and> json_parse resp = Some (JObj ((''jsonrpc'', JStr ''2.0'') #
           map (Pair ''id'') (if decode_request raw = None then [] else request_ids raw) @ [(k, j)])))"
proof (cases "decode_request raw")
  case None
  then show ?thesis
    using encode_reads [of "\<lparr>rs_id = [], rs_result = None, rs_error = Some \<lparr>re_code = code_parse_error, re_message = ''parse error''\<rparr>\<rparr>" "[]"]
    by (simp add: handle_def encode_def encode_error_def marshal_response_def)
next
  case (Some req)
  note id = decode_id [OF Some]
  show ?thesis
  proof (cases "rq_id req = []")
    case True
    then show ?thesis using Some id by (simp add: handle_def)
  next
    case False
    show ?thesis
    proof (cases "rq_jsonrpc req \<noteq> ''2.0'' \<or> rq_method req = []")
      case True
      then have "handle s ctx raw w = (Some (encode \<lparr>rs_id = rq_id req, rs_result = None,
          rs_error = Some \<lparr>re_code = code_invalid_request, re_message = ''invalid request''\<rparr>\<rparr>), w)"
        using Some False by (auto simp: handle_def encode_def encode_error_def marshal_response_def)
      then show ?thesis
        using encode_reads [of "\<lparr>rs_id = rq_id req, rs_result = None,
          rs_error = Some \<lparr>re_code = code_invalid_request, re_message = ''invalid request''\<rparr>\<rparr>" "request_ids raw"] id False Some by auto
    next
      case ok: False
      obtain x w' where x: "route s ctx (rq_method req) (rq_params req) w = (x, w')" by fastforce
      let ?r = "case x of Inl e \<Rightarrow> \<lparr>rs_id = rq_id req, rs_result = None, rs_error = Some e\<rparr>
        | Inr v \<Rightarrow> \<lparr>rs_id = rq_id req, rs_result = Some v, rs_error = None\<rparr>"
      have h: "handle s ctx raw w = (Some (encode ?r), w')" using Some False ok x by (cases x) (auto simp: handle_def)
      have "rs_id ?r = rq_id req" by (cases x) simp_all
      moreover have "rs_result ?r = None \<and> rs_error ?r \<noteq> None \<or>
          rs_error ?r = None \<and> (\<exists>y. rs_result ?r = Some y \<and> (\<forall>v. y = Inr v \<longrightarrow> json_ok 9998 v))"
        using route_ok [OF assms] x by (cases x) auto
      ultimately show ?thesis using encode_reads [of ?r "request_ids raw"] id False Some h by auto
    qed
  qed
qed

section \<open>The loop of the transport\<close>

text \<open>The reference: the lines one after the other, up to a failed write.\<close>

fun replies ::
    "'w server \<Rightarrow> 'w ctx \<Rightarrow> (string \<Rightarrow> 'w \<Rightarrow> gerr option \<times> 'w) \<Rightarrow> string list \<Rightarrow> 'w \<Rightarrow>
     (string \<times> gerr option) list \<times> 'w" where
  "replies s ctx put [] w = ([], w)"
| "replies s ctx put (l # ls) w =
     (case handle s ctx l w of
        (None, w1) \<Rightarrow> replies s ctx put ls w1
      | (Some resp, w1) \<Rightarrow>
          (case put (resp @ newline) w1 of
             (None, w2) \<Rightarrow> (case replies s ctx put ls w2 of (outs, w3) \<Rightarrow> ((resp @ newline, None) # outs, w3))
           | (Some e, w2) \<Rightarrow> ([(resp @ newline, Some e)], w2)))"

definition written :: "(string \<times> gerr option) list \<Rightarrow> bool" where
  "written outs \<longleftrightarrow> (\<forall>x \<in> set outs. snd x = None)"

lemma replies_snoc:
  assumes "replies s ctx put ls w = (outs, w1)" and "written outs"
  shows "replies s ctx put (ls @ [l]) w =
    (case handle s ctx l w1 of
       (None, w2) \<Rightarrow> (outs, w2)
     | (Some resp, w2) \<Rightarrow> (case put (resp @ newline) w2 of (e, w3) \<Rightarrow> (outs @ [(resp @ newline, e)], w3)))"
  using assms
proof (induction ls arbitrary: w outs)
  case Nil
  then show ?case by (auto split: prod.split option.split)
next
  case (Cons a ls)
  obtain r w2 where r: "handle s ctx a w = (r, w2)" by fastforce
  show ?case
  proof (cases r)
    case None
    then show ?thesis using Cons r by simp
  next
    case (Some resp)
    obtain e w3 where e: "put (resp @ newline) w2 = (e, w3)" by fastforce
    obtain outs' w4 where l: "replies s ctx put ls w3 = (outs', w4)" by fastforce
    show ?thesis
    proof (cases e)
      case None
      have outs: "outs = (resp @ newline, None) # outs'" "w4 = w1" using Cons.prems(1) r Some e l None by auto
      then have "written outs'" using Cons.prems(2) by (simp add: written_def)
      then show ?thesis using Cons.IH [OF l [unfolded outs(2)]] r Some e None outs by (auto split: prod.split option.split)
    next
      case (Some x)
      then show ?thesis using Cons.prems r \<open>r = Some resp\<close> e by (auto simp: written_def)
    qed
  qed
qed

text \<open>
  The invariant of the loop: it has served a prefix of the lines as the reference does; while
  it runs every write has succeeded.
\<close>

definition stdio_inv ::
    "'w server \<Rightarrow> 'w ctx \<Rightarrow> (string \<Rightarrow> 'w \<Rightarrow> gerr option \<times> 'w) \<Rightarrow> string list \<Rightarrow> gerr option \<Rightarrow> 'w \<Rightarrow> 'w stdio \<Rightarrow> bool" where
  "stdio_inv s ctx put ls rderr w st \<longleftrightarrow>
     io_read_error st = rderr \<and>
     (\<exists>k \<le> length ls. io_lines st = drop k ls \<and> replies s ctx put (take k ls) w = (io_log st, io_world st)) \<and>
     (case io_result st of
        None \<Rightarrow> written (io_log st)
      | Some None \<Rightarrow> written (io_log st) \<and> (io_lines st = [] \<or> ctx (io_world st) \<noteq> None)
      | Some (Some e) \<Rightarrow>
          (written (io_log st) \<and> io_lines st = [] \<and> rderr = Some e) \<or>
          (\<exists>outs t. io_log st = outs @ [(t, Some e)] \<and> written outs))"

lemma stdio_inv_step:
  assumes "stdio_step s ctx put st st'" and inv: "stdio_inv s ctx put ls rderr w st"
  shows "stdio_inv s ctx put ls rderr w st'"
  using assms(1)
proof cases
  case served
  obtain k where k: "k \<le> length ls" "io_lines st = drop k ls" "replies s ctx put (take k ls) w = (io_log st, io_world st)"
    using inv by (auto simp: stdio_inv_def)
  have w: "written (io_log st)" "io_read_error st = rderr" using inv served by (auto simp: stdio_inv_def)
  have lt: "k < length ls" using served k by (cases "k < length ls") auto
  then have hd: "hd (io_lines st) = ls ! k" "tl (io_lines st) = drop (Suc k) ls" "take (Suc k) ls = take k ls @ [ls ! k]"
    using k(2) by (simp_all add: hd_drop_conv_nth drop_Suc tl_drop take_Suc_conv_app_nth)
  note r = replies_snoc [OF k(3) w(1), of "ls ! k", folded hd(3)]
  obtain x w1 where h: "handle s ctx (ls ! k) (io_world st) = (x, w1)" by fastforce
  show ?thesis
  proof (cases x)
    case None
    then show ?thesis
      using served r h w lt hd by (auto simp: stdio_inv_def stdio_serve_def intro!: exI [of _ "Suc k"])
  next
    case (Some resp)
    obtain e w2 where p: "put (resp @ newline) w1 = (e, w2)" by fastforce
    have st': "st' = st\<lparr>io_lines := drop (Suc k) ls, io_log := io_log st @ [(resp @ newline, e)], io_world := w2,
        io_result := map_option Some e\<rparr>"
      using served h Some p hd by (simp add: stdio_serve_def)
    have "replies s ctx put (take (Suc k) ls) w = (io_log st', io_world st')" using r h Some p st' by simp
    then show ?thesis
      using w lt unfolding stdio_inv_def st' by (cases e) (auto simp: written_def intro!: exI [of _ "Suc k"])
  qed
next
  case (failed e)
  then have "io_read_error st = rderr" "io_read_error st = Some e" using inv by (simp_all add: stdio_inv_def)
  then show ?thesis using inv failed by (auto simp: stdio_inv_def)
qed (use inv in \<open>auto simp: stdio_inv_def\<close>)

lemma stdio_reaches:
  assumes "(stdio_step s ctx put)\<^sup>*\<^sup>* (stdio_start input rderr w) st"
  shows "stdio_inv s ctx put (stdin_lines input) rderr w st"
  using assms
proof (induction rule: rtranclp_induct)
  case base
  then show ?case by (auto simp: stdio_inv_def stdio_start_def written_def intro!: exI [of _ 0])
next
  case (step st st')
  then show ?case by (blast intro: stdio_inv_step)
qed

text \<open>Each reply is one line, so a reader that splits the output at line ends reads the replies.\<close>

lemma replies_lines:
  assumes "server_ok s"
  shows "\<forall>x \<in> set (fst (replies s ctx put ls w)). \<exists>resp. fst x = resp @ newline \<and> CHR 0x0A \<notin> set resp"
proof (induction ls arbitrary: w)
  case (Cons l ls)
  obtain x w1 where h: "handle s ctx l w = (x, w1)" by fastforce
  show ?case
  proof (cases x)
    case None
    then show ?thesis using Cons h by simp
  next
    case (Some resp)
    then have "CHR 0x0A \<notin> set resp" using handle_reads [OF assms, where ctx = ctx and raw = l and w = w] h by simp
    moreover have "\<exists>resp. a = resp @ newline \<and> CHR 0x0A \<notin> set resp"
      if "replies s ctx put ls w2 = (outs, w3)" "(a, b) \<in> set outs" for w2 outs w3 a b
      using Cons [of w2] that by fastforce
    ultimately show ?thesis using h Some by (auto split: prod.split option.split)
  qed
qed simp

lemma split_replies:
  "\<forall>x \<in> set outs. \<exists>resp. fst x = resp @ newline \<and> CHR 0x0A \<notin> set resp \<Longrightarrow>
   split_lines (concat (map fst outs)) = map (butlast \<circ> fst) outs"
proof (induction outs)
  case Nil
  then show ?case by (simp add: split_lines.simps)
next
  case (Cons x outs)
  then obtain resp where r: "fst x = resp @ newline" "CHR 0x0A \<notin> set resp" by auto
  then show ?case using Cons split_lines_line [OF r(2), of "concat (map fst outs)"] by (simp add: newline_def butlast_append)
qed

section \<open>Properties\<close>

text \<open>
  C29: One message, one answer.  Whatever bytes arrive, a request is answered exactly once, by
  one line which reads as an object with version 2.0, the identifier of the request (none
  when the message could not be decoded) and exactly one of a result and an error; a decoded
  message without identifier is a notification, which is not answered and runs nothing.
\<close>

theorem mcp_answers:
  assumes "server_ok s"
  shows "case handle s ctx raw w of
      (None, w') \<Rightarrow> decode_request raw \<noteq> None \<and> request_ids raw = [] \<and> w' = w
    | (Some resp, w') \<Rightarrow>
        (decode_request raw = None \<or> request_ids raw \<noteq> []) \<and> CHR 0x0A \<notin> set resp \<and>
        (\<exists>k j. k \<in> {''result'', ''error''} \<and> json_parse resp = Some (JObj ((''jsonrpc'', JStr ''2.0'') #
           map (Pair ''id'') (if decode_request raw = None then [] else request_ids raw) @ [(k, j)])))"
  by (rule handle_reads [OF assms])

definition sample_tool :: "'w tool" where
  "sample_tool = \<lparr>tl_name = ''echo'', tl_description = ''Echo'', tl_schema = JObj [], tl_annotations = [],
     tl_handler = (\<lambda>ctx args w. (if args = [] then Panicked ''no arguments''
       else Returned (Inr \<lparr>tr_content = [], tr_is_error = False, tr_structured = Some (Inr (JStr args))\<rparr>), w))\<rparr>"

definition sample_server :: "'w server" where
  "sample_server = add_tool (new_server ''xmc'' ''dev'') sample_tool"

lemma sample_server_ok: "server_ok sample_server"
  by (auto simp: server_ok_def sample_server_def add_tool_def new_server_def tool_ok_def sample_tool_def split: if_splits)

abbreviation "quote_char \<equiv> CHR 0x22"

definition quoted :: "string \<Rightarrow> string" where
  "quoted s = quote_char # s @ [quote_char]"

definition sample_ping :: string where
  "sample_ping = ''{'' @ quoted ''jsonrpc'' @ '': '' @ quoted ''2.0'' @ '', '' @ quoted ''ID'' @ '': [7, '' @ quoted ''<'' @ ''],'' @
     quoted ''method'' @ '':'' @ quoted ''ping'' @ ''}''"

lemma sample_ping_decodes: "decode_request sample_ping \<noteq> None" "request_ids sample_ping = [JArr [JNum ''7'', JStr ''<'']]"
  by code_simp+

theorem mcp_answers_witness:
  "\<exists>resp w' k j. handle sample_server (\<lambda>w. None) sample_ping (0 :: nat) = (Some resp, w') \<and>
     json_parse resp = Some (JObj [(''jsonrpc'', JStr ''2.0''), (''id'', JArr [JNum ''7'', JStr ''<'']), (k, j)])"
  using mcp_answers [OF sample_server_ok, where ctx = "\<lambda>w. None" and raw = sample_ping and w = "0 :: nat"] sample_ping_decodes
  by (auto split: prod.splits option.splits)

text \<open>
  C30: A tool that fails or panics does not fail the call: the answer is a result marked
  \<open>isError\<close> with the reason as text, under the identifier of the call.
\<close>

theorem mcp_tool_failure:
  assumes "decode_request raw = Some req" and "rq_jsonrpc req = ''2.0''" and "rq_id req \<noteq> []"
    and "rq_method req = ''tools/call''" and "struct_members (rq_params req) = Some ms"
    and "str_field ''name'' ms = Some n" and "raw_field ''arguments'' ms = Some args"
    and "sv_by_name s n = Some t"
    and "(tl_handler t ctx args w = (Returned (Inl e), w') \<and> reason = err_text e) \<or>
      (tl_handler t ctx args w = (Panicked p, w') \<and> reason = ''tool '' @ tl_name t @ '' panicked: '' @ p)"
  shows "\<exists>resp v. handle s ctx raw w = (Some resp, w') \<and> request_ids raw = [v] \<and>
    json_parse resp = Some (JObj [(''jsonrpc'', JStr ''2.0''), (''id'', v), (''result'', JObj [
      (''content'', JArr [JObj ((''type'', JStr ''text'') #
         (if reason = [] then [] else [(''text'', JStr (clean_text reason))]))]),
      (''isError'', JBool True)])])"
proof -
  obtain e' where e': "run_tool ctx t args w = (Inl e', w')" "reason = err_text e'"
    using assms(9)
  proof
    assume "tl_handler t ctx args w = (Returned (Inl e), w') \<and> reason = err_text e"
    then show thesis by (intro that [of e]) (simp_all add: run_tool_def)
  next
    assume "tl_handler t ctx args w = (Panicked p, w') \<and> reason = ''tool '' @ tl_name t @ '' panicked: '' @ p"
    then show thesis by (intro that [of "ENew (''tool '' @ tl_name t @ '' panicked: '' @ p)"]) (simp_all add: run_tool_def)
  qed
  let ?j = "JObj [(''content'', JArr [JObj ((''type'', JStr ''text'') # (if reason = [] then [] else [(''text'', JStr reason)]))]),
    (''isError'', JBool True)]"
  let ?r = "\<lparr>rs_id = rq_id req, rs_result = Some (Inr ?j), rs_error = None\<rparr>"
  have h: "handle s ctx raw w = (Some (encode ?r), w')"
    using assms e' by (simp add: handle_def route_def tools_call_def tool_result_json_def error_result_def block_json_def)
  obtain v where v: "request_ids raw = [v]" "one_value (compact False (rq_id req)) v (Suc 0)"
    using decode_id [OF assms(1)] assms(3) by auto
  have c: "clean ?j = JObj [(''content'', JArr [JObj ((''type'', JStr ''text'') #
         (if reason = [] then [] else [(''text'', JStr (clean_text reason))]))]), (''isError'', JBool True)]"
    by (simp add: clean_text_valid)
  have "\<exists>b. marshal_response ?r = Inr b \<and> json_parse b = Some (JObj [(''jsonrpc'', JStr ''2.0''), (''id'', v), (''result'', clean ?j)])"
    using marshal_reads [of ?r "[v]" _ "''result''" ?j] v(2) assms(3) by auto
  then show ?thesis using h v(1) unfolding c by (auto simp: encode_def)
qed

definition sample_call :: string where
  "sample_call = ''{'' @ quoted ''jsonrpc'' @ '':'' @ quoted ''2.0'' @ '','' @ quoted ''id'' @ '':null,'' @
     quoted ''method'' @ '':'' @ quoted ''tools/call'' @ '','' @ quoted ''params'' @ '':{'' @ quoted ''name'' @ '':'' @ quoted ''echo'' @ ''}}''"

lemma sample_call_decodes:
  "decode_request sample_call = Some \<lparr>rq_jsonrpc = ''2.0'', rq_id = ''null'', rq_method = ''tools/call'',
     rq_params = ''{'' @ quoted ''name'' @ '':'' @ quoted ''echo'' @ ''}''\<rparr>"
  "request_ids sample_call = [JNull]"
  by code_simp+

lemma sample_call_params:
  "struct_members (''{'' @ quoted ''name'' @ '':'' @ quoted ''echo'' @ ''}'') = Some [(''name'', quoted ''echo'', JStr ''echo'')]"
  "str_field ''name'' [(''name'', quoted ''echo'', JStr ''echo'')] = Some ''echo''"
  "raw_field ''arguments'' [(''name'', quoted ''echo'', JStr ''echo'')] = Some []"
  by code_simp+

theorem mcp_tool_failure_witness:
  "\<exists>resp. handle sample_server (\<lambda>w. None) sample_call (0 :: nat) = (Some resp, 0) \<and>
    json_parse resp = Some (JObj [(''jsonrpc'', JStr ''2.0''), (''id'', JNull), (''result'', JObj [
      (''content'', JArr [JObj [(''type'', JStr ''text''), (''text'', JStr (clean_text ''tool echo panicked: no arguments''))]]),
      (''isError'', JBool True)])])"
proof -
  have t: "sv_by_name sample_server ''echo'' = Some sample_tool"
    by (simp add: sample_server_def add_tool_def new_server_def sample_tool_def)
  have p: "tl_handler sample_tool (\<lambda>w. None) [] (0 :: nat) = (Panicked ''no arguments'', 0)"
    by (simp add: sample_tool_def)
  show ?thesis
    using mcp_tool_failure [OF sample_call_decodes(1) _ _ _ _ sample_call_params(2,3) t, of "\<lambda>w. None" 0 undefined 0 _ "''no arguments''"]
      sample_call_params(1) sample_call_decodes(2) p by (simp add: sample_tool_def)
qed

text \<open>
  C33: The order of the answers on standard output.  However the loop is scheduled, what it
  has flushed are the replies to a prefix of the input lines, in their order, each computed
  in the world that the ones before it left; it ends without an error only when every line
  was served or the context was cancelled, and with one only for a failed read behind the
  last line or a failed write; and a reader that splits the output into lines reads exactly
  the replies.
\<close>

theorem mcp_stdio_order:
  assumes "(stdio_step s ctx put)\<^sup>*\<^sup>* (stdio_start input rderr w) st" and "server_ok s"
  shows "(\<exists>k \<le> length (stdin_lines input). io_lines st = drop k (stdin_lines input) \<and>
      replies s ctx put (take k (stdin_lines input)) w = (io_log st, io_world st)) \<and>
    (case io_result st of
       None \<Rightarrow> written (io_log st)
     | Some None \<Rightarrow> written (io_log st) \<and> (io_lines st = [] \<or> ctx (io_world st) \<noteq> None)
     | Some (Some e) \<Rightarrow> (written (io_log st) \<and> io_lines st = [] \<and> rderr = Some e) \<or>
         (\<exists>outs t. io_log st = outs @ [(t, Some e)] \<and> written outs)) \<and>
    split_lines (concat (map fst (io_log st))) = map (butlast \<circ> fst) (io_log st)"
proof -
  have inv: "stdio_inv s ctx put (stdin_lines input) rderr w st" by (rule stdio_reaches [OF assms(1)])
  then obtain k where "replies s ctx put (take k (stdin_lines input)) w = (io_log st, io_world st)"
    by (auto simp: stdio_inv_def)
  then have "\<forall>x \<in> set (io_log st). \<exists>resp. fst x = resp @ newline \<and> CHR 0x0A \<notin> set resp"
    using replies_lines [OF assms(2), of ctx put "take k (stdin_lines input)" w] by simp
  then show ?thesis using inv split_replies unfolding stdio_inv_def by blast
qed

definition sample_put :: "string \<Rightarrow> nat \<Rightarrow> gerr option \<times> nat" where
  "sample_put t w = (None, w + length t)"

lemma sample_stdin: "stdin_lines (sample_ping @ newline) = [sample_ping]"
  by code_simp

lemma sample_run:
  "\<exists>st. (stdio_step sample_server (\<lambda>w. None) sample_put)\<^sup>*\<^sup>* (stdio_start (sample_ping @ newline) None 0) st \<and>
     io_result st = Some None \<and> length (io_log st) = 1"
proof -
  let ?s0 = "stdio_start (sample_ping @ newline) None (0 :: nat)"
  let ?s1 = "stdio_serve sample_server (\<lambda>w. None) sample_put ?s0"
  obtain resp w1 where h: "handle sample_server (\<lambda>w. None) sample_ping (0 :: nat) = (Some resp, w1)"
    using handle_reads [OF sample_server_ok, where ctx = "\<lambda>w. None" and raw = sample_ping and w = "0 :: nat"] sample_ping_decodes
    by (auto split: prod.splits option.splits)
  have s1: "io_result ?s1 = None" "io_lines ?s1 = []" "length (io_log ?s1) = 1"
    by (simp_all add: stdio_serve_def stdio_start_def sample_stdin h sample_put_def)
  have "stdio_step sample_server (\<lambda>w. None) sample_put ?s0 ?s1"
    by (rule served) (simp_all add: stdio_start_def sample_stdin)
  moreover have "stdio_step sample_server (\<lambda>w. None) sample_put ?s1 (?s1\<lparr>io_result := Some None\<rparr>)"
    by (rule closed) (use s1 in simp_all)
  ultimately have "(stdio_step sample_server (\<lambda>w. None) sample_put)\<^sup>*\<^sup>* ?s0 (?s1\<lparr>io_result := Some None\<rparr>)"
    by (meson rtranclp.rtrancl_into_rtrancl rtranclp.rtrancl_refl)
  then show ?thesis using s1(3) by (intro exI [of _ "?s1\<lparr>io_result := Some None\<rparr>"]) simp
qed

theorem mcp_stdio_order_witness:
  "\<exists>st :: nat stdio. io_result st = Some None \<and> length (io_log st) = 1 \<and>
     replies sample_server (\<lambda>w. None) sample_put [sample_ping] 0 = (io_log st, io_world st) \<and>
     split_lines (concat (map fst (io_log st))) = map (butlast \<circ> fst) (io_log st)"
proof -
  obtain st where st: "(stdio_step sample_server (\<lambda>w. None) sample_put)\<^sup>*\<^sup>* (stdio_start (sample_ping @ newline) None 0) st"
    "io_result st = Some None" "length (io_log st) = 1" using sample_run by blast
  note p = mcp_stdio_order [OF st(1) sample_server_ok, unfolded sample_stdin]
  obtain k where k: "k \<le> 1" "replies sample_server (\<lambda>w. None) sample_put (take k [sample_ping]) 0 = (io_log st, io_world st)"
    using p by auto
  have "k \<noteq> 0"
  proof
    assume "k = 0"
    then have "io_log st = []" using k(2) by simp
    then show False using st(3) by simp
  qed
  then have "take k [sample_ping] = [sample_ping]" using k(1) by simp
  note t = this
  show ?thesis
    by (rule exI [of _ st]) (use k(2) st(2,3) p in \<open>simp add: t del: replies.simps\<close>)
qed

section \<open>Registering a tool again\<close>

text \<open>
  Calls find the later of two tools of one name, but the list of tools still shows the
  earlier one.
\<close>

lemma shadowed_tool:
  assumes "tl_name u = tl_name t" and "sv_by_name s (tl_name t) = None"
  shows "sv_by_name (add_tool (add_tool s t) u) (tl_name t) = Some u"
    and "sv_tools (add_tool (add_tool s t) u) = sv_tools s @ [t]"
  using assms by (simp_all add: add_tool_def Let_def)

end
