(* ===== verification/Mcp_Tools.thy ===== *)
theory Mcp_Tools
  imports Mcp_Server "HOL-Library.Monad_Syntax"
begin

text \<open>
  \<^verbatim>\<open>mcp/tools.go\<close> and \<^verbatim>\<open>mcp/message.go\<close>: the tools that the server offers, over the
  factories and hooks that a broker wires in.  Each call opens its own connection and closes
  it.
\<close>

section \<open>Results and schemas\<close>

text \<open>The loop over fallible values, in order.\<close>

fun collect :: "(gerr + 'a) list \<Rightarrow> gerr + 'a list" where
  "collect [] = Inr []"
| "collect (Inl e # xs) = Inl e"
| "collect (Inr x # xs) = (case collect xs of Inl e \<Rightarrow> Inl e | Inr ys \<Rightarrow> Inr (x # ys))"

definition str_member :: "string \<Rightarrow> string \<Rightarrow> (string \<times> json) list" where
  "str_member name v = (if v = [] then [] else [(name, JStr v)])"

text \<open>A message as the tools return it, with its \<open>omitempty\<close> fields.\<close>

definition to_message_json :: "codec \<Rightarrow> message \<Rightarrow> gerr + json" where
  "to_message_json cd m =
     (case collect (map (\<lambda>kv. case cd_any cd (snd kv) of Inl e \<Rightarrow> Inl e | Inr v \<Rightarrow> Inr (fst kv, v))
         (sort_key fst (m_properties m))) of
        Inl e \<Rightarrow> Inl e
      | Inr ps \<Rightarrow> Inr (JObj (
          (if utf8_valid (m_data m) then str_member ''data'' (m_data m)
           else str_member ''dataBase64'' (b64_encode (m_data m))) @
          str_member ''messageId'' (m_message_id m) @
          str_member ''correlationId'' (m_correlation_id m) @
          str_member ''replyTo'' (m_reply_to m) @
          str_member ''contentType'' (m_content_type m) @
          (if m_priority m = 0 then [] else [(''priority'', JNum (int_text (m_priority m)))]) @
          (if m_persistent m then [(''persistent'', JBool True)] else []) @
          (if ps = [] then [] else [(''properties'', JObj ps)]))))"

text \<open>\<open>json.MarshalIndent(v, "", "  ")\<close>.\<close>

definition line_break :: "nat \<Rightarrow> string" where
  "line_break k = newline @ replicate (2 * k) (CHR '' '')"

fun indent_text :: "nat \<Rightarrow> json \<Rightarrow> string" where
  "indent_text k (JArr vs) =
     (if vs = [] then ''[]''
      else ''['' @ line_break (Suc k) @ join ('','' @ line_break (Suc k)) (map (indent_text (Suc k)) vs) @
        line_break k @ '']'')"
| "indent_text k (JObj kvs) =
     (if kvs = [] then ''{}''
      else ''{'' @ line_break (Suc k) @
        join ('','' @ line_break (Suc k)) (map (\<lambda>kv. json_quote (fst kv) @ '': '' @ indent_text (Suc k) (snd kv)) kvs) @
        line_break k @ ''}'')"
| "indent_text k j = json_text j"

definition json_result :: "gerr + json \<Rightarrow> gerr + tool_result" where
  "json_result v =
     (case v of
        Inl e \<Rightarrow> Inl e
      | Inr j \<Rightarrow> Inr \<lparr>tr_content = [\<lparr>cb_type = ''text'', cb_text = indent_text 0 j\<rparr>], tr_is_error = False,
          tr_structured = Some (Inr j)\<rparr>)"

definition object_schema :: "(string \<times> json) list \<Rightarrow> string list \<Rightarrow> json" where
  "object_schema ps required =
     json_map ([(''type'', JStr ''object''), (''properties'', json_map ps), (''additionalProperties'', JBool False)] @
       (if required = [] then [] else [(''required'', JArr (map JStr required))]))"

definition string_prop :: "string \<Rightarrow> json" where
  "string_prop desc = json_map [(''type'', JStr ''string''), (''description'', JStr desc)]"

definition int_prop :: "string \<Rightarrow> json" where
  "int_prop desc = json_map [(''type'', JStr ''integer''), (''description'', JStr desc)]"

definition number_prop :: "string \<Rightarrow> json" where
  "number_prop desc = json_map [(''type'', JStr ''number''), (''description'', JStr desc)]"

definition bool_prop :: "string \<Rightarrow> json" where
  "bool_prop desc = json_map [(''type'', JStr ''boolean''), (''description'', JStr desc)]"

definition map_prop :: "string \<Rightarrow> json" where
  "map_prop desc = json_map [(''type'', JStr ''object''), (''description'', JStr desc), (''additionalProperties'', JBool True)]"

text \<open>Prose of the descriptions: a backquote stands for an apostrophe, a tilde for a double quote.\<close>

definition prose :: "string \<Rightarrow> string" where
  "prose s = map (\<lambda>c. if c = CHR ''`'' then CHR 0x27 else if c = CHR ''~'' then CHR 0x22 else c) s"

section \<open>Dependencies\<close>

record queue_info =
  qi_name :: string
  qi_routing_type :: string
  qi_message_count :: int
  qi_consumer_count :: int

record queue_stats =
  qs_name :: string
  qs_message_count :: int
  qs_consumer_count :: int
  qs_enqueue_count :: int
  qs_dequeue_count :: int

record topic_info =
  ti_name :: string
  ti_partitions :: int

definition queue_info_json :: "queue_info \<Rightarrow> json" where
  "queue_info_json q =
     JObj ((''name'', JStr (qi_name q)) # str_member ''routingType'' (qi_routing_type q) @
       [(''messageCount'', JNum (int_text (qi_message_count q))), (''consumerCount'', JNum (int_text (qi_consumer_count q)))])"

definition queue_stats_json :: "queue_stats \<Rightarrow> json" where
  "queue_stats_json q =
     JObj [(''name'', JStr (qs_name q)), (''messageCount'', JNum (int_text (qs_message_count q))),
       (''consumerCount'', JNum (int_text (qs_consumer_count q))), (''enqueueCount'', JNum (int_text (qs_enqueue_count q))),
       (''dequeueCount'', JNum (int_text (qs_dequeue_count q)))]"

definition topic_info_json :: "topic_info \<Rightarrow> json" where
  "topic_info_json t =
     JObj ((''name'', JStr (ti_name t)) #
       (if ti_partitions t = 0 then [] else [(''partitions'', JNum (int_text (ti_partitions t)))]))"

text \<open>A nil slice, or its elements; a factory or hook that was not supplied is \<^const>\<open>None\<close>.\<close>

definition slice_json :: "('a \<Rightarrow> json) \<Rightarrow> 'a list option \<Rightarrow> json" where
  "slice_json f xs = (case xs of None \<Rightarrow> JNull | Some ys \<Rightarrow> JArr (map f ys))"

definition slice_count :: "'a list option \<Rightarrow> json" where
  "slice_count xs = JNum (nat_text (case xs of None \<Rightarrow> 0 | Some ys \<Rightarrow> length ys))"

record 'w deps =
  dp_server_name :: string
  dp_server_version :: string
  dp_target :: string
  dp_new_queue :: "('w, 'w queue_backend) factory option"
  dp_new_topic :: "('w, 'w topic_backend) factory option"
  dp_list_queues :: "('w ctx \<Rightarrow> 'w \<Rightarrow> (gerr + queue_info list option) \<times> 'w) option"
  dp_purge_queue :: "('w ctx \<Rightarrow> string \<Rightarrow> 'w \<Rightarrow> (gerr + int) \<times> 'w) option"
  dp_queue_stats :: "('w ctx \<Rightarrow> string \<Rightarrow> 'w \<Rightarrow> (gerr + queue_stats option) \<times> 'w) option"
  dp_list_topics :: "('w ctx \<Rightarrow> 'w \<Rightarrow> (gerr + topic_info list option) \<times> 'w) option"

definition or_default :: "string \<Rightarrow> string \<Rightarrow> string" where
  "or_default v def = (if v = [] then def else v)"

text \<open>
  The surroundings of a call: the codec, \<open>context.WithTimeout\<close> at a world, the random bytes,
  the clock in nanoseconds, the rendering \<open>%.0f\<close>, and a float64 as JSON.
\<close>

record 'w mcp_env =
  mv_codec :: codec
  mv_timeout :: "'w ctx \<Rightarrow> int \<Rightarrow> 'w \<Rightarrow> 'w ctx"
  mv_random :: "'w \<Rightarrow> 8 word list \<times> 8 word list"
  mv_clock :: "'w \<Rightarrow> int"
  mv_whole :: "rat \<Rightarrow> string"
  mv_float :: "rat \<Rightarrow> string"

definition nil_call :: outcome where
  "nil_call = Panicked ''runtime error: invalid memory address or nil pointer dereference''"

definition with_queue :: "'w deps \<Rightarrow> ('w queue_backend \<Rightarrow> 'w \<Rightarrow> outcome \<times> 'w) \<Rightarrow> 'w \<Rightarrow> outcome \<times> 'w" where
  "with_queue d fn w =
     (case dp_new_queue d of
        None \<Rightarrow> (nil_call, w)
      | Some f \<Rightarrow>
          (case f w of
             (Inl e, w1) \<Rightarrow> (Returned (Inl (ENew (''could not connect to broker '' @ dp_target d @ '': '' @ err_text e))), w1)
           | (Inr q, w1) \<Rightarrow> (case fn q w1 of (r, w2) \<Rightarrow> (r, snd (qb_close q w2)))))"

definition with_topic :: "'w deps \<Rightarrow> ('w topic_backend \<Rightarrow> 'w \<Rightarrow> outcome \<times> 'w) \<Rightarrow> 'w \<Rightarrow> outcome \<times> 'w" where
  "with_topic d fn w =
     (case dp_new_topic d of
        None \<Rightarrow> (nil_call, w)
      | Some f \<Rightarrow>
          (case f w of
             (Inl e, w1) \<Rightarrow> (Returned (Inl (ENew (''could not connect to broker '' @ dp_target d @ '': '' @ err_text e))), w1)
           | (Inr t, w1) \<Rightarrow> (case fn t w1 of (r, w2) \<Rightarrow> (r, snd (tb_close t w2)))))"

definition invalid_arguments :: "'w mcp_env \<Rightarrow> string \<Rightarrow> outcome" where
  "invalid_arguments env raw = Returned (Inl (ENew (''invalid arguments: '' @ cd_error (mv_codec env) raw)))"

abbreviation refuse :: "string \<Rightarrow> outcome" where
  "refuse t \<equiv> Returned (Inl (ENew t))"

text \<open>\<open>time.Duration(f) * time.Second\<close>: the seconds are truncated towards zero.\<close>

definition whole_seconds :: "rat \<Rightarrow> int" where
  "whole_seconds f = (if 0 \<le> f then \<lfloor>f\<rfloor> else \<lceil>f\<rceil>) * second"

text \<open>\<open>for i := 0; i < count; i++\<close> over a call that may fail: the failure with its \<open>i\<close>.\<close>

fun repeat_call :: "('w \<Rightarrow> gerr option \<times> 'w) \<Rightarrow> nat \<Rightarrow> nat \<Rightarrow> 'w \<Rightarrow> (nat \<times> gerr) option \<times> 'w" where
  "repeat_call f i 0 w = (None, w)"
| "repeat_call f i (Suc n) w =
     (case f w of (Some e, w') \<Rightarrow> (Some (i, e), w') | (None, w') \<Rightarrow> repeat_call f (Suc i) n w')"

text \<open>The read loop: up to \<open>n\<close> messages, fewer when none is left.\<close>

fun read_upto ::
    "('w \<Rightarrow> read_result \<times> 'w) \<Rightarrow> nat \<Rightarrow> message list \<Rightarrow> 'w \<Rightarrow> ((nat \<times> gerr) + message list) \<times> 'w" where
  "read_upto nxt 0 acc w = (Inr acc, w)"
| "read_upto nxt (Suc n) acc w =
     (case nxt w of
        ((m, Some e), w') \<Rightarrow>
          (if errors_is e ENoMessageAvailable \<or> errors_is e EDeadlineExceeded then (Inr acc, w')
           else (Inl (length acc, e), w'))
      | ((None, None), w') \<Rightarrow> (Inr acc, w')
      | ((Some m, None), w') \<Rightarrow> read_upto nxt n (acc @ [m]) w')"

text \<open>
  \<open>make([]messageJSON, 0, count)\<close>, whose elements have 120 bytes, panics beyond the address
  space of 48 bits; below it the allocation is taken to succeed.
\<close>

definition message_cap :: int where
  "message_cap = 2 ^ 48 div 120"

definition cap_panic :: outcome where
  "cap_panic = Panicked ''runtime error: makeslice: cap out of range''"

section \<open>send\<close>

record send_args =
  sa_address :: string
  sa_body :: string
  sa_properties :: props
  sa_content_type :: string
  sa_correlation_id :: string
  sa_message_id :: string
  sa_reply_to :: string
  sa_priority :: "int option"
  sa_persistent :: bool
  sa_ttl :: int
  sa_count :: "int option"

definition decode_send :: "codec \<Rightarrow> string \<Rightarrow> send_args option" where
  "decode_send cd raw = do {
     ms \<leftarrow> struct_members raw;
     address \<leftarrow> str_field ''address'' ms;
     body \<leftarrow> str_field ''body'' ms;
     properties \<leftarrow> props_field cd ''properties'' ms;
     content_type \<leftarrow> str_field ''content_type'' ms;
     correlation_id \<leftarrow> str_field ''correlation_id'' ms;
     message_id \<leftarrow> str_field ''message_id'' ms;
     reply_to \<leftarrow> str_field ''reply_to'' ms;
     priority \<leftarrow> int_ptr_field ''priority'' ms;
     persistent \<leftarrow> bool_field ''persistent'' ms;
     ttl \<leftarrow> int_field ''ttl_ms'' ms;
     count \<leftarrow> int_ptr_field ''count'' ms;
     Some \<lparr>sa_address = address, sa_body = body, sa_properties = properties, sa_content_type = content_type,
       sa_correlation_id = correlation_id, sa_message_id = message_id, sa_reply_to = reply_to,
       sa_priority = priority, sa_persistent = persistent, sa_ttl = ttl, sa_count = count\<rparr>
   }"

definition given :: "'a option \<Rightarrow> 'a \<Rightarrow> 'a" where
  "given p def = (case p of None \<Rightarrow> def | Some x \<Rightarrow> x)"

definition send_message :: "send_args \<Rightarrow> send_options" where
  "send_message a =
     send_options0\<lparr>so_queue := sa_address a, so_message := sa_body a, so_properties := sa_properties a,
       so_message_id := sa_message_id a, so_correlation_id := sa_correlation_id a, so_reply_to := sa_reply_to a,
       so_content_type := or_default (sa_content_type a) ''text/plain'', so_priority := given (sa_priority a) 4,
       so_persistent := sa_persistent a, so_ttl := sa_ttl a\<rparr>"

definition sent_after :: "string \<Rightarrow> nat \<Rightarrow> int \<Rightarrow> gerr \<Rightarrow> outcome" where
  "sent_after verb i count e =
     refuse (verb @ '' failed after '' @ nat_text i @ ''/'' @ int_text count @ '' messages: '' @ err_text e)"

definition send_handler :: "'w mcp_env \<Rightarrow> 'w deps \<Rightarrow> 'w ctx \<Rightarrow> string \<Rightarrow> 'w \<Rightarrow> outcome \<times> 'w" where
  "send_handler env d ctx raw w =
     (case decode_send (mv_codec env) raw of
        None \<Rightarrow> (invalid_arguments env raw, w)
      | Some a \<Rightarrow>
          (let count = given (sa_count a) 1
           in if sa_address a = [] then (refuse ''address is required'', w)
              else if count < 1 then (refuse ''count must be at least 1'', w)
              else with_queue d (\<lambda>q w1.
                (case repeat_call (qb_send q ctx (send_message a)) 0 (nat count) w1 of
                   (Some (i, e), w2) \<Rightarrow> (sent_after ''send'' i count e, w2)
                 | (None, w2) \<Rightarrow>
                     (Returned (json_result (Inr (json_map [(''sent'', JNum (int_text count)),
                        (''address'', JStr (sa_address a))]))), w2))) w))"

definition send_tool :: "'w mcp_env \<Rightarrow> 'w deps \<Rightarrow> 'w tool" where
  "send_tool env d =
     \<lparr>tl_name = ''send'',
      tl_description = prose (''Send a message to a queue or anycast address (fire-and-forget; does not wait for a reply). '' @
        ''Use this to deliver a one-way message, e.g. a `ping` to a microservice listening on an address. '' @
        ''To send and wait for a response, use `request` instead. To deliver to a multicast topic, this still applies in Artemis since addresses are unified.''),
      tl_schema = object_schema [
        (''address'', string_prop (prose ''Target queue or address name, e.g. ~A.foo~.'')),
        (''body'', string_prop ''Message payload as text.''),
        (''properties'', map_prop ''Optional application properties (string keys to values).''),
        (''content_type'', string_prop (prose ''MIME type of the body (default ~text/plain~).'')),
        (''correlation_id'', string_prop ''Optional correlation ID.''),
        (''message_id'', string_prop ''Optional message ID.''),
        (''reply_to'', string_prop ''Optional reply-to address.''),
        (''priority'', int_prop ''Message priority 0-9 (default 4).''),
        (''persistent'', bool_prop ''Persist the message to broker storage (default false).''),
        (''ttl_ms'', int_prop ''Time-to-live in milliseconds (0 = no expiry).''),
        (''count'', int_prop ''Number of times to send the message (default 1).'')] [''address'', ''body''],
      tl_annotations = [(''title'', JStr ''Send message''), (''readOnlyHint'', JBool False), (''destructiveHint'', JBool False),
        (''idempotentHint'', JBool False), (''openWorldHint'', JBool True)],
      tl_handler = send_handler env d\<rparr>"

section \<open>request\<close>

record mcp_request_args =
  ra_address :: string
  ra_body :: string
  ra_reply_to :: string
  ra_timeout :: "rat option"
  ra_properties :: props
  ra_content_type :: string
  ra_correlation_id :: string
  ra_priority :: "int option"

definition decode_request_args :: "codec \<Rightarrow> string \<Rightarrow> mcp_request_args option" where
  "decode_request_args cd raw = do {
     ms \<leftarrow> struct_members raw;
     address \<leftarrow> str_field ''address'' ms;
     body \<leftarrow> str_field ''body'' ms;
     reply_to \<leftarrow> str_field ''reply_to'' ms;
     timeout \<leftarrow> float_ptr_field cd ''timeout_seconds'' ms;
     properties \<leftarrow> props_field cd ''properties'' ms;
     content_type \<leftarrow> str_field ''content_type'' ms;
     correlation_id \<leftarrow> str_field ''correlation_id'' ms;
     priority \<leftarrow> int_ptr_field ''priority'' ms;
     Some \<lparr>ra_address = address, ra_body = body, ra_reply_to = reply_to, ra_timeout = timeout,
       ra_properties = properties, ra_content_type = content_type, ra_correlation_id = correlation_id,
       ra_priority = priority\<rparr>
   }"

definition request_message :: "mcp_request_args \<Rightarrow> rat \<Rightarrow> request_options" where
  "request_message a timeout =
     request_options0\<lparr>qo_address := ra_address a, qo_message := ra_body a, qo_properties := ra_properties a,
       qo_correlation_id := ra_correlation_id a, qo_reply_to := ra_reply_to a,
       qo_content_type := or_default (ra_content_type a) ''text/plain'', qo_priority := given (ra_priority a) 4,
       qo_timeout := timeout\<rparr>"

definition request_failure :: "'w mcp_env \<Rightarrow> mcp_request_args \<Rightarrow> string \<Rightarrow> rat \<Rightarrow> gerr \<Rightarrow> outcome" where
  "request_failure env a reply_to timeout e =
     (case as_send_error e of
        Some se \<Rightarrow> refuse (''failed to send request to '' @ ra_address a @ '': '' @ err_text se)
      | None \<Rightarrow>
          (if errors_is e EDeadlineExceeded \<or> errors_is e ENoMessageAvailable
           then refuse (''no reply received on '' @ reply_to @ '' within '' @ mv_whole env timeout @ ''s'')
           else if errors_is e EReplyMismatch
           then refuse (''received a reply that did not match this request on '' @ reply_to @ '': '' @ err_text e)
           else refuse (''request to '' @ ra_address a @ '' failed: '' @ err_text e)))"

definition request_handler :: "'w mcp_env \<Rightarrow> 'w deps \<Rightarrow> 'w ctx \<Rightarrow> string \<Rightarrow> 'w \<Rightarrow> outcome \<times> 'w" where
  "request_handler env d ctx raw w =
     (case decode_request_args (mv_codec env) raw of
        None \<Rightarrow> (invalid_arguments env raw, w)
      | Some a \<Rightarrow>
          (if ra_address a = [] then (refuse ''address is required'', w)
           else (let reply_to = or_default (ra_reply_to a) default_reply_queue;
                     timeout = given (ra_timeout a) default_request_timeout;
                     call_ctx = mv_timeout env ctx (whole_seconds (timeout + 5)) w
                 in with_queue d (\<lambda>q w1.
                      (case request (mv_random env w1) call_ctx q (request_message a timeout) w1 of
                         ((m, Some e), w2) \<Rightarrow> (request_failure env a reply_to timeout e, w2)
                       | ((None, None), w2) \<Rightarrow>
                           (refuse (''no reply received on '' @ reply_to @ '' within '' @ mv_whole env timeout @ ''s''), w2)
                       | ((Some m, None), w2) \<Rightarrow>
                           (Returned (json_result (to_message_json (mv_codec env) m)), w2))) w)))"

definition request_tool :: "'w mcp_env \<Rightarrow> 'w deps \<Rightarrow> 'w tool" where
  "request_tool env d =
     \<lparr>tl_name = ''request'',
      tl_description = prose (''Send a message and wait for a single reply (request-reply pattern). '' @
        ''This is the tool to use for a `ping` that expects a `pong`: it sends to the address with a '' @
        ''correlation id, then returns the matching reply. A correlation id is generated automatically '' @
        ''when not supplied. Returns isError if no reply arrives within the timeout. For one-way '' @
        ''delivery with no reply, use `send`.''),
      tl_schema = object_schema [
        (''address'', string_prop (prose ''Target queue or address to send the request to, e.g. ~A.foo~.'')),
        (''body'', string_prop (prose ''Request payload as text (e.g. ~ping~).'')),
        (''reply_to'', string_prop (prose ''Reply address to listen on (default ~xmc.reply~).'')),
        (''timeout_seconds'', number_prop ''How long to wait for the reply, in seconds (default 30).''),
        (''properties'', map_prop ''Optional application properties.''),
        (''content_type'', string_prop (prose ''MIME type of the body (default ~text/plain~).'')),
        (''correlation_id'', string_prop ''Optional correlation ID; auto-generated when omitted.''),
        (''priority'', int_prop ''Message priority 0-9 (default 4).'')] [''address'', ''body''],
      tl_annotations = [(''title'', JStr ''Request/reply''), (''readOnlyHint'', JBool False),
        (''idempotentHint'', JBool False), (''openWorldHint'', JBool True)],
      tl_handler = request_handler env d\<rparr>"

section \<open>peek and receive\<close>

record read_args =
  da_queue :: string
  da_count :: "int option"
  da_timeout :: "rat option"
  da_selector :: string

definition decode_read :: "codec \<Rightarrow> string \<Rightarrow> read_args option" where
  "decode_read cd raw = do {
     ms \<leftarrow> struct_members raw;
     queue \<leftarrow> str_field ''queue'' ms;
     count \<leftarrow> int_ptr_field ''count'' ms;
     timeout \<leftarrow> float_ptr_field cd ''timeout_seconds'' ms;
     selector \<leftarrow> str_field ''selector'' ms;
     Some \<lparr>da_queue = queue, da_count = count, da_timeout = timeout, da_selector = selector\<rparr>
   }"

definition read_schema :: "string \<Rightarrow> json" where
  "read_schema verb = object_schema [
     (''queue'', string_prop ''Queue or address to read from.''),
     (''count'', int_prop (''Maximum number of messages to '' @ verb @ '' (default 1).'')),
     (''timeout_seconds'', number_prop ''How long to wait for a message before returning, in seconds (default 2).''),
     (''selector'', string_prop (prose ''Optional JMS-style selector, e.g. ~color=`red`~.''))] [''queue'']"

definition read_opts :: "read_args \<Rightarrow> rat \<Rightarrow> bool \<Rightarrow> receive_options" where
  "read_opts a timeout acknowledge =
     receive_options0\<lparr>ro_queue := da_queue a, ro_timeout := timeout, ro_acknowledge := acknowledge,
       ro_verbosity := VerbosityNormal, ro_selector := da_selector a\<rparr>"

text \<open>The messages as a tool returns them, under the name of what they were read from.\<close>

definition messages_result :: "codec \<Rightarrow> string \<Rightarrow> string \<Rightarrow> message list \<Rightarrow> gerr + tool_result" where
  "messages_result cd kind name ms =
     json_result (case collect (map (to_message_json cd) ms) of
        Inl e \<Rightarrow> Inl e
      | Inr js \<Rightarrow> Inr (json_map [(kind, JStr name), (''count'', JNum (nat_text (length ms))), (''messages'', JArr js)]))"

text \<open>The array is made, then the loop fills it.\<close>

definition read_loop ::
    "codec \<Rightarrow> string \<Rightarrow> string \<Rightarrow> string \<Rightarrow> int \<Rightarrow> ('w \<Rightarrow> read_result \<times> 'w) \<Rightarrow> 'w \<Rightarrow> outcome \<times> 'w" where
  "read_loop cd verb kind name count nxt w =
     (if message_cap < count then (cap_panic, w)
      else case read_upto nxt (nat count) [] w of
             (Inl (n, e), w1) \<Rightarrow> (refuse (verb @ '' failed after '' @ nat_text n @ '' messages: '' @ err_text e), w1)
           | (Inr ms, w1) \<Rightarrow> (Returned (messages_result cd kind name ms), w1))"

text \<open>
  \<open>next\<close> is a browse cursor for a peek on a backend that can browse, else a plain receive;
  the deferred close of the cursor runs before that of the connection.
\<close>

definition read_queue ::
    "'w mcp_env \<Rightarrow> 'w ctx \<Rightarrow> read_args \<Rightarrow> int \<Rightarrow> receive_options \<Rightarrow> 'w queue_backend \<Rightarrow> 'w \<Rightarrow> outcome \<times> 'w" where
  "read_queue env ctx a count opts q w =
     (let loop = read_loop (mv_codec env) ''read'' ''queue'' (da_queue a) count;
          receive = (\<lambda>w. loop (qb_receive q ctx opts) w)
      in case (if ro_acknowledge opts then None else qb_browse q) of
           None \<Rightarrow> receive w
         | Some browse \<Rightarrow>
             (case browse ctx opts w of
                (Inr b, w1) \<Rightarrow> (case loop (br_next b ctx) w1 of (r, w2) \<Rightarrow> (r, snd (br_close b w2)))
              | (Inl e, w1) \<Rightarrow>
                  (if errors_is e EBrowseUnsupported then receive w1
                   else (refuse (''browse failed: '' @ err_text e), w1))))"

definition read_messages :: "'w mcp_env \<Rightarrow> 'w deps \<Rightarrow> 'w ctx \<Rightarrow> read_args \<Rightarrow> bool \<Rightarrow> 'w \<Rightarrow> outcome \<times> 'w" where
  "read_messages env d ctx a acknowledge w =
     (let count = given (da_count a) 1; timeout = given (da_timeout a) 2
      in if da_queue a = [] then (refuse ''queue is required'', w)
         else if count < 1 then (refuse ''count must be at least 1'', w)
         else (let call_ctx = mv_timeout env ctx (whole_seconds (timeout * of_int count + 5)) w
               in with_queue d (read_queue env call_ctx a count (read_opts a timeout acknowledge)) w))"

definition read_handler :: "bool \<Rightarrow> 'w mcp_env \<Rightarrow> 'w deps \<Rightarrow> 'w ctx \<Rightarrow> string \<Rightarrow> 'w \<Rightarrow> outcome \<times> 'w" where
  "read_handler acknowledge env d ctx raw w =
     (case decode_read (mv_codec env) raw of
        None \<Rightarrow> (invalid_arguments env raw, w)
      | Some a \<Rightarrow> read_messages env d ctx a acknowledge w)"

definition peek_tool :: "'w mcp_env \<Rightarrow> 'w deps \<Rightarrow> 'w tool" where
  "peek_tool env d =
     \<lparr>tl_name = ''peek'',
      tl_description = prose (''Look at messages on a queue without removing them (non-destructive browse). '' @
        ''Safe to call for inspection. Returns up to `count` messages, or fewer if the queue is shallow. '' @
        ''To consume (remove) messages, use `receive`.''),
      tl_schema = read_schema ''peek'',
      tl_annotations = [(''title'', JStr ''Peek (browse) messages''), (''readOnlyHint'', JBool True), (''openWorldHint'', JBool True)],
      tl_handler = read_handler False env d\<rparr>"

definition receive_tool :: "'w mcp_env \<Rightarrow> 'w deps \<Rightarrow> 'w tool" where
  "receive_tool env d =
     \<lparr>tl_name = ''receive'',
      tl_description = prose (''Receive messages from a queue, REMOVING them from the broker (destructive read). '' @
        ''Consumed messages are gone. Use `peek` instead if you only need to inspect without consuming.''),
      tl_schema = read_schema ''receive'',
      tl_annotations = [(''title'', JStr ''Receive (consume) messages''), (''readOnlyHint'', JBool False), (''destructiveHint'', JBool True),
        (''idempotentHint'', JBool False), (''openWorldHint'', JBool True)],
      tl_handler = read_handler True env d\<rparr>"

section \<open>publish and consume\<close>

record topic_args =
  ta_topic :: string
  ta_body :: string
  ta_properties :: props
  ta_content_type :: string
  ta_correlation_id :: string
  ta_message_id :: string
  ta_reply_to :: string
  ta_key :: string
  ta_ttl :: int
  ta_count :: "int option"

definition decode_publish :: "codec \<Rightarrow> string \<Rightarrow> topic_args option" where
  "decode_publish cd raw = do {
     ms \<leftarrow> struct_members raw;
     topic \<leftarrow> str_field ''topic'' ms;
     body \<leftarrow> str_field ''body'' ms;
     properties \<leftarrow> props_field cd ''properties'' ms;
     content_type \<leftarrow> str_field ''content_type'' ms;
     correlation_id \<leftarrow> str_field ''correlation_id'' ms;
     message_id \<leftarrow> str_field ''message_id'' ms;
     reply_to \<leftarrow> str_field ''reply_to'' ms;
     key \<leftarrow> str_field ''key'' ms;
     ttl \<leftarrow> int_field ''ttl_ms'' ms;
     count \<leftarrow> int_ptr_field ''count'' ms;
     Some \<lparr>ta_topic = topic, ta_body = body, ta_properties = properties, ta_content_type = content_type,
       ta_correlation_id = correlation_id, ta_message_id = message_id, ta_reply_to = reply_to, ta_key = key,
       ta_ttl = ttl, ta_count = count\<rparr>
   }"

definition topic_message :: "topic_args \<Rightarrow> publish_options" where
  "topic_message a =
     publish_options0\<lparr>po_topic := ta_topic a, po_message := ta_body a, po_properties := ta_properties a,
       po_message_id := ta_message_id a, po_correlation_id := ta_correlation_id a, po_reply_to := ta_reply_to a,
       po_content_type := or_default (ta_content_type a) ''text/plain'', po_key := ta_key a, po_ttl := ta_ttl a\<rparr>"

definition publish_handler :: "'w mcp_env \<Rightarrow> 'w deps \<Rightarrow> 'w ctx \<Rightarrow> string \<Rightarrow> 'w \<Rightarrow> outcome \<times> 'w" where
  "publish_handler env d ctx raw w =
     (case decode_publish (mv_codec env) raw of
        None \<Rightarrow> (invalid_arguments env raw, w)
      | Some a \<Rightarrow>
          (let count = given (ta_count a) 1
           in if ta_topic a = [] then (refuse ''topic is required'', w)
              else if count < 1 then (refuse ''count must be at least 1'', w)
              else with_topic d (\<lambda>t w1.
                (case repeat_call (tb_publish t ctx (topic_message a)) 0 (nat count) w1 of
                   (Some (i, e), w2) \<Rightarrow> (sent_after ''publish'' i count e, w2)
                 | (None, w2) \<Rightarrow>
                     (Returned (json_result (Inr (json_map [(''published'', JNum (int_text count)),
                        (''topic'', JStr (ta_topic a))]))), w2))) w))"

definition publish_tool :: "'w mcp_env \<Rightarrow> 'w deps \<Rightarrow> 'w tool" where
  "publish_tool env d =
     \<lparr>tl_name = ''publish'',
      tl_description = prose (''Publish a message to a topic (pub/sub fan-out; every subscriber receives it). '' @
        ''Use `send` for point-to-point queue delivery where available.''),
      tl_schema = object_schema [
        (''topic'', string_prop ''Target topic name.''),
        (''body'', string_prop ''Message payload as text.''),
        (''properties'', map_prop ''Optional application properties (string keys to values).''),
        (''content_type'', string_prop (prose ''MIME type of the body (default ~text/plain~).'')),
        (''correlation_id'', string_prop ''Optional correlation ID.''),
        (''message_id'', string_prop ''Optional message ID.''),
        (''reply_to'', string_prop ''Optional reply-to address.''),
        (''key'', string_prop ''Optional message key: partitioning (Kafka, Pulsar) or ordering (Google, AWS FIFO).''),
        (''ttl_ms'', int_prop ''Time-to-live in milliseconds (0 = no expiry).''),
        (''count'', int_prop ''Number of times to publish the message (default 1).'')] [''topic'', ''body''],
      tl_annotations = [(''title'', JStr ''Publish message''), (''readOnlyHint'', JBool False), (''destructiveHint'', JBool False),
        (''idempotentHint'', JBool False), (''openWorldHint'', JBool True)],
      tl_handler = publish_handler env d\<rparr>"

record group_args =
  ga_topic :: string
  ga_group :: string
  ga_count :: "int option"
  ga_timeout :: "rat option"

definition decode_consume :: "codec \<Rightarrow> string \<Rightarrow> group_args option" where
  "decode_consume cd raw = do {
     ms \<leftarrow> struct_members raw;
     topic \<leftarrow> str_field ''topic'' ms;
     group \<leftarrow> str_field ''group'' ms;
     count \<leftarrow> int_ptr_field ''count'' ms;
     timeout \<leftarrow> float_ptr_field cd ''timeout_seconds'' ms;
     Some \<lparr>ga_topic = topic, ga_group = group, ga_count = count, ga_timeout = timeout\<rparr>
   }"

definition group_opts :: "group_args \<Rightarrow> rat \<Rightarrow> subscribe_options" where
  "group_opts a timeout =
     subscribe_options0\<lparr>uo_topic := ga_topic a, uo_group_id := or_default (ga_group a) ''xmc-consumer-group'',
       uo_timeout := timeout, uo_verbosity := VerbosityNormal\<rparr>"

definition consume_handler :: "'w mcp_env \<Rightarrow> 'w deps \<Rightarrow> 'w ctx \<Rightarrow> string \<Rightarrow> 'w \<Rightarrow> outcome \<times> 'w" where
  "consume_handler env d ctx raw w =
     (case decode_consume (mv_codec env) raw of
        None \<Rightarrow> (invalid_arguments env raw, w)
      | Some a \<Rightarrow>
          (let count = given (ga_count a) 1; timeout = given (ga_timeout a) 2
           in if ga_topic a = [] then (refuse ''topic is required'', w)
              else if count < 1 then (refuse ''count must be at least 1'', w)
              else (let call_ctx = mv_timeout env ctx (whole_seconds (timeout * of_int count + 5)) w
                    in with_topic d (\<lambda>t. read_loop (mv_codec env) ''consume'' ''topic'' (ga_topic a) count
                         (tb_subscribe t call_ctx (group_opts a timeout))) w)))"

definition consume_tool :: "'w mcp_env \<Rightarrow> 'w deps \<Rightarrow> 'w tool" where
  "consume_tool env d =
     \<lparr>tl_name = ''consume'',
      tl_description = prose (''Consume messages from a topic subscription. Reads advance the consumer group`s '' @
        ''position, so repeated calls with the same group see new messages only.''),
      tl_schema = object_schema [
        (''topic'', string_prop ''Topic to consume from.''),
        (''group'', string_prop (prose ''Consumer group ID (default ~xmc-consumer-group~).'')),
        (''count'', int_prop ''Maximum number of messages to consume (default 1).''),
        (''timeout_seconds'', number_prop ''How long to wait for a message before returning, in seconds (default 2).'')] [''topic''],
      tl_annotations = [(''title'', JStr ''Consume topic messages''), (''readOnlyHint'', JBool False), (''openWorldHint'', JBool True)],
      tl_handler = consume_handler env d\<rparr>"

section \<open>ping\<close>

text \<open>Any adapter that the broker has will do; only its \<open>Close\<close> is used.\<close>

definition ping_connect :: "'w deps \<Rightarrow> 'w \<Rightarrow> (gerr + ('w \<Rightarrow> gerr option \<times> 'w)) option \<times> 'w" where
  "ping_connect d w =
     (case dp_new_queue d of
        Some f \<Rightarrow> (case f w of (Inl e, w1) \<Rightarrow> (Some (Inl e), w1) | (Inr q, w1) \<Rightarrow> (Some (Inr (qb_close q)), w1))
      | None \<Rightarrow>
          (case dp_new_topic d of
             None \<Rightarrow> (None, w)
           | Some f \<Rightarrow> (case f w of (Inl e, w1) \<Rightarrow> (Some (Inl e), w1) | (Inr t, w1) \<Rightarrow> (Some (Inr (tb_close t)), w1))))"

definition ping_handler :: "'w mcp_env \<Rightarrow> 'w deps \<Rightarrow> 'w ctx \<Rightarrow> string \<Rightarrow> 'w \<Rightarrow> outcome \<times> 'w" where
  "ping_handler env d ctx raw w =
     (case ping_connect d w of
        (None, w1) \<Rightarrow> (nil_call, w1)
      | (Some (Inl e), w1) \<Rightarrow> (refuse (''broker '' @ dp_target d @ '' unreachable: '' @ err_text e), w1)
      | (Some (Inr close), w1) \<Rightarrow>
          (let elapsed = mv_clock env w1 - mv_clock env w
           in (Returned (json_result (Inr (json_map [(''ok'', JBool True), (''target'', JStr (dp_target d)),
                 (''rttMs'', JNum (mv_float env (of_int (elapsed div 1000) / 1000)))]))), snd (close w1))))"

definition ping_tool :: "'w mcp_env \<Rightarrow> 'w deps \<Rightarrow> 'w tool" where
  "ping_tool env d =
     \<lparr>tl_name = ''ping'',
      tl_description = ''Check connectivity to the broker by opening a connection (including auth/TLS handshake) '' @
        ''and reporting the round-trip time. Read-only; does not send or consume any message.'',
      tl_schema = object_schema [] [],
      tl_annotations = [(''title'', JStr ''Ping broker''), (''readOnlyHint'', JBool True), (''openWorldHint'', JBool True)],
      tl_handler = ping_handler env d\<rparr>"

section \<open>Management\<close>

text \<open>These tools are registered only with their hook.\<close>

definition list_queues_handler ::
    "('w ctx \<Rightarrow> 'w \<Rightarrow> (gerr + queue_info list option) \<times> 'w) \<Rightarrow> 'w ctx \<Rightarrow> string \<Rightarrow> 'w \<Rightarrow> outcome \<times> 'w" where
  "list_queues_handler hook ctx raw w =
     (case hook ctx w of
        (Inl e, w1) \<Rightarrow> (refuse (''failed to list queues: '' @ err_text e), w1)
      | (Inr qs, w1) \<Rightarrow>
          (Returned (json_result (Inr (json_map [(''count'', slice_count qs), (''queues'', slice_json queue_info_json qs)]))), w1))"

definition list_topics_handler ::
    "('w ctx \<Rightarrow> 'w \<Rightarrow> (gerr + topic_info list option) \<times> 'w) \<Rightarrow> 'w ctx \<Rightarrow> string \<Rightarrow> 'w \<Rightarrow> outcome \<times> 'w" where
  "list_topics_handler hook ctx raw w =
     (case hook ctx w of
        (Inl e, w1) \<Rightarrow> (refuse (''failed to list topics: '' @ err_text e), w1)
      | (Inr ts, w1) \<Rightarrow>
          (Returned (json_result (Inr (json_map [(''count'', slice_count ts), (''topics'', slice_json topic_info_json ts)]))), w1))"

definition queue_stats_handler ::
    "'w mcp_env \<Rightarrow> ('w ctx \<Rightarrow> string \<Rightarrow> 'w \<Rightarrow> (gerr + queue_stats option) \<times> 'w) \<Rightarrow> 'w ctx \<Rightarrow> string \<Rightarrow> 'w \<Rightarrow> outcome \<times> 'w" where
  "queue_stats_handler env hook ctx raw w =
     (case Option.bind (struct_members raw) (str_field ''queue'') of
        None \<Rightarrow> (invalid_arguments env raw, w)
      | Some queue \<Rightarrow>
          (if queue = [] then (refuse ''queue is required'', w)
           else case hook ctx queue w of
                  (Inl e, w1) \<Rightarrow> (refuse (''failed to get stats for '' @ queue @ '': '' @ err_text e), w1)
                | (Inr st, w1) \<Rightarrow>
                    (Returned (json_result (Inr (case st of None \<Rightarrow> JNull | Some q \<Rightarrow> queue_stats_json q))), w1)))"

definition decode_purge :: "string \<Rightarrow> (string \<times> bool) option" where
  "decode_purge raw = do {
     ms \<leftarrow> struct_members raw;
     queue \<leftarrow> str_field ''queue'' ms;
     confirm \<leftarrow> bool_field ''confirm'' ms;
     Some (queue, confirm)
   }"

definition purge_handler ::
    "'w mcp_env \<Rightarrow> ('w ctx \<Rightarrow> string \<Rightarrow> 'w \<Rightarrow> (gerr + int) \<times> 'w) \<Rightarrow> 'w ctx \<Rightarrow> string \<Rightarrow> 'w \<Rightarrow> outcome \<times> 'w" where
  "purge_handler env hook ctx raw w =
     (case decode_purge raw of
        None \<Rightarrow> (invalid_arguments env raw, w)
      | Some (queue, confirm) \<Rightarrow>
          (if queue = [] then (refuse ''queue is required'', w)
           else if \<not> confirm
           then (refuse ''refusing to purge: set confirm=true to proceed (this permanently deletes all messages)'', w)
           else case hook ctx queue w of
                  (Inl e, w1) \<Rightarrow> (refuse (''failed to purge '' @ queue @ '': '' @ err_text e), w1)
                | (Inr n, w1) \<Rightarrow>
                    (Returned (json_result (Inr (json_map [(''purged'', JNum (int_text n)), (''queue'', JStr queue)]))), w1)))"

definition list_queues_tool :: "('w ctx \<Rightarrow> 'w \<Rightarrow> (gerr + queue_info list option) \<times> 'w) \<Rightarrow> 'w tool" where
  "list_queues_tool hook =
     \<lparr>tl_name = ''manage_list_queues'',
      tl_description = ''List queues/addresses on the broker with message and consumer counts. Read-only.'',
      tl_schema = object_schema [] [],
      tl_annotations = [(''title'', JStr ''List queues''), (''readOnlyHint'', JBool True), (''openWorldHint'', JBool True)],
      tl_handler = list_queues_handler hook\<rparr>"

definition list_topics_tool :: "('w ctx \<Rightarrow> 'w \<Rightarrow> (gerr + topic_info list option) \<times> 'w) \<Rightarrow> 'w tool" where
  "list_topics_tool hook =
     \<lparr>tl_name = ''manage_list_topics'',
      tl_description = ''List topics on the broker. Read-only.'',
      tl_schema = object_schema [] [],
      tl_annotations = [(''title'', JStr ''List topics''), (''readOnlyHint'', JBool True), (''openWorldHint'', JBool True)],
      tl_handler = list_topics_handler hook\<rparr>"

definition queue_stats_tool :: "'w mcp_env \<Rightarrow> ('w ctx \<Rightarrow> string \<Rightarrow> 'w \<Rightarrow> (gerr + queue_stats option) \<times> 'w) \<Rightarrow> 'w tool" where
  "queue_stats_tool env hook =
     \<lparr>tl_name = ''manage_queue_stats'',
      tl_description = ''Show statistics for one queue (message count, consumers, lifetime enqueue/dequeue). Read-only.'',
      tl_schema = object_schema [(''queue'', string_prop ''Queue name to inspect.'')] [''queue''],
      tl_annotations = [(''title'', JStr ''Queue statistics''), (''readOnlyHint'', JBool True), (''openWorldHint'', JBool True)],
      tl_handler = queue_stats_handler env hook\<rparr>"

definition purge_tool :: "'w mcp_env \<Rightarrow> ('w ctx \<Rightarrow> string \<Rightarrow> 'w \<Rightarrow> (gerr + int) \<times> 'w) \<Rightarrow> 'w tool" where
  "purge_tool env hook =
     \<lparr>tl_name = ''manage_purge_queue'',
      tl_description = prose (''Permanently delete ALL messages from a queue. This is irreversible. '' @
        ''As a guard, `confirm` must be set to true or the call is rejected.''),
      tl_schema = object_schema [(''queue'', string_prop ''Queue to purge.''),
        (''confirm'', bool_prop ''Must be true to actually purge. Acts as a safety interlock.'')] [''queue'', ''confirm''],
      tl_annotations = [(''title'', JStr ''Purge queue''), (''readOnlyHint'', JBool False), (''destructiveHint'', JBool True),
        (''idempotentHint'', JBool True), (''openWorldHint'', JBool True)],
      tl_handler = purge_handler env hook\<rparr>"

section \<open>The server of a broker\<close>

definition deps_tools :: "'w mcp_env \<Rightarrow> 'w deps \<Rightarrow> 'w tool list" where
  "deps_tools env d =
     (if dp_new_queue d \<noteq> None then [send_tool env d, request_tool env d, peek_tool env d, receive_tool env d] else []) @
     (if dp_new_topic d \<noteq> None then [publish_tool env d, consume_tool env d] else []) @
     [ping_tool env d] @
     (case dp_list_queues d of None \<Rightarrow> [] | Some h \<Rightarrow> [list_queues_tool h]) @
     (case dp_queue_stats d of None \<Rightarrow> [] | Some h \<Rightarrow> [queue_stats_tool env h]) @
     (case dp_purge_queue d of None \<Rightarrow> [] | Some h \<Rightarrow> [purge_tool env h]) @
     (case dp_list_topics d of None \<Rightarrow> [] | Some h \<Rightarrow> [list_topics_tool h])"

definition new_server_from_deps :: "'w mcp_env \<Rightarrow> 'w deps \<Rightarrow> 'w server" where
  "new_server_from_deps env d =
     foldl add_tool (new_server (or_default (dp_server_name d) ''xmc'') (or_default (dp_server_version d) ''dev''))
       (deps_tools env d)"

end
