(* ===== verification/Mcp_Calls.thy ===== *)
theory Mcp_Calls
  imports Mcp_Tools Trace
begin

text \<open>
  What a call of a tool does to the broker: the tools run against traced factories, whatever
  broker is behind them, and the trace tells what was opened, sent, taken and closed.
\<close>

section \<open>Traced dependencies\<close>

definition lift_hook :: "('w ctx \<Rightarrow> 'w \<Rightarrow> 'r \<times> 'w) \<Rightarrow> 'w traced ctx \<Rightarrow> 'w traced \<Rightarrow> 'r \<times> 'w traced" where
  "lift_hook h ctx s = (case h (lower ctx (snd s)) (fst s) of (r, w) \<Rightarrow> (r, (w, snd s)))"

definition traced_purge ::
    "('w ctx \<Rightarrow> string \<Rightarrow> 'w \<Rightarrow> 'r \<times> 'w) \<Rightarrow> 'w traced ctx \<Rightarrow> string \<Rightarrow> 'w traced \<Rightarrow> 'r \<times> 'w traced" where
  "traced_purge h ctx q s = (case h (lower ctx (snd s)) q (fst s) of (r, w) \<Rightarrow> (r, (w, snd s @ [EvPurge q])))"

definition traced_deps :: "'w deps \<Rightarrow> 'w traced deps" where
  "traced_deps d =
     \<lparr>dp_server_name = dp_server_name d, dp_server_version = dp_server_version d, dp_target = dp_target d,
      dp_new_queue = map_option (traced_factory traced_queue) (dp_new_queue d),
      dp_new_topic = map_option (traced_factory traced_topic) (dp_new_topic d),
      dp_list_queues = map_option lift_hook (dp_list_queues d),
      dp_purge_queue = map_option traced_purge (dp_purge_queue d),
      dp_queue_stats = map_option (\<lambda>h ctx q. lift_hook (\<lambda>c. h c q) ctx) (dp_queue_stats d),
      dp_list_topics = map_option lift_hook (dp_list_topics d)\<rparr>"

section \<open>Computations that keep a measure of the world\<close>

definition keeps :: "('s \<Rightarrow> 'x) \<Rightarrow> ('s \<Rightarrow> 'r \<times> 's) \<Rightarrow> bool" where
  "keeps m f \<longleftrightarrow> (\<forall>s r s'. f s = (r, s') \<longrightarrow> m s' = m s)"

lemma keepsI: "(\<And>s r s'. f s = (r, s') \<Longrightarrow> m s' = m s) \<Longrightarrow> keeps m f"
  unfolding keeps_def by blast

lemma keepsD: "keeps m f \<Longrightarrow> f s = (r, s') \<Longrightarrow> m s' = m s"
  unfolding keeps_def by blast

lemma keeps_return: "keeps m (\<lambda>s. (r, s))"
  by (simp add: keeps_def)

lemma keeps_if: "keeps m f \<Longrightarrow> keeps m g \<Longrightarrow> keeps m (\<lambda>s. if b then f s else g s)"
  by (simp add: keeps_def)

lemma keeps_option:
  "keeps m f \<Longrightarrow> (\<And>a. keeps m (g a)) \<Longrightarrow> keeps m (\<lambda>s. case x of None \<Rightarrow> f s | Some a \<Rightarrow> g a s)"
  by (cases x) simp_all

lemma keeps_prod: "(\<And>a b. keeps m (g a b)) \<Longrightarrow> keeps m (\<lambda>s. case x of (a, b) \<Rightarrow> g a b s)"
  by (cases x) simp

lemma keeps_hook:
  "keeps m f \<Longrightarrow> keeps m (\<lambda>s. case f s of (Inl e, s') \<Rightarrow> (g e, s') | (Inr x, s') \<Rightarrow> (h x, s'))"
  unfolding keeps_def by (auto split: prod.splits sum.splits)

text \<open>A deadline is set when the call begins.\<close>

lemma keeps_start: "(\<And>s. keeps m (f (c s))) \<Longrightarrow> keeps m (\<lambda>s. f (c s) s)"
  unfolding keeps_def by blast

lemma keeps_repeat_call: "keeps m f \<Longrightarrow> keeps m (repeat_call f i n)"
proof (induction n arbitrary: i)
  case (Suc n)
  then show ?case unfolding keeps_def by (fastforce split: prod.splits option.splits)
qed (simp add: keeps_def)

lemma keeps_repeat:
  assumes "keeps m f"
  shows "keeps m (\<lambda>s. case repeat_call f i n s of (Some (k, e), s') \<Rightarrow> (g k e, s') | (None, s') \<Rightarrow> (r, s'))"
  using keeps_repeat_call [OF assms, of i n] unfolding keeps_def by (auto split: prod.splits option.splits)

lemma keeps_read_upto: "keeps m nxt \<Longrightarrow> keeps m (read_upto nxt n acc)"
proof (induction n arbitrary: acc)
  case (Suc n)
  show ?case
  proof (rule keepsI)
    fix s r s'
    assume run: "read_upto nxt (Suc n) acc s = (r, s')"
    obtain x e s1 where f: "nxt s = ((x, e), s1)" by (metis surj_pair)
    then have "m s1 = m s" using keepsD [OF Suc.prems] by blast
    moreover have "s' = s1 \<or> m s' = m s1"
      using run f keepsD [OF Suc.IH [OF Suc.prems]] by (cases e; cases x) (auto split: if_splits)
    ultimately show "m s' = m s" by auto
  qed
qed (simp add: keeps_def)

lemma keeps_read: "keeps m nxt \<Longrightarrow> keeps m (read_loop cd verb kind name count nxt)"
  using keeps_read_upto [of m nxt "nat count" "[]"] unfolding keeps_def read_loop_def
  by (fastforce split: if_splits prod.splits sum.splits)

section \<open>Weighing the trace\<close>

definition tally :: "(event \<Rightarrow> int) \<Rightarrow> 'w traced \<Rightarrow> int" where
  "tally wt s = sum_list (map wt (snd s))"

lemma lift_hook_tally: "keeps (tally wt) (lift_hook h ctx)"
  by (rule keepsI) (auto simp: lift_hook_def tally_def split: prod.splits)

lemma traced_purge_tally: "wt (EvPurge q) = 0 \<Longrightarrow> keeps (tally wt) (traced_purge h ctx q)"
  by (rule keepsI) (auto simp: traced_purge_def tally_def split: prod.splits)

text \<open>
  Weights under which a connection opened and closed counts nothing, nor does a browse
  cursor, nor a look at a message.
\<close>

locale looking =
  fixes wt :: "event \<Rightarrow> int"
  assumes closes: "wt EvClose = - wt EvOpen"
    and cursors: "wt EvBrowserClose = - wt (EvBrowse x True)" "wt (EvBrowse x False) = 0"
    and looks: "wt (EvNext r) = 0" "\<not> ro_acknowledge x \<Longrightarrow> wt (EvReceive x r) = 0"
begin

lemma queue_close: "qb_close (traced_queue q) s = (e, s') \<Longrightarrow> tally wt s' = tally wt s - wt EvOpen"
  by (cases s) (auto simp: traced_queue_def tally_def closes split: prod.splits)

lemma topic_close: "tb_close (traced_topic t) s = (e, s') \<Longrightarrow> tally wt s' = tally wt s - wt EvOpen"
  by (cases s) (auto simp: traced_topic_def tally_def closes split: prod.splits)

lemma factory:
  assumes "traced_factory wrap f s = (r, s')"
  obtains (error) e where "r = Inl e" "tally wt s' = tally wt s"
    | (adapter) a where "r = Inr (wrap a)" "tally wt s' = tally wt s + wt EvOpen"
  using assms by (fastforce simp: traced_factory_def tally_def split: prod.splits sum.splits)

lemma cursor_next: "keeps (tally wt) (br_next (traced_browser b) c)"
  by (rule keepsI) (auto simp: traced_browser_def tally_def looks split: prod.splits)

lemma cursor_close: "br_close (traced_browser b) s = (e, s') \<Longrightarrow> tally wt s' = tally wt s - wt (EvBrowse x True)"
  by (cases s) (auto simp: traced_browser_def tally_def cursors(1) [of x] split: prod.splits)

lemma browse_cases:
  assumes "qb_browse (traced_queue q) = Some br" and "br c x s = (r, s')"
  obtains (failed) e where "r = Inl e" "tally wt s' = tally wt s"
    | (cursor) b where "r = Inr (traced_browser b)" "tally wt s' = tally wt s + wt (EvBrowse x True)"
  using assms by (cases s) (auto simp: traced_queue_def tally_def cursors(2) split: prod.splits sum.splits)

lemma receive_tally:
  "\<not> ro_acknowledge x \<or> (\<forall>r. wt (EvReceive x r) = 0) \<Longrightarrow> keeps (tally wt) (qb_receive (traced_queue q) c x)"
  by (rule keepsI) (auto simp: go_step tally_def looks split: prod.splits)

lemma keeps_queue:
  assumes "\<And>q. keeps (tally wt) (fn (traced_queue q))"
  shows "keeps (tally wt) (with_queue (traced_deps d) fn)"
proof (rule keepsI)
  fix s r s'
  assume run: "with_queue (traced_deps d) fn s = (r, s')"
  show "tally wt s' = tally wt s"
  proof (cases "dp_new_queue d")
    case None
    then show ?thesis using run by (simp add: with_queue_def traced_deps_def)
  next
    case (Some f)
    obtain x s1 where x: "traced_factory traced_queue f s = (x, s1)" by (meson surj_pair)
    then show ?thesis
    proof (cases rule: factory)
      case error
      then show ?thesis using run Some x by (simp add: with_queue_def traced_deps_def)
    next
      case (adapter q)
      obtain y s2 where y: "fn (traced_queue q) s1 = (y, s2)" by (meson surj_pair)
      then show ?thesis
        using run Some x adapter keepsD [OF assms y] queue_close [of q s2]
        by (cases "qb_close (traced_queue q) s2") (auto simp: with_queue_def traced_deps_def)
    qed
  qed
qed

lemma keeps_topic:
  assumes "\<And>t. keeps (tally wt) (fn (traced_topic t))"
  shows "keeps (tally wt) (with_topic (traced_deps d) fn)"
proof (rule keepsI)
  fix s r s'
  assume run: "with_topic (traced_deps d) fn s = (r, s')"
  show "tally wt s' = tally wt s"
  proof (cases "dp_new_topic d")
    case None
    then show ?thesis using run by (simp add: with_topic_def traced_deps_def)
  next
    case (Some f)
    obtain x s1 where x: "traced_factory traced_topic f s = (x, s1)" by (meson surj_pair)
    then show ?thesis
    proof (cases rule: factory)
      case error
      then show ?thesis using run Some x by (simp add: with_topic_def traced_deps_def)
    next
      case (adapter t)
      obtain y s2 where y: "fn (traced_topic t) s1 = (y, s2)" by (meson surj_pair)
      then show ?thesis
        using run Some x adapter keepsD [OF assms y] topic_close [of t s2]
        by (cases "tb_close (traced_topic t) s2") (auto simp: with_topic_def traced_deps_def)
    qed
  qed
qed

text \<open>The browse cursor of a peek is closed too.\<close>

lemma keeps_read_queue:
  assumes quiet: "\<not> ro_acknowledge opts \<or> (\<forall>r. wt (EvReceive opts r) = 0)"
  shows "keeps (tally wt) (read_queue env ctx a count opts (traced_queue q))"
proof (rule keepsI)
  fix s r s'
  let ?loop = "read_loop (mv_codec env) ''read'' ''queue'' (da_queue a) count"
  assume h: "read_queue env ctx a count opts (traced_queue q) s = (r, s')"
  have receive: "?loop (qb_receive (traced_queue q) ctx opts) s1 = (x, s2) \<Longrightarrow> tally wt s2 = tally wt s1" for s1 x s2
    by (rule keepsD [OF keeps_read [OF receive_tally [OF quiet]]])
  show "tally wt s' = tally wt s"
  proof (cases "if ro_acknowledge opts then None else qb_browse (traced_queue q)")
    case None
    then show ?thesis using h receive by (auto simp: read_queue_def Let_def)
  next
    case (Some br)
    then have br: "qb_browse (traced_queue q) = Some br" by (auto split: if_splits)
    obtain x s1 where x: "br ctx opts s = (x, s1)" by (meson surj_pair)
    from br x show ?thesis
    proof (cases rule: browse_cases)
      case (failed e)
      then show ?thesis using h Some x receive by (auto simp: read_queue_def Let_def split: if_splits)
    next
      case (cursor b)
      obtain y s2 where y: "?loop (br_next (traced_browser b) ctx) s1 = (y, s2)" by (meson surj_pair)
      then have "tally wt s2 = tally wt s1" by (rule keepsD [OF keeps_read [OF cursor_next]])
      moreover have "s' = snd (br_close (traced_browser b) s2)"
        using h Some x cursor y by (simp add: read_queue_def Let_def)
      ultimately show ?thesis
        using cursor_close [of b s2 _ _ opts] cursor(2) by (cases "br_close (traced_browser b) s2") auto
    qed
  qed
qed

lemma keeps_read_handler:
  assumes "\<And>opts r. ro_acknowledge opts = ack \<Longrightarrow> ack \<Longrightarrow> wt (EvReceive opts r) = 0"
  shows "keeps (tally wt) (read_handler ack env (traced_deps d) ctx raw)"
proof -
  have quiet: "keeps (tally wt) (read_queue env cx a n (read_opts a t ack) (traced_queue q))" for cx a n t q
    by (rule keeps_read_queue) (use assms in \<open>auto simp: read_opts_def\<close>)
  show ?thesis
    unfolding read_handler_def read_messages_def Let_def
    by (rule keeps_option, rule keeps_return, rule keeps_if, rule keeps_return, rule keeps_if, rule keeps_return)
      (rule keeps_start [where f = "\<lambda>cx. with_queue (traced_deps d) (read_queue env cx a n x)" for a n x],
        rule keeps_queue, rule quiet)
qed

lemma keeps_ping: "keeps (tally wt) (ping_handler env (traced_deps d) ctx raw)"
proof (rule keepsI)
  fix s r s'
  assume h: "ping_handler env (traced_deps d) ctx raw s = (r, s')"
  show "tally wt s' = tally wt s"
  proof (cases "dp_new_queue d")
    case (Some f)
    obtain x s1 where x: "traced_factory traced_queue f s = (x, s1)" by (meson surj_pair)
    then show ?thesis
    proof (cases rule: factory)
      case error
      then show ?thesis using h Some x by (simp add: ping_handler_def ping_connect_def traced_deps_def)
    next
      case (adapter q)
      then show ?thesis
        using h Some x queue_close [of q s1]
        by (cases "qb_close (traced_queue q) s1") (auto simp: ping_handler_def ping_connect_def traced_deps_def)
    qed
  next
    case nq: None
    show ?thesis
    proof (cases "dp_new_topic d")
      case None
      then show ?thesis using h nq by (simp add: ping_handler_def ping_connect_def traced_deps_def)
    next
      case (Some f)
      obtain x s1 where x: "traced_factory traced_topic f s = (x, s1)" by (meson surj_pair)
      then show ?thesis
      proof (cases rule: factory)
        case error
        then show ?thesis using h nq Some x by (simp add: ping_handler_def ping_connect_def traced_deps_def)
      next
        case (adapter t)
        then show ?thesis
          using h nq Some x topic_close [of t s1]
          by (cases "tb_close (traced_topic t) s1") (auto simp: ping_handler_def ping_connect_def traced_deps_def)
      qed
    qed
  qed
qed

lemma keeps_hooks:
  "keeps (tally wt) (list_queues_handler (lift_hook hq) ctx raw)"
  "keeps (tally wt) (list_topics_handler (lift_hook ht) ctx raw)"
  "keeps (tally wt) (queue_stats_handler env (\<lambda>ctx q. lift_hook (\<lambda>c. hs c q) ctx) ctx raw)"
  unfolding list_queues_handler_def list_topics_handler_def queue_stats_handler_def
  by (intro keeps_option keeps_if keeps_return keeps_hook lift_hook_tally)+

lemmas looking_tools = keeps_ping keeps_hooks

end

text \<open>Weights under which only a purge may count.\<close>

locale working = looking +
  assumes works: "wt (EvSend x1 e) = 0" "wt (EvReceive x2 r) = 0" "wt (EvPublish x3 e) = 0"
    "wt (EvSubscribe x4 r) = 0" "wt (EvRequest x5 r) = 0"
begin

lemma keeps_calls:
  "keeps (tally wt) (qb_send (traced_queue q) c x1)" "keeps (tally wt) (tb_publish (traced_topic t) c x3)"
  "keeps (tally wt) (tb_subscribe (traced_topic t) c x4)"
  by (rule keepsI; auto simp: go_step tally_def works split: prod.splits)+

lemma native_tally:
  "qb_request (traced_queue q) = Some rq \<Longrightarrow> rq c x s = (r, s') \<Longrightarrow> tally wt s' = tally wt s"
  by (cases s) (auto simp: traced_queue_def tally_def works split: prod.splits)

lemma request_tally: "request rnd c (traced_queue q) x s = (r, s') \<Longrightarrow> tally wt s' = tally wt s"
  by (rule request_keeps [where f = "tally wt"])
    (blast intro: native_tally keepsD [OF keeps_calls(1)] keepsD [OF receive_tally] works)+

lemma keeps_send: "keeps (tally wt) (send_handler env (traced_deps d) ctx raw)"
  unfolding send_handler_def Let_def
  by (rule keeps_option, rule keeps_return, rule keeps_if, rule keeps_return, rule keeps_if, rule keeps_return)
    (rule keeps_queue, rule keeps_repeat, rule keeps_calls)

lemma keeps_publish: "keeps (tally wt) (publish_handler env (traced_deps d) ctx raw)"
  unfolding publish_handler_def Let_def
  by (rule keeps_option, rule keeps_return, rule keeps_if, rule keeps_return, rule keeps_if, rule keeps_return)
    (rule keeps_topic, rule keeps_repeat, rule keeps_calls)

lemma keeps_consume: "keeps (tally wt) (consume_handler env (traced_deps d) ctx raw)"
  unfolding consume_handler_def Let_def
  by (rule keeps_option, rule keeps_return, rule keeps_if, rule keeps_return, rule keeps_if, rule keeps_return)
    (rule keeps_start [where f = "\<lambda>cx. with_topic (traced_deps d) (\<lambda>t. read_loop c v k n m (tb_subscribe t cx u))" for c v k n m u],
      rule keeps_topic, rule keeps_read, rule keeps_calls)

lemma keeps_answer:
  "keeps (tally wt) (\<lambda>w1. case request (rnd w1) cx (traced_queue q) x w1 of
      ((m, Some e), w2) \<Rightarrow> (f e, w2) | ((None, None), w2) \<Rightarrow> (g, w2) | ((Some m, None), w2) \<Rightarrow> (h m, w2))"
proof (rule keepsI)
  fix s r s'
  assume run: "(case request (rnd s) cx (traced_queue q) x s of
      ((m, Some e), w2) \<Rightarrow> (f e, w2) | ((None, None), w2) \<Rightarrow> (g, w2) | ((Some m, None), w2) \<Rightarrow> (h m, w2)) = (r, s')"
  obtain m e s2 where q: "request (rnd s) cx (traced_queue q) x s = ((m, e), s2)" by (metis surj_pair)
  then have "s' = s2" using run by (cases e; cases m) auto
  then show "tally wt s' = tally wt s" using request_tally [OF q] by simp
qed

lemma keeps_request: "keeps (tally wt) (request_handler env (traced_deps d) ctx raw)"
  unfolding request_handler_def Let_def
  by (rule keeps_option, rule keeps_return, rule keeps_if, rule keeps_return)
    (rule keeps_start [where f = "\<lambda>cx. with_queue (traced_deps d) (\<lambda>q w1. case request (mv_random env w1) cx q x w1 of
        ((m, Some e), w2) \<Rightarrow> (f e, w2) | ((None, None), w2) \<Rightarrow> (g, w2) | ((Some m, None), w2) \<Rightarrow> (h m, w2))" for x f g h],
      rule keeps_queue, rule keeps_answer)

lemmas working_tools = keeps_send keeps_publish keeps_consume keeps_request keeps_read_handler [OF works(2)] looking_tools

end

lemma traced_hooks:
  "dp_list_queues (traced_deps d) = map_option lift_hook (dp_list_queues d)"
  "dp_purge_queue (traced_deps d) = map_option traced_purge (dp_purge_queue d)"
  "dp_queue_stats (traced_deps d) = map_option (\<lambda>h ctx q. lift_hook (\<lambda>c. h c q) ctx) (dp_queue_stats d)"
  "dp_list_topics (traced_deps d) = map_option lift_hook (dp_list_topics d)"
  by (simp_all add: traced_deps_def)

lemmas tool_defs = deps_tools_def send_tool_def request_tool_def peek_tool_def receive_tool_def publish_tool_def
  consume_tool_def ping_tool_def list_queues_tool_def queue_stats_tool_def purge_tool_def list_topics_tool_def traced_hooks

context working begin

lemma keeps_tool:
  assumes "t \<in> set (deps_tools env (traced_deps d))" and "tl_name t \<noteq> ''manage_purge_queue''"
  shows "keeps (tally wt) (tl_handler t ctx args)"
  using assms working_tools by (auto simp: tool_defs split: option.splits if_splits)

end

text \<open>Connections and browse cursors that are open.\<close>

fun event_open :: "event \<Rightarrow> int" where
  "event_open EvBrowserClose = -1"
| "event_open (EvBrowse x ok) = (if ok then 1 else 0)"
| "event_open e = event_balance e"

interpretation conns: working event_open
  by unfold_locales simp_all

text \<open>Operations that change what the broker holds.\<close>

fun event_change :: "event \<Rightarrow> int" where
  "event_change (EvSend x e) = 1"
| "event_change (EvPublish x e) = 1"
| "event_change (EvReceive x r) = (if ro_acknowledge x then 1 else 0)"
| "event_change (EvSubscribe x r) = 1"
| "event_change (EvRequest x r) = 1"
| "event_change (EvPurge q) = 1"
| "event_change e = 0"

interpretation browsing: looking event_change
  by unfold_locales simp_all

section \<open>What every tool keeps, the server keeps\<close>

locale kept_by_tools =
  fixes s :: "'w server" and kept :: "'w \<Rightarrow> 'x"
  assumes handler_kept: "sv_by_name s n = Some t \<Longrightarrow> tl_handler t ctx args w = (r, w') \<Longrightarrow> kept w' = kept w"
begin

lemma run_tool_kept:
  "sv_by_name s n = Some t \<Longrightarrow> run_tool ctx t args w = (r, w') \<Longrightarrow> kept w' = kept w"
  using handler_kept by (fastforce simp: run_tool_def split: prod.splits outcome.splits)

lemma tools_call_kept: "tools_call s ctx params w = (r, w') \<Longrightarrow> kept w' = kept w"
  using run_tool_kept by (fastforce simp: tools_call_def split: option.splits prod.splits sum.splits)

lemma route_kept: "route s ctx meth params w = (r, w') \<Longrightarrow> kept w' = kept w"
  using tools_call_kept by (auto simp: route_def split: if_splits)

lemma handle_kept: "handle s ctx raw w = (r, w') \<Longrightarrow> kept w' = kept w"
  using route_kept by (fastforce simp: handle_def split: option.splits if_splits prod.splits sum.splits)

lemma replies_kept:
  assumes "\<And>t w e w'. put t w = (e, w') \<Longrightarrow> kept w' = kept w"
  shows "replies s ctx put ls w = (outs, w') \<Longrightarrow> kept w' = kept w"
proof (induction ls arbitrary: w outs w')
  case (Cons l ls)
  obtain x w1 where h: "handle s ctx l w = (x, w1)" by (meson surj_pair)
  show ?case
  proof (cases x)
    case None
    then show ?thesis using Cons h handle_kept [OF h] by simp
  next
    case (Some resp)
    obtain e w2 where p: "put (resp @ newline) w1 = (e, w2)" by (meson surj_pair)
    obtain outs3 w3 where r: "replies s ctx put ls w2 = (outs3, w3)" by (meson surj_pair)
    have "w' = w2 \<or> w' = w3" using Cons.prems h Some p r by (cases e) auto
    then show ?thesis using handle_kept [OF h] assms [OF p] Cons.IH [OF r] by auto
  qed
qed simp

lemma stdio_kept:
  assumes "\<And>t w e w'. put t w = (e, w') \<Longrightarrow> kept w' = kept w"
    and "(stdio_step s ctx put)\<^sup>*\<^sup>* (stdio_start input rderr w) st"
  shows "kept (io_world st) = kept w"
proof -
  obtain k where "replies s ctx put (take k (stdin_lines input)) w = (io_log st, io_world st)"
    using stdio_reaches [OF assms(2)] unfolding stdio_inv_def by blast
  then show ?thesis by (rule replies_kept [rotated]) (rule assms(1))
qed

end

lemma registered_by_name: "sv_by_name (foldl add_tool s ts) n = Some t \<Longrightarrow> sv_by_name s n = Some t \<or> t \<in> set ts"
  by (induction ts arbitrary: s) (fastforce simp: add_tool_def Let_def split: if_splits)+

lemma registered_tools: "set (sv_tools (foldl add_tool s ts)) \<subseteq> set (sv_tools s) \<union> set ts"
  by (induction ts arbitrary: s) (fastforce simp: add_tool_def Let_def split: if_splits)+

lemma deps_tool:
  "sv_by_name (new_server_from_deps env d) n = Some t \<Longrightarrow> t \<in> set (deps_tools env d)"
  unfolding new_server_from_deps_def by (drule registered_by_name) (simp add: new_server_def)

text \<open>A purge runs on the queue that its arguments name, and only when they confirm it.\<close>

lemma purge_runs:
  assumes "purge_handler env (traced_purge h) ctx raw s = (r, s')"
  shows "tally wt s' = tally wt s \<or>
    (\<exists>q. decode_purge raw = Some (q, True) \<and> q \<noteq> [] \<and> tally wt s' = tally wt s + wt (EvPurge q))"
proof -
  have "tally wt s' = tally wt s + wt (EvPurge q)" if "traced_purge h ctx q s = (x, s')" for x q
    using that by (auto simp: traced_purge_def tally_def split: prod.splits)
  then show ?thesis
    using assms by (fastforce simp: purge_handler_def split: option.splits prod.splits if_splits sum.splits)
qed

lemma keeps_opened_tool:
  assumes "t \<in> set (deps_tools env (traced_deps d))"
  shows "keeps (tally event_open) (tl_handler t ctx args)"
proof (cases "tl_name t = ''manage_purge_queue''")
  case True
  then obtain h where "tl_handler t = purge_handler env (traced_purge h)"
    using assms by (auto simp: tool_defs split: option.splits if_splits)
  then show ?thesis using purge_runs [of env h ctx args _ _ _ event_open] by (fastforce intro: keepsI)
qed (rule conns.keeps_tool [OF assms])

interpretation closing: kept_by_tools "new_server_from_deps env (traced_deps d)" "tally event_open" for env d
  by unfold_locales (blast intro: keepsD [OF keeps_opened_tool [OF deps_tool]])

text \<open>The standard output of the server is not a connection of the broker.\<close>

lemma silent_writer_tally: "silent_writer out t w = (e, w') \<Longrightarrow> tally wt w' = tally wt w"
  using silent_writer_frame [of out t w e w'] by (simp add: tally_def)

section \<open>The server of a broker answers in order\<close>

text \<open>
  What the answers rely on of the surroundings: numbers are rendered as JSON numbers, and
  the values of message properties do not nest to the limit of a decoder.
\<close>

definition env_ok :: "'w mcp_env \<Rightarrow> bool" where
  "env_ok env \<longleftrightarrow> (\<forall>x. num_ok (mv_float env x)) \<and> (\<forall>v j. cd_any (mv_codec env) v = Inr j \<longrightarrow> json_ok 8990 j)"

lemma props_ok:
  "json_ok 1 (string_prop t)" "json_ok 1 (int_prop t)" "json_ok 1 (number_prop t)" "json_ok 1 (bool_prop t)" "json_ok 1 (map_prop t)"
  by (simp_all add: string_prop_def int_prop_def number_prop_def bool_prop_def map_prop_def json_map_def)

lemma object_schema_ok:
  assumes "\<forall>kv \<in> set ps. json_ok 1 (snd kv)"
  shows "json_ok 9000 (object_schema ps req)"
proof -
  have "json_ok 2 (json_map ps)" using json_map_ok [OF assms] by (simp add: numeral_2_eq_2)
  then have "json_ok 3 (object_schema ps req)"
    by (simp add: object_schema_def json_map_def)
  then show ?thesis by (rule json_ok_mono) simp
qed

lemma collect_Inr: "collect xs = Inr ys \<Longrightarrow> y \<in> set ys \<Longrightarrow> Inr y \<in> set xs"
proof (induction xs arbitrary: ys)
  case (Cons x xs)
  then show ?case by (cases x) (auto split: sum.splits)
qed simp

lemma message_json_ok:
  assumes "env_ok env" and "to_message_json (mv_codec env) m = Inr j"
  shows "json_ok 8992 j"
proof -
  obtain ps where ps: "collect (map (\<lambda>kv. case cd_any (mv_codec env) (snd kv) of Inl e \<Rightarrow> Inl e | Inr v \<Rightarrow> Inr (fst kv, v))
      (sort_key fst (m_properties m))) = Inr ps"
    using assms(2) by (auto simp: to_message_json_def split: sum.splits)
  have "json_ok 8990 (snd kv)" if "kv \<in> set ps" for kv
    using collect_Inr [OF ps that] assms(1) by (auto simp: env_ok_def split: sum.splits)
  then have "json_ok 8991 (JObj ps)" by simp
  then show ?thesis
    using assms(2) ps num_ok_int by (auto simp: to_message_json_def str_member_def)
qed

text \<open>A structured result within the limit.\<close>

definition fits :: "outcome \<Rightarrow> bool" where
  "fits x \<longleftrightarrow> (\<forall>r v. x = Returned (Inr r) \<longrightarrow> tr_structured r = Some (Inr v) \<longrightarrow> json_ok 9000 v)"

lemma fits_other [simp]: "fits (Returned (Inl e))" "fits (Panicked p)" "fits nil_call" "fits cap_panic" "fits (invalid_arguments env raw)"
    "fits (sent_after verb i count e)" "fits (request_failure env' a rt tmo e)"
  by (simp_all add: fits_def nil_call_def cap_panic_def invalid_arguments_def sent_after_def request_failure_def split: option.split)

lemma fits_result: "(\<And>j. v = Inr j \<Longrightarrow> json_ok 9000 j) \<Longrightarrow> fits (Returned (json_result v))"
  by (cases v) (simp_all add: fits_def json_result_def)

lemma fits_map: "\<forall>kv \<in> set kvs. json_ok 8999 (snd kv) \<Longrightarrow> fits (Returned (json_result (Inr (json_map kvs))))"
  using json_map_ok [of kvs 8999] by (intro fits_result) simp

lemma fits_messages:
  assumes "env_ok env"
  shows "fits (Returned (messages_result (mv_codec env) kind name ms))"
  unfolding messages_result_def
proof (rule fits_result)
  fix j
  assume j: "(case collect (map (to_message_json (mv_codec env)) ms) of Inl e \<Rightarrow> Inl e
    | Inr js \<Rightarrow> Inr (json_map [(kind, JStr name), (''count'', JNum (nat_text (length ms))), (''messages'', JArr js)])) = Inr j"
  then obtain js where js: "collect (map (to_message_json (mv_codec env)) ms) = Inr js"
    "j = json_map [(kind, JStr name), (''count'', JNum (nat_text (length ms))), (''messages'', JArr js)]"
    by (auto split: sum.splits)
  have "json_ok 8992 v" if "v \<in> set js" for v
    using collect_Inr [OF js(1) that] message_json_ok [OF assms] by auto
  then have "json_ok 8999 (JArr js)" using json_ok_mono [of 8992 _ 8998] by auto
  then show "json_ok 9000 j" unfolding js(2) using json_map_ok [of _ 8999] num_ok_nat by simp
qed

lemma fits_read_loop:
  "env_ok env \<Longrightarrow> fits (fst (read_loop (mv_codec env) verb kind name count nxt w))"
  using fits_messages by (auto simp: read_loop_def split: prod.split sum.split)

lemma fits_with_queue: "(\<And>q w. fits (fst (fn q w))) \<Longrightarrow> fits (fst (with_queue d fn w))"
proof -
  assume f: "\<And>q w. fits (fst (fn q w))"
  have "fits x" if "fn q w1 = (x, w2)" for q w1 x w2 using f [of q w1] that by simp
  then show ?thesis by (auto simp: with_queue_def split: option.split prod.split sum.split)
qed

lemma fits_with_topic: "(\<And>t w. fits (fst (fn t w))) \<Longrightarrow> fits (fst (with_topic d fn w))"
proof -
  assume f: "\<And>t w. fits (fst (fn t w))"
  have "fits x" if "fn t w1 = (x, w2)" for t w1 x w2 using f [of t w1] that by simp
  then show ?thesis by (auto simp: with_topic_def split: option.split prod.split sum.split)
qed

lemma fits_send: "fits (fst (send_handler env d ctx raw w))"
proof -
  have "fits (fst (case repeat_call f i n w of (Some (k, e), w2) \<Rightarrow> (sent_after v k c e, w2)
      | (None, w2) \<Rightarrow> (Returned (json_result (Inr (json_map [(a, JNum (int_text c)), (b, JStr t)]))), w2)))" for f i n w v c a b t
    using num_ok_int by (auto split: prod.split option.split intro!: fits_map)
  then show ?thesis
    unfolding send_handler_def Let_def by (auto split: option.split intro!: fits_with_queue)
qed

lemma fits_publish: "fits (fst (publish_handler env d ctx raw w))"
proof -
  have "fits (fst (case repeat_call f i n w of (Some (k, e), w2) \<Rightarrow> (sent_after v k c e, w2)
      | (None, w2) \<Rightarrow> (Returned (json_result (Inr (json_map [(a, JNum (int_text c)), (b, JStr t)]))), w2)))" for f i n w v c a b t
    using num_ok_int by (auto split: prod.split option.split intro!: fits_map)
  then show ?thesis
    unfolding publish_handler_def Let_def by (auto split: option.split intro!: fits_with_topic)
qed

lemma fits_consume: "env_ok env \<Longrightarrow> fits (fst (consume_handler env d ctx raw w))"
  unfolding consume_handler_def Let_def by (auto split: option.split intro!: fits_with_topic fits_read_loop)

lemma fits_request:
  assumes "env_ok env"
  shows "fits (fst (request_handler env d ctx raw w))"
proof -
  have m: "fits (Returned (json_result (to_message_json (mv_codec env) m)))" for m
    using message_json_ok [OF assms] json_ok_mono [of 8992 _ 9000] by (intro fits_result) auto
  show ?thesis
    unfolding request_handler_def Let_def
    by (auto split: option.split prod.split simp: m intro!: fits_with_queue)
qed

lemma fits_read:
  assumes "env_ok env"
  shows "fits (fst (read_handler ack env d ctx raw w))"
proof -
  have "fits (fst (read_queue env cx a n x q w))" for cx a n x q w
  proof -
    have loop: "fits r" if "read_loop (mv_codec env) v k m c nxt w1 = (r, w2)" for v k m c nxt w1 r w2
      using fits_read_loop [OF assms, of v k m c nxt w1] that by simp
    then show ?thesis
      using fits_read_loop [OF assms] by (auto simp: read_queue_def Let_def split: option.split prod.split sum.split)
  qed
  then show ?thesis
    unfolding read_handler_def read_messages_def Let_def by (auto split: option.split intro!: fits_with_queue)
qed

lemma fits_ping: "env_ok env \<Longrightarrow> fits (fst (ping_handler env d ctx raw w))"
  by (auto simp: ping_handler_def Let_def env_ok_def split: prod.split option.split sum.split intro!: fits_map)

lemma fits_list:
  assumes "\<And>x. json_ok 2 (f x)"
  shows "fits (Returned (json_result (Inr (json_map [(''count'', slice_count xs), (k, slice_json f xs)]))))"
proof -
  have "json_ok 8998 (f x)" for x using json_ok_mono [OF assms] by simp
  then show ?thesis using num_ok_nat by (intro fits_map) (auto simp: slice_count_def slice_json_def split: option.split)
qed

lemma info_ok: "json_ok 2 (queue_info_json q)" "json_ok 2 (queue_stats_json s)" "json_ok 2 (topic_info_json t)"
  using num_ok_int by (simp_all add: queue_info_json_def queue_stats_json_def topic_info_json_def str_member_def)

lemma fits_manage:
  "fits (fst (list_queues_handler hq ctx raw w))" "fits (fst (list_topics_handler ht ctx raw w))"
  "fits (fst (queue_stats_handler env hs ctx raw w))" "fits (fst (purge_handler env hp ctx raw w))"
proof -
  show "fits (fst (list_queues_handler hq ctx raw w))"
    using fits_list [of queue_info_json _ "''queues''"] info_ok by (auto simp: list_queues_handler_def split: prod.split sum.split)
  show "fits (fst (list_topics_handler ht ctx raw w))"
    using fits_list [of topic_info_json _ "''topics''"] info_ok by (auto simp: list_topics_handler_def split: prod.split sum.split)
  show "fits (fst (queue_stats_handler env hs ctx raw w))"
    using json_ok_mono [OF info_ok(2), of 9000]
    by (auto simp: queue_stats_handler_def split: prod.split sum.split option.split intro!: fits_result)
  show "fits (fst (purge_handler env hp ctx raw w))"
    using num_ok_int by (auto simp: purge_handler_def split: prod.split sum.split option.split intro!: fits_map)
qed

lemma tool_okI:
  assumes "json_ok 9000 (tl_schema t)" and "\<forall>kv \<in> set (tl_annotations t). json_ok 9000 (snd kv)"
    and "\<And>ctx args w. fits (fst (tl_handler t ctx args w))"
  shows "tool_ok t"
  using assms unfolding tool_ok_def fits_def by (metis fst_conv)

lemma deps_tool_ok:
  assumes "env_ok env" and "t \<in> set (deps_tools env d)"
  shows "tool_ok t"
proof -
  note schema = object_schema_ok props_ok [unfolded One_nat_def]
  have "tool_ok (send_tool env d)" "tool_ok (request_tool env d)" "tool_ok (publish_tool env d)" "tool_ok (consume_tool env d)"
    "tool_ok (ping_tool env d)" "tool_ok (peek_tool env d)" "tool_ok (receive_tool env d)"
    by (rule tool_okI; simp add: send_tool_def request_tool_def publish_tool_def consume_tool_def ping_tool_def peek_tool_def
        receive_tool_def read_schema_def schema fits_send fits_request fits_publish fits_consume fits_ping fits_read assms(1))+
  moreover have "tool_ok (list_queues_tool hq)" "tool_ok (list_topics_tool ht)" "tool_ok (queue_stats_tool env hs)" "tool_ok (purge_tool env hp)"
    for hq ht hs hp
    by (rule tool_okI; simp add: list_queues_tool_def list_topics_tool_def queue_stats_tool_def purge_tool_def schema fits_manage)+
  ultimately show ?thesis using assms(2) by (auto simp: deps_tools_def split: option.splits if_splits)
qed

lemma registered: "set (sv_tools (foldl add_tool (new_server name version) ts)) \<subseteq> set ts"
  using registered_tools [of "new_server name version" ts] by (auto simp: new_server_def)

lemma deps_server_ok: "env_ok env \<Longrightarrow> server_ok (new_server_from_deps env d)"
  using deps_tool_ok [of env _ d] deps_tool [of env d] registered unfolding server_ok_def
  by (metis new_server_from_deps_def subsetD)

end
