(* ===== verification/Mcp_Effects.thy ===== *)
theory Mcp_Effects
  imports Mcp_Calls
begin

text \<open>
  What a request to the server may do to the broker: how often a message is sent, which messages
  are taken and which of them are answered, when a queue is purged, and which tools leave the
  broker as it is.
\<close>

section \<open>Tools as clients of the traced backends\<close>

fun answered :: "outcome \<Rightarrow> bool" where
  "answered (Returned (Inr r)) = True"
| "answered x = False"

lemma answered_refused [simp]:
  "\<not> answered nil_call" "\<not> answered cap_panic" "\<not> answered (invalid_arguments env raw)"
  by (simp_all add: nil_call_def cap_panic_def invalid_arguments_def)

text \<open>What has been sent and taken is not touched by connecting and closing.\<close>

definition traffic :: "'w traced \<Rightarrow> (string \<times> string) list \<times> message list" where
  "traffic s = (sent s, taken s)"

lemma factory_traffic:
  assumes "traced_factory wrap f s = (x, s')"
  shows "traffic s' = traffic s \<and> (case x of Inl e \<Rightarrow> True | Inr a \<Rightarrow> a \<in> range wrap)"
  using assms by (auto simp: traced_factory_def traffic_def sent_def taken_def split: prod.splits sum.splits)

lemma queue_close_traffic: "qb_close (traced_queue q) s = (e, s') \<Longrightarrow> traffic s' = traffic s"
  by (cases s) (auto simp: traced_queue_def traffic_def sent_def taken_def split: prod.splits)

lemma topic_close_traffic: "tb_close (traced_topic t) s = (e, s') \<Longrightarrow> traffic s' = traffic s"
  by (cases s) (auto simp: traced_topic_def traffic_def sent_def taken_def split: prod.splits)

lemma with_queue_runs:
  assumes "with_queue (traced_deps d) fn s = (r, s')"
  obtains (unconnected) "\<not> answered r" "traffic s' = traffic s"
    | (connected) q s1 s2 where "fn (traced_queue q) s1 = (r, s2)" "traffic s1 = traffic s" "traffic s' = traffic s2"
proof (cases "dp_new_queue d")
  case None
  then show ?thesis using assms that(1) by (simp add: with_queue_def traced_deps_def)
next
  case (Some f)
  obtain x s1 where x: "traced_factory traced_queue f s = (x, s1)" by (meson surj_pair)
  note t = factory_traffic [OF x]
  show ?thesis
  proof (cases x)
    case (Inl e)
    then show ?thesis using assms Some x t that(1) by (auto simp: with_queue_def traced_deps_def)
  next
    case (Inr a)
    then obtain q where q: "a = traced_queue q" using t by auto
    obtain y s2 where y: "fn (traced_queue q) s1 = (y, s2)" by (meson surj_pair)
    obtain e s3 where c: "qb_close (traced_queue q) s2 = (e, s3)" by (meson surj_pair)
    show ?thesis
      using assms Some x Inr q y c t queue_close_traffic [OF c]
      by (intro that(2) [of q s1 s2]) (simp_all add: with_queue_def traced_deps_def)
  qed
qed

lemma with_topic_runs:
  assumes "with_topic (traced_deps d) fn s = (r, s')"
  obtains (unconnected) "\<not> answered r" "traffic s' = traffic s"
    | (connected) t s1 s2 where "fn (traced_topic t) s1 = (r, s2)" "traffic s1 = traffic s" "traffic s' = traffic s2"
proof (cases "dp_new_topic d")
  case None
  then show ?thesis using assms that(1) by (simp add: with_topic_def traced_deps_def)
next
  case (Some f)
  obtain x s1 where x: "traced_factory traced_topic f s = (x, s1)" by (meson surj_pair)
  note t = factory_traffic [OF x]
  show ?thesis
  proof (cases x)
    case (Inl e)
    then show ?thesis using assms Some x t that(1) by (auto simp: with_topic_def traced_deps_def)
  next
    case (Inr a)
    then obtain tp where tp: "a = traced_topic tp" using t by auto
    obtain y s2 where y: "fn (traced_topic tp) s1 = (y, s2)" by (meson surj_pair)
    obtain e s3 where c: "tb_close (traced_topic tp) s2 = (e, s3)" by (meson surj_pair)
    show ?thesis
      using assms Some x Inr tp y c t topic_close_traffic [OF c]
      by (intro that(2) [of tp s1 s2]) (simp_all add: with_topic_def traced_deps_def)
  qed
qed

section \<open>Sending\<close>

text \<open>A loop of writes of one entry.\<close>

lemma repeat_writes:
  assumes put: "\<And>s e s'. f s = (e, s') \<Longrightarrow> traffic s' = (sent s @ (if e = None then [x] else []), taken s)"
    and run: "repeat_call f i n s = (r, s')"
  shows "case r of None \<Rightarrow> traffic s' = (sent s @ replicate n x, taken s)
    | Some (k, e) \<Rightarrow> i \<le> k \<and> k < i + n \<and> traffic s' = (sent s @ replicate (k - i) x, taken s)"
  using run
proof (induction n arbitrary: i s)
  case 0
  then show ?case by (simp add: traffic_def)
next
  case (Suc n)
  obtain e s1 where f: "f s = (e, s1)" by (meson surj_pair)
  show ?case
  proof (cases e)
    case None
    then have "repeat_call f (Suc i) n s1 = (r, s')" using Suc.prems f by simp
    from Suc.IH [OF this] show ?thesis
      using put [OF f] None
      by (auto simp: traffic_def Suc_diff_le replicate_append_same simp flip: replicate_Suc split: option.splits prod.splits)
  next
    case (Some err)
    then show ?thesis using Suc.prems f put [OF f] by auto
  qed
qed


section \<open>Reading\<close>

text \<open>What a loop of reads took is what it returns, or the count that it reports.\<close>

context message_source begin

lemma read_upto_takes:
  "read_upto (get c) n acc s = (r, s') \<Longrightarrow>
   \<exists>ms. took s' = took s @ ms \<and> length ms \<le> n \<and>
     (case r of Inr out \<Rightarrow> out = acc @ ms
      | Inl (k, e) \<Rightarrow> k = length acc + length ms \<and> \<not> errors_is e ENoMessageAvailable \<and> \<not> errors_is e EDeadlineExceeded)"
proof (induction n arbitrary: acc s)
  case (Suc n)
  obtain x e s1 where f: "get c s = ((x, e), s1)" by (metis surj_pair)
  note t = read_took [OF f]
  show ?case
  proof (cases "\<exists>m. x = Some m \<and> e = None")
    case True
    then obtain m where m: "x = Some m" "e = None" by blast
    then have "read_upto (get c) n (acc @ [m]) s1 = (r, s')" using Suc.prems f by simp
    from Suc.IH [OF this] obtain ms where "took s' = took s1 @ ms" "length ms \<le> n"
      "case r of Inr out \<Rightarrow> out = (acc @ [m]) @ ms
       | Inl (k, e) \<Rightarrow> k = length (acc @ [m]) + length ms \<and> \<not> errors_is e ENoMessageAvailable \<and> \<not> errors_is e EDeadlineExceeded"
      by blast
    then show ?thesis using t m by (intro exI [of _ "m # ms"]) (auto split: sum.splits)
  next
    case False
    then have "read_msgs (x, e) = []" by (cases x; cases e) auto
    then show ?thesis
      using Suc.prems f t False by (intro exI [of _ "[]"]) (auto split: option.splits if_splits)
  qed
qed auto

end

interpretation queue_reads: message_source "\<lambda>c. qb_receive (traced_queue q) c x" taken for q x
  by unfold_locales (simp add: traced_receive_taken)

interpretation topic_reads: message_source "\<lambda>c. tb_subscribe (traced_topic t) c x" taken for t x
  by unfold_locales (simp add: traced_subscribe_taken)

text \<open>
  The messages \<open>ms\<close> are read_reported for by an outcome: it lists them all, or it is the error of the
  read after them, which names their number only.
\<close>

definition read_reported :: "codec \<Rightarrow> string \<Rightarrow> string \<Rightarrow> string \<Rightarrow> int \<Rightarrow> message list \<Rightarrow> outcome \<Rightarrow> bool" where
  "read_reported cd verb kind name count ms r \<longleftrightarrow> int (length ms) \<le> count \<and>
     (r = Returned (messages_result cd kind name ms) \<or>
      (\<exists>e. \<not> errors_is e ENoMessageAvailable \<and> \<not> errors_is e EDeadlineExceeded \<and>
        r = refuse (verb @ '' failed after '' @ nat_text (length ms) @ '' messages: '' @ err_text e)))"

context message_source begin

lemma read_loop_takes:
  assumes run: "read_loop cd verb kind name count (get c) s = (r, s')" and "1 \<le> count"
  shows "\<exists>ms. took s' = took s @ ms \<and> (\<not> answered r \<and> ms = [] \<or> read_reported cd verb kind name count ms r)"
proof (cases "message_cap < count")
  case True
  then have "r = cap_panic" "s' = s" using run by (simp_all add: read_loop_def)
  then show ?thesis by simp
next
  case False
  obtain x s1 where x: "read_upto (get c) (nat count) [] s = (x, s1)" by (meson surj_pair)
  from read_upto_takes [OF x] obtain ms where ms: "took s1 = took s @ ms" "length ms \<le> nat count"
    "case x of Inr out \<Rightarrow> out = [] @ ms
     | Inl (k, e) \<Rightarrow> k = length ([] :: message list) + length ms \<and> \<not> errors_is e ENoMessageAvailable \<and> \<not> errors_is e EDeadlineExceeded"
    by (elim exE conjE) (rule that)
  have count: "int (length ms) \<le> count" using ms(2) assms(2) by simp
  have "read_reported cd verb kind name count ms r \<and> s' = s1"
  proof (cases x)
    case (Inr out)
    then show ?thesis using run False x ms(3) count by (simp add: read_loop_def read_reported_def)
  next
    case (Inl ke)
    obtain k e where ke: "ke = (k, e)" by (meson surj_pair)
    have "r = refuse (verb @ '' failed after '' @ nat_text (length ms) @ '' messages: '' @ err_text e)" "s' = s1"
      using run False x ms(3) Inl ke by (simp_all add: read_loop_def)
    then show ?thesis using ms(3) count Inl ke unfolding read_reported_def by auto
  qed
  then show ?thesis using ms(1) by blast
qed

end

lemma traffic_eq: "traffic s' = traffic s \<longleftrightarrow> sent s' = sent s \<and> taken s' = taken s"
  by (simp add: traffic_def)

lemma keeps_sent_read:
  "keeps sent (read_loop cd verb kind name count (qb_receive (traced_queue q) c x))"
  "keeps sent (read_loop cd verb kind name count (tb_subscribe (traced_topic t) c y))"
  by (rule keeps_read, rule keepsI, simp add: traced_receive_taken traced_subscribe_taken)+

text \<open>The receive tool reads with acknowledgement and has no cursor.\<close>

lemma receive_runs:
  assumes "read_messages env (traced_deps d) ctx a True s = (r, s')"
  shows "sent s' = sent s \<and> (\<exists>ms. taken s' = taken s @ ms \<and> (\<not> answered r \<and> ms = [] \<or>
    read_reported (mv_codec env) ''read'' ''queue'' (da_queue a) (given (da_count a) 1) ms r))"
proof (cases "da_queue a = [] \<or> given (da_count a) 1 < 1")
  case True
  then show ?thesis using assms by (auto simp: read_messages_def Let_def split: if_splits)
next
  case False
  define cx where "cx = mv_timeout env ctx (whole_seconds (given (da_timeout a) 2 * of_int (given (da_count a) 1) + 5)) s"
  define opts where "opts = read_opts a (given (da_timeout a) 2) True"
  have "with_queue (traced_deps d) (read_queue env cx a (given (da_count a) 1) opts) s = (r, s')"
    using assms False by (simp add: read_messages_def Let_def cx_def opts_def)
  then show ?thesis
  proof (cases rule: with_queue_runs)
    case unconnected
    then show ?thesis by (auto simp: traffic_eq)
  next
    case (connected q s1 s2)
    have "ro_acknowledge opts" by (simp add: opts_def read_opts_def)
    then have loop: "read_loop (mv_codec env) ''read'' ''queue'' (da_queue a) (given (da_count a) 1)
        (qb_receive (traced_queue q) cx opts) s1 = (r, s2)"
      using connected(1) by (simp add: read_queue_def Let_def)
    show ?thesis
      using queue_reads.read_loop_takes [OF loop] keepsD [OF keeps_sent_read(1) loop] connected(2,3) False
      by (auto simp: traffic_eq)
  qed
qed

lemma consume_runs:
  assumes "consume_handler env (traced_deps d) ctx raw s = (r, s')"
  shows "sent s' = sent s \<and> (\<exists>ms. taken s' = taken s @ ms \<and> (\<not> answered r \<and> ms = [] \<or>
    (\<exists>a. decode_consume (mv_codec env) raw = Some a \<and>
      read_reported (mv_codec env) ''consume'' ''topic'' (ga_topic a) (given (ga_count a) 1) ms r)))"
proof (cases "\<exists>a. decode_consume (mv_codec env) raw = Some a \<and> ga_topic a \<noteq> [] \<and> \<not> given (ga_count a) 1 < 1")
  case False
  then show ?thesis using assms by (auto simp: consume_handler_def Let_def split: option.splits if_splits)
next
  case True
  then obtain a where a: "decode_consume (mv_codec env) raw = Some a" "ga_topic a \<noteq> []" "1 \<le> given (ga_count a) 1" by auto
  define cx where "cx = mv_timeout env ctx (whole_seconds (given (ga_timeout a) 2 * of_int (given (ga_count a) 1) + 5)) s"
  have "with_topic (traced_deps d) (\<lambda>t. read_loop (mv_codec env) ''consume'' ''topic'' (ga_topic a) (given (ga_count a) 1)
      (tb_subscribe t cx (group_opts a (given (ga_timeout a) 2)))) s = (r, s')"
    using assms a by (simp add: consume_handler_def Let_def cx_def)
  then show ?thesis
  proof (cases rule: with_topic_runs)
    case unconnected
    then show ?thesis by (auto simp: traffic_eq)
  next
    case (connected t s1 s2)
    show ?thesis
      using topic_reads.read_loop_takes [OF connected(1) a(3)] keepsD [OF keeps_sent_read(2) connected(1)] connected(2,3) a(1)
      by (auto simp: traffic_eq)
  qed
qed

text \<open>
  \<open>n\<close> writes of one entry are reported by an outcome: the whole count, or the number before the
  error that ended the loop.
\<close>

definition reported :: "string \<Rightarrow> string \<Rightarrow> string \<Rightarrow> string \<Rightarrow> int \<Rightarrow> nat \<Rightarrow> outcome \<Rightarrow> bool" where
  "reported verb past kind name count n r \<longleftrightarrow>
     int n = count \<and> r = Returned (json_result (Inr (json_map [(past, JNum (int_text count)), (kind, JStr name)]))) \<or>
     int n < count \<and> (\<exists>e. r = sent_after verb n count e)"

lemma repeat_reports:
  assumes put: "\<And>s e s'. f s = (e, s') \<Longrightarrow> traffic s' = (sent s @ (if e = None then [x] else []), taken s)"
    and run: "(case repeat_call f 0 (nat count) s of (Some (i, e), s') \<Rightarrow> (sent_after verb i count e, s')
      | (None, s') \<Rightarrow> (Returned (json_result (Inr (json_map [(past, JNum (int_text count)), (kind, JStr name)]))), s')) = (r, s')"
    and "1 \<le> count"
  shows "\<exists>n. traffic s' = (sent s @ replicate n x, taken s) \<and> reported verb past kind name count n r"
proof -
  obtain y s1 where y: "repeat_call f 0 (nat count) s = (y, s1)" by (meson surj_pair)
  note w = repeat_writes [OF put y]
  show ?thesis
  proof (cases y)
    case None
    then show ?thesis using run y w assms(3) by (intro exI [of _ "nat count"]) (simp add: reported_def)
  next
    case (Some ie)
    obtain i e where ie: "ie = (i, e)" by (meson surj_pair)
    have "r = sent_after verb i count e" "s' = s1" using run y Some ie by simp_all
    then show ?thesis using w Some ie assms(3) by (intro exI [of _ i]) (auto simp: reported_def)
  qed
qed

lemma send_runs:
  assumes "send_handler env (traced_deps d) ctx raw s = (r, s')"
  shows "taken s' = taken s \<and> (\<not> answered r \<and> sent s' = sent s \<or>
    (\<exists>a n. decode_send (mv_codec env) raw = Some a \<and> sent s' = sent s @ replicate n (sa_address a, sa_body a) \<and>
      reported ''send'' ''sent'' ''address'' (sa_address a) (given (sa_count a) 1) n r))"
proof (cases "\<exists>a. decode_send (mv_codec env) raw = Some a \<and> sa_address a \<noteq> [] \<and> \<not> given (sa_count a) 1 < 1")
  case False
  then show ?thesis using assms by (auto simp: send_handler_def Let_def split: option.splits if_splits)
next
  case True
  then obtain a where a: "decode_send (mv_codec env) raw = Some a" "sa_address a \<noteq> []" "1 \<le> given (sa_count a) 1" by auto
  let ?count = "given (sa_count a) 1"
  have "with_queue (traced_deps d) (\<lambda>q w1. case repeat_call (qb_send q ctx (send_message a)) 0 (nat ?count) w1 of
      (Some (i, e), w2) \<Rightarrow> (sent_after ''send'' i ?count e, w2)
    | (None, w2) \<Rightarrow> (Returned (json_result (Inr (json_map [(''sent'', JNum (int_text ?count)),
        (''address'', JStr (sa_address a))]))), w2)) s = (r, s')"
    using assms a by (simp add: send_handler_def Let_def)
  then show ?thesis
  proof (cases rule: with_queue_runs)
    case unconnected
    then show ?thesis by (simp add: traffic_eq)
  next
    case (connected q s1 s2)
    have "traffic s'' = (sent s0 @ (if e = None then [(sa_address a, sa_body a)] else []), taken s0)"
      if "qb_send (traced_queue q) ctx (send_message a) s0 = (e, s'')" for s0 e s''
      using traced_send_sent [OF that] by (simp add: traffic_def send_message_def)
    from repeat_reports [OF this connected(1) a(3)]
    show ?thesis using connected(2,3) a(1) by (auto simp: traffic_def)
  qed
qed

lemma publish_runs:
  assumes "publish_handler env (traced_deps d) ctx raw s = (r, s')"
  shows "taken s' = taken s \<and> (\<not> answered r \<and> sent s' = sent s \<or>
    (\<exists>a n. decode_publish (mv_codec env) raw = Some a \<and> sent s' = sent s @ replicate n (ta_topic a, ta_body a) \<and>
      reported ''publish'' ''published'' ''topic'' (ta_topic a) (given (ta_count a) 1) n r))"
proof (cases "\<exists>a. decode_publish (mv_codec env) raw = Some a \<and> ta_topic a \<noteq> [] \<and> \<not> given (ta_count a) 1 < 1")
  case False
  then show ?thesis using assms by (auto simp: publish_handler_def Let_def split: option.splits if_splits)
next
  case True
  then obtain a where a: "decode_publish (mv_codec env) raw = Some a" "ta_topic a \<noteq> []" "1 \<le> given (ta_count a) 1" by auto
  let ?count = "given (ta_count a) 1"
  have "with_topic (traced_deps d) (\<lambda>t w1. case repeat_call (tb_publish t ctx (topic_message a)) 0 (nat ?count) w1 of
      (Some (i, e), w2) \<Rightarrow> (sent_after ''publish'' i ?count e, w2)
    | (None, w2) \<Rightarrow> (Returned (json_result (Inr (json_map [(''published'', JNum (int_text ?count)),
        (''topic'', JStr (ta_topic a))]))), w2)) s = (r, s')"
    using assms a by (simp add: publish_handler_def Let_def)
  then show ?thesis
  proof (cases rule: with_topic_runs)
    case unconnected
    then show ?thesis by (simp add: traffic_eq)
  next
    case (connected t s1 s2)
    have "traffic s'' = (sent s0 @ (if e = None then [(ta_topic a, ta_body a)] else []), taken s0)"
      if "tb_publish (traced_topic t) ctx (topic_message a) s0 = (e, s'')" for s0 e s''
      using traced_publish_sent [OF that] by (simp add: traffic_def topic_message_def)
    from repeat_reports [OF this connected(1) a(3)]
    show ?thesis using connected(2,3) a(1) by (auto simp: traffic_def)
  qed
qed

section \<open>Requests as effects\<close>

text \<open>A request that is not a call of a tool leaves the world alone.\<close>

definition calls_tool :: "'w server \<Rightarrow> string \<Rightarrow> 'w tool \<Rightarrow> string \<Rightarrow> bool" where
  "calls_tool srv raw t args \<longleftrightarrow>
     (\<exists>req ms. decode_request raw = Some req \<and> rq_jsonrpc req = ''2.0'' \<and> rq_id req \<noteq> [] \<and>
        rq_method req = ''tools/call'' \<and> struct_members (rq_params req) = Some ms \<and>
        Option.bind (str_field ''name'' ms) (sv_by_name srv) = Some t \<and> raw_field ''arguments'' ms = Some args)"

lemma handle_calls:
  assumes "handle srv ctx raw w = (resp, w')" and "w' \<noteq> w"
  obtains t args r where "calls_tool srv raw t args" "tl_handler t ctx args w = (r, w')"
proof -
  obtain req where req: "decode_request raw = Some req" "rq_jsonrpc req = ''2.0''" "rq_id req \<noteq> []"
    "snd (route srv ctx (rq_method req) (rq_params req) w) = w'"
    using assms by (auto simp: handle_def split: option.splits if_splits prod.splits sum.splits)
  then have "rq_method req = ''tools/call'' \<and> snd (tools_call srv ctx (rq_params req) w) = w'"
    using assms(2) unfolding route_def by (auto split: if_splits)
  moreover obtain ms n args t where ms: "struct_members (rq_params req) = Some ms" "str_field ''name'' ms = Some n"
    "raw_field ''arguments'' ms = Some args" "sv_by_name srv n = Some t"
    using calculation assms(2) by (auto simp: tools_call_def bind_eq_Some_conv split: option.splits prod.splits sum.splits)
  ultimately have "calls_tool srv raw t args" "snd (run_tool ctx t args w) = w'"
    using req by (auto simp: calls_tool_def tools_call_def split: prod.splits sum.splits)
  then show ?thesis using that by (cases "tl_handler t ctx args w") (auto simp: run_tool_def split: outcome.splits)
qed

lemma calls_deps_tool:
  "calls_tool (new_server_from_deps env d) raw t args \<Longrightarrow> t \<in> set (deps_tools env d)"
  by (auto simp: calls_tool_def bind_eq_Some_conv dest: deps_tool)

section \<open>Properties\<close>

text \<open>
  C34: Every request closes what it opens: whatever tool is called with whatever arguments, on
  whatever broker, the number of connections and browse cursors open is the same before and
  after a request, and so it is over the answers to any list of lines.
\<close>

theorem mcp_calls_close:
  "tally event_open (snd (handle (new_server_from_deps env (traced_deps d)) ctx raw s)) = tally event_open s \<and>
   tally event_open (snd (replies (new_server_from_deps env (traced_deps d)) ctx (silent_writer out) ls s)) = tally event_open s"
proof
  let ?srv = "new_server_from_deps env (traced_deps d)"
  show "tally event_open (snd (handle ?srv ctx raw s)) = tally event_open s"
    by (cases "handle ?srv ctx raw s") (simp add: closing.handle_kept)
  show "tally event_open (snd (replies ?srv ctx (silent_writer out) ls s)) = tally event_open s"
    by (cases "replies ?srv ctx (silent_writer out) ls s") (simp add: closing.replies_kept [OF silent_writer_tally])
qed

text \<open>
  C32: The send and publish tools write the message as often as asked and say so, or stop at the
  first failure and say how many were written before it; a call that is refused writes nothing.
  They read nothing.
\<close>

theorem mcp_send_exact:
  "(case send_handler env (traced_deps d) ctx raw s of (r, s') \<Rightarrow>
     taken s' = taken s \<and> (\<not> answered r \<and> sent s' = sent s \<or>
     (\<exists>a n. decode_send (mv_codec env) raw = Some a \<and> sent s' = sent s @ replicate n (sa_address a, sa_body a) \<and>
       reported ''send'' ''sent'' ''address'' (sa_address a) (given (sa_count a) 1) n r))) \<and>
   (case publish_handler env (traced_deps d) ctx raw s of (r, s') \<Rightarrow>
     taken s' = taken s \<and> (\<not> answered r \<and> sent s' = sent s \<or>
     (\<exists>a n. decode_publish (mv_codec env) raw = Some a \<and> sent s' = sent s @ replicate n (ta_topic a, ta_body a) \<and>
       reported ''publish'' ''published'' ''topic'' (ta_topic a) (given (ta_count a) 1) n r)))"
  using send_runs [of env d ctx raw s] publish_runs [of env d ctx raw s] by (simp split: prod.split)


text \<open>Purges of one queue.\<close>

fun event_purges :: "string \<Rightarrow> event \<Rightarrow> int" where
  "event_purges x (EvPurge q) = (if q = x then 1 else 0)"
| "event_purges x e = 0"

interpretation purging: working "event_purges x" for x
  by unfold_locales simp_all

text \<open>
  C27: The interlock of purges: a request purges a queue, once, only if it is a call of
  \<open>manage_purge_queue\<close> whose arguments name that queue and set \<open>confirm\<close> to true.
\<close>

theorem mcp_purge_guard:
  "case handle (new_server_from_deps env (traced_deps d)) ctx raw s of (resp, s') \<Rightarrow>
     tally (event_purges x) s' = tally (event_purges x) s \<or>
     tally (event_purges x) s' = tally (event_purges x) s + 1 \<and>
       (\<exists>t args. calls_tool (new_server_from_deps env (traced_deps d)) raw t args \<and>
         tl_name t = ''manage_purge_queue'' \<and> decode_purge args = Some (x, True) \<and> x \<noteq> [])"
proof -
  let ?srv = "new_server_from_deps env (traced_deps d)" and ?m = "tally (event_purges x)"
  obtain resp s' where h: "handle ?srv ctx raw s = (resp, s')" by (meson surj_pair)
  have "?m s' = ?m s \<or> ?m s' = ?m s + 1 \<and> (\<exists>t args. calls_tool ?srv raw t args \<and>
      tl_name t = ''manage_purge_queue'' \<and> decode_purge args = Some (x, True) \<and> x \<noteq> [])"
  proof (cases "s' = s")
    case False
    with h obtain t args r where t: "calls_tool ?srv raw t args" "tl_handler t ctx args s = (r, s')"
      by (rule handle_calls)
    note member = calls_deps_tool [OF t(1)]
    show ?thesis
    proof (cases "tl_name t = ''manage_purge_queue''")
      case True
      then obtain hook where "tl_handler t = purge_handler env (traced_purge hook)"
        using member by (auto simp: tool_defs split: option.splits if_splits)
      then show ?thesis
        using purge_runs [of env hook ctx args s r s' "event_purges x"] t True by (auto split: if_splits)
    qed (use keepsD [OF purging.keeps_tool [OF member] t(2)] in simp)
  qed simp
  then show ?thesis using h by simp
qed

text \<open>
  C28: The annotations are honest: a tool that declares \<open>readOnlyHint\<close> neither sends, publishes,
  subscribes, requests nor purges, and receives only without acknowledging; so a request that
  does any of this calls a tool that does not declare it.
\<close>

theorem mcp_read_only:
  "case handle (new_server_from_deps env (traced_deps d)) ctx raw s of (resp, s') \<Rightarrow>
     tally event_change s' = tally event_change s \<or>
     (\<exists>t args. calls_tool (new_server_from_deps env (traced_deps d)) raw t args \<and>
       (''readOnlyHint'', JBool True) \<notin> set (tl_annotations t))"
proof -
  let ?srv = "new_server_from_deps env (traced_deps d)"
  obtain resp s' where h: "handle ?srv ctx raw s = (resp, s')" by (meson surj_pair)
  have "tally event_change s' = tally event_change s \<or>
    (\<exists>t args. calls_tool ?srv raw t args \<and> (''readOnlyHint'', JBool True) \<notin> set (tl_annotations t))"
  proof (cases "s' = s")
    case False
    with h obtain t args r where t: "calls_tool ?srv raw t args" "tl_handler t ctx args s = (r, s')"
      by (rule handle_calls)
    have quiet: "keeps (tally event_change) (tl_handler t ctx args)" if "(''readOnlyHint'', JBool True) \<in> set (tl_annotations t)"
      using calls_deps_tool [OF t(1)] that browsing.looking_tools browsing.keeps_read_handler [of False]
      by (auto simp: tool_defs split: option.splits if_splits)
    show ?thesis
    proof (cases "(''readOnlyHint'', JBool True) \<in> set (tl_annotations t)")
      case True
      from quiet [OF this] t(2) have "tally event_change s' = tally event_change s" by (rule keepsD)
      then show ?thesis ..
    qed (use t(1) in blast)
  qed simp
  then show ?thesis using h by simp
qed

end
