(* ===== verification/Structs.thy ===== *)
theory Structs
  imports Compact
begin

text \<open>
  The decoding of JSON into nested Go structs, slices and pointers.  Unlike a syntax error, a
  value of the wrong type does not stop the decoder: the field keeps what it holds, the other
  members are stored, and the first such error is returned at the end.  The sources that ignore
  the error go on with what was stored.
\<close>

section \<open>Decoders\<close>

text \<open>
  A decoder stores a value over what the variable holds, and says whether a type did not fit.
\<close>

type_synonym 'a decoder = "json \<Rightarrow> 'a \<Rightarrow> 'a \<times> bool"

definition dec_str :: "string decoder" where
  "dec_str v old = (case v of JNull \<Rightarrow> (old, False) | JStr s \<Rightarrow> (s, False) | _ \<Rightarrow> (old, True))"

definition dec_int :: "int decoder" where
  "dec_int v old =
     (case v of
        JNull \<Rightarrow> (old, False)
      | JNum t \<Rightarrow> (case parse_int64 t of Some i \<Rightarrow> (i, False) | None \<Rightarrow> (old, True))
      | _ \<Rightarrow> (old, True))"

text \<open>A pointer: \<open>null\<close> makes it nil, any other value makes it point somewhere.\<close>

definition dec_ptr :: "'a decoder \<Rightarrow> 'a \<Rightarrow> 'a option decoder" where
  "dec_ptr f zero v old =
     (if v = JNull then (None, False)
      else case f v (case old of None \<Rightarrow> zero | Some x \<Rightarrow> x) of (x, e) \<Rightarrow> (Some x, e))"

text \<open>A slice: its elements are decoded over those it had, beyond them over zero values.\<close>

fun dec_elems :: "'a decoder \<Rightarrow> 'a \<Rightarrow> json list \<Rightarrow> 'a list \<Rightarrow> 'a list \<times> bool" where
  "dec_elems f zero [] old = ([], False)"
| "dec_elems f zero (v # vs) old =
     (case f v (case old of [] \<Rightarrow> zero | x # _ \<Rightarrow> x) of (x, e) \<Rightarrow>
        (case dec_elems f zero vs (tl old) of (xs, e') \<Rightarrow> (x # xs, e \<or> e')))"

definition dec_slice :: "'a decoder \<Rightarrow> 'a \<Rightarrow> 'a list decoder" where
  "dec_slice f zero v old =
     (case v of JNull \<Rightarrow> ([], False) | JArr vs \<Rightarrow> dec_elems f zero vs old | _ \<Rightarrow> (old, True))"

text \<open>A struct is a list of named fields, each a decoder of the whole struct.\<close>

type_synonym 'a fields = "(string \<times> 'a decoder) list"

definition field_at :: "('s \<Rightarrow> 'a) \<Rightarrow> (('a \<Rightarrow> 'a) \<Rightarrow> 's \<Rightarrow> 's) \<Rightarrow> 'a decoder \<Rightarrow> 's decoder" where
  "field_at get upd f v s = (case f v (get s) of (x, e) \<Rightarrow> (upd (\<lambda>_. x) s, e))"

text \<open>A member goes to the field of its name, else to one that equals it up to case folding.\<close>

definition find_field :: "'a fields \<Rightarrow> string \<Rightarrow> 'a decoder option" where
  "find_field fs k =
     (case map_of fs k of
        Some f \<Rightarrow> Some f
      | None \<Rightarrow> map_of (map (\<lambda>nf. (fold_name (fst nf), snd nf)) fs) (fold_name k))"

fun dec_members :: "'a fields \<Rightarrow> (string \<times> json) list \<Rightarrow> 'a \<Rightarrow> 'a \<times> bool" where
  "dec_members fs [] s = (s, False)"
| "dec_members fs ((k, v) # kvs) s =
     (case find_field fs k of
        None \<Rightarrow> dec_members fs kvs s
      | Some f \<Rightarrow>
          (case f v s of (s1, e) \<Rightarrow> (case dec_members fs kvs s1 of (s2, e') \<Rightarrow> (s2, e \<or> e'))))"

definition dec_struct :: "'a fields \<Rightarrow> 'a decoder" where
  "dec_struct fs v s =
     (case v of JNull \<Rightarrow> (s, False) | JObj kvs \<Rightarrow> dec_members fs kvs s | _ \<Rightarrow> (s, True))"

text \<open>\<open>json.Unmarshal(data, &s)\<close>: a syntax error leaves the variable alone.\<close>

definition unmarshal :: "'a decoder \<Rightarrow> 'a \<Rightarrow> string \<Rightarrow> 'a \<times> bool" where
  "unmarshal f zero data = (case json_parse data of None \<Rightarrow> (zero, True) | Some v \<Rightarrow> f v zero)"

text \<open>\<open>json.NewDecoder(r).Decode(&s)\<close>: the first value of the stream; what follows is not read.\<close>

definition decode_first :: "'a decoder \<Rightarrow> 'a \<Rightarrow> string \<Rightarrow> 'a \<times> bool" where
  "decode_first f zero data =
     (case parse_value (Suc (length data)) 0 data of None \<Rightarrow> (zero, True) | Some (v, rest) \<Rightarrow> f v zero)"

section \<open>Decoding what was written\<close>

lemma unmarshal_text:
  "json_ok k j \<Longrightarrow> k \<le> max_nesting \<Longrightarrow> unmarshal f zero (json_text j) = f (clean j) zero"
  by (simp add: unmarshal_def json_parse_text)

lemma dec_members_append:
  "dec_members fs (xs @ ys) s =
     (case dec_members fs xs s of (s1, e) \<Rightarrow> (case dec_members fs ys s1 of (s2, e') \<Rightarrow> (s2, e \<or> e')))"
proof (induction xs arbitrary: s)
  case (Cons kv xs)
  then show ?case by (cases kv) (auto split: option.split prod.split)
qed (simp split: prod.split)

lemma dec_elems_length: "length (fst (dec_elems f zero vs old)) = length vs"
  by (induction vs arbitrary: old) (auto split: prod.split, metis fst_conv)

text \<open>A decoder that fits every value of a list gives the list of what it stores.\<close>

lemma dec_elems_fit:
  assumes "\<And>v. v \<in> set vs \<Longrightarrow> f v zero = (g v, False)"
  shows "dec_elems f zero vs [] = (map g vs, False)"
  using assms by (induction vs) auto

end
