(* ===== verification/Ai_Client.thy ===== *)
theory Ai_Client
  imports Structs Records Mcp_Server
begin

text \<open>
  The AI clients of src/cmd/aiclient.go: the round trip with its retries, the three wire formats,
  their streams of server-sent events, and the listing of models.
\<close>

section \<open>HTTP\<close>

text \<open>
  A request of the client, and a response whose body is the text that reading it gives before its
  end or its error.
\<close>

record ai_request =
  ar_method :: string
  ar_url :: string
  ar_headers :: "(string \<times> string) list"
  ar_body :: string

record response =
  rp_status :: int
  rp_data :: string
  rp_err :: "gerr option"

text \<open>
  \<open>hx_new\<close> is the validation of \<open>http.NewRequest\<close>, \<open>hx_do\<close> the round trip of the default
  client, \<open>hx_close\<close> the close of a response body.  \<open>hx_wait\<close> is the pause between two
  attempts of \<open>backoff.Retry\<close>: false when the policy stops or the context ends.  \<open>hx_unmarshal\<close>
  is the error of decoding a text.
\<close>

record 'w http_env =
  hx_new :: "string \<Rightarrow> string \<Rightarrow> gerr option"
  hx_do :: "'w ctx \<Rightarrow> ai_request \<Rightarrow> 'w \<Rightarrow> (gerr + response) \<times> 'w"
  hx_close :: "'w \<Rightarrow> 'w"
  hx_wait :: "'w ctx \<Rightarrow> nat \<Rightarrow> 'w \<Rightarrow> bool \<times> 'w"
  hx_timeout :: "'w ctx \<Rightarrow> int \<Rightarrow> 'w \<Rightarrow> 'w ctx"
  hx_unmarshal :: "string \<Rightarrow> gerr"

section \<open>Retries\<close>

definition max_retry_attempts :: nat where
  "max_retry_attempts = 4"

definition should_retry :: "int \<Rightarrow> gerr option \<Rightarrow> bool" where
  "should_retry status err =
     (case err of
        Some e \<Rightarrow> \<not> (errors_is e ECanceled \<or> errors_is e EDeadlineExceeded)
      | None \<Rightarrow> status = 429 \<or> 500 \<le> status)"

definition truncate_text :: "string \<Rightarrow> nat \<Rightarrow> string" where
  "truncate_text s n =
     (let t = trim_space s; rs = runes t
      in if length rs \<le> n then t else concat (take n rs) @ ''...'')"

definition status_error :: "response \<Rightarrow> gerr" where
  "status_error r = ENew (''HTTP '' @ int_text (rp_status r) @ '': '' @ truncate_text (rp_data r) 200)"

text \<open>One run of the operation: a permanent failure, one to retry, or the response.\<close>

datatype attempt_result = Permanent gerr | Transient gerr | Done response

definition attempt :: "'w http_env \<Rightarrow> 'w ctx \<Rightarrow> ai_request \<Rightarrow> 'w \<Rightarrow> attempt_result \<times> 'w" where
  "attempt env ctx rq w =
     (case hx_new env (ar_method rq) (ar_url rq) of
        Some e \<Rightarrow> (Permanent e, w)
      | None \<Rightarrow>
          (case hx_do env ctx rq w of
             (Inl e, w1) \<Rightarrow> (if should_retry 0 (Some e) then (Transient e, w1) else (Permanent e, w1))
           | (Inr r, w1) \<Rightarrow>
               (if should_retry (rp_status r) None then (Transient (status_error r), hx_close env w1)
                else if 400 \<le> rp_status r then (Permanent (status_error r), hx_close env w1)
                else (Done r, w1))))"

text \<open>
  \<open>n\<close> retries are left, \<open>prior\<close> is \<open>lastErr\<close>.  \<open>backoff.Retry\<close> returns the permanent error, the
  error of the last attempt or that of the context; \<open>doWithRetry\<close> prefers \<open>lastErr\<close> to all of them.
\<close>

fun retry_loop :: "'w http_env \<Rightarrow> 'w ctx \<Rightarrow> ai_request \<Rightarrow> nat \<Rightarrow> gerr option \<Rightarrow> 'w \<Rightarrow> (gerr + response) \<times> 'w" where
  "retry_loop env ctx rq n prior w =
     (case attempt env ctx rq w of
        (Done r, w1) \<Rightarrow> (Inr r, w1)
      | (Permanent e, w1) \<Rightarrow> (Inl (case prior of Some l \<Rightarrow> l | None \<Rightarrow> e), w1)
      | (Transient e, w1) \<Rightarrow>
          (case n of
             0 \<Rightarrow> (Inl e, w1)
           | Suc m \<Rightarrow>
               (case hx_wait env ctx (max_retry_attempts - n) w1 of
                  (False, w2) \<Rightarrow> (Inl e, w2)
                | (True, w2) \<Rightarrow> retry_loop env ctx rq m (Some e) w2)))"

declare retry_loop.simps [simp del]

definition do_with_retry :: "'w http_env \<Rightarrow> 'w ctx \<Rightarrow> ai_request \<Rightarrow> 'w \<Rightarrow> (gerr + response) \<times> 'w" where
  "do_with_retry env ctx rq w = retry_loop env ctx rq (max_retry_attempts - 1) None w"

section \<open>Effort and models\<close>

text \<open>An \<open>aiEffort\<close> is a string; lower case as far as ASCII texts can tell.\<close>

definition normalize_effort :: "string \<Rightarrow> string" where
  "normalize_effort effort = (if effort = ''medium'' \<or> effort = ''high'' then effort else ''low'')"

definition effort_temperature :: "string \<Rightarrow> json" where
  "effort_temperature effort =
     (let n = normalize_effort effort
      in JNum (if n = ''medium'' then ''0.3'' else if n = ''high'' then ''0.7'' else ''0''))"

definition lower_rune :: "rune \<Rightarrow> string" where
  "lower_rune r =
     (if r = [CHR 0xE2, CHR 0x84, CHR 0xAA] then ''k''
      else if r = [CHR 0xC4, CHR 0xB0] then ''i'' else to_lower r)"

definition model_name :: "string \<Rightarrow> string" where
  "model_name s = concat (map lower_rune (runes (trim_space s)))"

definition supports_anthropic_effort :: "string \<Rightarrow> bool" where
  "supports_anthropic_effort model =
     list_ex (has_prefix (model_name model))
       [''claude-fable-5'', ''claude-mythos-5'', ''claude-mythos-preview'', ''claude-opus-5'', ''claude-opus-4-5'',
        ''claude-opus-4-6'', ''claude-opus-4-7'', ''claude-opus-4-8'', ''claude-sonnet-5'', ''claude-sonnet-4-6'']"

definition reasoning_model_prefixes :: "string list" where
  "reasoning_model_prefixes = [''o1'', ''o1-'', ''o3'', ''o3-'', ''o4-'', ''gpt-5'', ''gpt-5-'', ''codex-'']"

definition is_reasoning_model :: "string \<Rightarrow> bool" where
  "is_reasoning_model model =
     (let m = model_name model
      in has_prefix m ''gpt-5.'' \<or>
         list_ex (\<lambda>p. if last p = CHR ''-'' then has_prefix m p else m = p) reasoning_model_prefixes)"

definition supports_gemini_effort :: "string \<Rightarrow> bool" where
  "supports_gemini_effort model = has_prefix (model_name model) ''gemini-3''"

section \<open>The clients\<close>

datatype client_kind = Anthropic | Gemini | OpenAI

text \<open>The three client structs have the same fields; \<open>cl_provider\<close> is read by the last only.\<close>

record ai_client =
  cl_kind :: client_kind
  cl_provider :: string
  cl_key :: string
  cl_model :: string
  cl_base :: string
  cl_effort :: string
  cl_max_tokens :: int
  cl_timeout :: int

record provider_spec =
  ps_name :: string
  ps_key :: string
  ps_base :: string
  ps_model :: string
  ps_max_tokens :: int
  ps_timeout :: int

definition ai_request_timeout :: int where
  "ai_request_timeout = 120 * second"

definition ai_list_timeout :: int where
  "ai_list_timeout = 15 * second"

definition new_ai_client :: "provider_spec \<Rightarrow> ai_client" where
  "new_ai_client spec =
     \<lparr>cl_kind = (if ps_name spec = ''anthropic'' then Anthropic else if ps_name spec = ''gemini'' then Gemini else OpenAI),
      cl_provider = ps_name spec, cl_key = ps_key spec, cl_model = ps_model spec, cl_base = ps_base spec,
      cl_effort = [], cl_max_tokens = ps_max_tokens spec,
      cl_timeout = (if ps_timeout spec \<le> 0 then ai_request_timeout else ps_timeout spec)\<rparr>"

definition set_model :: "string \<Rightarrow> ai_client \<Rightarrow> ai_client" where
  "set_model model c = c\<lparr>cl_model := model\<rparr>"

definition set_effort :: "string \<Rightarrow> ai_client \<Rightarrow> ai_client" where
  "set_effort effort c = c\<lparr>cl_effort := normalize_effort effort\<rparr>"

definition client_effort :: "ai_client \<Rightarrow> string" where
  "client_effort c = normalize_effort (cl_effort c)"

record ai_message =
  am_role :: string
  am_content :: string

record token_usage =
  tu_input :: int
  tu_output :: int

definition no_usage :: token_usage where
  "no_usage = \<lparr>tu_input = 0, tu_output = 0\<rparr>"

subsection \<open>Request bodies\<close>

definition turn_json :: "ai_message \<Rightarrow> json" where
  "turn_json m = json_map [(''role'', JStr (am_role m)), (''content'', JStr (am_content m))]"

definition int_json :: "int \<Rightarrow> json" where
  "int_json i = JNum (int_text i)"

definition anthropic_body :: "ai_client \<Rightarrow> string \<Rightarrow> ai_message list \<Rightarrow> bool \<Rightarrow> json" where
  "anthropic_body c system ms stream =
     json_map ([(''model'', JStr (cl_model c)), (''max_tokens'', int_json (cl_max_tokens c)),
         (''system'', JStr system), (''messages'', JArr (map turn_json ms))] @
       (if supports_anthropic_effort (cl_model c)
        then [(''output_config'', json_map [(''effort'', JStr (client_effort c))])]
        else [(''temperature'', effort_temperature (client_effort c))]) @
       (if stream then [(''stream'', JBool True)] else []))"

definition is_deepseek_v4 :: "ai_client \<Rightarrow> bool" where
  "is_deepseek_v4 c \<longleftrightarrow>
     (cl_provider c = ''deepseek'' \<or> cl_provider c = ''opencode'') \<and> contains (model_name (cl_model c)) ''deepseek-v4-''"

definition is_xai_reasoning_model :: "ai_client \<Rightarrow> bool" where
  "is_xai_reasoning_model c \<longleftrightarrow> cl_provider c = ''xai'' \<and> has_prefix (model_name (cl_model c)) ''grok-4.5''"

definition is_mistral_reasoning_model :: "ai_client \<Rightarrow> bool" where
  "is_mistral_reasoning_model c \<longleftrightarrow> cl_provider c = ''mistral'' \<and>
     model_name (cl_model c) \<in> {''mistral-small-latest'', ''mistral-small-2603'', ''mistral-medium-3-5''}"

definition generation_config :: "ai_client \<Rightarrow> (string \<times> json) list" where
  "generation_config c =
     (let effort = client_effort c; max_tokens = (''max_tokens'', int_json (cl_max_tokens c))
      in if is_deepseek_v4 c
         then max_tokens #
           (if effort = ''low'' then [(''thinking'', json_map [(''type'', JStr ''disabled'')])]
            else [(''thinking'', json_map [(''type'', JStr ''enabled'')]),
                  (''reasoning_effort'', JStr (if effort = ''high'' then ''max'' else ''high''))])
         else if is_reasoning_model (cl_model c)
         then [(''max_completion_tokens'', int_json (cl_max_tokens c)), (''reasoning_effort'', JStr effort)]
         else if is_xai_reasoning_model c \<or> is_mistral_reasoning_model c
         then [max_tokens, (''reasoning_effort'', JStr effort)]
         else [max_tokens, (''temperature'', effort_temperature effort)])"

definition openai_body :: "ai_client \<Rightarrow> string \<Rightarrow> ai_message list \<Rightarrow> bool \<Rightarrow> json" where
  "openai_body c system ms stream =
     json_map ([(''model'', JStr (cl_model c)),
         (''messages'', JArr (map turn_json (\<lparr>am_role = ''system'', am_content = system\<rparr> # ms)))] @
       generation_config c @
       (if stream then [(''stream'', JBool True), (''stream_options'', json_map [(''include_usage'', JBool True)])] else []))"

definition text_part :: "string \<Rightarrow> json" where
  "text_part t = JArr [json_map [(''text'', JStr t)]]"

definition gemini_body :: "ai_client \<Rightarrow> string \<Rightarrow> ai_message list \<Rightarrow> json" where
  "gemini_body c system ms =
     json_map [(''system_instruction'', json_map [(''parts'', text_part system)]),
       (''generationConfig'', json_map ((''maxOutputTokens'', int_json (cl_max_tokens c)) #
          (if supports_gemini_effort (cl_model c)
           then [(''thinkingConfig'', json_map [(''thinkingLevel'', JStr (client_effort c))])]
           else [(''temperature'', effort_temperature (client_effort c))]))),
       (''contents'', JArr (map (\<lambda>m. json_map
          [(''role'', JStr (if am_role m = ''assistant'' then ''model'' else am_role m)), (''parts'', text_part (am_content m))]) ms))]"

section \<open>Responses\<close>

text \<open>Text, tokens used, and the error.\<close>

type_synonym ai_answer = "string \<times> token_usage \<times> gerr option"

record text_chunk =
  ch_type :: string
  ch_text :: string

definition text_chunk0 :: text_chunk where
  "text_chunk0 = \<lparr>ch_type = [], ch_text = []\<rparr>"

definition chunk_decoder :: "text_chunk decoder" where
  "chunk_decoder = dec_struct [(''type'', field_at ch_type ch_type_update dec_str), (''text'', field_at ch_text ch_text_update dec_str)]"

definition chunks_text :: "text_chunk list \<Rightarrow> string" where
  "chunks_text cs = concat (map ch_text (filter (\<lambda>c. ch_type c = ''text'' \<or> (ch_type c = [] \<and> ch_text c \<noteq> [])) cs))"

definition usage_decoder :: "string \<Rightarrow> string \<Rightarrow> token_usage decoder" where
  "usage_decoder i j = dec_struct [(i, field_at tu_input tu_input_update dec_int), (j, field_at tu_output tu_output_update dec_int)]"

definition given_usage :: "token_usage option \<Rightarrow> token_usage \<Rightarrow> token_usage" where
  "given_usage u old = (case u of None \<Rightarrow> old | Some x \<Rightarrow> x)"

text \<open>\<open>io.ReadAll\<close> and \<open>json.Unmarshal\<close>; \<open>pre\<close> names what could not be parsed.\<close>

definition read_response :: "'w http_env \<Rightarrow> string \<Rightarrow> 'a decoder \<Rightarrow> 'a \<Rightarrow> response \<Rightarrow> gerr + 'a" where
  "read_response env pre f zero r =
     (case rp_err r of
        Some e \<Rightarrow> Inl e
      | None \<Rightarrow>
          (case unmarshal f zero (rp_data r) of
             (x, True) \<Rightarrow> Inl (EWrap pre (hx_unmarshal env (rp_data r)) [])
           | (x, False) \<Rightarrow> Inr x))"

record anthropic_result =
  an_content :: "text_chunk list"
  an_usage :: token_usage

definition anthropic_decoder :: "anthropic_result decoder" where
  "anthropic_decoder = dec_struct
     [(''content'', field_at an_content an_content_update (dec_slice chunk_decoder text_chunk0)),
      (''usage'', field_at an_usage an_usage_update (usage_decoder ''input_tokens'' ''output_tokens''))]"

definition anthropic_response :: "'w http_env \<Rightarrow> response \<Rightarrow> ai_answer" where
  "anthropic_response env r =
     (case read_response env ''parse anthropic response: '' anthropic_decoder \<lparr>an_content = [], an_usage = no_usage\<rparr> r of
        Inl e \<Rightarrow> ([], no_usage, Some e)
      | Inr x \<Rightarrow>
          (let text = chunks_text (an_content x)
           in if text = [] then ([], no_usage, Some (ENew ''empty response from anthropic'')) else (text, an_usage x, None)))"

text \<open>The \<open>UnmarshalJSON\<close> of \<open>chatContent\<close>: null, a text, or chunks of text.\<close>

definition chat_decoder :: "string decoder" where
  "chat_decoder v old =
     (case v of
        JNull \<Rightarrow> ([], False)
      | JStr s \<Rightarrow> (s, False)
      | _ \<Rightarrow> (case dec_slice chunk_decoder text_chunk0 v [] of (cs, True) \<Rightarrow> (old, True) | (cs, False) \<Rightarrow> (chunks_text cs, False)))"

text \<open>A choice of a whole response has a \<open>message\<close>, one of a stream a \<open>delta\<close>.\<close>

record openai_choice =
  oc_content :: string
  oc_reasoning_content :: string
  oc_reasoning :: string
  oc_finish :: string

definition openai_choice0 :: openai_choice where
  "openai_choice0 = \<lparr>oc_content = [], oc_reasoning_content = [], oc_reasoning = [], oc_finish = []\<rparr>"

definition message_decoder :: "openai_choice decoder" where
  "message_decoder = dec_struct
     [(''message'', dec_struct
        [(''content'', field_at oc_content oc_content_update chat_decoder),
         (''reasoning_content'', field_at oc_reasoning_content oc_reasoning_content_update dec_str)]),
      (''finish_reason'', field_at oc_finish oc_finish_update dec_str)]"

definition delta_decoder :: "openai_choice decoder" where
  "delta_decoder = dec_struct
     [(''delta'', dec_struct
        [(''content'', field_at oc_content oc_content_update chat_decoder),
         (''reasoning_content'', field_at oc_reasoning_content oc_reasoning_content_update dec_str),
         (''reasoning'', field_at oc_reasoning oc_reasoning_update dec_str)]),
      (''finish_reason'', field_at oc_finish oc_finish_update dec_str)]"

record openai_chunk =
  ok_choices :: "openai_choice list"
  ok_usage :: "token_usage option"
  ok_error :: "string option"

definition openai_chunk0 :: openai_chunk where
  "openai_chunk0 = \<lparr>ok_choices = [], ok_usage = None, ok_error = None\<rparr>"

definition openai_fields :: "openai_choice decoder \<Rightarrow> openai_chunk fields" where
  "openai_fields choice =
     [(''choices'', field_at ok_choices ok_choices_update (dec_slice choice openai_choice0)),
      (''usage'', field_at ok_usage ok_usage_update (dec_ptr (usage_decoder ''prompt_tokens'' ''completion_tokens'') no_usage))]"

definition error_decoder :: "string option decoder" where
  "error_decoder = dec_ptr (dec_struct [(''message'', dec_str)]) []"

definition only_reasoning :: "ai_client \<Rightarrow> string \<Rightarrow> string \<Rightarrow> gerr" where
  "only_reasoning c tokens finish =
     ENew (''model '' @ cl_model c @ '' produced only reasoning'' @ tokens @ '', no answer (finish_reason='' @ finish @
       ''); try raising ai.max-tokens in ~/.xmc config or use a non-reasoning model'')"

definition openai_response :: "'w http_env \<Rightarrow> ai_client \<Rightarrow> response \<Rightarrow> ai_answer" where
  "openai_response env c r =
     (case read_response env ''parse response: '' (dec_struct (openai_fields message_decoder)) openai_chunk0 r of
        Inl e \<Rightarrow> ([], no_usage, Some e)
      | Inr x \<Rightarrow>
          (case ok_choices x of
             [] \<Rightarrow> ([], no_usage, Some (ENew (''empty response from '' @ cl_base c)))
           | m # _ \<Rightarrow>
               (let usage = given_usage (ok_usage x) no_usage
                in if oc_content m = [] \<and> oc_reasoning_content m \<noteq> []
                   then ([], usage, Some (only_reasoning c [] (oc_finish m)))
                   else (oc_content m, usage, None))))"

record gemini_candidate =
  gc_parts :: "string list"
  gc_finish :: string

record gemini_chunk =
  gk_candidates :: "gemini_candidate list"
  gk_usage :: "token_usage option"
  gk_error :: "string option"

definition gemini_chunk0 :: gemini_chunk where
  "gemini_chunk0 = \<lparr>gk_candidates = [], gk_usage = None, gk_error = None\<rparr>"

definition parts_decoder :: "gemini_candidate decoder" where
  "parts_decoder = dec_struct [(''parts'', field_at gc_parts gc_parts_update (dec_slice (dec_struct [(''text'', dec_str)]) []))]"

definition candidate_decoder :: "bool \<Rightarrow> gemini_candidate decoder" where
  "candidate_decoder finish = dec_struct ((''content'', parts_decoder) #
     (if finish then [(''finishReason'', field_at gc_finish gc_finish_update dec_str)] else []))"

definition gemini_fields :: "bool \<Rightarrow> gemini_chunk fields" where
  "gemini_fields finish =
     [(''candidates'', field_at gk_candidates gk_candidates_update
         (dec_slice (candidate_decoder finish) \<lparr>gc_parts = [], gc_finish = []\<rparr>)),
      (''usageMetadata'', field_at gk_usage gk_usage_update (dec_ptr (usage_decoder ''promptTokenCount'' ''candidatesTokenCount'') no_usage))]"

definition gemini_response :: "'w http_env \<Rightarrow> response \<Rightarrow> ai_answer" where
  "gemini_response env r =
     (case read_response env ''parse gemini response: '' (dec_struct (gemini_fields False)) gemini_chunk0 r of
        Inl e \<Rightarrow> ([], no_usage, Some e)
      | Inr x \<Rightarrow>
          (case map gc_parts (gk_candidates x) of
             (t # ts) # _ \<Rightarrow> (t, given_usage (gk_usage x) no_usage, None)
           | _ \<Rightarrow> ([], no_usage, Some (ENew ''empty response from gemini''))))"

section \<open>Streams\<close>

text \<open>\<open>parseSSE\<close>: the lines of a \<open>bufio.Scanner\<close> whose tokens are below 64 KiB.\<close>

fun sse_lines :: "gerr option \<Rightarrow> (string \<Rightarrow> 's \<Rightarrow> gerr option \<times> 's) \<Rightarrow> string list \<Rightarrow> 's \<Rightarrow> gerr option \<times> 's" where
  "sse_lines rderr handler [] s = (rderr, s)"
| "sse_lines rderr handler (l # ls) s =
     (if 64 * 1024 \<le> length l then (Some too_long, s)
      else let line = drop_cr l
           in if \<not> has_prefix line ''data: '' then sse_lines rderr handler ls s
              else let data = drop 6 line
                   in if data = ''[DONE]'' then (None, s)
                      else case handler data s of
                             (Some e, s') \<Rightarrow> (Some e, s')
                           | (None, s') \<Rightarrow> sse_lines rderr handler ls s')"

definition parse_sse :: "response \<Rightarrow> (string \<Rightarrow> 's \<Rightarrow> gerr option \<times> 's) \<Rightarrow> 's \<Rightarrow> gerr option \<times> 's" where
  "parse_sse r handler s = sse_lines (rp_err r) handler (split_lines (rp_data r)) s"

text \<open>What a stream has given: \<open>as_shown\<close> are the arguments of the calls of \<open>onToken\<close>.\<close>

record ai_stream =
  as_text :: string
  as_shown :: "string list"
  as_usage :: token_usage
  as_stop :: string
  as_reasoning :: string

definition stream_start :: ai_stream where
  "stream_start = \<lparr>as_text = [], as_shown = [], as_usage = no_usage, as_stop = [], as_reasoning = []\<rparr>"

definition answer_token :: "string \<Rightarrow> ai_stream \<Rightarrow> ai_stream" where
  "answer_token t s = (if t = [] then s else s\<lparr>as_text := as_text s @ t, as_shown := as_shown s @ [t]\<rparr>)"

definition reasoning_token :: "string \<Rightarrow> ai_stream \<Rightarrow> ai_stream" where
  "reasoning_token t s = (if t = [] then s else s\<lparr>as_reasoning := as_reasoning s @ t, as_shown := as_shown s @ [t]\<rparr>)"

definition stop_reason :: "string \<Rightarrow> ai_stream \<Rightarrow> ai_stream" where
  "stop_reason t s = (if t = [] then s else s\<lparr>as_stop := t\<rparr>)"

definition event_type :: "string decoder" where
  "event_type = dec_struct [(''type'', dec_str)]"

definition start_decoder :: "int decoder" where
  "start_decoder = dec_struct [(''message'', dec_struct [(''usage'', dec_struct [(''input_tokens'', dec_int)])])]"

definition text_delta_decoder :: "string decoder" where
  "text_delta_decoder = dec_struct [(''delta'', dec_struct [(''text'', dec_str)])]"

definition message_delta_decoder :: "(string \<times> int) decoder" where
  "message_delta_decoder = dec_struct
     [(''delta'', dec_struct [(''stop_reason'', field_at fst apfst dec_str)]),
      (''usage'', dec_struct [(''output_tokens'', field_at snd apsnd dec_int)])]"

definition stream_error_decoder :: "(string \<times> string) decoder" where
  "stream_error_decoder = dec_struct
     [(''error'', dec_struct [(''type'', field_at fst apfst dec_str), (''message'', field_at snd apsnd dec_str)])]"

text \<open>The errors of the inner decodings are ignored: what was stored counts.\<close>

definition anthropic_event :: "string \<Rightarrow> ai_stream \<Rightarrow> gerr option \<times> ai_stream" where
  "anthropic_event data s =
     (case unmarshal event_type [] data of
        (kind, True) \<Rightarrow> (None, s)
      | (kind, False) \<Rightarrow>
          (if kind = ''message_start''
           then (None, s\<lparr>as_usage := as_usage s\<lparr>tu_input := fst (unmarshal start_decoder 0 data)\<rparr>\<rparr>)
           else if kind = ''content_block_delta''
           then (None, answer_token (fst (unmarshal text_delta_decoder [] data)) s)
           else if kind = ''message_delta''
           then (case fst (unmarshal message_delta_decoder ([], 0) data) of
                   (stop, out) \<Rightarrow> (None, stop_reason stop (s\<lparr>as_usage := as_usage s\<lparr>tu_output := out\<rparr>\<rparr>)))
           else if kind = ''error''
           then (case fst (unmarshal stream_error_decoder ([], []) data) of
                   (t, m) \<Rightarrow> (Some (ENew (''anthropic stream error: '' @ t @ '': '' @ m)), s))
           else (None, s)))"

definition anthropic_stream :: "ai_client \<Rightarrow> response \<Rightarrow> ai_answer \<times> string list" where
  "anthropic_stream c r =
     (case parse_sse r anthropic_event stream_start of
        (Some e, s) \<Rightarrow> ((as_text s, as_usage s, Some e), as_shown s)
      | (None, s) \<Rightarrow>
          (if as_text s = []
           then (([], as_usage s, Some (ENew (''empty response from anthropic (model '' @ cl_model c @ '', stop_reason='' @ as_stop s @ '')''))),
                 as_shown s)
           else ((as_text s, as_usage s, None), as_shown s)))"

definition openai_event :: "ai_client \<Rightarrow> string \<Rightarrow> ai_stream \<Rightarrow> gerr option \<times> ai_stream" where
  "openai_event c data s =
     (case unmarshal (dec_struct (openai_fields delta_decoder @ [(''error'', field_at ok_error ok_error_update error_decoder)]))
         openai_chunk0 data of
        (x, True) \<Rightarrow> (None, s)
      | (x, False) \<Rightarrow>
          (case ok_error x of
             Some (m # ms) \<Rightarrow> (Some (ENew (cl_base c @ '' stream error: '' @ m # ms)), s)
           | _ \<Rightarrow>
               (let s1 = (case ok_choices x of
                      [] \<Rightarrow> s
                    | d # _ \<Rightarrow>
                        stop_reason (oc_finish d) (answer_token (oc_content d)
                          (reasoning_token (if oc_reasoning_content d \<noteq> [] then oc_reasoning_content d else oc_reasoning d) s)))
                in (None, s1\<lparr>as_usage := given_usage (ok_usage x) (as_usage s1)\<rparr>))))"

definition openai_stream :: "ai_client \<Rightarrow> response \<Rightarrow> ai_answer \<times> string list" where
  "openai_stream c r =
     (case parse_sse r (openai_event c) stream_start of
        (Some e, s) \<Rightarrow> ((as_text s, as_usage s, Some e), as_shown s)
      | (None, s) \<Rightarrow>
          (if as_text s = []
           then (([], as_usage s,
                  Some (if as_reasoning s \<noteq> []
                    then only_reasoning c ('' ('' @ int_text (tu_output (as_usage s)) @ '' tokens)'') (as_stop s)
                    else ENew (''empty response from '' @ cl_base c @ '' (model '' @ cl_model c @ '', finish_reason='' @ as_stop s @ '')''))),
                 as_shown s)
           else ((as_text s, as_usage s, None), as_shown s)))"

definition gemini_event :: "string \<Rightarrow> ai_stream \<Rightarrow> gerr option \<times> ai_stream" where
  "gemini_event data s =
     (case unmarshal (dec_struct (gemini_fields True @ [(''error'', field_at gk_error gk_error_update error_decoder)])) gemini_chunk0 data of
        (x, True) \<Rightarrow> (None, s)
      | (x, False) \<Rightarrow>
          (case gk_error x of
             Some (m # ms) \<Rightarrow> (Some (ENew (''gemini stream error: '' @ m # ms)), s)
           | _ \<Rightarrow>
               (let s1 = (case gk_candidates x of
                      [] \<Rightarrow> s
                    | d # _ \<Rightarrow>
                        stop_reason (gc_finish d) (case gc_parts d of [] \<Rightarrow> s | t # _ \<Rightarrow> answer_token t s))
                in (None, s1\<lparr>as_usage := given_usage (gk_usage x) (as_usage s1)\<rparr>))))"

definition gemini_stream :: "ai_client \<Rightarrow> response \<Rightarrow> ai_answer \<times> string list" where
  "gemini_stream c r =
     (case parse_sse r gemini_event stream_start of
        (Some e, s) \<Rightarrow> ((as_text s, as_usage s, Some e), as_shown s)
      | (None, s) \<Rightarrow>
          (if as_text s = []
           then (([], as_usage s, Some (ENew (''empty response from gemini (model '' @ cl_model c @ '', finish_reason='' @ as_stop s @ '')''))),
                 as_shown s)
           else ((as_text s, as_usage s, None), as_shown s)))"

section \<open>Completion\<close>

definition anthropic_headers :: "ai_client \<Rightarrow> (string \<times> string) list" where
  "anthropic_headers c = [(''x-api-key'', cl_key c), (''anthropic-version'', ''2023-06-01'')]"

definition json_header :: "string \<times> string" where
  "json_header = (''Content-Type'', ''application/json'')"

definition bearer :: "ai_client \<Rightarrow> string \<times> string" where
  "bearer c = (''Authorization'', ''Bearer '' @ cl_key c)"

definition gemini_model_url :: "ai_client \<Rightarrow> string \<Rightarrow> string" where
  "gemini_model_url c call = cl_base c @ ''/v1beta/models/'' @ cl_model c @ call @ ''key='' @ cl_key c"

definition completion_request :: "ai_client \<Rightarrow> string \<Rightarrow> ai_message list \<Rightarrow> bool \<Rightarrow> ai_request" where
  "completion_request c system ms stream =
     (case cl_kind c of
        Anthropic \<Rightarrow>
          \<lparr>ar_method = ''POST'', ar_url = cl_base c @ ''/v1/messages'', ar_headers = json_header # anthropic_headers c,
           ar_body = json_text (anthropic_body c system ms stream)\<rparr>
      | OpenAI \<Rightarrow>
          \<lparr>ar_method = ''POST'', ar_url = cl_base c @ ''/v1/chat/completions'', ar_headers = [json_header, bearer c],
           ar_body = json_text (openai_body c system ms stream)\<rparr>
      | Gemini \<Rightarrow>
          \<lparr>ar_method = ''POST'',
           ar_url = gemini_model_url c (if stream then '':streamGenerateContent?alt=sse&'' else '':generateContent?''),
           ar_headers = [json_header], ar_body = json_text (gemini_body c system ms)\<rparr>)"

definition completion_error :: "ai_client \<Rightarrow> gerr \<Rightarrow> gerr" where
  "completion_error c e =
     EWrap (case cl_kind c of Anthropic \<Rightarrow> ''anthropic API: '' | Gemini \<Rightarrow> ''gemini API: ''
       | OpenAI \<Rightarrow> ''openai-compatible API ('' @ cl_base c @ ''): '') e []"

text \<open>The answer and the tokens shown; without streaming none are.\<close>

definition parse_completion :: "'w http_env \<Rightarrow> ai_client \<Rightarrow> bool \<Rightarrow> response \<Rightarrow> ai_answer \<times> string list" where
  "parse_completion env c stream r =
     (case cl_kind c of
        Anthropic \<Rightarrow> (if stream then anthropic_stream c r else (anthropic_response env r, []))
      | OpenAI \<Rightarrow> (if stream then openai_stream c r else (openai_response env c r, []))
      | Gemini \<Rightarrow> (if stream then gemini_stream c r else (gemini_response env r, [])))"

definition ai_complete ::
    "'w http_env \<Rightarrow> 'w ctx \<Rightarrow> ai_client \<Rightarrow> string \<Rightarrow> ai_message list \<Rightarrow> bool \<Rightarrow> 'w \<Rightarrow> (ai_answer \<times> string list) \<times> 'w" where
  "ai_complete env ctx c system ms stream w =
     (let timeout = (if cl_timeout c \<le> 0 then ai_request_timeout else cl_timeout c)
      in case do_with_retry env (hx_timeout env ctx timeout w) (completion_request c system ms stream) w of
           (Inl e, w1) \<Rightarrow> ((([], no_usage, Some (completion_error c e)), []), w1)
         | (Inr r, w1) \<Rightarrow> (parse_completion env c stream r, hx_close env w1))"

section \<open>Listing models\<close>

text \<open>One round trip whose status must be 200; the ids that are not empty, sorted.\<close>

definition fetch_ids :: "'w http_env \<Rightarrow> 'w ctx \<Rightarrow> ai_request \<Rightarrow> string list decoder \<Rightarrow> 'w \<Rightarrow> (gerr + string list) \<times> 'w" where
  "fetch_ids env ctx rq f w =
     (case hx_new env (ar_method rq) (ar_url rq) of
        Some e \<Rightarrow> (Inl e, w)
      | None \<Rightarrow>
          (case hx_do env ctx rq w of
             (Inl e, w1) \<Rightarrow> (Inl e, w1)
           | (Inr r, w1) \<Rightarrow>
               ((if rp_status r \<noteq> 200
                 then Inl (ENew (''models API '' @ int_text (rp_status r) @ '': '' @ truncate_text (rp_data r) 200))
                 else case decode_first f [] (rp_data r) of
                        (ids, True) \<Rightarrow> Inl (hx_unmarshal env (rp_data r))
                      | (ids, False) \<Rightarrow> Inr (sort (filter (\<lambda>i. i \<noteq> []) ids))), hx_close env w1)))"

definition ids_decoder :: "string list decoder" where
  "ids_decoder = dec_struct [(''data'', dec_slice (dec_struct [(''id'', dec_str)]) [])]"

definition trim_prefix :: "string \<Rightarrow> string \<Rightarrow> string" where
  "trim_prefix s p = (if has_prefix s p then drop (length p) s else s)"

definition gemini_ids_decoder :: "string list decoder" where
  "gemini_ids_decoder v old =
     (case dec_struct [(''models'', dec_slice (dec_struct [(''name'', dec_str)]) [])] v old of
        (names, e) \<Rightarrow> (map (\<lambda>n. trim_prefix n ''models/'') names, e))"

definition list_request :: "ai_client \<Rightarrow> ai_request" where
  "list_request c =
     (case cl_kind c of
        Anthropic \<Rightarrow> \<lparr>ar_method = ''GET'', ar_url = cl_base c @ ''/v1/models'', ar_headers = anthropic_headers c, ar_body = []\<rparr>
      | OpenAI \<Rightarrow> \<lparr>ar_method = ''GET'', ar_url = cl_base c @ ''/v1/models'', ar_headers = [bearer c], ar_body = []\<rparr>
      | Gemini \<Rightarrow> \<lparr>ar_method = ''GET'', ar_url = cl_base c @ ''/v1beta/models?key='' @ cl_key c, ar_headers = [], ar_body = []\<rparr>)"

definition list_models :: "'w http_env \<Rightarrow> 'w ctx \<Rightarrow> ai_client \<Rightarrow> 'w \<Rightarrow> (gerr + string list) \<times> 'w" where
  "list_models env ctx c w =
     fetch_ids env (hx_timeout env ctx ai_list_timeout w) (list_request c)
       (if cl_kind c = Gemini then gemini_ids_decoder else ids_decoder) w"

end
