(* ===== verification/Ai_Calls.thy ===== *)
theory Ai_Calls
  imports Ai_Client
begin

text \<open>
  What the AI clients do to the network, and what they make of a stream: the exchanges of a
  completion with its retries, and the reading back of a streamed answer.
\<close>

section \<open>Traced HTTP\<close>

datatype http_event = HxRequest ai_request "gerr + response" | HxClosed

type_synonym 'w wire = "'w \<times> http_event list"

definition traced_http :: "'w http_env \<Rightarrow> 'w wire http_env" where
  "traced_http env =
     \<lparr>hx_new = hx_new env,
      hx_do = (\<lambda>ctx rq (w, tr). case hx_do env (\<lambda>u. ctx (u, tr)) rq w of (x, w') \<Rightarrow> (x, (w', tr @ [HxRequest rq x]))),
      hx_close = (\<lambda>(w, tr). (hx_close env w, tr @ [HxClosed])),
      hx_wait = (\<lambda>ctx n (w, tr). case hx_wait env (\<lambda>u. ctx (u, tr)) n w of (b, w') \<Rightarrow> (b, (w', tr))),
      hx_timeout = (\<lambda>ctx d (w, tr). (\<lambda>(u, tr'). hx_timeout env (\<lambda>u. ctx (u, tr)) d w u)),
      hx_unmarshal = hx_unmarshal env\<rparr>"

text \<open>One exchange: its events, and how the client judges it.\<close>

fun transient :: "gerr + response \<Rightarrow> bool" where
  "transient (Inl e) = should_retry 0 (Some e)"
| "transient (Inr r) = should_retry (rp_status r) None"

fun accepted :: "gerr + response \<Rightarrow> bool" where
  "accepted (Inl e) = False"
| "accepted (Inr r) = (rp_status r < 400)"

fun exchange_error :: "gerr + response \<Rightarrow> gerr" where
  "exchange_error (Inl e) = e"
| "exchange_error (Inr r) = status_error r"

definition exchange_events :: "ai_request \<Rightarrow> gerr + response \<Rightarrow> http_event list" where
  "exchange_events rq x =
     HxRequest rq x # (case x of Inl e \<Rightarrow> [] | Inr r \<Rightarrow> if 400 \<le> rp_status r then [HxClosed] else [])"

lemma transient_not_accepted: "transient x \<Longrightarrow> \<not> accepted x"
  by (cases x) (auto simp: should_retry_def)

lemma attempt_traced:
  assumes "attempt (traced_http env) ctx rq s = (a, s')"
  shows "(hx_new env (ar_method rq) (ar_url rq) \<noteq> None \<and> s' = s \<and>
      a = Permanent (the (hx_new env (ar_method rq) (ar_url rq)))) \<or>
    (hx_new env (ar_method rq) (ar_url rq) = None \<and>
      (\<exists>x. snd s' = snd s @ exchange_events rq x \<and>
        a = (if transient x then Transient (exchange_error x)
             else if accepted x then Done (projr x) else Permanent (exchange_error x))))"
proof (cases "hx_new env (ar_method rq) (ar_url rq)")
  case (Some e)
  then show ?thesis using assms by (simp add: attempt_def traced_http_def)
next
  case None
  obtain w tr where s: "s = (w, tr)" by (cases s)
  obtain x w1 where x: "hx_do env (\<lambda>u. ctx (u, tr)) rq w = (x, w1)" by (meson surj_pair)
  show ?thesis
  proof (cases x)
    case (Inl e)
    then have "snd s' = snd s @ exchange_events rq x \<and>
        a = (if transient x then Transient (exchange_error x) else if accepted x then Done (projr x) else Permanent (exchange_error x))"
      using assms None x s by (auto simp: attempt_def traced_http_def exchange_events_def split: if_splits)
    then show ?thesis using None by blast
  next
    case (Inr r)
    have "400 \<le> rp_status r" if "should_retry (rp_status r) None" using that by (auto simp: should_retry_def)
    then have "snd s' = snd s @ exchange_events rq x \<and>
        a = (if transient x then Transient (exchange_error x) else if accepted x then Done (projr x) else Permanent (exchange_error x))"
      using assms None x s Inr by (auto simp: attempt_def traced_http_def exchange_events_def split: if_splits)
    then show ?thesis using None by blast
  qed
qed

section \<open>The outcome of the retries\<close>

text \<open>
  \<open>xs\<close> are the exchanges of a run that had \<open>n\<close> retries left, \<open>prior\<close> the error of the last one
  before them, \<open>refused\<close> that of building the request.
\<close>

definition retry_outcome :: "nat \<Rightarrow> gerr option \<Rightarrow> gerr option \<Rightarrow> (gerr + response) list \<Rightarrow> gerr + response \<Rightarrow> bool" where
  "retry_outcome n prior refused xs res \<longleftrightarrow>
     length xs \<le> Suc n \<and> (\<forall>x \<in> set (butlast xs). transient x) \<and> (refused = None \<longleftrightarrow> xs \<noteq> []) \<and>
     (case res of
        Inr r \<Rightarrow> xs \<noteq> [] \<and> last xs = Inr r \<and> accepted (last xs)
      | Inl e \<Rightarrow> list_all (\<lambda>x. \<not> accepted x) xs \<and>
          e = (case filter transient xs of
                 t # ts \<Rightarrow> exchange_error (last (t # ts))
               | [] \<Rightarrow> (case prior of Some l \<Rightarrow> l | None \<Rightarrow> (case refused of Some e \<Rightarrow> e | None \<Rightarrow> exchange_error (last xs)))))"

lemma retry_traced:
  "retry_loop (traced_http env) ctx rq n prior s = (res, s') \<Longrightarrow>
   \<exists>xs. snd s' = snd s @ concat (map (exchange_events rq) xs) \<and>
     retry_outcome n prior (hx_new env (ar_method rq) (ar_url rq)) xs res"
proof (induction n arbitrary: prior s)
  case (0 prior s)
  obtain a s1 where a: "attempt (traced_http env) ctx rq s = (a, s1)" by (meson surj_pair)
  note t = attempt_traced [OF a]
  show ?case
  proof (cases "hx_new env (ar_method rq) (ar_url rq)")
    case (Some e)
    then show ?thesis
      using t 0 a by (intro exI [of _ "[]"]) (auto simp: retry_loop.simps retry_outcome_def split: option.split)
  next
    case None
    then obtain x where x: "snd s1 = snd s @ exchange_events rq x"
      "a = (if transient x then Transient (exchange_error x) else if accepted x then Done (projr x) else Permanent (exchange_error x))"
      using t by auto
    then show ?thesis
      using 0 a None transient_not_accepted [of x]
      by (intro exI [of _ "[x]"]) (cases x; auto simp: retry_loop.simps retry_outcome_def split: if_splits option.split)
  qed
next
  case (Suc n prior s)
  let ?refused = "hx_new env (ar_method rq) (ar_url rq)"
  obtain a s1 where a: "attempt (traced_http env) ctx rq s = (a, s1)" by (meson surj_pair)
  note t = attempt_traced [OF a]
  show ?case
  proof (cases ?refused)
    case (Some e)
    then show ?thesis
      using t Suc.prems a by (intro exI [of _ "[]"]) (auto simp: retry_loop.simps retry_outcome_def split: option.split)
  next
    case None
    then obtain x where x: "snd s1 = snd s @ exchange_events rq x"
      "a = (if transient x then Transient (exchange_error x) else if accepted x then Done (projr x) else Permanent (exchange_error x))"
      using t by auto
    show ?thesis
    proof (cases "transient x")
      case False
      then show ?thesis
        using Suc.prems a None x
        by (intro exI [of _ "[x]"]) (cases x; auto simp: retry_loop.simps retry_outcome_def split: if_splits option.split)
    next
      case True
      obtain b s2 where b: "hx_wait (traced_http env) ctx (max_retry_attempts - Suc n) s1 = (b, s2)" by (meson surj_pair)
      have s2: "snd s2 = snd s1" using b by (cases s1) (auto simp: traced_http_def split: prod.splits)
      show ?thesis
      proof (cases b)
        case False
        then have "res = Inl (exchange_error x)" "s' = s2"
          using Suc.prems a x True b by (simp_all add: retry_loop.simps)
        then show ?thesis
          using None x True s2 transient_not_accepted [OF True]
          by (intro exI [of _ "[x]"]) (auto simp: retry_outcome_def)
      next
        case True': True
        then have "retry_loop (traced_http env) ctx rq n (Some (exchange_error x)) s2 = (res, s')"
          using Suc.prems a x True b by (simp add: retry_loop.simps [of _ _ _ "Suc n"])
        from Suc.IH [OF this] obtain ys where ys: "snd s' = snd s2 @ concat (map (exchange_events rq) ys)"
          "retry_outcome n (Some (exchange_error x)) ?refused ys res" by blast
        have "ys \<noteq> []" using ys(2) None by (auto simp: retry_outcome_def)
        then have "retry_outcome (Suc n) prior ?refused (x # ys) res"
          using ys(2) None True transient_not_accepted [OF True]
          by (auto simp: retry_outcome_def split: sum.splits list.splits)
        then show ?thesis using ys(1) s2 x(1) by (intro exI [of _ "x # ys"]) simp
      qed
    qed
  qed
qed

lemma completion_traced:
  assumes "ai_complete (traced_http env) ctx c system ms stream s = (ans, s')"
  shows "\<exists>xs res. retry_outcome (max_retry_attempts - 1) None
      (hx_new env ''POST'' (ar_url (completion_request c system ms stream))) xs res \<and>
    snd s' = snd s @ concat (map (exchange_events (completion_request c system ms stream)) xs) @
      (case res of Inl e \<Rightarrow> [] | Inr r \<Rightarrow> [HxClosed]) \<and>
    ans = (case res of Inl e \<Rightarrow> (([], no_usage, Some (completion_error c e)), [])
      | Inr r \<Rightarrow> parse_completion env c stream r)"
proof -
  let ?rq = "completion_request c system ms stream"
  define cx where "cx = hx_timeout (traced_http env) ctx (if cl_timeout c \<le> 0 then ai_request_timeout else cl_timeout c) s"
  obtain res s1 where r: "do_with_retry (traced_http env) cx ?rq s = (res, s1)" by (meson surj_pair)
  have "ar_method ?rq = ''POST''" by (simp add: completion_request_def split: client_kind.split)
  with retry_traced [OF r [unfolded do_with_retry_def]] obtain xs where xs:
    "snd s1 = snd s @ concat (map (exchange_events ?rq) xs)"
    "retry_outcome (max_retry_attempts - 1) None (hx_new env ''POST'' (ar_url ?rq)) xs res" by auto
  have u: "hx_unmarshal (traced_http env) = hx_unmarshal env" by (simp add: traced_http_def)
  have "parse_completion (traced_http env) c stream r = parse_completion env c stream r" for r
    unfolding parse_completion_def anthropic_response_def openai_response_def gemini_response_def read_response_def u ..
  moreover have "snd (hx_close (traced_http env) s1) = snd s1 @ [HxClosed]"
    by (cases s1) (simp add: traced_http_def)
  ultimately show ?thesis
    using assms r xs unfolding ai_complete_def Let_def cx_def [symmetric]
    by (intro exI [of _ xs] exI [of _ res]) (auto split: sum.splits)
qed

text \<open>
  C9: A completion makes at most four exchanges, all but the last of them transient failures, and
  ends with the answer to the response it accepts or with an error; the body of every response
  is closed once. The error is that of the last transient failure, if there was any, also when
  the exchanges ended for another reason.
\<close>

theorem ai_completion_exchanges:
  "case ai_complete (traced_http env) ctx c system ms stream s of (ans, s') \<Rightarrow>
     \<exists>xs res. retry_outcome (max_retry_attempts - 1) None
         (hx_new env ''POST'' (ar_url (completion_request c system ms stream))) xs res \<and>
       snd s' = snd s @ concat (map (exchange_events (completion_request c system ms stream)) xs) @
         (case res of Inl e \<Rightarrow> [] | Inr r \<Rightarrow> [HxClosed]) \<and>
       ans = (case res of Inl e \<Rightarrow> (([], no_usage, Some (completion_error c e)), [])
         | Inr r \<Rightarrow> parse_completion env c stream r)"
  using completion_traced [of env ctx c system ms stream s] by (simp split: prod.split)

section \<open>Reading a stream\<close>

text \<open>A stream of events as a server writes it: an empty line ends each.\<close>

definition sse_text :: "json list \<Rightarrow> string" where
  "sse_text js = concat (map (\<lambda>j. ''data: '' @ json_text j @ newline @ newline) js)"

fun handle_all :: "('a \<Rightarrow> 's \<Rightarrow> gerr option \<times> 's) \<Rightarrow> 'a list \<Rightarrow> 's \<Rightarrow> gerr option \<times> 's" where
  "handle_all h [] s = (None, s)"
| "handle_all h (d # ds) s = (case h d s of (Some e, s') \<Rightarrow> (Some e, s') | (None, s') \<Rightarrow> handle_all h ds s')"

definition short_object :: "json \<Rightarrow> bool" where
  "short_object j \<longleftrightarrow> json_ok max_nesting j \<and> (\<exists>kvs. j = JObj kvs) \<and> length (json_text j) + 6 < 64 * 1024"

lemma parse_sse_text:
  assumes "\<forall>j \<in> set js. short_object j"
  shows "sse_lines rderr h (split_lines (sse_text js @ rest)) s =
    (case handle_all (\<lambda>j. h (json_text j)) js s of
       (Some e, s') \<Rightarrow> (Some e, s') | (None, s') \<Rightarrow> sse_lines rderr h (split_lines rest) s')"
  using assms
proof (induction js arbitrary: s)
  case Nil
  then show ?case by (simp add: sse_text_def)
next
  case (Cons j js)
  obtain kvs where j: "j = JObj kvs" "json_ok max_nesting j" "length (json_text j) + 6 < 64 * 1024"
    using Cons.prems by (auto simp: short_object_def)
  let ?l = "''data: '' @ json_text j"
  have nl: "CHR 0x0A \<notin> set ?l" using json_text_line [OF j(2)] by simp
  have lines: "split_lines (sse_text (j # js) @ rest) = ?l # [] # split_lines (sse_text js @ rest)"
    using split_lines_line [OF nl, of "newline @ sse_text js @ rest"] split_lines_line [of "[]" "sse_text js @ rest"]
    by (simp add: sse_text_def)
  have "last ?l = CHR 0x7D" by (simp add: j(1))
  then have cr: "drop_cr ?l = ?l" by (simp add: drop_cr_def)
  have "json_text j \<noteq> ''[DONE]''" by (simp add: j(1))
  then show ?case
    unfolding lines using Cons.IH Cons.prems j(3) cr
    by (simp add: has_prefix_def drop_cr_def split: prod.split option.split)
qed

text \<open>The event by which each provider sends a piece of the answer.\<close>

definition delta_event :: "client_kind \<Rightarrow> string \<Rightarrow> json" where
  "delta_event kind t =
     (case kind of
        Anthropic \<Rightarrow> JObj [(''type'', JStr ''content_block_delta''), (''index'', JNum ''0''),
          (''delta'', JObj [(''type'', JStr ''text_delta''), (''text'', JStr t)])]
      | OpenAI \<Rightarrow> JObj [(''object'', JStr ''chat.completion.chunk''),
          (''choices'', JArr [JObj [(''index'', JNum ''0''), (''delta'', JObj [(''content'', JStr t)]), (''finish_reason'', JNull)]])]
      | Gemini \<Rightarrow> JObj [(''candidates'', JArr [JObj [(''content'',
          JObj [(''parts'', JArr [JObj [(''text'', JStr t)]]), (''role'', JStr ''model'')])]])])"

definition handle_event :: "ai_client \<Rightarrow> string \<Rightarrow> ai_stream \<Rightarrow> gerr option \<times> ai_stream" where
  "handle_event c =
     (case cl_kind c of Anthropic \<Rightarrow> anthropic_event | OpenAI \<Rightarrow> openai_event c | Gemini \<Rightarrow> gemini_event)"

lemma plain_keys:
  "clean_text ''type'' = ''type''" "clean_text ''index'' = ''index''" "clean_text ''delta'' = ''delta''"
  "clean_text ''text'' = ''text''" "clean_text ''object'' = ''object''" "clean_text ''choices'' = ''choices''"
  "clean_text ''content'' = ''content''" "clean_text ''finish_reason'' = ''finish_reason''"
  "clean_text ''candidates'' = ''candidates''" "clean_text ''parts'' = ''parts''" "clean_text ''role'' = ''role''"
  "clean_text ''content_block_delta'' = ''content_block_delta''" "clean_text ''text_delta'' = ''text_delta''"
  "clean_text ''model'' = ''model''" "clean_text ''chat.completion.chunk'' = ''chat.completion.chunk''"
  by code_simp+

lemma folded_keys:
  "fold_name ''type'' = ''type''" "fold_name ''index'' = ''index''" "fold_name ''delta'' = ''delta''"
  "fold_name ''text'' = ''text''" "fold_name ''object'' = ''object''" "fold_name ''role'' = ''role''"
  "fold_name ''content'' = ''content''" "fold_name ''choices'' = ''choices''" "fold_name ''usage'' = ''usage''"
  "fold_name ''error'' = ''error''" "fold_name ''finish_reason'' = ''finish_reason''" "fold_name ''parts'' = ''parts''"
  "fold_name ''finishReason'' = ''finishreason''" "fold_name ''candidates'' = ''candidates''"
  "fold_name ''reasoning_content'' = ''reasoning_content''" "fold_name ''reasoning'' = ''reasoning''"
  "fold_name ''usageMetadata'' = ''usagemetadata''"
  by code_simp+

lemma num_zero: "num_ok ''0''"
  by code_simp

lemma delta_event_ok: "json_ok max_nesting (delta_event kind t)"
proof -
  have "json_ok 9 (delta_event kind t)" using num_zero by (cases kind) (simp_all add: delta_event_def)
  then show ?thesis by (rule json_ok_mono) (simp add: max_nesting_def)
qed

lemma delta_event_clean: "clean (delta_event kind t) = delta_event kind (clean_text t)"
  by (cases kind) (simp_all add: delta_event_def plain_keys)

lemmas decoder_steps = dec_struct_def dec_slice_def dec_str_def dec_ptr_def field_at_def find_field_def folded_keys

lemma unmarshal_delta:
  "unmarshal f z (json_text (delta_event kind t)) = f (delta_event kind (clean_text t)) z"
  using unmarshal_text [OF delta_event_ok order.refl] by (simp add: delta_event_clean)

lemma anthropic_delta:
  "anthropic_event (json_text (delta_event Anthropic t)) s = (None, answer_token (clean_text t) s)"
proof -
  have "unmarshal event_type [] (json_text (delta_event Anthropic t)) = (''content_block_delta'', False)"
    unfolding unmarshal_delta unfolding event_type_def delta_event_def by (simp add: decoder_steps)
  moreover have "fst (unmarshal text_delta_decoder [] (json_text (delta_event Anthropic t))) = clean_text t"
    unfolding unmarshal_delta unfolding text_delta_decoder_def delta_event_def by (simp add: decoder_steps)
  ultimately show ?thesis by (simp add: anthropic_event_def)
qed

lemma openai_delta:
  "openai_event c (json_text (delta_event OpenAI t)) s = (None, answer_token (clean_text t) s)"
proof -
  let ?f = "dec_struct (openai_fields delta_decoder @ [(''error'', field_at ok_error ok_error_update error_decoder)])"
  have "unmarshal ?f openai_chunk0 (json_text (delta_event OpenAI t)) = ?f (delta_event OpenAI (clean_text t)) openai_chunk0"
    by (rule unmarshal_delta)
  also have "\<dots> = (openai_chunk0\<lparr>ok_choices := [openai_choice0\<lparr>oc_content := clean_text t\<rparr>]\<rparr>, False)"
    by (simp add: delta_event_def openai_fields_def delta_decoder_def chat_decoder_def openai_chunk0_def openai_choice0_def decoder_steps)
  finally show ?thesis
    by (simp add: openai_event_def openai_chunk0_def openai_choice0_def stop_reason_def reasoning_token_def given_usage_def)
qed

lemma gemini_delta:
  "gemini_event (json_text (delta_event Gemini t)) s = (None, answer_token (clean_text t) s)"
proof -
  let ?f = "dec_struct (gemini_fields True @ [(''error'', field_at gk_error gk_error_update error_decoder)])"
  have "unmarshal ?f gemini_chunk0 (json_text (delta_event Gemini t)) = ?f (delta_event Gemini (clean_text t)) gemini_chunk0"
    by (rule unmarshal_delta)
  also have "\<dots> = (gemini_chunk0\<lparr>gk_candidates := [\<lparr>gc_parts = [clean_text t], gc_finish = []\<rparr>]\<rparr>, False)"
    by (simp add: delta_event_def gemini_fields_def candidate_decoder_def parts_decoder_def gemini_chunk0_def decoder_steps)
  finally show ?thesis
    by (simp add: gemini_event_def gemini_chunk0_def stop_reason_def given_usage_def)
qed

lemma handle_delta: "handle_event c (json_text (delta_event (cl_kind c) t)) s = (None, answer_token (clean_text t) s)"
  using anthropic_delta openai_delta gemini_delta by (cases "cl_kind c") (simp_all add: handle_event_def)

lemma handle_deltas:
  "handle_all (\<lambda>j. handle_event c (json_text j)) (map (delta_event (cl_kind c)) ts) s = (None, fold (answer_token \<circ> clean_text) ts s)"
  by (induction ts arbitrary: s) (simp_all add: handle_delta)

lemma answer_tokens:
  "fold (answer_token \<circ> clean_text) ts s =
     s\<lparr>as_text := as_text s @ concat (map clean_text ts), as_shown := as_shown s @ filter (\<lambda>t. t \<noteq> []) (map clean_text ts)\<rparr>"
  by (induction ts arbitrary: s) (auto simp: answer_token_def)

definition done_line :: string where
  "done_line = ''data: [DONE]'' @ newline @ newline"

lemma sse_end: "sse_lines e h (split_lines []) s = (e, s)" "sse_lines e h (split_lines done_line) s = (None, s)"
proof -
  show "sse_lines e h (split_lines []) s = (e, s)" by (simp add: split_lines.simps)
  have "split_lines done_line = ''data: [DONE]'' # split_lines newline"
    unfolding done_line_def by (rule split_lines_line) simp
  then show "sse_lines e h (split_lines done_line) s = (None, s)"
    by (simp add: has_prefix_def drop_cr_def)
qed

lemma stream_deltas:
  assumes "\<forall>t \<in> set ts. length (json_text (delta_event (cl_kind c) t)) + 6 < 64 * 1024"
    and "rest = [] \<and> err = e \<or> rest = done_line \<and> err = None"
  shows "parse_sse \<lparr>rp_status = st, rp_data = sse_text (map (delta_event (cl_kind c)) ts) @ rest, rp_err = e\<rparr> (handle_event c) stream_start =
    (err, stream_start\<lparr>as_text := concat (map clean_text ts), as_shown := filter (\<lambda>t. t \<noteq> []) (map clean_text ts)\<rparr>)"
proof -
  have "\<exists>kvs. delta_event (cl_kind c) t = JObj kvs" for t by (simp add: delta_event_def split: client_kind.split)
  then have "\<forall>j \<in> set (map (delta_event (cl_kind c)) ts). short_object j"
    using assms(1) delta_event_ok by (auto simp: short_object_def)
  from parse_sse_text [OF this, of e "handle_event c" rest stream_start] show ?thesis
    using assms(2) sse_end by (auto simp: parse_sse_def handle_deltas answer_tokens stream_start_def)
qed

lemma completion_deltas:
  assumes "\<forall>t \<in> set ts. length (json_text (delta_event (cl_kind c) t)) + 6 < 64 * 1024"
    and "rest = [] \<and> err = e \<or> rest = done_line \<and> err = None"
    and "err \<noteq> None \<or> concat (map clean_text ts) \<noteq> []"
  shows "parse_completion env c True \<lparr>rp_status = st, rp_data = sse_text (map (delta_event (cl_kind c)) ts) @ rest, rp_err = e\<rparr> =
    ((concat (map clean_text ts), no_usage, err), filter (\<lambda>t. t \<noteq> []) (map clean_text ts))"
proof -
  note run = stream_deltas [OF assms(1,2), of st]
  show ?thesis
  proof (cases "cl_kind c")
    case Anthropic
    then show ?thesis
      using run assms(3) by (auto simp: handle_event_def parse_completion_def anthropic_stream_def stream_start_def split: option.split)
  next
    case Gemini
    then show ?thesis
      using run assms(3) by (auto simp: handle_event_def parse_completion_def gemini_stream_def stream_start_def split: option.split)
  next
    case OpenAI
    then show ?thesis
      using run assms(3) by (auto simp: handle_event_def parse_completion_def openai_stream_def stream_start_def split: option.split)
  qed
qed

text \<open>
  C35: A streamed answer is read back: from the events by which a provider sends the pieces of an
  answer, each on a line of less than 64 KiB, the client shows the pieces one by one and returns
  their concatenation. An error of the connection is returned with the text so far, and one
  after the end of the stream is not noticed.
\<close>

theorem ai_stream_reads:
  assumes "\<forall>t \<in> set ts. length (json_text (delta_event (cl_kind c) t)) + 6 < 64 * 1024"
    and "rest = [] \<and> err = e \<or> rest = done_line \<and> err = None"
    and "err \<noteq> None \<or> concat (map clean_text ts) \<noteq> []"
  shows "parse_completion env c True \<lparr>rp_status = st, rp_data = sse_text (map (delta_event (cl_kind c)) ts) @ rest, rp_err = e\<rparr> =
    ((concat (map clean_text ts), no_usage, err), filter (\<lambda>t. t \<noteq> []) (map clean_text ts))"
  using assms by (rule completion_deltas)

definition sample_client :: "client_kind \<Rightarrow> ai_client" where
  "sample_client k = \<lparr>cl_kind = k, cl_provider = [], cl_key = ''k'', cl_model = ''m'', cl_base = ''http://ai'',
     cl_effort = [], cl_max_tokens = 10, cl_timeout = 0\<rparr>"

definition sample_pieces :: "string list" where
  "sample_pieces = [''Hel'', [], ''lo '' @ newline]"

theorem ai_stream_reads_witness:
  "parse_completion (undefined :: unit http_env) (sample_client OpenAI) True
     \<lparr>rp_status = 200, rp_data = sse_text (map (delta_event OpenAI) sample_pieces) @ done_line, rp_err = Some EUnexpectedEOF\<rparr> =
   ((''Hello '' @ newline, no_usage, None), [''Hel'', ''lo '' @ newline])"
proof -
  have k: "cl_kind (sample_client OpenAI) = OpenAI" by (simp add: sample_client_def)
  have "map (\<lambda>t. length (json_text (delta_event OpenAI t))) sample_pieces = [105, 102, 107]" by code_simp
  then have short: "\<forall>t \<in> set sample_pieces. length (json_text (delta_event OpenAI t)) + 6 < 64 * 1024"
    by (simp add: sample_pieces_def)
  have clean: "map clean_text sample_pieces = [''Hel'', [], ''lo '' @ newline]" by code_simp
  show ?thesis
    using ai_stream_reads [of sample_pieces "sample_client OpenAI" done_line None, unfolded k, OF short] by (simp add: clean)
qed

section \<open>What is shown and what is returned\<close>

text \<open>A stream is sound when its answer and its reasoning are made of the tokens that were shown.\<close>

definition sound :: "bool \<Rightarrow> ai_stream \<Rightarrow> bool" where
  "sound plain s \<longleftrightarrow> (\<exists>tags. map snd tags = as_shown s \<and> [] \<notin> snd ` set tags \<and> (plain \<longrightarrow> fst ` set tags \<subseteq> {True}) \<and>
     concat (map snd (filter fst tags)) = as_text s \<and> concat (map snd (filter (Not \<circ> fst) tags)) = as_reasoning s)"

lemma sound_start: "sound plain stream_start"
  unfolding sound_def stream_start_def by (rule exI [of _ "[]"]) simp

lemma sound_answer: "sound plain s \<Longrightarrow> sound plain (answer_token t s)"
  unfolding sound_def answer_token_def
  by (clarsimp, rule_tac x = "tags @ [(True, t)]" in exI) auto

lemma sound_reasoning: "sound False s \<Longrightarrow> sound False (reasoning_token t s)"
  unfolding sound_def reasoning_token_def
  by (clarsimp, rule_tac x = "tags @ [(False, t)]" in exI) auto

lemma sound_update [simp]:
  "sound plain (s\<lparr>as_usage := u\<rparr>) = sound plain s" "sound plain (stop_reason t s) = sound plain s"
  by (simp_all add: sound_def stop_reason_def)

lemma sound_event: "sound (cl_kind c \<noteq> OpenAI) s \<Longrightarrow> handle_event c data s = (e, s') \<Longrightarrow> sound (cl_kind c \<noteq> OpenAI) s'"
  unfolding handle_event_def
  by (cases "cl_kind c")
    (auto simp: anthropic_event_def openai_event_def gemini_event_def Let_def sound_answer sound_reasoning
      split: prod.splits bool.splits if_splits option.splits list.splits)

lemma sse_lines_keep:
  assumes "\<And>d s e s'. P s \<Longrightarrow> h d s = (e, s') \<Longrightarrow> P s'"
  shows "P s \<Longrightarrow> sse_lines rderr h ls s = (e, s') \<Longrightarrow> P s'"
proof (induction ls arbitrary: s)
  case (Cons l ls)
  show ?case
  proof (cases "64 * 1024 \<le> length l \<or> \<not> has_prefix (drop_cr l) ''data: '' \<or> drop 6 (drop_cr l) = ''[DONE]''")
    case True
    then show ?thesis using Cons by (auto simp: Let_def split: if_splits)
  next
    case False
    obtain x s1 where x: "h (drop 6 (drop_cr l)) s = (x, s1)" by (meson surj_pair)
    then show ?thesis using False Cons assms [OF Cons.prems(1) x] by (cases x) (auto simp: Let_def)
  qed
qed simp

text \<open>
  Whatever a provider streams, the tokens that the client shows are pieces of the answer and,
  for the OpenAI format only, of its reasoning, none of them empty; the text that it returns
  is the concatenation of the pieces of the answer, in order, and without an error it is not empty.
\<close>

theorem ai_stream_shown:
  "case parse_completion env c True r of ((text, usage, err), shown) \<Rightarrow>
     (\<exists>tags. map snd tags = shown \<and> [] \<notin> set shown \<and> (cl_kind c \<noteq> OpenAI \<longrightarrow> fst ` set tags \<subseteq> {True}) \<and>
        concat (map snd (filter fst tags)) = text) \<and>
     (err = None \<longrightarrow> text \<noteq> [])"
proof -
  obtain e s where run: "parse_sse r (handle_event c) stream_start = (e, s)" by (meson surj_pair)
  have "sound (cl_kind c \<noteq> OpenAI) s"
    by (rule sse_lines_keep [where P = "sound (cl_kind c \<noteq> OpenAI)" and h = "handle_event c", OF sound_event sound_start run [unfolded parse_sse_def]])
  then obtain tags where tags: "map snd tags = as_shown s" "[] \<notin> snd ` set tags" "cl_kind c \<noteq> OpenAI \<longrightarrow> fst ` set tags \<subseteq> {True}"
    "concat (map snd (filter fst tags)) = as_text s" unfolding sound_def by blast
  have "[] \<notin> set (as_shown s)" using tags(1,2) by (metis list.set_map)
  moreover obtain err usage where "parse_completion env c True r = ((as_text s, usage, err), as_shown s)" "err = None \<longrightarrow> as_text s \<noteq> []"
    using run unfolding handle_event_def parse_completion_def
    by (cases "cl_kind c"; cases e; cases "as_text s = []")
      (simp_all add: anthropic_stream_def openai_stream_def gemini_stream_def)
  ultimately show ?thesis using tags by auto
qed

theorem ai_stream_shown_witness:
  "\<exists>tags. map snd tags = [''Hel'', ''lo '' @ newline] \<and> concat (map snd (filter fst tags)) = ''Hello '' @ newline"
proof -
  have k: "cl_kind (sample_client Gemini) = Gemini" by (simp add: sample_client_def)
  have "map (\<lambda>t. length (json_text (delta_event Gemini t)) + 6 < 200) sample_pieces = [True, True, True]" by code_simp
  then have short: "\<forall>t \<in> set sample_pieces. length (json_text (delta_event Gemini t)) + 6 < 64 * 1024"
    by (simp add: sample_pieces_def)
  have clean: "map clean_text sample_pieces = [''Hel'', [], ''lo '' @ newline]" by code_simp
  let ?r = "\<lparr>rp_status = 200, rp_data = sse_text (map (delta_event Gemini) sample_pieces), rp_err = None\<rparr>"
  have run: "parse_completion undefined (sample_client Gemini) True ?r = ((''Hello '' @ newline, no_usage, None), [''Hel'', ''lo '' @ newline])"
    using completion_deltas [where ts = sample_pieces and c = "sample_client Gemini" and rest = "[]" and err = None and e = None
        and st = 200 and env = undefined, unfolded k, OF short] by (simp add: clean)
  show ?thesis
    using ai_stream_shown [where env = undefined and c = "sample_client Gemini" and r = ?r] unfolding run prod.case
    by (elim conjE exE) (intro exI conjI, assumption+)
qed

end
