(* ===== verification/Ai_Text.thy ===== *)
theory Ai_Text
  imports Ai_Client Shell_Syntax
begin

text \<open>
  The texts of the AI shell: the conversation that is sent, the command that is taken out of an
  answer, what a command is classified as, and the captured output of commands
  (src/cmd/ai.go, aiprompt.go and the pure helpers of aiproc.go and aikeys.go).
\<close>

section \<open>The conversation\<close>

definition max_history :: nat where
  "max_history = 12"

definition max_capture :: nat where
  "max_capture = 2048"

definition max_fix_attempts :: nat where
  "max_fix_attempts = 2"

fun leading_user_history :: "ai_message list \<Rightarrow> ai_message list" where
  "leading_user_history [] = []"
| "leading_user_history (m # ms) = (if am_role m \<noteq> ''user'' then leading_user_history ms else m # ms)"

definition trim_history :: "ai_message list \<Rightarrow> nat \<Rightarrow> ai_message list" where
  "trim_history h mx =
     (if length h \<le> mx then h else leading_user_history (drop (length h - mx) h))"

definition build_feedback :: "gerr option \<Rightarrow> string \<Rightarrow> string \<Rightarrow> string" where
  "build_feedback err stdout stderr =
     (let out = trim_space stdout; errout = trim_space stderr
      in ''[execution result] '' @ (case err of Some e \<Rightarrow> ''error: '' @ err_text e | None \<Rightarrow> ''ok'') @
         (if out \<noteq> [] then newline @ ''stdout (last '' @ nat_text (length out) @ '' bytes):'' @ newline @ out else []) @
         (if errout \<noteq> [] then newline @ ''stderr:'' @ newline @ errout else []))"

section \<open>Classes of commands\<close>

definition lower_text :: "string \<Rightarrow> string" where
  "lower_text s = concat (map lower_rune (runes s))"

definition destructive_prefixes :: "string list" where
  "destructive_prefixes =
     [''manage delete-queue'', ''manage delete-topic'', ''manage delete-exchange'', ''manage unbind-queue'', ''manage purge'']"

definition object_prefixes :: "string list" where
  "object_prefixes =
     [''manage create-queue'', ''manage delete-queue'', ''manage create-topic'', ''manage delete-topic'',
      ''manage create-exchange'', ''manage delete-exchange'', ''manage bind-queue'', ''manage unbind-queue'']"

definition message_prefixes :: "string list" where
  "message_prefixes =
     [''manage purge'', ''move '', ''send '', ''publish '', ''receive '', ''peek '', ''request '', ''reply '',
      ''forward '', ''subscribe '']"

definition matches_prefix :: "string list \<Rightarrow> string \<Rightarrow> bool" where
  "matches_prefix prefixes command = list_ex (has_prefix (lower_text (trim_space command))) prefixes"

definition is_destructive :: "string \<Rightarrow> bool" where
  "is_destructive = matches_prefix destructive_prefixes"

definition mutates_objects :: "string \<Rightarrow> bool" where
  "mutates_objects = matches_prefix object_prefixes"

definition mutates_messages :: "string \<Rightarrow> bool" where
  "mutates_messages = matches_prefix message_prefixes"

definition is_manage_list :: "string \<Rightarrow> bool" where
  "is_manage_list = matches_prefix [''manage list'']"

definition any_command :: "string \<Rightarrow> (string \<Rightarrow> bool) \<Rightarrow> bool" where
  "any_command line predicate = list_ex predicate (split_commands line)"

text \<open>A backgroundable segment: a streaming verb with \<open>--for\<close> or \<open>--forever\<close>.\<close>

definition background_verbs :: "string list" where
  "background_verbs = [''receive'', ''subscribe'', ''peek'', ''forward'', ''bridge'', ''reply'']"

fun for_flag :: "string list \<Rightarrow> bool" where
  "for_flag [] = False"
| "for_flag (p # ps) =
     ((p = ''--for'' \<and> (case ps of q # _ \<Rightarrow> q \<noteq> [] \<and> \<not> has_prefix q ''-'' | [] \<Rightarrow> False)) \<or>
      (has_prefix p ''--for='' \<and> 6 < length p) \<or> p = ''--forever'' \<or>
      (has_prefix p ''--forever='' \<and> 10 < length p) \<or> for_flag ps)"

definition seg_has_for :: "string \<Rightarrow> bool" where
  "seg_has_for segment =
     (case shell_split segment of
        [] \<Rightarrow> False
      | v # ps \<Rightarrow> lower_text v \<in> set background_verbs \<and> for_flag (v # ps))"

definition command_has_for :: "string \<Rightarrow> bool" where
  "command_has_for line = any_command line seg_has_for"

definition process_name :: "string \<Rightarrow> string" where
  "process_name command =
     (case shell_split command of
        [] \<Rightarrow> command
      | verb # ps \<Rightarrow>
          (case find (\<lambda>p. \<not> has_prefix p ''-'') ps of Some p \<Rightarrow> verb @ '' '' @ p | None \<Rightarrow> verb))"

text \<open>A command that ends with a bare ampersand is not well formed.\<close>

record amp_state =
  mp_last :: rune
  mp_single :: bool
  mp_double :: bool
  mp_escaped :: bool

definition amp_rune :: "amp_state \<Rightarrow> rune \<Rightarrow> amp_state" where
  "amp_rune s r =
     (if mp_escaped s then s\<lparr>mp_escaped := False, mp_last := r\<rparr>
      else if r = Shell_Syntax.backslash \<and> \<not> mp_single s then s\<lparr>mp_escaped := True, mp_last := r\<rparr>
      else if r = quote1 \<and> \<not> mp_double s then s\<lparr>mp_single := \<not> mp_single s, mp_last := r\<rparr>
      else if r = quote2 \<and> \<not> mp_single s then s\<lparr>mp_double := \<not> mp_double s, mp_last := r\<rparr>
      else if \<not> mp_single s \<and> \<not> mp_double s \<and> r \<noteq> '' '' \<and> r \<noteq> [CHR 0x09] then s\<lparr>mp_last := r\<rparr>
      else s)"

definition command_well_formed :: "string \<Rightarrow> bool" where
  "command_well_formed s \<longleftrightarrow>
     mp_last (foldl amp_rune \<lparr>mp_last = [], mp_single = False, mp_double = False, mp_escaped = False\<rparr> (runes s)) \<noteq> ''&''"

section \<open>The command in an answer\<close>

fun split_char :: "char \<Rightarrow> string \<Rightarrow> string list" where
  "split_char c [] = [[]]"
| "split_char c (d # s) =
     (case split_char c s of [] \<Rightarrow> [[d]] | l # ls \<Rightarrow> if d = c then [] # l # ls else (d # l) # ls)"

fun fields_of :: "rune list \<Rightarrow> string \<Rightarrow> string list" where
  "fields_of [] cur = (if cur = [] then [] else [cur])"
| "fields_of (r # rs) cur =
     (if r \<in> set space_runes then (if cur = [] then fields_of rs [] else cur # fields_of rs [])
      else fields_of rs (cur @ r))"

text \<open>\<open>strings.Fields\<close> and \<open>strings.TrimSuffix\<close>; \<open>strings.Index\<close> is the tail from the match on.\<close>

definition text_fields :: "string \<Rightarrow> string list" where
  "text_fields s = fields_of (segments s) []"

definition trim_suffix :: "string \<Rightarrow> string \<Rightarrow> string" where
  "trim_suffix s p = (if drop (length s - length p) s = p \<and> length p \<le> length s then take (length s - length p) s else s)"

fun from_index :: "string \<Rightarrow> string \<Rightarrow> string option" where
  "from_index p [] = (if p = [] then Some [] else None)"
| "from_index p (c # s) = (if has_prefix (c # s) p then Some (c # s) else from_index p s)"

text \<open>The lines inside the fences of a code block.\<close>

fun fenced :: "bool \<Rightarrow> string list \<Rightarrow> string list" where
  "fenced b [] = []"
| "fenced b (l # ls) =
     (if has_prefix l ''```'' then fenced (\<not> b) ls else if b then l # fenced b ls else fenced b ls)"

text \<open>\<open>bin\<close> is the name of the running binary.\<close>

definition strip_binary_prefix :: "string \<Rightarrow> string \<Rightarrow> string" where
  "strip_binary_prefix bin s =
     (if CHR '' '' \<notin> set s then s
      else let first = takeWhile (\<lambda>c. c \<noteq> CHR '' '') s; rest = tl (dropWhile (\<lambda>c. c \<noteq> CHR '' '') s);
               name = trim_suffix (trim_prefix (trim_prefix first ''./'') [CHR ''.'', CHR 0x5C]) ''.exe''
           in if name = bin \<or> name = ''xmc'' then trim_space rest else s)"

definition extract_command :: "string \<Rightarrow> string \<Rightarrow> string" where
  "extract_command bin response =
     (let s = trim_space response;
          s1 = (case from_index ''```'' s of
                  None \<Rightarrow> s
                | Some t \<Rightarrow>
                    (let inner = fenced False (split_char (CHR 0x0A) t)
                     in if inner = [] then s else join newline inner));
          s2 = trim_suffix (trim_prefix (trim_prefix s1 ''$ '') ''`'') ''`''
      in strip_binary_prefix bin (trim_space s2))"

text \<open>The first line of an answer in prose that starts with a verb.\<close>

fun verb_line :: "string \<Rightarrow> string list \<Rightarrow> string list \<Rightarrow> string option" where
  "verb_line bin verbs [] = None"
| "verb_line bin verbs (l # ls) =
     (let line = strip_binary_prefix bin (trim_space l)
      in if line = [] \<or> has_prefix line ''#'' then verb_line bin verbs ls
         else case text_fields line of
                [] \<Rightarrow> verb_line bin verbs ls
              | f # fs \<Rightarrow>
                  (if f \<in> set verbs then Some line
                   else case fs of
                          g # _ \<Rightarrow> if f @ '' '' @ g \<in> set verbs then Some line else verb_line bin verbs ls
                        | [] \<Rightarrow> verb_line bin verbs ls))"

definition extract_command_with_verbs :: "string \<Rightarrow> string list \<Rightarrow> string \<Rightarrow> string" where
  "extract_command_with_verbs bin verbs response =
     (let cmd = extract_command bin response
      in if cmd = [] \<or> has_prefix cmd ''# ask:'' \<or> has_prefix cmd ''# cannot:'' then cmd
         else if hd (text_fields cmd) \<in> set verbs then cmd
         else case verb_line bin verbs (split_char (CHR 0x0A) response) of Some line \<Rightarrow> line | None \<Rightarrow> cmd)"

text \<open>Newlines of a command are collapsed.\<close>

fun pieces :: "string \<Rightarrow> string \<Rightarrow> string list" where
  "pieces [] cur = (if cur = [] then [] else [cur])"
| "pieces (c # s) cur =
     (if c = CHR 0x0A \<or> c = CHR 0x0D then (if cur = [] then pieces s [] else cur # pieces s [])
      else pieces s (cur @ [c]))"

definition one_line_command :: "string \<Rightarrow> string" where
  "one_line_command s = trim_space (join '' '' (pieces s []))"

section \<open>Captured output\<close>

text \<open>A \<open>cappedBuffer\<close>: the writes are kept up to twice the cap, then cut to the cap.\<close>

record capped =
  kb_buf :: string
  kb_max :: nat

definition capped_write :: "capped \<Rightarrow> string \<Rightarrow> capped" where
  "capped_write c p =
     (let b = kb_buf c @ p
      in if 0 < kb_max c \<and> 2 * kb_max c < length b then c\<lparr>kb_buf := drop (length b - kb_max c) b\<rparr> else c\<lparr>kb_buf := b\<rparr>)"

definition capped_string :: "capped \<Rightarrow> string" where
  "capped_string c =
     (let b = kb_buf c in if 0 < kb_max c \<and> kb_max c < length b then drop (length b - kb_max c) b else b)"

end
