(* ===== verification/Ai_Config.thy ===== *)
theory Ai_Config
  imports Ai_Text
begin

text \<open>
  The configuration of the AI shell and its history files (src/cmd/aiconfig.go, aipaths.go,
  history.go): the settings and their defaults, the choice of the provider, and the update of one
  key of the YAML file that leaves the rest of the document as it was.
\<close>

section \<open>Settings\<close>

record connection_config =
  cc_server :: string
  cc_user :: string
  cc_password :: string

record ai_config =
  ac_provider :: string
  ac_model :: string
  ac_max_tokens :: int
  ac_update_objects :: "bool option"
  ac_update_messages :: "bool option"
  ac_refresh :: string
  ac_timeout :: string
  ac_metadata :: string

record xmc_config =
  xc_connection :: connection_config
  xc_ai :: ai_config
  xc_aliases :: "(string \<times> string) list"

definition empty_config :: xmc_config where
  "empty_config =
     \<lparr>xc_connection = \<lparr>cc_server = [], cc_user = [], cc_password = []\<rparr>,
      xc_ai = \<lparr>ac_provider = [], ac_model = [], ac_max_tokens = 0, ac_update_objects = None,
        ac_update_messages = None, ac_refresh = [], ac_timeout = [], ac_metadata = []\<rparr>,
      xc_aliases = []\<rparr>"

datatype metadata_format = MetadataYAML | MetadataJSON

definition parse_metadata_format :: "string \<Rightarrow> metadata_format" where
  "parse_metadata_format s = (if lower_text (trim_space s) = ''json'' then MetadataJSON else MetadataYAML)"

definition auto_update_objects_enabled :: "ai_config \<Rightarrow> bool" where
  "auto_update_objects_enabled c \<longleftrightarrow> ac_update_objects c = None \<or> ac_update_objects c = Some True"

definition auto_update_messages_enabled :: "ai_config \<Rightarrow> bool" where
  "auto_update_messages_enabled c \<longleftrightarrow> ac_update_messages c = None \<or> ac_update_messages c = Some True"

section \<open>Refresh intervals\<close>

text \<open>
  Durations are nanoseconds.  \<open>dt_float\<close> is \<open>strconv.ParseFloat\<close> followed by the conversion of
  that number of seconds to a \<open>time.Duration\<close>, \<open>dt_parse\<close> is \<open>time.ParseDuration\<close> and
  \<open>dt_seconds\<close> the rendering \<open>%gs\<close> of \<open>d.Seconds()\<close>.
\<close>

record duration_texts =
  dt_float :: "string \<Rightarrow> int option"
  dt_parse :: "string \<Rightarrow> int option"
  dt_seconds :: "int \<Rightarrow> string"

definition min_refresh_interval :: int where
  "min_refresh_interval = second"

definition base_refresh_period :: int where
  "base_refresh_period = 5 * second"

definition parse_refresh_interval :: "duration_texts \<Rightarrow> string \<Rightarrow> gerr + int \<times> bool" where
  "parse_refresh_interval dt text =
     (let s = trim_space text
      in if lower_text s = ''off'' \<or> lower_text s = ''none'' then Inr (0, False)
         else case (case dt_float dt s of Some d \<Rightarrow> Some d | None \<Rightarrow> dt_parse dt (lower_text s)) of
                None \<Rightarrow> Inl (ENew (''cannot parse '' @ go_quote s @ '' as a refresh interval (e.g. 3, 5s, 3m, off)''))
              | Some d \<Rightarrow>
                  (if d < min_refresh_interval then Inl (ENew ''minimum refresh interval is 1s'') else Inr (d, True)))"

definition format_refresh_interval :: "duration_texts \<Rightarrow> int \<Rightarrow> bool \<Rightarrow> string" where
  "format_refresh_interval dt d enabled =
     (if \<not> enabled then ''off''
      else if d mod (60 * second) = 0 \<and> 60 * second \<le> d then int_text (d div (60 * second)) @ ''m''
      else dt_seconds dt d)"

definition refresh_interval_duration :: "duration_texts \<Rightarrow> ai_config \<Rightarrow> int \<times> bool" where
  "refresh_interval_duration dt c =
     (if ac_refresh c = [] then (base_refresh_period, True)
      else case parse_refresh_interval dt (ac_refresh c) of Inl e \<Rightarrow> (base_refresh_period, True) | Inr r \<Rightarrow> r)"

text \<open>Zero stands for the default of the client.\<close>

definition request_timeout_duration :: "duration_texts \<Rightarrow> ai_config \<Rightarrow> int" where
  "request_timeout_duration dt c =
     (if ac_timeout c = [] then 0
      else case parse_refresh_interval dt (ac_timeout c) of
             Inl e \<Rightarrow> 0 | Inr (d, on) \<Rightarrow> if d \<le> 0 then 0 else d)"

section \<open>The provider\<close>

record provider_def =
  pd_name :: string
  pd_env_keys :: "string list"
  pd_base :: string
  pd_model :: string

definition provider_order :: "provider_def list" where
  "provider_order =
     [\<lparr>pd_name = ''anthropic'', pd_env_keys = [''ANTHROPIC_API_KEY''], pd_base = ''https://api.anthropic.com'', pd_model = ''claude-sonnet-5''\<rparr>,
      \<lparr>pd_name = ''openai'', pd_env_keys = [''OPENAI_API_KEY''], pd_base = ''https://api.openai.com'', pd_model = ''gpt-5.6-luna''\<rparr>,
      \<lparr>pd_name = ''gemini'', pd_env_keys = [''GEMINI_API_KEY'', ''GOOGLE_API_KEY''], pd_base = ''https://generativelanguage.googleapis.com'', pd_model = ''gemini-3.6-flash''\<rparr>,
      \<lparr>pd_name = ''xai'', pd_env_keys = [''XAI_API_KEY''], pd_base = ''https://api.x.ai'', pd_model = ''grok-4.5''\<rparr>,
      \<lparr>pd_name = ''deepseek'', pd_env_keys = [''DEEPSEEK_API_KEY''], pd_base = ''https://api.deepseek.com'', pd_model = ''deepseek-v4-flash''\<rparr>,
      \<lparr>pd_name = ''mistral'', pd_env_keys = [''MISTRAL_API_KEY''], pd_base = ''https://api.mistral.ai'', pd_model = ''mistral-small-latest''\<rparr>,
      \<lparr>pd_name = ''opencode'', pd_env_keys = [''OPENCODE_API_KEY'', ''OPENCODE_ZEN_API_KEY''], pd_base = ''https://opencode.ai/zen'', pd_model = ''deepseek-v4-flash-free''\<rparr>]"

definition default_max_tokens :: int where
  "default_max_tokens = 4096"

definition find_key :: "string list \<Rightarrow> (string \<Rightarrow> string) \<Rightarrow> string" where
  "find_key ks getenv = (case find (\<lambda>k. getenv k \<noteq> []) ks of Some k \<Rightarrow> getenv k | None \<Rightarrow> [])"

definition spec_of :: "duration_texts \<Rightarrow> xmc_config \<Rightarrow> (string \<Rightarrow> string) \<Rightarrow> provider_def \<Rightarrow> provider_spec" where
  "spec_of dt cfg getenv d =
     \<lparr>ps_name = pd_name d, ps_key = find_key (pd_env_keys d) getenv, ps_base = pd_base d,
      ps_model = or_default (ac_model (xc_ai cfg)) (pd_model d),
      ps_max_tokens = (if ac_max_tokens (xc_ai cfg) \<le> 0 then default_max_tokens else ac_max_tokens (xc_ai cfg)),
      ps_timeout = request_timeout_duration dt (xc_ai cfg)\<rparr>"

definition resolve_provider :: "duration_texts \<Rightarrow> xmc_config \<Rightarrow> (string \<Rightarrow> string) \<Rightarrow> gerr + provider_spec" where
  "resolve_provider dt cfg getenv =
     (let p = ac_provider (xc_ai cfg)
      in if p \<noteq> []
         then (case find (\<lambda>d. fold_name (pd_name d) = fold_name p) provider_order of
                 Some d \<Rightarrow>
                   (if find_key (pd_env_keys d) getenv = []
                    then Inl (ENew (''provider '' @ go_quote (pd_name d) @ '' selected in config but no API key found (set '' @
                      join '' or '' (pd_env_keys d) @ '')''))
                    else Inr (spec_of dt cfg getenv d))
               | None \<Rightarrow> Inl (ENew (''unknown AI provider '' @ go_quote p @
                   '' (supported: anthropic, openai, gemini, xai, deepseek, mistral, opencode)'')))
         else case find (\<lambda>d. find_key (pd_env_keys d) getenv \<noteq> []) provider_order of
                Some d \<Rightarrow> Inr (spec_of dt cfg getenv d)
              | None \<Rightarrow> Inl (ENew (''no AI API key found; set one of: ANTHROPIC_API_KEY, OPENAI_API_KEY, GEMINI_API_KEY, '' @
                  ''XAI_API_KEY, DEEPSEEK_API_KEY, MISTRAL_API_KEY, OPENCODE_API_KEY'')))"

section \<open>The file\<close>

text \<open>
  A node of \<open>yaml.v3\<close>; \<open>yn_rest\<close> is what the code does not touch (style, comments, anchors),
  empty in a node that the code makes.
\<close>

datatype yaml_kind = NoKind | DocumentNode | SequenceNode | MappingNode | ScalarNode | AliasNode

datatype yaml_node =
  YNode (yn_kind: yaml_kind) (yn_value: string) (yn_tag: string) (yn_rest: string) (yn_content: "yaml_node list")

text \<open>The first value of a key in the content of a mapping: keys and values in turn.\<close>

fun yaml_lookup :: "string \<Rightarrow> yaml_node list \<Rightarrow> yaml_node option" where
  "yaml_lookup k (a # b # ns) = (if yn_value a = k then Some b else yaml_lookup k ns)"
| "yaml_lookup k _ = None"

text \<open>
  \<open>yamlFindOrCreateMapping\<close> and the search of \<open>yamlSetScalar\<close>: the node of the key, or a new one
  behind the content, is changed in place by \<open>f\<close>.
\<close>

fun yaml_update :: "string \<Rightarrow> (yaml_node \<Rightarrow> yaml_node) \<Rightarrow> yaml_node \<Rightarrow> yaml_node list \<Rightarrow> yaml_node list" where
  "yaml_update k f new (a # b # ns) =
     (if yn_value a = k then a # f b # ns else a # b # yaml_update k f new ns)"
| "yaml_update k f new ns = ns @ [YNode ScalarNode k [] [] [], f new]"

definition with_content :: "(yaml_node list \<Rightarrow> yaml_node list) \<Rightarrow> yaml_node \<Rightarrow> yaml_node" where
  "with_content g n = YNode (yn_kind n) (yn_value n) (yn_tag n) (yn_rest n) (g (yn_content n))"

definition find_or_create_mapping :: "string \<Rightarrow> (yaml_node \<Rightarrow> yaml_node) \<Rightarrow> yaml_node \<Rightarrow> yaml_node" where
  "find_or_create_mapping k f = with_content (yaml_update k f (YNode MappingNode [] [] [] []))"

definition set_scalar :: "string \<Rightarrow> string \<Rightarrow> yaml_node \<Rightarrow> yaml_node" where
  "set_scalar k v =
     with_content (yaml_update k (\<lambda>n. YNode ScalarNode v [] (yn_rest n) (yn_content n)) (YNode ScalarNode [] [] [] []))"

definition set_ai_key :: "string \<Rightarrow> string \<Rightarrow> yaml_node \<Rightarrow> yaml_node" where
  "set_ai_key k v = find_or_create_mapping ''ai'' (set_scalar k v)"

text \<open>
  The files and the YAML library are arguments; the document of an empty file has no kind.
\<close>

record 'w config_files =
  cf_path :: "gerr + string"
  cf_ensure :: "'w \<Rightarrow> gerr option \<times> 'w"
  cf_read :: "string \<Rightarrow> 'w \<Rightarrow> gerr + string"
  cf_missing :: "gerr \<Rightarrow> bool"
  cf_write :: "string \<Rightarrow> string \<Rightarrow> 'w \<Rightarrow> gerr option \<times> 'w"
  cf_parse :: "string \<Rightarrow> gerr + yaml_node"
  cf_print :: "yaml_node \<Rightarrow> gerr + string"
  cf_decode :: "string \<Rightarrow> gerr + xmc_config"

definition load_config :: "'w config_files \<Rightarrow> 'w \<Rightarrow> gerr + xmc_config" where
  "load_config cf w =
     (case cf_path cf of
        Inl e \<Rightarrow> Inr empty_config
      | Inr path \<Rightarrow>
          (case cf_read cf path w of
             Inl e \<Rightarrow> (if cf_missing cf e then Inr empty_config else Inl (EWrap (''read config '' @ path @ '': '') e []))
           | Inr d \<Rightarrow>
               (case cf_decode cf d of
                  Inl e \<Rightarrow> Inl (EWrap (''parse config '' @ path @ '': '') e [])
                | Inr cfg \<Rightarrow> Inr cfg)))"

definition new_document :: yaml_node where
  "new_document = YNode DocumentNode [] [] [] [YNode MappingNode [] [] [] []]"

text \<open>\<open>doc.Content[0]\<close>: a document has one node.\<close>

definition set_document_key :: "string \<Rightarrow> string \<Rightarrow> yaml_node \<Rightarrow> yaml_node" where
  "set_document_key k v doc = with_content (\<lambda>ns. set_ai_key k v (hd ns) # tl ns) doc"

definition save_ai_config_key :: "'w config_files \<Rightarrow> string \<Rightarrow> string \<Rightarrow> 'w \<Rightarrow> gerr option \<times> 'w" where
  "save_ai_config_key cf k v w =
     (case cf_ensure cf w of
        (Some e, w1) \<Rightarrow> (Some e, w1)
      | (None, w1) \<Rightarrow>
          (case cf_path cf of
             Inl e \<Rightarrow> (Some e, w1)
           | Inr path \<Rightarrow>
               (case (case cf_read cf path w1 of
                        Inl e \<Rightarrow> Inr (YNode NoKind [] [] [] [])
                      | Inr d \<Rightarrow> if d = [] then Inr (YNode NoKind [] [] [] []) else cf_parse cf d) of
                  Inl e \<Rightarrow> (Some (EWrap (''parse '' @ path @ '': '') e []), w1)
                | Inr doc \<Rightarrow>
                    (case cf_print cf (set_document_key k v (if yn_kind doc = NoKind then new_document else doc)) of
                       Inl e \<Rightarrow> (Some e, w1)
                     | Inr out \<Rightarrow> cf_write cf path out w1))))"

section \<open>History files\<close>

text \<open>A failure to open the file gives no lines and drops the new line.\<close>

definition history_load :: "gerr + string \<Rightarrow> string list" where
  "history_load file =
     (case file of
        Inl e \<Rightarrow> []
      | Inr text \<Rightarrow>
          (case scan_each (64 * 1024) None (\<lambda>line (n, ls). (None, n, if line = [] then ls else ls @ [line]))
                  (split_lines text) (0, []) of (e, n, ls) \<Rightarrow> ls))"

definition history_append :: "string \<Rightarrow> string \<Rightarrow> string" where
  "history_append line text = text @ line @ newline"

section \<open>Lemmas\<close>

lemma yaml_lookup_update [simp]: "yaml_lookup k (yaml_update k f new ns) = Some (case yaml_lookup k ns of Some b \<Rightarrow> f b | None \<Rightarrow> f new)"
  if "even (length ns)" for k f new ns
  using that by (induction k f new ns rule: yaml_update.induct) auto

lemma yaml_lookup_update_other [simp]: "k' \<noteq> k \<Longrightarrow> yaml_lookup k' (yaml_update k f new ns) = yaml_lookup k' ns"
  if "even (length ns)" for k k' f new ns
  using that by (induction k f new ns rule: yaml_update.induct) auto

lemma yaml_update_twice:
  assumes "case yaml_lookup k ns of Some b \<Rightarrow> g (f b) = h b | None \<Rightarrow> g (f new) = h new" and "even (length ns)"
  shows "yaml_update k g new (yaml_update k f new ns) = yaml_update k h new ns"
  using assms by (induction k f new ns rule: yaml_update.induct) (auto split: if_splits)

lemma even_update [simp]: "even (length (yaml_update k f new ns)) = even (length ns)"
  by (induction k f new ns rule: yaml_update.induct) auto

text \<open>A mapping has its keys and values in pairs.\<close>

definition well_paired :: "yaml_node \<Rightarrow> bool" where
  "well_paired n \<longleftrightarrow>
     even (length (yn_content n)) \<and>
     (case yaml_lookup ''ai'' (yn_content n) of Some a \<Rightarrow> even (length (yn_content a)) | None \<Rightarrow> True)"

definition ai_content :: "yaml_node \<Rightarrow> yaml_node list" where
  "ai_content n = (case yaml_lookup ''ai'' (yn_content n) of Some a \<Rightarrow> yn_content a | None \<Rightarrow> [])"

lemma with_content_sel [simp]:
  "yn_content (with_content g n) = g (yn_content n)" "yn_kind (with_content g n) = yn_kind n"
  "with_content g (with_content h n) = with_content (g \<circ> h) n"
  by (simp_all add: with_content_def)

lemma ai_content_set:
  assumes "well_paired n"
  shows "ai_content (set_ai_key k v n) =
    yaml_update k (\<lambda>n. YNode ScalarNode v [] (yn_rest n) (yn_content n)) (YNode ScalarNode [] [] [] []) (ai_content n)"
  using assms unfolding well_paired_def ai_content_def set_ai_key_def find_or_create_mapping_def
  by (simp add: set_scalar_def split: option.splits)

lemma ai_content_even: "well_paired n \<Longrightarrow> even (length (ai_content n))"
  by (auto simp: well_paired_def ai_content_def split: option.splits)

lemma well_paired_set: "well_paired n \<Longrightarrow> well_paired (set_ai_key k v n)"
  unfolding well_paired_def set_ai_key_def find_or_create_mapping_def
  by (simp add: set_scalar_def split: option.splits)

lemma set_scalar_twice:
  assumes "even (length (yn_content a))"
  shows "set_scalar k v (set_scalar k u a) = set_scalar k v a"
proof -
  let ?s = "\<lambda>v n. YNode ScalarNode v [] (yn_rest n) (yn_content n)" and ?new = "YNode ScalarNode [] [] [] []"
  have "yaml_update k (?s v) ?new (yaml_update k (?s u) ?new (yn_content a)) = yaml_update k (?s v) ?new (yn_content a)"
    using assms by (intro yaml_update_twice) (auto split: option.split)
  then show ?thesis by (simp add: set_scalar_def with_content_def)
qed

lemma set_ai_key_twice:
  assumes "well_paired n"
  shows "set_ai_key k v (set_ai_key k u n) = set_ai_key k v n"
proof -
  let ?new = "YNode MappingNode [] [] [] []"
  have "yaml_update ''ai'' (set_scalar k v) ?new (yaml_update ''ai'' (set_scalar k u) ?new (yn_content n)) =
      yaml_update ''ai'' (set_scalar k v) ?new (yn_content n)"
    using assms unfolding well_paired_def by (intro yaml_update_twice) (auto simp: set_scalar_twice split: option.splits)
  then show ?thesis by (simp add: set_ai_key_def find_or_create_mapping_def with_content_def)
qed

lemma split_lines_written:
  assumes "\<forall>l \<in> set ls. CHR 0x0A \<notin> set l"
  shows "split_lines (foldl (\<lambda>t l. history_append l t) [] ls) = ls"
proof -
  have flat: "foldl (\<lambda>t l. history_append l t) t ls = t @ concat (map (\<lambda>l. l @ newline) ls)" for t
    by (induction ls arbitrary: t) (simp_all add: history_append_def)
  have "split_lines (concat (map (\<lambda>l. l @ newline) ls)) = ls"
    using assms by (induction ls) (simp_all add: split_lines.simps [of "[]"] split_lines_line)
  then show ?thesis by (simp add: flat)
qed

lemma scan_lines:
  "scan_each mx None (\<lambda>line (n, ls). (None, n, if line = [] then ls else ls @ [line])) ls (m, acc) =
     ((if \<exists>l \<in> set ls. mx \<le> length l then Some (EWrap ''error reading input: '' too_long []) else None), m,
      acc @ filter (\<lambda>l. l \<noteq> []) (map drop_cr (takeWhile (\<lambda>l. length l < mx) ls)))"
  by (induction ls arbitrary: acc) auto

section \<open>Properties\<close>


text \<open>A file with one setting, of which the model is saved.\<close>

definition sample_files :: "string config_files" where
  "sample_files =
     \<lparr>cf_path = Inr ''xmc.yml'', cf_ensure = (\<lambda>w. (None, w)), cf_read = (\<lambda>p w. Inr w), cf_missing = (\<lambda>e. False),
      cf_write = (\<lambda>p d w. (None, d)),
      cf_parse = (\<lambda>d. Inr (YNode DocumentNode [] [] []
        [YNode MappingNode [] [] [] [YNode ScalarNode ''ai'' [] [] [],
          YNode MappingNode [] [] [] [YNode ScalarNode ''provider'' [] [] [], YNode ScalarNode d [] [] []]]])),
      cf_print = (\<lambda>n. Inr (concat (map yn_value (ai_content (hd (yn_content n)))))), cf_decode = (\<lambda>d. Inr empty_config)\<rparr>"


text \<open>
  The lines that were appended to a history file are loaded again in their order, without
  the empty ones and without a carriage return at their end, up to the first line that does not
  fit into the scanner's buffer of 64 KiB; from there on the history is lost.
\<close>

theorem history_round_trip:
  assumes "\<forall>l \<in> set ls. CHR 0x0A \<notin> set l"
  shows "history_load (Inr (foldl (\<lambda>t l. history_append l t) [] ls)) =
    filter (\<lambda>l. l \<noteq> []) (map drop_cr (takeWhile (\<lambda>l. length l < 64 * 1024) ls))"
  unfolding history_load_def
  by (simp only: sum.case split_lines_written [OF assms] scan_lines prod.case append_Nil)

theorem history_round_trip_witness:
  "history_load (Inr (history_append ''peek q'' (history_append ''send q'' []))) = [''send q'', ''peek q'']"
  using history_round_trip [of "[''send q'', ''peek q'']"] by (simp add: drop_cr_def)

end
