(* ===== verification/Ai_Conn.thy ===== *)
theory Ai_Conn
  imports Ai_Config
begin

text \<open>
  The timers of the AI shell: the connection probe with its reconnects (src/cmd/aiconn.go, the
  commands /connect and /disconnect of aikeys.go) and the periodic refresh of the broker objects
  (aikeys.go, aitui.go).  Times are nanoseconds; a handler returns the new state, what it appends
  to the transcript and the timers and calls that it starts.
\<close>

section \<open>Texts\<close>

text \<open>The transcript is the list of the texts that were appended, each with its style.\<close>

datatype style = Plain | DimText | WarnText | InfoText | CmdText | UserText | OkText | HistText | CopyHint | BorderText | PayloadText

type_synonym span = "style \<times> string"

definition check_glyph :: string where "check_glyph = [CHR 0xE2, CHR 0x9C, CHR 0x93]"
definition cross_glyph :: string where "cross_glyph = [CHR 0xE2, CHR 0x9C, CHR 0x97]"
definition warn_glyph :: string where "warn_glyph = [CHR 0xE2, CHR 0x9A, CHR 0xA0]"
definition arrow_glyph :: string where "arrow_glyph = [CHR 0xE2, CHR 0x86, CHR 0x92]"
definition hook_glyph :: string where "hook_glyph = [CHR 0xE2, CHR 0x86, CHR 0xB3]"
definition again_glyph :: string where "again_glyph = [CHR 0xE2, CHR 0x86, CHR 0xBB]"
definition run_glyph :: string where "run_glyph = [CHR 0xE2, CHR 0x96, CHR 0xB6]"
definition copy_glyph :: string where "copy_glyph = [CHR 0xE2, CHR 0xA7, CHR 0x89]"
definition dash_glyph :: string where "dash_glyph = [CHR 0xE2, CHR 0x80, CHR 0x94]"
definition dots_glyph :: string where "dots_glyph = [CHR 0xE2, CHR 0x80, CHR 0xA6]"
definition border_glyph :: string where "border_glyph = [CHR 0xE2, CHR 0x94, CHR 0x82]"
definition mid_glyph :: string where "mid_glyph = [CHR 0xC2, CHR 0xB7]"

definition paragraph_of :: "style \<Rightarrow> string \<Rightarrow> span list" where
  "paragraph_of st t = [(st, t), (Plain, newline @ newline)]"

section \<open>Reconnecting\<close>

record conn_state =
  cn_checked :: bool
  cn_err :: "gerr option"
  cn_reconnecting :: bool
  cn_at :: int
  cn_backoff :: int
  cn_disabled :: bool
  cn_blink :: bool
  cn_status :: string

definition new_conn :: conn_state where
  "new_conn =
     \<lparr>cn_checked = False, cn_err = None, cn_reconnecting = False, cn_at = 0, cn_backoff = 0,
      cn_disabled = False, cn_blink = False, cn_status = []\<rparr>"

definition initial_backoff :: int where
  "initial_backoff = 2 * second"

definition max_backoff :: int where
  "max_backoff = 180 * second"

text \<open>\<open>LoadObjects\<close> is the fetch of the objects; the other calls are timers and the probe.\<close>

datatype timer_call = ReconnectTick int | ReconnectProbe | LoadObjects | RefreshTick int | RefreshWatchdog int nat

definition half_second :: int where
  "half_second = 500000000"

definition handle_conn_done :: "int \<Rightarrow> gerr option \<Rightarrow> conn_state \<Rightarrow> conn_state \<times> span list \<times> timer_call list" where
  "handle_conn_done now err c =
     (let c1 = c\<lparr>cn_checked := True, cn_err := err\<rparr>
      in case err of
           None \<Rightarrow> (c1, [], [])
         | Some e \<Rightarrow>
             (let out = paragraph_of WarnText (''connection error: '' @ err_text e)
              in if cn_disabled c1 then (c1, out, [])
                 else (c1\<lparr>cn_reconnecting := True, cn_backoff := initial_backoff, cn_at := now + initial_backoff\<rparr>, out,
                       [ReconnectTick half_second])))"

definition handle_reconnect_tick :: "int \<Rightarrow> conn_state \<Rightarrow> conn_state \<times> span list \<times> timer_call list" where
  "handle_reconnect_tick now c =
     (if \<not> cn_reconnecting c \<or> cn_disabled c then (c\<lparr>cn_status := []\<rparr>, [], [])
      else let c1 = c\<lparr>cn_blink := \<not> cn_blink c\<rparr>; remaining = cn_at c - now
           in if 0 < remaining
              then (c1\<lparr>cn_status := again_glyph @ '' reconnecting in '' @ int_text (remaining div second + 1) @ ''s'' @ dots_glyph\<rparr>,
                    [], [ReconnectTick half_second])
              else (c1\<lparr>cn_status := again_glyph @ '' connecting'' @ dots_glyph\<rparr>, [], [ReconnectProbe]))"

definition handle_reconnect_probe :: "int \<Rightarrow> gerr option \<Rightarrow> conn_state \<Rightarrow> conn_state \<times> span list \<times> timer_call list" where
  "handle_reconnect_probe now err c =
     (case err of
        None \<Rightarrow>
          (c\<lparr>cn_reconnecting := False, cn_status := [], cn_err := None, cn_checked := True\<rparr>,
           paragraph_of InfoText (check_glyph @ '' connected''), [])
      | Some e \<Rightarrow>
          (let b = min (2 * cn_backoff c) max_backoff
           in (c\<lparr>cn_backoff := b, cn_at := now + b\<rparr>, [], [ReconnectTick half_second])))"

text \<open>\<open>ping\<close>: the broker has a probe.\<close>

definition slash_connect :: "bool \<Rightarrow> int \<Rightarrow> conn_state \<Rightarrow> conn_state \<times> span list \<times> timer_call list" where
  "slash_connect ping now c =
     (if \<not> ping then (c, paragraph_of WarnText ''No connection probe available for this broker.'', [])
      else if cn_err c = None \<and> \<not> cn_reconnecting c then (c, paragraph_of DimText ''Already connected.'', [])
      else (c\<lparr>cn_disabled := False, cn_reconnecting := True, cn_at := now,
              cn_status := again_glyph @ '' connecting'' @ dots_glyph\<rparr>,
            paragraph_of DimText (''Connecting'' @ dots_glyph), [ReconnectProbe]))"

definition slash_disconnect :: "conn_state \<Rightarrow> conn_state \<times> span list \<times> timer_call list" where
  "slash_disconnect c =
     (if cn_reconnecting c
      then (c\<lparr>cn_reconnecting := False, cn_disabled := True, cn_status := []\<rparr>,
            paragraph_of DimText ''Auto-reconnect disabled. Use /connect to reconnect manually.'', [])
      else (c, paragraph_of DimText ''Not currently reconnecting.'', []))"

section \<open>Refreshing\<close>

record refresh_state =
  rf_loading :: bool
  rf_busy :: bool
  rf_start :: int
  rf_took :: int
  rf_gen :: nat
  rf_period :: int
  rf_enabled :: bool

definition watchdog_timeout :: int where
  "watchdog_timeout = 120 * second"

definition refresh_factor :: int where
  "refresh_factor = 3"

definition begin_refresh :: "int \<Rightarrow> refresh_state \<Rightarrow> refresh_state \<times> timer_call list" where
  "begin_refresh now r =
     (r\<lparr>rf_busy := True, rf_start := now, rf_gen := rf_gen r + 1\<rparr>,
      [LoadObjects, RefreshWatchdog watchdog_timeout (rf_gen r + 1)])"

text \<open>What the end of a fetch does besides storing the objects in their windows.\<close>

definition handle_objects_done :: "int \<Rightarrow> refresh_state \<Rightarrow> refresh_state \<times> timer_call list" where
  "handle_objects_done now r =
     (let r1 = r\<lparr>rf_loading := False\<rparr>
      in if rf_busy r1
         then (let r2 = r1\<lparr>rf_busy := False, rf_took := now - rf_start r1\<rparr>
               in (r2, if rf_enabled r2 then [RefreshTick (max (refresh_factor * rf_took r2) (rf_period r2))] else []))
         else (r1, []))"

definition handle_refresh_tick :: "bool \<Rightarrow> int \<Rightarrow> refresh_state \<Rightarrow> refresh_state \<times> timer_call list" where
  "handle_refresh_tick windows now r =
     (if \<not> rf_busy r \<and> windows \<and> rf_enabled r then begin_refresh now r else (r, []))"

definition handle_watchdog :: "bool \<Rightarrow> int \<Rightarrow> nat \<Rightarrow> refresh_state \<Rightarrow> refresh_state \<times> timer_call list" where
  "handle_watchdog windows now gen r =
     (if rf_busy r \<and> gen = rf_gen r \<and> windows then begin_refresh now r else (r, []))"

text \<open>\<open>save\<close> writes the setting to the configuration file.\<close>

definition slash_refresh ::
    "duration_texts \<Rightarrow> (string \<Rightarrow> gerr option) \<Rightarrow> bool \<Rightarrow> int \<Rightarrow> string \<Rightarrow> refresh_state \<Rightarrow>
     refresh_state \<times> span list \<times> timer_call list" where
  "slash_refresh dt save windows now arg r =
     (if arg \<noteq> []
      then (case parse_refresh_interval dt arg of
              Inl e \<Rightarrow> (r, paragraph_of WarnText (err_text e), [])
            | Inr (d, enabled) \<Rightarrow>
                (let r1 = r\<lparr>rf_enabled := enabled, rf_period := (if enabled then d else rf_period r)\<rparr>;
                     text = format_refresh_interval dt d enabled;
                     failed = (case save text of Some e \<Rightarrow> '' (save failed: '' @ err_text e @ '')'' | None \<Rightarrow> []);
                     out = paragraph_of DimText (''periodic refresh '' @ arrow_glyph @ '' '' @ text @ failed)
                 in if enabled \<and> \<not> rf_enabled r \<and> \<not> rf_busy r1 \<and> windows
                    then (case begin_refresh now r1 of (r2, cs) \<Rightarrow> (r2, out, cs))
                    else (r1, out, [])))
      else if windows
      then (r\<lparr>rf_loading := True\<rparr>, paragraph_of DimText (''refreshing'' @ dots_glyph), [LoadObjects])
      else (r, paragraph_of DimText ''(no management API)'', []))"

section \<open>The reconnects as a machine\<close>

text \<open>
  The state, the number of timers and probes of the reconnects that are under way, whether the
  probe of \<open>Init\<close> still is, and how many /connect commands started a probe.
\<close>

record conn_sys =
  cs_conn :: conn_state
  cs_ticks :: nat
  cs_probes :: nat
  cs_first :: bool
  cs_connects :: nat

definition conn_start :: "bool \<Rightarrow> conn_sys" where
  "conn_start ping = \<lparr>cs_conn = new_conn, cs_ticks = 0, cs_probes = 0, cs_first = ping, cs_connects = 0\<rparr>"

definition ticks_of :: "timer_call list \<Rightarrow> nat" where
  "ticks_of cs = length (filter (\<lambda>c. \<exists>d. c = ReconnectTick d) cs)"

definition probes_of :: "timer_call list \<Rightarrow> nat" where
  "probes_of cs = length (filter (\<lambda>c. c = ReconnectProbe) cs)"

definition conn_after :: "conn_state \<times> span list \<times> timer_call list \<Rightarrow> conn_sys \<Rightarrow> conn_sys" where
  "conn_after r s =
     (case r of (c, out, cs) \<Rightarrow>
        s\<lparr>cs_conn := c, cs_ticks := cs_ticks s + ticks_of cs, cs_probes := cs_probes s + probes_of cs\<rparr>)"

inductive conn_step :: "conn_sys \<Rightarrow> conn_sys \<Rightarrow> bool" where
  first: "cs_first s \<Longrightarrow> conn_step s (conn_after (handle_conn_done now err (cs_conn s)) (s\<lparr>cs_first := False\<rparr>))"
| tick: "0 < cs_ticks s \<Longrightarrow> conn_step s (conn_after (handle_reconnect_tick now (cs_conn s)) (s\<lparr>cs_ticks := cs_ticks s - 1\<rparr>))"
| probe: "0 < cs_probes s \<Longrightarrow>
    conn_step s (conn_after (handle_reconnect_probe now err (cs_conn s)) (s\<lparr>cs_probes := cs_probes s - 1\<rparr>))"
| connect: "conn_step s
    (conn_after (slash_connect ping now (cs_conn s))
      (s\<lparr>cs_connects := cs_connects s + probes_of (snd (snd (slash_connect ping now (cs_conn s))))\<rparr>))"
| disconnect: "conn_step s (conn_after (slash_disconnect (cs_conn s)) s)"

definition conn_invariant :: "conn_sys \<Rightarrow> bool" where
  "conn_invariant s \<longleftrightarrow>
     (let c = cs_conn s
      in (cs_first s \<longrightarrow> \<not> cn_reconnecting c \<and> \<not> cn_disabled c \<and> cn_err c = None \<and> cs_ticks s + cs_probes s = 0) \<and>
         (cn_err c \<noteq> None \<or> cs_ticks s + cs_probes s \<noteq> 0 \<longrightarrow>
            initial_backoff \<le> cn_backoff c \<and> cn_backoff c \<le> max_backoff) \<and>
         (cn_reconnecting c \<longrightarrow> 0 < cs_ticks s + cs_probes s \<and> cn_err c \<noteq> None \<and> \<not> cn_disabled c) \<and>
         cs_ticks s + cs_probes s + (if cs_first s then 1 else 0) \<le> 1 + cs_connects s)"

lemmas conn_handlers =
  handle_conn_done_def handle_reconnect_tick_def handle_reconnect_probe_def slash_connect_def slash_disconnect_def

lemma calls_counted [simp]:
  "ticks_of [] = 0" "probes_of [] = 0" "ticks_of (ReconnectTick d # cs) = Suc (ticks_of cs)"
  "probes_of (ReconnectTick d # cs) = probes_of cs" "ticks_of (ReconnectProbe # cs) = ticks_of cs"
  "probes_of (ReconnectProbe # cs) = Suc (probes_of cs)"
  by (simp_all add: ticks_of_def probes_of_def)

lemma backoff_bounds:
  "initial_backoff \<le> max_backoff" "initial_backoff \<le> b \<Longrightarrow> initial_backoff \<le> min (2 * b) max_backoff"
  by (simp_all add: initial_backoff_def max_backoff_def second_def)

lemma conn_step_invariant:
  assumes "conn_step s t" and "conn_invariant s"
  shows "conn_invariant t"
  using assms
proof cases
  case (first now err)
  with assms(2) show ?thesis
    by (cases err) (auto simp: conn_handlers conn_after_def conn_invariant_def Let_def backoff_bounds)
next
  case (tick now)
  with assms(2) show ?thesis
    by (auto simp: conn_handlers conn_after_def conn_invariant_def Let_def)
next
  case (probe now err)
  with assms(2) show ?thesis
    by (cases err)
      (auto simp: conn_handlers conn_after_def conn_invariant_def Let_def backoff_bounds simp del: min.bounded_iff)
next
  case (connect ping now)
  with assms(2) show ?thesis
    by (auto simp: conn_handlers conn_after_def conn_invariant_def Let_def)
next
  case disconnect
  with assms(2) show ?thesis
    by (auto simp: conn_handlers conn_after_def conn_invariant_def Let_def)
qed

lemma conn_reachable: "conn_step\<^sup>*\<^sup>* (conn_start ping) s \<Longrightarrow> conn_invariant s"
proof (induction rule: rtranclp_induct)
  case base
  show ?case by (simp add: conn_invariant_def conn_start_def new_conn_def)
next
  case (step s t)
  then show ?case by (blast intro: conn_step_invariant)
qed

text \<open>
  C38: In every run of the connection probe, whatever the outcomes of the probes, the readings of
  the clock and the /connect and /disconnect commands: while the shell shows that it reconnects, a
  timer or a probe is under way and the last error is kept; the pause between probes stays
  between two seconds and three minutes; and there is at most one chain of timers, and one more
  for each /connect.
\<close>

theorem reconnect_timers:
  assumes "conn_step\<^sup>*\<^sup>* (conn_start ping) s"
  shows "(cn_reconnecting (cs_conn s) \<longrightarrow>
      0 < cs_ticks s + cs_probes s \<and> cn_err (cs_conn s) \<noteq> None \<and>
      initial_backoff \<le> cn_backoff (cs_conn s) \<and> cn_backoff (cs_conn s) \<le> max_backoff) \<and>
    cs_ticks s + cs_probes s \<le> 1 + cs_connects s"
  using conn_reachable [OF assms] unfolding conn_invariant_def Let_def by (auto split: if_splits)

theorem reconnect_timers_witness:
  "let s = conn_after (handle_conn_done 7 (Some ECanceled) new_conn) (conn_start True\<lparr>cs_first := False\<rparr>)
   in cn_reconnecting (cs_conn s) \<and> cs_ticks s = 1 \<and> cn_backoff (cs_conn s) = initial_backoff \<and> initial_backoff \<le> max_backoff"
proof -
  have "conn_step (conn_start True) (conn_after (handle_conn_done 7 (Some ECanceled) (cs_conn (conn_start True))) (conn_start True\<lparr>cs_first := False\<rparr>))"
    by (rule conn_step.first) (simp add: conn_start_def)
  from reconnect_timers [OF r_into_rtranclp [where r = conn_step, OF this]] show ?thesis
    by (simp add: conn_handlers conn_after_def Let_def conn_start_def new_conn_def)
qed

end
