(* ===== verification/Ai_Sidebar.thy ===== *)
theory Ai_Sidebar
  imports Ai_Conn
begin

text \<open>
  The windows of broker objects in the sidebar of the AI shell: their rows under filter, sort and
  tree view, the selection, and the distribution of the height over the windows
  (src/cmd/aituisidebar.go, the row helpers of aikeys.go and the object types of manage.go).
\<close>

section \<open>Objects\<close>

record metric =
  mt_label :: string
  mt_value :: int

datatype object_node =
  ObjectNode (on_name: string) (on_kind: string) (on_metrics: "metric list") (on_children: "object_node list")

text \<open>
  The closures of a \<open>ManageSpec\<close> that act on one object, by name; a specification says which of
  them it has.
\<close>

datatype manage_op =
  CreateQueue | DeleteQueue | CreateTopic | DeleteTopic | CreateAddress | DeleteAddress | CreateExchange | DeleteExchange
| DeleteConsumerGroup

record object_type =
  ot_label :: string
  ot_hierarchical :: bool

record manage_spec =
  mg_objects :: "object_type list"
  mg_ops :: "manage_op list"
  mg_purge :: bool
  mg_purge_subscription :: bool

definition manage_action :: "manage_spec \<Rightarrow> manage_op \<Rightarrow> manage_op option" where
  "manage_action s x = (if x \<in> set (mg_ops s) then Some x else None)"

definition sidebar_create_delete :: "manage_spec \<Rightarrow> string \<Rightarrow> manage_op option \<times> manage_op option" where
  "sidebar_create_delete s label =
     (if label = ''Queues'' then (manage_action s CreateQueue, manage_action s DeleteQueue)
      else if label = ''Topics'' then (manage_action s CreateTopic, manage_action s DeleteTopic)
      else if label = ''Addresses'' then (manage_action s CreateAddress, manage_action s DeleteAddress)
      else if label = ''Exchanges'' then (manage_action s CreateExchange, manage_action s DeleteExchange)
      else if label = ''Streams'' then (manage_action s CreateQueue, manage_action s DeleteQueue)
      else if label = ''Consumer Groups'' then (None, manage_action s DeleteConsumerGroup)
      else (None, None))"

section \<open>Windows and their rows\<close>

datatype window_kind = ObjectWindow | ProcWindow

text \<open>\<open>ow_nodes\<close> is \<open>None\<close> for a nil slice; \<open>ow_sort\<close> is 0 for the name and otherwise one more than a metric.\<close>

record obj_window =
  ow_kind :: window_kind
  ow_label :: string
  ow_hierarchical :: bool
  ow_nodes :: "object_node list option"
  ow_err :: "gerr option"
  ow_sel :: int
  ow_filter :: string
  ow_sort :: nat
  ow_tree :: bool
  ow_collapsed :: bool
  ow_create :: "manage_op option"
  ow_delete :: "manage_op option"

definition empty_window :: "window_kind \<Rightarrow> string \<Rightarrow> obj_window" where
  "empty_window kind label =
     \<lparr>ow_kind = kind, ow_label = label, ow_hierarchical = False, ow_nodes = None, ow_err = None, ow_sel = 0, ow_filter = [],
      ow_sort = 0, ow_tree = False, ow_collapsed = False, ow_create = None, ow_delete = None\<rparr>"

definition object_window :: "manage_spec \<Rightarrow> object_type \<Rightarrow> obj_window" where
  "object_window s t =
     (empty_window ObjectWindow (ot_label t))
     \<lparr>ow_hierarchical := ot_hierarchical t, ow_create := fst (sidebar_create_delete s (ot_label t)),
      ow_delete := snd (sidebar_create_delete s (ot_label t))\<rparr>"

definition nodes_of :: "obj_window \<Rightarrow> object_node list" where
  "nodes_of w = (case ow_nodes w of None \<Rightarrow> [] | Some ns \<Rightarrow> ns)"

fun first_metrics :: "object_node list \<Rightarrow> metric list" where
  "first_metrics [] = []"
| "first_metrics (n # ns) = (if on_metrics n \<noteq> [] then on_metrics n else first_metrics ns)"

definition metric_at :: "nat \<Rightarrow> object_node \<Rightarrow> int" where
  "metric_at k n = (if k < length (on_metrics n) then mt_value (on_metrics n ! k) else 0)"

definition node_less :: "nat \<Rightarrow> object_node \<Rightarrow> object_node \<Rightarrow> bool" where
  "node_less s a b = (if s = 0 then on_name a < on_name b else metric_at (s - 1) b < metric_at (s - 1) a)"

text \<open>
  \<open>sort.Slice\<close> orders the nodes, in an order of its own where the comparison does not decide; it is
  an argument, a function of the comparison and the slice.
\<close>

type_synonym node_sort = "(object_node \<Rightarrow> object_node \<Rightarrow> bool) \<Rightarrow> object_node list \<Rightarrow> object_node list"

definition filtered_sorted_nodes :: "node_sort \<Rightarrow> obj_window \<Rightarrow> object_node list" where
  "filtered_sorted_nodes srt w =
     srt (node_less (ow_sort w))
       (if ow_filter w = [] then nodes_of w
        else filter (\<lambda>n. contains (lower_text (on_name n)) (lower_text (ow_filter w))) (nodes_of w))"

text \<open>A row is a node with the name of its parent, which is empty for a row of the top level.\<close>

type_synonym side_row = "object_node \<times> string"

definition sidebar_rows :: "node_sort \<Rightarrow> obj_window \<Rightarrow> side_row list" where
  "sidebar_rows srt w =
     concat (map (\<lambda>n. (n, []) # (if ow_tree w \<and> ow_hierarchical w then map (\<lambda>c. (c, on_name n)) (on_children n) else []))
       (filtered_sorted_nodes srt w))"

definition index_of_row_named :: "side_row list \<Rightarrow> string \<Rightarrow> int" where
  "index_of_row_named rows name =
     (if name \<noteq> [] \<and> (\<exists>r \<in> set rows. on_name (fst r) = name)
      then int (length (takeWhile (\<lambda>r. on_name (fst r) \<noteq> name) rows)) else 0)"

definition clamp_int :: "int \<Rightarrow> int \<Rightarrow> int \<Rightarrow> int" where
  "clamp_int v lo hi = (if v < lo then lo else if hi < v then hi else v)"

definition selected_row :: "node_sort \<Rightarrow> obj_window \<Rightarrow> side_row option" where
  "selected_row srt w =
     (let rows = sidebar_rows srt w
      in if ow_sel w < int (length rows) then Some (rows ! nat (ow_sel w)) else None)"

definition selected_name :: "node_sort \<Rightarrow> obj_window \<Rightarrow> string" where
  "selected_name srt w = (case selected_row srt w of Some r \<Rightarrow> on_name (fst r) | None \<Rightarrow> [])"

definition selected_top_level :: "node_sort \<Rightarrow> obj_window \<Rightarrow> object_node option" where
  "selected_top_level srt w =
     (case selected_row srt w of Some (n, parent) \<Rightarrow> if parent \<noteq> [] then None else Some n | None \<Rightarrow> None)"

definition selected_child :: "node_sort \<Rightarrow> obj_window \<Rightarrow> side_row option" where
  "selected_child srt w =
     (case selected_row srt w of Some (n, parent) \<Rightarrow> if parent = [] then None else Some (n, parent) | None \<Rightarrow> None)"

section \<open>What the keys do to a window\<close>

definition move_sel :: "node_sort \<Rightarrow> int \<Rightarrow> obj_window \<Rightarrow> obj_window" where
  "move_sel srt d w =
     (let rows = sidebar_rows srt w
      in if rows = [] then w else w\<lparr>ow_sel := clamp_int (ow_sel w + d) 0 (int (length rows) - 1)\<rparr>)"

definition cycle_sort :: "obj_window \<Rightarrow> obj_window" where
  "cycle_sort w = w\<lparr>ow_sort := (ow_sort w + 1) mod (1 + length (first_metrics (nodes_of w))), ow_sel := 0\<rparr>"

text \<open>The selection follows the name of the selected row.\<close>

definition toggle_tree :: "node_sort \<Rightarrow> obj_window \<Rightarrow> obj_window" where
  "toggle_tree srt w =
     (if ow_hierarchical w
      then let w1 = w\<lparr>ow_tree := \<not> ow_tree w\<rparr>
           in w1\<lparr>ow_sel := index_of_row_named (sidebar_rows srt w1) (selected_name srt w)\<rparr>
      else w)"

definition set_filter :: "string \<Rightarrow> obj_window \<Rightarrow> obj_window" where
  "set_filter s w = w\<lparr>ow_filter := s, ow_sel := 0\<rparr>"

text \<open>A fetch that has ended, for one window; the window of the processes is left alone.\<close>

definition store_objects :: "node_sort \<Rightarrow> object_node list option \<times> gerr option \<Rightarrow> obj_window \<Rightarrow> obj_window" where
  "store_objects srt r w =
     (if ow_kind w = ProcWindow then w
      else let w1 = w\<lparr>ow_nodes := fst r, ow_err := snd r\<rparr>; n = int (length (sidebar_rows srt w1))
           in if n \<le> ow_sel w1 then w1\<lparr>ow_sel := max 0 (n - 1)\<rparr> else w1)"

section \<open>Heights\<close>

text \<open>
  The planner of \<open>renderSidebar\<close>.  \<open>nats\<close> are the natural numbers of rows of the windows, \<open>folded\<close> says
  which of them the user has collapsed, \<open>focus\<close> is the window that has the focus.
\<close>

definition natural_rows :: "node_sort \<Rightarrow> bool \<Rightarrow> nat \<Rightarrow> obj_window \<Rightarrow> int" where
  "natural_rows srt loading procs w =
     (if ow_kind w = ProcWindow then (if procs = 0 then 1 else int procs)
      else if loading \<and> ow_nodes w = None then 1
      else let items = filtered_sorted_nodes srt w
           in if items = [] then 1
              else if ow_tree w \<and> ow_hierarchical w then sum_list (map (\<lambda>n. 1 + int (length (on_children n))) items)
              else int (length items))"

definition window_cost :: "nat \<Rightarrow> nat \<Rightarrow> bool \<Rightarrow> int \<Rightarrow> int" where
  "window_cost n i folded body =
     (if folded then (if Suc i < n then 2 else 1) else (if Suc i < n then 3 + body else 2 + body))"

definition total_cost :: "bool list \<Rightarrow> int list \<Rightarrow> int" where
  "total_cost folded bodies = (\<Sum>i\<leftarrow>[0..<length bodies]. window_cost (length bodies) i (folded ! i) (bodies ! i))"

definition floor_rows :: "int \<Rightarrow> int" where
  "floor_rows k = (if k < 3 then k else 3)"

text \<open>The rows of the surplus that a window takes.\<close>

definition give_rows :: "int list \<Rightarrow> nat \<Rightarrow> int list \<times> int \<Rightarrow> int list \<times> int" where
  "give_rows nats i r =
     (case r of (alloc, surplus) \<Rightarrow>
        (let add = (if surplus < nats ! i - floor_rows (nats ! i) then surplus else nats ! i - floor_rows (nats ! i))
         in (alloc[i := alloc ! i + add], surplus - add)))"

fun give_others :: "int list \<Rightarrow> bool list \<Rightarrow> nat option \<Rightarrow> nat list \<Rightarrow> int list \<times> int \<Rightarrow> int list \<times> int" where
  "give_others nats folded focus [] r = r"
| "give_others nats folded focus (i # is) r =
     give_others nats folded focus is
       (if focus = Some i \<or> folded ! i \<or> snd r \<le> 0 then r else give_rows nats i r)"

text \<open>The order in which windows are given up: outward from the focus, or from the bottom.\<close>

fun interleave :: "nat list \<Rightarrow> nat list \<Rightarrow> nat list" where
  "interleave (h # hs) (l # ls) = h # l # interleave hs ls"
| "interleave [] ls = ls"
| "interleave hs [] = hs"

definition collapse_order :: "nat \<Rightarrow> nat option \<Rightarrow> nat list" where
  "collapse_order n focus =
     (case focus of None \<Rightarrow> rev [0..<n] | Some f \<Rightarrow> interleave [Suc f..<n] (rev [0..<f]))"

definition either_folded :: "bool list \<Rightarrow> bool list \<Rightarrow> bool list" where
  "either_folded a b = map2 (\<or>) a b"

fun collapse_until :: "int \<Rightarrow> bool list \<Rightarrow> nat option \<Rightarrow> nat list \<Rightarrow> int list \<times> bool list \<Rightarrow> int list \<times> bool list" where
  "collapse_until height folded focus [] r = r"
| "collapse_until height folded focus (i # is) r =
     (if focus = Some i \<or> folded ! i then collapse_until height folded focus is r
      else let r1 = ((fst r)[i := 0], (snd r)[i := True])
           in if total_cost (either_folded folded (snd r1)) (fst r1) \<le> height then r1
              else collapse_until height folded focus is r1)"

text \<open>The rows of every window and the windows that the planner has collapsed.\<close>

definition plan_heights :: "int \<Rightarrow> nat option \<Rightarrow> int list \<Rightarrow> bool list \<Rightarrow> int list \<times> bool list" where
  "plan_heights height focus nats folded =
     (let n = length nats; none = replicate n False; floors = map floor_rows nats
      in if total_cost folded nats \<le> height then (nats, none)
         else if total_cost folded floors \<le> height
         then (let r0 = (floors, height - total_cost folded floors);
                   r1 = (case focus of
                           Some f \<Rightarrow> if folded ! f then r0 else give_rows nats f r0
                         | None \<Rightarrow> r0)
               in (fst (give_others nats folded focus [0..<n] r1), none))
         else (case collapse_until height folded focus (collapse_order n focus) (floors, none) of
                 (alloc, auto) \<Rightarrow>
                   (let surplus = height - total_cost (either_folded folded auto) alloc
                    in case focus of
                         None \<Rightarrow> (alloc, auto)
                       | Some f \<Rightarrow>
                           (if \<not> folded ! f \<and> 0 < surplus
                            then let add = (if surplus < nats ! f - alloc ! f then surplus else nats ! f - alloc ! f)
                                 in (if 0 < add then alloc[f := alloc ! f + add] else alloc, auto)
                            else (alloc, auto)))))"

section \<open>Lines\<close>

text \<open>The lines of a window: headers, rows by their index, and what replaces them.\<close>

datatype section_line =
  HeaderLine string
| UnderLine
| LoadingLine
| ErrorLine string
| NoneLine
| AboveLine int
| RowLine int
| BelowLine int
| FilterLine string
| MarginLine

definition compute_window :: "int \<Rightarrow> int \<Rightarrow> int \<Rightarrow> int \<times> int" where
  "compute_window count sel visible =
     (if count \<le> visible then (0, count)
      else let s = sel - visible div 2; s1 = (if s < 0 then 0 else s); e = s1 + visible
           in if count < e then (if count - visible < 0 then 0 else count - visible, count) else (s1, e))"

definition row_lines :: "int \<Rightarrow> int \<Rightarrow> int \<Rightarrow> section_line list" where
  "row_lines count sel visible =
     (case compute_window count sel visible of (s, e) \<Rightarrow>
        (let start = (if 0 < s then (if sel < s + 1 then sel else s + 1) else s);
             limit = (if e < count then (if e - 1 < start then start else e - 1) else e)
         in (if 0 < s then [AboveLine s] else []) @ map RowLine [start..limit - 1] @
            (if e < count then [BelowLine (count - limit)] else [])))"

definition open_glyph :: string where "open_glyph = [CHR 0xE2, CHR 0x96, CHR 0xBE, CHR '' '']"
definition closed_glyph :: string where "closed_glyph = [CHR 0xE2, CHR 0x96, CHR 0xB8, CHR '' '']"
definition sort_glyph :: string where "sort_glyph = [CHR 0xE2, CHR 0x86, CHR 0x95]"

definition sort_label :: "nat \<Rightarrow> metric list \<Rightarrow> string" where
  "sort_label s metrics = (if s = 0 \<or> length metrics \<le> s - 1 then ''name'' else mt_label (metrics ! (s - 1)))"

definition header_text :: "node_sort \<Rightarrow> bool \<Rightarrow> bool \<Rightarrow> obj_window \<Rightarrow> string" where
  "header_text srt loading folded w =
     (let all = nat_text (length (nodes_of w)); shown = nat_text (length (filtered_sorted_nodes srt w));
          waiting = (loading \<and> ow_nodes w = None)
      in (if folded then closed_glyph else open_glyph) @ ow_label w @
         (if ow_filter w \<noteq> [] then (if waiting then '' ('' @ shown @ ''/'' @ dots_glyph @ '')'' else '' ('' @ shown @ ''/'' @ all @ '')'')
          else if waiting then '' ('' @ dots_glyph @ '')'' else '' ('' @ all @ '')'') @
         (if ow_sort w \<noteq> 0 \<and> nodes_of w \<noteq> []
          then '' '' @ sort_glyph @ sort_label (ow_sort w) (first_metrics (nodes_of w)) else []))"

definition write_process_section :: "nat \<Rightarrow> int \<Rightarrow> int \<Rightarrow> bool \<Rightarrow> section_line list" where
  "write_process_section procs sel body folded =
     HeaderLine ((if folded then closed_glyph else open_glyph) @ ''Processes ('' @ nat_text procs @ '')'') #
     (if folded then [] else UnderLine # (if procs = 0 then [NoneLine] else row_lines (int procs) sel body))"

text \<open>\<open>filtering\<close>: the window has the focus and its filter is being edited.\<close>

definition write_object_section ::
    "node_sort \<Rightarrow> bool \<Rightarrow> bool \<Rightarrow> nat \<Rightarrow> int \<Rightarrow> int \<Rightarrow> bool \<Rightarrow> obj_window \<Rightarrow> section_line list" where
  "write_object_section srt loading filtering procs proc_sel body folded w =
     (if ow_kind w = ProcWindow then write_process_section procs proc_sel body folded
      else HeaderLine (header_text srt loading folded w) #
        (if folded then []
         else UnderLine #
           (if loading \<and> ow_nodes w = None then [LoadingLine]
            else case ow_err w of
                Some e \<Rightarrow> [ErrorLine (warn_glyph @ '' '' @ err_text e)]
              | None \<Rightarrow>
                  (if filtered_sorted_nodes srt w = [] then [NoneLine]
                   else row_lines (int (length (sidebar_rows srt w))) (ow_sel w) body @
                     (if filtering then [FilterLine (ow_filter w)] else [])))))"

text \<open>\<open>renderSidebar\<close>: the lines and the rows of the underlines, -1 for a window that shows none.\<close>

record sidebar_view =
  sv_loading :: bool
  sv_filtering :: bool
  sv_focus :: nat
  sv_procs :: nat
  sv_proc_sel :: int
  sv_windows :: "obj_window list"

definition focused_window :: "sidebar_view \<Rightarrow> nat option" where
  "focused_window v = (if 0 < sv_focus v \<and> sv_focus v - 1 < length (sv_windows v) then Some (sv_focus v - 1) else None)"

definition window_heights :: "node_sort \<Rightarrow> int \<Rightarrow> sidebar_view \<Rightarrow> int list \<times> bool list" where
  "window_heights srt height v =
     plan_heights height (focused_window v) (map (natural_rows srt (sv_loading v) (sv_procs v)) (sv_windows v))
       (map ow_collapsed (sv_windows v))"

definition window_section :: "node_sort \<Rightarrow> int \<Rightarrow> sidebar_view \<Rightarrow> nat \<Rightarrow> section_line list" where
  "window_section srt height v i =
     (case window_heights srt height v of (alloc, auto) \<Rightarrow>
        write_object_section srt (sv_loading v) (sv_filtering v \<and> focused_window v = Some i) (sv_procs v) (sv_proc_sel v)
          (alloc ! i) (ow_collapsed (sv_windows v ! i) \<or> auto ! i) (sv_windows v ! i))"

definition render_window :: "node_sort \<Rightarrow> int \<Rightarrow> sidebar_view \<Rightarrow> section_line list \<times> int list \<Rightarrow> nat \<Rightarrow> section_line list \<times> int list" where
  "render_window srt height v r i =
     (case r of (ls, junctions) \<Rightarrow>
        (ls @ window_section srt height v i @ (if Suc i < length (sv_windows v) then [MarginLine] else []),
         junctions @ [if ow_collapsed (sv_windows v ! i) \<or> snd (window_heights srt height v) ! i then -1 else int (length ls) + 1]))"

definition render_sidebar :: "node_sort \<Rightarrow> int \<Rightarrow> sidebar_view \<Rightarrow> section_line list \<times> int list" where
  "render_sidebar srt height v =
     (if sv_windows v = []
      then (let ls = [if sv_loading v then LoadingLine else NoneLine]
            in (ls @ replicate (nat (height - 1)) MarginLine, []))
      else (case foldl (render_window srt height v) ([], []) [0..<length (sv_windows v)] of (ls, junctions) \<Rightarrow>
              (ls @ replicate (nat (height - int (length ls))) MarginLine, junctions)))"

section \<open>Texts\<close>

text \<open>\<open>fl a b\<close> is the quotient in floating point, with one decimal.\<close>

definition fmt_count :: "(int \<Rightarrow> int \<Rightarrow> string) \<Rightarrow> int \<Rightarrow> string" where
  "fmt_count fl n =
     (if 1000000 \<le> n then fl n 1000000 @ ''M'' else if 1000 \<le> n then fl n 1000 @ ''k'' else int_text n)"

definition fmt_node_metric :: "(int \<Rightarrow> int \<Rightarrow> string) \<Rightarrow> object_node \<Rightarrow> string" where
  "fmt_node_metric fl n = (if on_metrics n = [] then [] else fmt_count fl (mt_value (hd (on_metrics n))))"

definition fmt_node_detail :: "(int \<Rightarrow> int \<Rightarrow> string) \<Rightarrow> object_node \<Rightarrow> string" where
  "fmt_node_detail fl n = trim_space (on_kind n @ '' '' @ fmt_node_metric fl n)"

text \<open>The name, the metric and the indentation of a row.\<close>

definition display_row :: "(int \<Rightarrow> int \<Rightarrow> string) \<Rightarrow> side_row \<Rightarrow> string \<times> string \<times> bool" where
  "display_row fl r =
     (case r of (n, parent) \<Rightarrow>
        if parent = [] then (on_name n, fmt_node_detail fl n, False)
        else ((if on_kind n \<noteq> [] then on_kind n @ '' '' @ on_name n else on_name n), fmt_node_metric fl n, True))"

fun collapse_lines :: "nat \<Rightarrow> string list \<Rightarrow> string list" where
  "collapse_lines run [] = (if 2 \<le> run then [[]] else [])"
| "collapse_lines run (l # ls) =
     (if trim_space l = [] then collapse_lines (run + 1) ls
      else (if 2 \<le> run then [[]] else []) @ l # collapse_lines 0 ls)"

definition collapse_blank_lines :: "string \<Rightarrow> string" where
  "collapse_blank_lines s = join newline (collapse_lines 0 (split_char (CHR 0x0A) s))"

section \<open>The plan fits\<close>

lemma total_cost_sum:
  "total_cost folded bodies = (\<Sum>i<length bodies. window_cost (length bodies) i (folded ! i) (bodies ! i))"
  unfolding total_cost_def by (simp add: interv_sum_list_conv_sum_set_nat atLeast0LessThan)

lemma window_cost_body: "window_cost n i c b = window_cost n i c a + (if c then 0 else b - a)"
  by (simp add: window_cost_def)

lemma total_cost_update:
  assumes "i < length bodies"
  shows "total_cost folded (bodies[i := b]) = total_cost folded bodies + (if folded ! i then 0 else b - bodies ! i)"
proof -
  let ?n = "length bodies" and ?c = "\<lambda>bs j. window_cost (length bodies) j (folded ! j) (bs ! j)"
  have "(\<Sum>j<?n. ?c (bodies[i := b]) j) = ?c (bodies[i := b]) i + (\<Sum>j\<in>{..<?n} - {i}. ?c (bodies[i := b]) j)"
    using assms by (intro sum.remove) auto
  also have "(\<Sum>j\<in>{..<?n} - {i}. ?c (bodies[i := b]) j) = (\<Sum>j\<in>{..<?n} - {i}. ?c bodies j)"
    by (intro sum.cong) auto
  also have "?c (bodies[i := b]) i = ?c bodies i + (if folded ! i then 0 else b - bodies ! i)"
    using assms by (simp add: window_cost_def)
  finally have "(\<Sum>j<?n. ?c (bodies[i := b]) j) = ?c bodies i + (\<Sum>j\<in>{..<?n} - {i}. ?c bodies j) + (if folded ! i then 0 else b - bodies ! i)"
    by simp
  also have "?c bodies i + (\<Sum>j\<in>{..<?n} - {i}. ?c bodies j) = (\<Sum>j<?n. ?c bodies j)"
    using assms by (intro sum.remove [symmetric]) auto
  finally show ?thesis by (simp add: total_cost_sum)
qed

lemma total_cost_cong:
  assumes "length bs = length as" "\<And>i. i < length as \<Longrightarrow> \<not> folded ! i \<Longrightarrow> bs ! i = as ! i"
  shows "total_cost folded bs = total_cost folded as"
  unfolding total_cost_sum using assms by (auto simp: window_cost_def intro!: sum.cong)

text \<open>What is kept while the surplus is given away; \<open>todo\<close> are the windows that have not been asked.\<close>

definition giving :: "int \<Rightarrow> int list \<Rightarrow> bool list \<Rightarrow> nat set \<Rightarrow> int list \<times> int \<Rightarrow> bool" where
  "giving height nats folded todo r \<longleftrightarrow>
     length (fst r) = length nats \<and> 0 \<le> snd r \<and> total_cost folded (fst r) + snd r = height \<and>
     (\<forall>i < length nats. floor_rows (nats ! i) \<le> fst r ! i \<and> fst r ! i \<le> nats ! i \<and>
        (i \<in> todo \<longrightarrow> fst r ! i = floor_rows (nats ! i)) \<and>
        (i \<notin> todo \<longrightarrow> folded ! i \<or> snd r = 0 \<or> fst r ! i = nats ! i))"

lemma floor_rows_le: "floor_rows k \<le> k"
  by (simp add: floor_rows_def)

lemma give_rows_giving:
  assumes "giving height nats folded todo r" "i < length nats" "i \<in> todo" "\<not> folded ! i"
  shows "giving height nats folded (todo - {i}) (give_rows nats i r)"
proof -
  obtain alloc surplus where r: "r = (alloc, surplus)" by (cases r)
  define add where "add = (if surplus < nats ! i - floor_rows (nats ! i) then surplus else nats ! i - floor_rows (nats ! i))"
  have a: "length alloc = length nats" "0 \<le> surplus" "total_cost folded alloc + surplus = height" "alloc ! i = floor_rows (nats ! i)"
    and b: "\<And>j. j < length nats \<Longrightarrow> floor_rows (nats ! j) \<le> alloc ! j \<and> alloc ! j \<le> nats ! j \<and>
      (j \<in> todo \<longrightarrow> alloc ! j = floor_rows (nats ! j)) \<and> (j \<notin> todo \<longrightarrow> folded ! j \<or> surplus = 0 \<or> alloc ! j = nats ! j)"
    using assms by (auto simp: giving_def r)
  have add: "0 \<le> add" "add \<le> surplus" "alloc ! i + add \<le> nats ! i" "surplus - add = 0 \<or> alloc ! i + add = nats ! i"
    using a floor_rows_le [of "nats ! i"] by (auto simp: add_def)
  have g: "give_rows nats i r = (alloc[i := alloc ! i + add], surplus - add)"
    by (simp add: give_rows_def r add_def Let_def)
  have upd: "alloc[i := x] ! j = (if i = j then x else alloc ! j)" for x j
    using a(1) assms(2) by (simp add: nth_list_update)
  show ?thesis
    unfolding g giving_def
  proof (intro conjI allI impI)
    fix j assume j: "j < length nats"
    show "floor_rows (nats ! j) \<le> fst (alloc[i := alloc ! i + add], surplus - add) ! j"
      "fst (alloc[i := alloc ! i + add], surplus - add) ! j \<le> nats ! j"
      using b [OF j] a(4) add by (auto simp: upd)
    show "fst (alloc[i := alloc ! i + add], surplus - add) ! j = floor_rows (nats ! j)" if "j \<in> todo - {i}"
      using b [OF j] that by (simp add: upd)
    show "folded ! j \<or> snd (alloc[i := alloc ! i + add], surplus - add) = 0 \<or> fst (alloc[i := alloc ! i + add], surplus - add) ! j = nats ! j"
      if "j \<notin> todo - {i}"
      using b [OF j] that add upd [of "alloc ! i + add" j] a(4) by (auto split: if_splits)
  qed (use a add total_cost_update [of i alloc folded] assms(2,4) in auto)
qed

lemma give_others_giving:
  assumes "giving height nats folded (set is - {i. focus = Some i}) r" "distinct is" "set is \<subseteq> {..<length nats}"
  shows "giving height nats folded {} (give_others nats folded focus is r)"
  using assms
proof (induction "is" arbitrary: r)
  case (Cons i "is")
  let ?r = "if focus = Some i \<or> folded ! i \<or> snd r \<le> 0 then r else give_rows nats i r"
  have rest: "set is - {i. focus = Some i} = set (i # is) - {i. focus = Some i} - {i}" using Cons.prems(2) by auto
  have "giving height nats folded (set is - {i. focus = Some i}) ?r"
  proof (cases "focus = Some i \<or> folded ! i \<or> snd r \<le> 0")
    case True
    then have "focus = Some i \<or> folded ! i \<or> snd r = 0" using Cons.prems(1) by (auto simp: giving_def)
    then show ?thesis using True Cons.prems(1) unfolding rest by (auto simp: giving_def)
  next
    case False
    then show ?thesis using give_rows_giving [OF Cons.prems(1), of i] Cons.prems(3) unfolding rest by simp
  qed
  then show ?case using Cons.IH [of ?r] Cons.prems(2,3) by simp
qed simp

text \<open>What is kept while windows are given up.\<close>

definition giving_up :: "int list \<Rightarrow> bool list \<Rightarrow> nat option \<Rightarrow> nat set \<Rightarrow> int list \<times> bool list \<Rightarrow> bool" where
  "giving_up nats folded focus todo r \<longleftrightarrow>
     length (fst r) = length nats \<and> length (snd r) = length nats \<and>
     (\<forall>i < length nats. (snd r ! i \<longrightarrow> focus \<noteq> Some i \<and> \<not> folded ! i) \<and>
        (\<not> snd r ! i \<longrightarrow> fst r ! i = floor_rows (nats ! i)) \<and>
        (i \<notin> todo \<longrightarrow> focus = Some i \<or> folded ! i \<or> snd r ! i))"

lemma collapse_until_gives_up:
  assumes "giving_up nats folded focus (set is \<union> rest) r" "set is \<subseteq> {..<length nats}"
    and "collapse_until height folded focus is r = r'"
  shows "\<exists>todo. giving_up nats folded focus todo r' \<and>
    (total_cost (either_folded folded (snd r')) (fst r') \<le> height \<or> todo = rest)"
  using assms
proof (induction "is" arbitrary: r)
  case (Cons i "is")
  show ?case
  proof (cases "focus = Some i \<or> folded ! i")
    case True
    then have "giving_up nats folded focus (set is \<union> rest) r" using Cons.prems(1) by (auto simp: giving_up_def)
    then show ?thesis using Cons.IH [of r] Cons.prems(2,3) True by simp
  next
    case False
    let ?r1 = "((fst r)[i := 0], (snd r)[i := True])"
    have "i < length nats" using Cons.prems(2) by simp
    then have up: "giving_up nats folded focus (set is \<union> rest) ?r1"
      using Cons.prems(1) False by (auto simp: giving_up_def nth_list_update)
    show ?thesis
    proof (cases "total_cost (either_folded folded (snd ?r1)) (fst ?r1) \<le> height")
      case True
      then show ?thesis using up Cons.prems(3) False by (intro exI [of _ "set is \<union> rest"]) (auto simp: Let_def)
    next
      case no: False
      then have "collapse_until height folded focus is ?r1 = r'" using Cons.prems(3) False by (simp add: Let_def)
      then show ?thesis using Cons.IH [OF up] Cons.prems(2) by auto
    qed
  qed
qed auto

lemma set_interleave: "set (interleave hs ls) = set hs \<union> set ls"
  by (induction hs ls rule: interleave.induct) auto

lemma collapse_order_set:
  "i < n \<Longrightarrow> focus = Some i \<or> i \<in> set (collapse_order n focus)"
  "(case focus of Some f \<Rightarrow> f < n | None \<Rightarrow> True) \<Longrightarrow> set (collapse_order n focus) \<subseteq> {..<n}"
  by (auto simp: collapse_order_def set_interleave split: option.splits)

lemma total_floors: "total_cost folded (map floor_rows nats) \<le> total_cost folded nats"
proof -
  have "window_cost n i c (floor_rows x) \<le> window_cost n i c x" for n i c x
    using floor_rows_le [of x] by (simp add: window_cost_def)
  then show ?thesis unfolding total_cost_sum by (auto intro!: sum_mono)
qed

text \<open>
  The planner: no window gets more rows than it has; a window that is not collapsed gets at least three of
  them; the window of the focus is never collapsed; and the plan has the height exactly when
  there is more to show, unless even the collapsed windows do not fit.
\<close>

lemma plan_heights_fit:
  assumes "length folded = length nats" and "case focus of Some f \<Rightarrow> f < length nats | None \<Rightarrow> True"
    and "plan_heights height focus nats folded = (alloc, auto)"
  shows "length alloc = length nats \<and> length auto = length nats \<and>
    (\<forall>i < length nats. (auto ! i \<longrightarrow> focus \<noteq> Some i \<and> \<not> folded ! i) \<and>
       (\<not> auto ! i \<longrightarrow> floor_rows (nats ! i) \<le> alloc ! i \<and> alloc ! i \<le> nats ! i)) \<and>
    (total_cost folded nats \<le> height \<longrightarrow> alloc = nats) \<and>
    (total_cost (either_folded folded auto) alloc \<le> height \<or>
     (\<forall>i < length nats. focus = Some i \<or> folded ! i \<or> auto ! i))"
proof -
  let ?n = "length nats" and ?none = "replicate (length nats) False" and ?floors = "map floor_rows nats"
  have none: "either_folded folded ?none = folded"
    using assms(1) by (auto simp: either_folded_def intro: nth_equalityI)
  consider (fits) "total_cost folded nats \<le> height"
    | (shrinks) "height < total_cost folded nats" "total_cost folded ?floors \<le> height"
    | (collapses) "height < total_cost folded nats" "height < total_cost folded ?floors" by linarith
  then show ?thesis
  proof cases
    case fits
    then have r: "alloc = nats" "auto = ?none" using assms(3) by (simp_all add: plan_heights_def) (elim conjE, simp)
    show ?thesis using fits floor_rows_le unfolding r none by auto
  next
    case shrinks
    let ?r0 = "(?floors, height - total_cost folded ?floors)"
    define r1 where "r1 = (case focus of Some f \<Rightarrow> if folded ! f then ?r0 else give_rows nats f ?r0 | None \<Rightarrow> ?r0)"
    have g0: "giving height nats folded {..<?n} ?r0"
      using shrinks floor_rows_le by (auto simp: giving_def)
    have "giving height nats folded ({..<?n} - {i. focus = Some i}) r1"
    proof (cases focus)
      case None
      then show ?thesis using g0 by (simp add: r1_def)
    next
      case (Some f)
      have "{..<?n} - {i. Some f = Some i} = {..<?n} - {f}" by auto
      moreover have "giving height nats folded ({..<?n} - {f}) ?r0" if "folded ! f"
        using g0 that by (auto simp: giving_def)
      ultimately show ?thesis using give_rows_giving [OF g0, of f] Some assms(2) by (simp add: r1_def)
    qed
    then have "giving height nats folded (set [0..<?n] - {i. focus = Some i}) r1" by (simp add: atLeast0LessThan)
    then have g: "giving height nats folded {} (give_others nats folded focus [0..<?n] r1)"
      by (rule give_others_giving) auto
    have r: "alloc = fst (give_others nats folded focus [0..<?n] r1)" "auto = ?none"
      using assms(3) shrinks by (simp_all add: plan_heights_def Let_def r1_def)
    show ?thesis
      using g shrinks unfolding giving_def r(1) [symmetric] r(2) none by auto
  next
    case collapses
    obtain a b where ab: "collapse_until height folded focus (collapse_order ?n focus) (?floors, ?none) = (a, b)"
      by (metis surj_pair)
    have "giving_up nats folded focus (set (collapse_order ?n focus) \<union> {}) (?floors, ?none)"
      using collapse_order_set(1) [of _ ?n focus] by (auto simp: giving_up_def)
    from collapse_until_gives_up [OF this collapse_order_set(2) [OF assms(2)] ab] obtain todo where
      up: "giving_up nats folded focus todo (a, b)" and
      fit: "total_cost (either_folded folded b) a \<le> height \<or> todo = {}" by auto
    let ?surplus = "height - total_cost (either_folded folded b) a"
    show ?thesis
    proof (cases "\<exists>f. focus = Some f \<and> \<not> folded ! f \<and> 0 < ?surplus \<and> 0 < nats ! f - a ! f")
      case False
      have "alloc = a" "auto = b"
        using assms(3) collapses ab False by (auto simp: plan_heights_def Let_def split: option.splits if_splits)
      then show ?thesis using up fit collapses floor_rows_le by (auto simp: giving_up_def)
    next
      case True
      then obtain f where f: "focus = Some f" "\<not> folded ! f" "0 < ?surplus" "0 < nats ! f - a ! f" by blast
      define add where "add = (if ?surplus < nats ! f - a ! f then ?surplus else nats ! f - a ! f)"
      have r: "alloc = a[f := a ! f + add]" "auto = b"
        using assms(3) collapses ab f by (auto simp: plan_heights_def Let_def add_def)
      have fn: "f < length a" "f < ?n" "\<not> b ! f" "length folded = length b" "length a = ?n" "length b = ?n"
        using assms(1,2) up f(1) by (auto simp: giving_up_def)
      then have open_f: "\<not> either_folded folded b ! f" using f(2) by (simp add: either_folded_def)
      have "total_cost (either_folded folded b) alloc \<le> height"
        using total_cost_update [OF fn(1), of "either_folded folded b" "a ! f + add"] open_f f(3) unfolding r(1) by (simp add: add_def)
      moreover have "0 \<le> add" "a ! f + add \<le> nats ! f" using f by (auto simp: add_def)
      moreover have "alloc ! i = (if i = f then a ! f + add else a ! i)" if "i < ?n" for i
        using that fn unfolding r(1) by (simp add: nth_list_update)
      ultimately show ?thesis
        using up collapses fn floor_rows_le unfolding r(2) by (auto simp: giving_up_def r(1))
    qed
  qed
qed

section \<open>The lines fit\<close>

text \<open>The rows of a window: with three or more of them the selected one is shown, between the hints.\<close>

lemma row_lines_fit:
  assumes "count \<le> visible \<or> 3 \<le> visible" and "0 \<le> sel" "sel < count"
  shows "int (length (row_lines count sel visible)) \<le> visible" and "RowLine sel \<in> set (row_lines count sel visible)"
proof -
  have "int (length (row_lines count sel visible)) \<le> visible \<and> RowLine sel \<in> set (row_lines count sel visible)"
  proof (cases "count \<le> visible")
    case True
    then show ?thesis using assms by (auto simp: row_lines_def compute_window_def image_iff)
  next
    case False
    then have v: "3 \<le> visible" "visible < count" using assms(1) by auto
    obtain s e where w: "compute_window count sel visible = (s, e)" by (metis surj_pair)
    have d: "visible div 2 * 2 \<le> visible" "visible < visible div 2 * 2 + 2" "1 \<le> visible div 2"
      using v(1) by (auto simp: minus_mod_eq_div_mult [symmetric])
    have se: "0 \<le> s" "e = s + visible" "e \<le> count" "0 < s \<longrightarrow> s + 1 \<le> sel" "s \<le> sel" "sel < e" "e < count \<longrightarrow> sel < e - 1"
      using w v d assms(2,3) by (auto simp: compute_window_def Let_def split: if_splits)
    define start where "start = (if 0 < s then s + 1 else s)"
    define limit where "limit = (if e < count then e - 1 else e)"
    have lines: "row_lines count sel visible =
        (if 0 < s then [AboveLine s] else []) @ map RowLine [start..limit - 1] @ (if e < count then [BelowLine (count - limit)] else [])"
      using se v by (auto simp: row_lines_def w start_def limit_def Let_def)
    have "start \<le> sel" "sel \<le> limit - 1" "start \<le> limit" using se by (auto simp: start_def limit_def)
    moreover have "int (length (row_lines count sel visible)) = (if 0 < s then 1 else 0) + (limit - start) + (if e < count then 1 else 0)"
      using \<open>start \<le> limit\<close> by (simp add: lines)
    ultimately show ?thesis using se by (auto simp: lines image_iff start_def limit_def)
  qed
  then show "int (length (row_lines count sel visible)) \<le> visible" "RowLine sel \<in> set (row_lines count sel visible)" by auto
qed

lemma sidebar_rows_count:
  "int (length (sidebar_rows srt w)) =
    (if ow_tree w \<and> ow_hierarchical w then sum_list (map (\<lambda>n. 1 + int (length (on_children n))) (filtered_sorted_nodes srt w))
     else int (length (filtered_sorted_nodes srt w)))"
proof -
  have "int (length (concat (map (\<lambda>n. (n, []) # (if t then map (\<lambda>c. (c, on_name n)) (on_children n) else [])) ns))) =
      (if t then sum_list (map (\<lambda>n. 1 + int (length (on_children n))) ns) else int (length ns))" for t and ns :: "object_node list"
    by (induction ns) auto
  then show ?thesis by (simp add: sidebar_rows_def)
qed

lemma natural_rows_count:
  "natural_rows srt loading procs w =
    (if ow_kind w = ProcWindow then max 1 (int procs)
     else if loading \<and> ow_nodes w = None then 1 else max 1 (int (length (sidebar_rows srt w))))"
proof -
  have "filtered_sorted_nodes srt w = [] \<longleftrightarrow> sidebar_rows srt w = []"
    by (auto simp: sidebar_rows_def)
  then have "filtered_sorted_nodes srt w \<noteq> [] \<Longrightarrow> 1 \<le> int (length (sidebar_rows srt w))"
    by (cases "sidebar_rows srt w") auto
  moreover have "filtered_sorted_nodes srt w = [] \<Longrightarrow> int (length (sidebar_rows srt w)) = 0"
    by (simp add: sidebar_rows_def)
  moreover have "natural_rows srt loading procs w =
      (if ow_kind w = ProcWindow then (if procs = 0 then 1 else int procs)
       else if loading \<and> ow_nodes w = None then 1
       else if filtered_sorted_nodes srt w = [] then 1 else int (length (sidebar_rows srt w)))"
    unfolding sidebar_rows_count by (simp add: natural_rows_def Let_def)
  ultimately show ?thesis by (auto simp: max_def)
qed

text \<open>The selections of a view are in range.\<close>

definition view_ok :: "node_sort \<Rightarrow> sidebar_view \<Rightarrow> bool" where
  "view_ok srt v \<longleftrightarrow>
     (sv_procs v = 0 \<or> 0 \<le> sv_proc_sel v \<and> sv_proc_sel v < int (sv_procs v)) \<and>
     (\<forall>w \<in> set (sv_windows v). ow_kind w = ObjectWindow \<longrightarrow>
        0 \<le> ow_sel w \<and> (sidebar_rows srt w = [] \<or> ow_sel w < int (length (sidebar_rows srt w))))"

lemma write_section_fits:
  assumes "floor_rows (natural_rows srt loading procs w) \<le> body" "body \<le> natural_rows srt loading procs w"
    and "procs = 0 \<or> 0 \<le> proc_sel \<and> proc_sel < int procs"
    and "ow_kind w = ObjectWindow \<longrightarrow> 0 \<le> ow_sel w \<and> (sidebar_rows srt w = [] \<or> ow_sel w < int (length (sidebar_rows srt w)))"
  shows "int (length (write_object_section srt loading False procs proc_sel body False w)) \<le> 2 + body"
proof -
  let ?k = "natural_rows srt loading procs w"
  have body: "1 \<le> body" "body = ?k \<or> 3 \<le> body"
    using assms(1,2) natural_rows_count [of srt loading procs w] by (auto simp: floor_rows_def split: if_splits)
  have rows: "int (length (row_lines c s body)) \<le> body" if "c \<le> ?k" "0 \<le> s" "s < c" for c s
    using row_lines_fit(1) [of c body s] that body(2) by auto
  have "filtered_sorted_nodes srt w \<noteq> [] \<Longrightarrow> sidebar_rows srt w \<noteq> []" by (auto simp: sidebar_rows_def)
  then show ?thesis
    using rows body assms(3,4) natural_rows_count [of srt loading procs w]
    by (cases "ow_kind w") (auto simp: write_object_section_def write_process_section_def split: option.splits)
qed

lemma window_heights_fit:
  assumes "window_heights srt height v = (alloc, auto)"
  shows "length alloc = length (sv_windows v)" "length auto = length (sv_windows v)"
    "\<And>i. i < length (sv_windows v) \<Longrightarrow> auto ! i \<Longrightarrow> focused_window v \<noteq> Some i \<and> \<not> ow_collapsed (sv_windows v ! i)"
    "\<And>i. i < length (sv_windows v) \<Longrightarrow> \<not> auto ! i \<Longrightarrow>
      floor_rows (natural_rows srt (sv_loading v) (sv_procs v) (sv_windows v ! i)) \<le> alloc ! i \<and>
      alloc ! i \<le> natural_rows srt (sv_loading v) (sv_procs v) (sv_windows v ! i)"
    "total_cost (either_folded (map ow_collapsed (sv_windows v)) auto) alloc \<le> height \<or>
     (\<forall>i < length (sv_windows v). focused_window v = Some i \<or> ow_collapsed (sv_windows v ! i) \<or> auto ! i)"
proof -
  have "case focused_window v of Some f \<Rightarrow>
      f < length (map (natural_rows srt (sv_loading v) (sv_procs v)) (sv_windows v)) | None \<Rightarrow> True"
    by (simp add: focused_window_def)
  with plan_heights_fit [of "map ow_collapsed (sv_windows v)" "map (natural_rows srt (sv_loading v) (sv_procs v)) (sv_windows v)"
      "focused_window v" height alloc auto] assms
  show "length alloc = length (sv_windows v)" "length auto = length (sv_windows v)"
    "\<And>i. i < length (sv_windows v) \<Longrightarrow> auto ! i \<Longrightarrow> focused_window v \<noteq> Some i \<and> \<not> ow_collapsed (sv_windows v ! i)"
    "\<And>i. i < length (sv_windows v) \<Longrightarrow> \<not> auto ! i \<Longrightarrow>
      floor_rows (natural_rows srt (sv_loading v) (sv_procs v) (sv_windows v ! i)) \<le> alloc ! i \<and>
      alloc ! i \<le> natural_rows srt (sv_loading v) (sv_procs v) (sv_windows v ! i)"
    "total_cost (either_folded (map ow_collapsed (sv_windows v)) auto) alloc \<le> height \<or>
     (\<forall>i < length (sv_windows v). focused_window v = Some i \<or> ow_collapsed (sv_windows v ! i) \<or> auto ! i)"
    by (auto simp: window_heights_def)
qed

lemma window_section_fits:
  assumes "window_heights srt height v = (alloc, auto)" "view_ok srt v" "\<not> sv_filtering v" "i < length (sv_windows v)"
  shows "int (length (window_section srt height v i @ (if Suc i < length (sv_windows v) then [MarginLine] else []))) \<le>
    window_cost (length (sv_windows v)) i (either_folded (map ow_collapsed (sv_windows v)) auto ! i) (alloc ! i)"
proof -
  let ?w = "sv_windows v ! i"
  note heights = window_heights_fit [OF assms(1)]
  have folded: "either_folded (map ow_collapsed (sv_windows v)) auto ! i \<longleftrightarrow> ow_collapsed ?w \<or> auto ! i"
    using assms(4) heights(2) by (simp add: either_folded_def)
  have shown: "window_section srt height v i =
      write_object_section srt (sv_loading v) False (sv_procs v) (sv_proc_sel v) (alloc ! i) (ow_collapsed ?w \<or> auto ! i) ?w"
    using assms(3) by (simp add: window_section_def assms(1))
  have "?w \<in> set (sv_windows v)" using assms(4) by simp
  then have ok: "sv_procs v = 0 \<or> 0 \<le> sv_proc_sel v \<and> sv_proc_sel v < int (sv_procs v)"
    "ow_kind ?w = ObjectWindow \<longrightarrow> 0 \<le> ow_sel ?w \<and> (sidebar_rows srt ?w = [] \<or> ow_sel ?w < int (length (sidebar_rows srt ?w)))"
    using assms(2) by (auto simp: view_ok_def)
  show ?thesis
  proof (cases "ow_collapsed ?w \<or> auto ! i")
    case True
    then show ?thesis unfolding folded shown
      by (auto simp: write_object_section_def write_process_section_def window_cost_def)
  next
    case False
    then show ?thesis
      using write_section_fits [OF _ _ ok, of "sv_loading v" "alloc ! i"] heights(4) [OF assms(4)] unfolding folded shown
      by (simp add: window_cost_def)
  qed
qed

lemma render_lines:
  "fst (foldl (render_window srt height v) r is) =
    fst r @ concat (map (\<lambda>i. window_section srt height v i @ (if Suc i < length (sv_windows v) then [MarginLine] else [])) is)"
  by (induction "is" arbitrary: r) (auto simp: render_window_def split: prod.split)

lemma length_concat_le:
  assumes "\<And>x. x \<in> set xs \<Longrightarrow> int (length (f x)) \<le> g x"
  shows "int (length (concat (map f xs))) \<le> (\<Sum>x\<leftarrow>xs. g x)"
  using assms by (induction xs) (auto intro: add_mono)

lemma render_sidebar_fits:
  assumes "view_ok srt v" "\<not> sv_filtering v" "1 \<le> height" "window_heights srt height v = (alloc, auto)"
  shows "int (length (fst (render_sidebar srt height v))) = height \<or>
    height < int (length (fst (render_sidebar srt height v))) \<and>
    (\<forall>i < length (sv_windows v). focused_window v = Some i \<or> ow_collapsed (sv_windows v ! i) \<or> auto ! i)"
proof (cases "sv_windows v = []")
  case True
  then show ?thesis using assms(3) by (simp add: render_sidebar_def)
next
  case False
  let ?n = "length (sv_windows v)"
  let ?f = "\<lambda>i. window_section srt height v i @ (if Suc i < ?n then [MarginLine] else [])"
  note heights = window_heights_fit [OF assms(4)]
  obtain ls junctions where r: "foldl (render_window srt height v) ([], []) [0..<?n] = (ls, junctions)" by (metis surj_pair)
  have ls: "ls = concat (map ?f [0..<?n])" using render_lines [of srt height v "([], [])" "[0..<?n]"] by (simp add: r)
  have "int (length ls) \<le> total_cost (either_folded (map ow_collapsed (sv_windows v)) auto) alloc"
    unfolding ls total_cost_def heights(1)
    using window_section_fits [OF assms(4,1,2)] by (intro length_concat_le) simp
  then show ?thesis using heights(5) False by (auto simp: render_sidebar_def r)
qed

text \<open>The window that has the focus shows its selection, however small the sidebar is.\<close>

lemma focus_shows_selection:
  assumes "view_ok srt v" "focused_window v = Some i" "\<not> ow_collapsed (sv_windows v ! i)"
  shows "(ow_kind (sv_windows v ! i) = ProcWindow \<and> 0 < sv_procs v \<longrightarrow>
      RowLine (sv_proc_sel v) \<in> set (window_section srt height v i)) \<and>
    (ow_kind (sv_windows v ! i) = ObjectWindow \<and> \<not> (sv_loading v \<and> ow_nodes (sv_windows v ! i) = None) \<and>
      ow_err (sv_windows v ! i) = None \<and> sidebar_rows srt (sv_windows v ! i) \<noteq> [] \<longrightarrow>
      RowLine (ow_sel (sv_windows v ! i)) \<in> set (window_section srt height v i))"
proof -
  let ?w = "sv_windows v ! i"
  obtain alloc auto where h: "window_heights srt height v = (alloc, auto)" by (metis surj_pair)
  have i: "i < length (sv_windows v)" using assms(2) by (auto simp: focused_window_def split: if_splits)
  note heights = window_heights_fit [OF h]
  have auto: "\<not> auto ! i" using heights(3) [OF i] assms(2) by auto
  have shown: "window_section srt height v i =
      write_object_section srt (sv_loading v) (sv_filtering v) (sv_procs v) (sv_proc_sel v) (alloc ! i) False ?w"
    using assms(2,3) auto by (simp add: window_section_def h)
  have body: "floor_rows (natural_rows srt (sv_loading v) (sv_procs v) ?w) \<le> alloc ! i"
    using heights(4) [OF i auto] by simp
  have rows: "RowLine s \<in> set (row_lines c s (alloc ! i))"
    if "c \<le> natural_rows srt (sv_loading v) (sv_procs v) ?w" "0 \<le> s" "s < c" for c s
    using row_lines_fit(2) [of c "alloc ! i" s] that body by (auto simp: floor_rows_def split: if_splits)
  have "?w \<in> set (sv_windows v)" using i by simp
  moreover have "sidebar_rows srt ?w \<noteq> [] \<Longrightarrow> filtered_sorted_nodes srt ?w \<noteq> []" by (auto simp: sidebar_rows_def)
  ultimately show ?thesis
    using rows assms(1) natural_rows_count [of srt "sv_loading v" "sv_procs v" ?w] unfolding shown
    by (auto simp: view_ok_def write_object_section_def write_process_section_def)
qed

end
