(* ===== verification/Ai_Shell.thy ===== *)
theory Ai_Shell
  imports Ai_Sidebar
begin

text \<open>
  The AI shell as a state machine: the chat with its proposals, the commands it runs and the
  background processes (the core of src/cmd/aitui.go, aikeys.go, airun.go and aiproc.go).  A
  handler returns the new model and the effects that Bubble Tea carries out for it: goroutines to
  start and contexts to cancel.
\<close>

section \<open>The model\<close>

datatype tui_state = Idle | Thinking | Proposing | Editing | Executing | Picking

datatype input_mode = ModeAI | ModeCmd

text \<open>A background process; \<open>bp_cancel\<close> says whether its cancel function has arrived.\<close>

record bg_process =
  bp_id :: nat
  bp_name :: string
  bp_command :: string
  bp_cancel :: bool
  bp_out :: capped
  bp_lines :: nat
  bp_stderr :: bool
  bp_done :: bool
  bp_err :: "gerr option"

datatype picker_kind = PickModel | PickEffort

record picker =
  pk_kind :: picker_kind
  pk_items :: "string list"
  pk_sel :: nat

text \<open>The inline prompt of the sidebar.\<close>

datatype prompt_kind = NoPrompt | PromptCreate | PromptDelete | PromptPurge | PromptPurgeSubscription | PromptSend | PromptPublish

record side_prompt =
  sp_active :: bool
  sp_kind :: prompt_kind
  sp_window :: nat
  sp_name :: string
  sp_target :: string
  sp_node_kind :: string

record ai_tui =
  ui_state :: tui_state
  ui_mode :: input_mode
  ui_input :: string
  ui_history :: "ai_message list"
  ui_proposed :: string
  ui_destructive :: bool
  ui_cancel :: "nat option"
  ui_fix :: nat
  ui_turn :: token_usage
  ui_total :: token_usage
  ui_model :: string
  ui_effort :: "string option"
  ui_stream :: string
  ui_out :: "span list"
  ui_copy :: "string list"
  ui_cmd_hist :: "string list"
  ui_ask_hist :: "string list"
  ui_hist_idx :: int
  ui_hist_draft :: string
  ui_focus :: nat
  ui_windows :: "obj_window list"
  ui_proc_win :: int
  ui_procs :: "bg_process list"
  ui_proc_next :: nat
  ui_proc_sel :: int
  ui_saved_mode :: input_mode
  ui_saved_input :: string
  ui_saved_hist :: int
  ui_in_view :: bool
  ui_picker :: "picker option"
  ui_filtering :: bool
  ui_metadata :: metadata_format
  ui_prompt :: side_prompt
  ui_conn :: conn_state
  ui_refresh :: refresh_state
  ui_quitting :: bool
  ui_exit_all :: bool

text \<open>
  The goroutines, among them the actions of the sidebar (carried out in theory \<open>Ai_Actions\<close>), and
  what a handler asks for.  A cancel function belongs to the task or the process that made it.
\<close>

datatype read_mode = ReadMode | PeekMode | MetadataMode metadata_format

datatype side_job =
  ManageCall manage_op string
| PurgeCall string
| PurgeSubscriptionCall string string
| SendCall string string
| PublishCall string string
| ReadQueue read_mode string
| ReadSubscription read_mode string string

datatype ai_task = AskTask "ai_message list" | ExecTask string | ProcTask nat string | ModelsTask | SideTask side_job

datatype effect = Start ai_task | CancelTask nat | CancelProc nat | Call timer_call

type_synonym handled = "ai_tui \<times> effect list"

datatype key =
  KeyEnter | KeyEsc | KeyCtrlC | KeyUp | KeyDown | KeyTab | KeyShiftTab | KeySpace | KeyBackspace
| KeyRunes string
| KeyOther string

text \<open>
  The surroundings: the name of the binary, the verbs of the broker, the name of the provider,
  whether the broker has a probe, the texts of durations, saving a key of the configuration, the
  editing of the input by a key and the completion of a command, the order of \<open>sort.Slice\<close>, and the
  management operations of the broker, if it has any.
\<close>

record tui_env =
  te_bin :: string
  te_verbs :: "string list"
  te_provider :: string
  te_ping :: bool
  te_durations :: duration_texts
  te_save :: "string \<Rightarrow> string \<Rightarrow> gerr option"
  te_edit :: "key \<Rightarrow> string \<Rightarrow> string"
  te_complete :: "string \<Rightarrow> string \<times> span list"
  te_sort :: node_sort
  te_manage :: "manage_spec option"

definition say :: "span list \<Rightarrow> ai_tui \<Rightarrow> ai_tui" where
  "say xs m = m\<lparr>ui_out := ui_out m @ xs\<rparr>"

definition tell :: "style \<Rightarrow> string \<Rightarrow> ai_tui \<Rightarrow> ai_tui" where
  "tell st t = say (paragraph_of st t)"

definition remember :: "string \<Rightarrow> string \<Rightarrow> ai_tui \<Rightarrow> ai_tui" where
  "remember role content m = m\<lparr>ui_history := ui_history m @ [\<lparr>am_role = role, am_content = content\<rparr>]\<rparr>"

definition trimmed :: "ai_tui \<Rightarrow> ai_tui" where
  "trimmed m = m\<lparr>ui_history := trim_history (ui_history m) max_history\<rparr>"

text \<open>The user turn that has got no answer is taken back.\<close>

definition drop_last_user :: "ai_tui \<Rightarrow> ai_tui" where
  "drop_last_user m =
     (if ui_history m \<noteq> [] \<and> am_role (last (ui_history m)) = ''user'' then m\<lparr>ui_history := butlast (ui_history m)\<rparr> else m)"

section \<open>The Processes window\<close>

definition update_proc_prompt :: "ai_tui \<Rightarrow> ai_tui" where
  "update_proc_prompt m =
     (if \<not> ui_in_view m \<or> ui_proc_win m < 0 \<or> ui_procs m = [] then m
      else let sel = (if int (length (ui_procs m)) \<le> ui_proc_sel m then int (length (ui_procs m)) - 1 else ui_proc_sel m)
           in m\<lparr>ui_proc_sel := sel, ui_input := bp_command (ui_procs m ! nat sel)\<rparr>)"

definition enter_process_view :: "ai_tui \<Rightarrow> ai_tui" where
  "enter_process_view m =
     (if ui_in_view m then m
      else update_proc_prompt (m\<lparr>ui_in_view := True, ui_saved_mode := ui_mode m, ui_saved_input := ui_input m,
        ui_saved_hist := ui_hist_idx m\<rparr>))"

definition exit_process_view :: "ai_tui \<Rightarrow> ai_tui" where
  "exit_process_view m =
     (if \<not> ui_in_view m then m
      else m\<lparr>ui_in_view := False, ui_mode := ui_saved_mode m, ui_input := ui_saved_input m, ui_hist_idx := ui_saved_hist m\<rparr>)"

definition ensure_proc_window :: "ai_tui \<Rightarrow> ai_tui" where
  "ensure_proc_window m =
     (if 0 \<le> ui_proc_win m then m
      else m\<lparr>ui_windows := ui_windows m @ [empty_window ProcWindow ''Processes''],
        ui_proc_win := int (length (ui_windows m))\<rparr>)"

definition remove_proc_window :: "ai_tui \<Rightarrow> ai_tui" where
  "remove_proc_window m =
     (if ui_proc_win m < 0 then m
      else let m1 = (if int (ui_focus m) - 1 = ui_proc_win m then (exit_process_view m)\<lparr>ui_focus := 0\<rparr> else m)
           in m1\<lparr>ui_windows := butlast (ui_windows m1), ui_proc_win := -1\<rparr>)"

definition rebuild_process_nodes :: "ai_tui \<Rightarrow> ai_tui" where
  "rebuild_process_nodes m =
     (let n = int (length (ui_procs m))
      in if n = 0 then m\<lparr>ui_proc_sel := 0\<rparr>
         else let sel = (if n \<le> ui_proc_sel m then n - 1 else ui_proc_sel m)
              in m\<lparr>ui_proc_sel := if sel < 0 then 0 else sel\<rparr>)"

text \<open>The window that has the focus, when it is one of processes.\<close>

definition proc_pane :: "ai_tui \<Rightarrow> bool" where
  "proc_pane m \<longleftrightarrow> 0 < ui_focus m \<and> ui_focus m - 1 < length (ui_windows m) \<and> ow_kind (ui_windows m ! (ui_focus m - 1)) = ProcWindow"

definition cycle_focus :: "bool \<Rightarrow> ai_tui \<Rightarrow> ai_tui" where
  "cycle_focus forward m =
     (let n = length (ui_windows m) + 1
      in if n \<le> 1 then m
         else let cur = (if forward then (ui_focus m + 1) mod n else (ui_focus m + n - 1) mod n);
                  m1 = m\<lparr>ui_focus := cur\<rparr>;
                  m2 = (if proc_pane m then exit_process_view m1 else m1)
              in if proc_pane m2 then enter_process_view m2 else m2)"

definition start_background_process :: "string \<Rightarrow> ai_tui \<Rightarrow> handled" where
  "start_background_process command m =
     (let p = \<lparr>bp_id = ui_proc_next m, bp_name = process_name command, bp_command = command, bp_cancel = False,
            bp_out = \<lparr>kb_buf = [], kb_max = 256 * 1024\<rparr>, bp_lines = 0, bp_stderr = False, bp_done = False, bp_err = None\<rparr>;
          m1 = rebuild_process_nodes (ensure_proc_window (m\<lparr>ui_proc_next := ui_proc_next m + 1, ui_procs := ui_procs m @ [p]\<rparr>));
          m2 = tell DimText (hook_glyph @ '' started background process: '' @ bp_name p) (m1\<lparr>ui_state := Idle\<rparr>)
      in (trimmed (remember ''user'' (''[background process started: '' @ command @ '']'') (remember ''assistant'' command m2)),
          [Start (ProcTask (bp_id p) command)]))"

definition cancels :: "bg_process list \<Rightarrow> effect list" where
  "cancels ps = map (\<lambda>p. CancelProc (bp_id p)) (filter bp_cancel ps)"

definition handle_proc_cancel :: "nat \<Rightarrow> ai_tui \<Rightarrow> handled" where
  "handle_proc_cancel i m =
     (if \<exists>p \<in> set (ui_procs m). bp_id p = i
      then (m\<lparr>ui_procs := map (\<lambda>p. if bp_id p = i then p\<lparr>bp_cancel := True\<rparr> else p) (ui_procs m)\<rparr>, [])
      else (m, [CancelProc i]))"

text \<open>The sidebar is refreshed when the process may have changed the number of messages.\<close>

definition refreshed :: "refresh_state \<times> timer_call list \<Rightarrow> ai_tui \<Rightarrow> handled" where
  "refreshed r m = (m\<lparr>ui_refresh := fst r\<rparr>, map Call (snd r))"

definition handle_proc_done :: "int \<Rightarrow> nat \<Rightarrow> gerr option \<Rightarrow> ai_tui \<Rightarrow> handled" where
  "handle_proc_done now i err m =
     (case find (\<lambda>p. bp_id p = i) (ui_procs m) of
        None \<Rightarrow> (m, [])
      | Some p \<Rightarrow>
          (let m1 = rebuild_process_nodes
                 (m\<lparr>ui_procs := map (\<lambda>p. if bp_id p = i then p\<lparr>bp_done := True, bp_err := err\<rparr> else p) (ui_procs m)\<rparr>)
           in if any_command (bp_command p) mutates_messages \<and> \<not> rf_busy (ui_refresh m1) \<and> ui_windows m1 \<noteq> []
              then refreshed (begin_refresh now (ui_refresh m1)) m1 else (m1, [])))"

text \<open>\<open>procWriter.Write\<close>, from the goroutine of the process.\<close>

definition proc_write :: "bool \<Rightarrow> string \<Rightarrow> bg_process \<Rightarrow> bg_process" where
  "proc_write stderr b p =
     p\<lparr>bp_lines := bp_lines p + count_list b (CHR 0x0A), bp_out := capped_write (bp_out p) b,
       bp_stderr := bp_stderr p \<or> (stderr \<and> b \<noteq> [])\<rparr>"

definition trim_newlines :: "string \<Rightarrow> string" where
  "trim_newlines s = rev (dropWhile (\<lambda>c. c = CHR 0x0A) (rev s))"

text \<open>A message payload, line by line behind a border.\<close>

definition payload_spans :: "string \<Rightarrow> span list" where
  "payload_spans content =
     concat (map (\<lambda>l. [(BorderText, border_glyph), (Plain, '' ''), (PayloadText, l), (Plain, newline)]) (split_char (CHR 0x0A) content))"

definition dump_process_output :: "bg_process \<Rightarrow> ai_tui \<Rightarrow> ai_tui" where
  "dump_process_output p m =
     (let text = trim_newlines (capped_string (bp_out p));
          m1 = m\<lparr>ui_procs := map (\<lambda>q. if bp_id q = bp_id p then q\<lparr>bp_stderr := False\<rparr> else q) (ui_procs m),
                 ui_copy := ui_copy m @ [bp_command p] @ (if text \<noteq> [] then [text] else [])\<rparr>
      in say ([(HistText, run_glyph @ '' '' @ bp_name p), (CopyHint, '' '' @ copy_glyph), (Plain, newline)] @
           (if text \<noteq> [] then payload_spans text @ [(CopyHint, ''  '' @ copy_glyph), (Plain, newline)]
            else [(DimText, ''  (no output yet)''), (Plain, newline)]) @
           (case bp_err p of Some e \<Rightarrow> [(WarnText, cross_glyph @ '' '' @ err_text e), (Plain, newline)] | None \<Rightarrow> []) @
           [(Plain, newline)]) m1)"

section \<open>Keys\<close>

definition toggle_window :: "nat \<Rightarrow> ai_tui \<Rightarrow> ai_tui" where
  "toggle_window i m =
     m\<lparr>ui_windows := (ui_windows m)[i := (ui_windows m ! i)\<lparr>ow_collapsed := \<not> ow_collapsed (ui_windows m ! i)\<rparr>]\<rparr>"

text \<open>After processes were removed from the list.\<close>

definition procs_left :: "bg_process list \<Rightarrow> ai_tui \<Rightarrow> ai_tui" where
  "procs_left ps m =
     (let m1 = rebuild_process_nodes (m\<lparr>ui_procs := ps\<rparr>)
      in if ps = [] then remove_proc_window m1 else update_proc_prompt m1)"

definition handle_key_process_pane :: "key \<Rightarrow> ai_tui \<Rightarrow> handled" where
  "handle_key_process_pane k m =
     (let n = int (length (ui_procs m)); sel = ui_proc_sel m; p = ui_procs m ! nat sel
      in if k = KeyUp
         then (if 0 < n \<and> 0 < sel then update_proc_prompt (m\<lparr>ui_proc_sel := sel - 1\<rparr>) else m, [])
         else if k = KeyDown
         then (if sel < n - 1 then update_proc_prompt (m\<lparr>ui_proc_sel := sel + 1\<rparr>) else m, [])
         else if k = KeyEnter then (if 0 < n \<and> sel < n then dump_process_output p m else m, [])
         else if k = KeySpace then (if 0 \<le> ui_proc_win m then toggle_window (nat (ui_proc_win m)) m else m, [])
         else if k = KeyEsc then ((exit_process_view m)\<lparr>ui_focus := 0\<rparr>, [])
         else if k = KeyTab then (cycle_focus True m, [])
         else if k = KeyShiftTab then (cycle_focus False m, [])
         else if k = KeyRunes ''d''
         then (if n = 0 then (m, [])
               else (procs_left (take (nat sel) (ui_procs m) @ drop (Suc (nat sel)) (ui_procs m)) m, cancels [p]))
         else if k = KeyRunes ''k'' then (m, if 0 < n \<and> sel < n then cancels [p] else [])
         else if k = KeyRunes ''p'' then (procs_left (filter (\<lambda>p. \<not> bp_done p) (ui_procs m)) m, [])
         else if k = KeyRunes ''D'' then (remove_proc_window (m\<lparr>ui_procs := []\<rparr>), cancels (ui_procs m))
         else (m, []))"

definition save_failed :: "gerr option \<Rightarrow> string" where
  "save_failed r = (case r of Some e \<Rightarrow> '' (save failed: '' @ err_text e @ '')'' | None \<Rightarrow> [])"

text \<open>The window that has the focus, and what is selected there.\<close>

definition focus_window :: "ai_tui \<Rightarrow> obj_window option" where
  "focus_window m =
     (if 0 < ui_focus m \<and> ui_focus m - 1 < length (ui_windows m) then Some (ui_windows m ! (ui_focus m - 1)) else None)"

definition selected_node_name :: "tui_env \<Rightarrow> ai_tui \<Rightarrow> string" where
  "selected_node_name env m = (case focus_window m of Some w \<Rightarrow> selected_name (te_sort env) w | None \<Rightarrow> [])"

definition selected_top_node :: "tui_env \<Rightarrow> ai_tui \<Rightarrow> object_node option" where
  "selected_top_node env m = (case focus_window m of Some w \<Rightarrow> selected_top_level (te_sort env) w | None \<Rightarrow> None)"

definition selected_child_node :: "tui_env \<Rightarrow> ai_tui \<Rightarrow> side_row option" where
  "selected_child_node env m = (case focus_window m of Some w \<Rightarrow> selected_child (te_sort env) w | None \<Rightarrow> None)"

text \<open>What the broker can do, and which windows and nodes an action applies to.\<close>

definition can_purge :: "tui_env \<Rightarrow> bool" where
  "can_purge env \<longleftrightarrow> (case te_manage env of None \<Rightarrow> False | Some s \<Rightarrow> mg_purge s)"

definition can_purge_subscription :: "tui_env \<Rightarrow> bool" where
  "can_purge_subscription env \<longleftrightarrow> (case te_manage env of None \<Rightarrow> False | Some s \<Rightarrow> mg_purge_subscription s)"

definition supports_srp :: "string \<Rightarrow> bool" where
  "supports_srp label \<longleftrightarrow> label \<in> {''Queues'', ''Streams'', ''Addresses'', ''Exchanges''}"

definition purge_receive_allowed :: "string \<Rightarrow> bool" where
  "purge_receive_allowed label \<longleftrightarrow> label \<noteq> ''Addresses'' \<and> label \<noteq> ''Exchanges''"

definition send_via_topic :: "string \<Rightarrow> string \<Rightarrow> bool" where
  "send_via_topic label kind \<longleftrightarrow> label = ''Addresses'' \<and> kind = ''multicast'' \<or> label = ''Exchanges''"

definition subscription_eligible :: "string \<Rightarrow> string \<Rightarrow> bool" where
  "subscription_eligible label kind \<longleftrightarrow> label = ''Topics'' \<and> kind = ''subscription''"

definition singular :: "string \<Rightarrow> string" where
  "singular label =
     (if label = ''Addresses'' then ''Address'' else trim_suffix label ''s'')"

definition start_prompt :: "prompt_kind \<Rightarrow> nat \<Rightarrow> string \<Rightarrow> ai_tui \<Rightarrow> ai_tui" where
  "start_prompt kind i name m =
     m\<lparr>ui_prompt := (ui_prompt m)\<lparr>sp_active := True, sp_kind := kind, sp_window := i, sp_name := name\<rparr>\<rparr>"

definition prompt_target :: "string \<Rightarrow> ai_tui \<Rightarrow> ai_tui" where
  "prompt_target target m = m\<lparr>ui_prompt := (ui_prompt m)\<lparr>sp_target := target\<rparr>\<rparr>"

definition quoted :: "string \<Rightarrow> string" where
  "quoted s = [CHR 0x22] @ s @ [CHR 0x22]"

text \<open>An action is announced and carried out by a goroutine, with the input blocked.\<close>

definition start_side :: "string \<Rightarrow> side_job \<Rightarrow> ai_tui \<Rightarrow> handled" where
  "start_side desc job m =
     ((say [(HistText, run_glyph @ '' '' @ desc), (Plain, newline)] m)\<lparr>ui_state := Executing\<rparr>, [Start (SideTask job)])"

text \<open>
  The table of the actions: for the window \<open>i\<close> that has the focus, the hint and what the key does,
  or nothing when the key does not apply to the selection.
\<close>

type_synonym resolved = "(string \<times> handled) option"

definition resolve_create :: "nat \<Rightarrow> ai_tui \<Rightarrow> resolved" where
  "resolve_create i m =
     (if length (ui_windows m) \<le> i \<or> ow_create (ui_windows m ! i) = None then None
      else Some (''create'', (start_prompt PromptCreate i [] m, [])))"

definition resolve_delete :: "tui_env \<Rightarrow> nat \<Rightarrow> ai_tui \<Rightarrow> resolved" where
  "resolve_delete env i m =
     (if length (ui_windows m) \<le> i \<or> ow_delete (ui_windows m ! i) = None then None
      else case selected_top_node env m of
          None \<Rightarrow> None
        | Some n \<Rightarrow> (if on_name n = [] then None else Some (''delete'', (start_prompt PromptDelete i (on_name n) m, []))))"

definition resolve_purge_publish :: "tui_env \<Rightarrow> nat \<Rightarrow> ai_tui \<Rightarrow> resolved" where
  "resolve_purge_publish env i m =
     (if length (ui_windows m) \<le> i then None
      else let label = ow_label (ui_windows m ! i)
           in if label = ''Topics''
              then (case selected_child_node env m of
                      Some (child, parent) \<Rightarrow>
                        (if \<not> subscription_eligible label (on_kind child) \<or> on_name child = [] then None
                         else if \<not> can_purge_subscription env then None
                         else Some (''purge'', (start_prompt PromptPurgeSubscription i (on_name child) (prompt_target parent m), [])))
                    | None \<Rightarrow>
                        (case selected_top_node env m of
                           None \<Rightarrow> None
                         | Some n \<Rightarrow>
                             (if on_name n = [] then None
                              else Some (''publish'', (start_prompt PromptPublish i [] (prompt_target (on_name n) m), [])))))
              else if \<not> supports_srp label then None
              else (case selected_top_node env m of
                      None \<Rightarrow> None
                    | Some n \<Rightarrow>
                        (if on_name n = [] \<or> \<not> purge_receive_allowed label then None
                         else if \<not> can_purge env then None
                         else Some (''purge'', (start_prompt PromptPurge i (on_name n) m, [])))))"

definition resolve_send :: "tui_env \<Rightarrow> nat \<Rightarrow> ai_tui \<Rightarrow> resolved" where
  "resolve_send env i m =
     (if length (ui_windows m) \<le> i \<or> \<not> supports_srp (ow_label (ui_windows m ! i)) then None
      else case selected_top_node env m of
          None \<Rightarrow> None
        | Some n \<Rightarrow>
            (if on_name n = [] then None
             else Some (''send'',
               (let m1 = prompt_target (on_name n) m
                in (start_prompt PromptSend i [] (m1\<lparr>ui_prompt := (ui_prompt m1)\<lparr>sp_node_kind := on_kind n\<rparr>\<rparr>), [])))))"

definition resolve_receive :: "tui_env \<Rightarrow> nat \<Rightarrow> ai_tui \<Rightarrow> resolved" where
  "resolve_receive env i m =
     (if length (ui_windows m) \<le> i then None
      else let label = ow_label (ui_windows m ! i)
           in case selected_child_node env m of
                Some (child, parent) \<Rightarrow>
                  (if \<not> subscription_eligible label (on_kind child) \<or> on_name child = [] then None
                   else Some (''receive'', start_side (''receive Subscription '' @ quoted (on_name child))
                     (ReadSubscription ReadMode parent (on_name child)) m))
              | None \<Rightarrow>
                  (if \<not> supports_srp label then None
                   else case selected_top_node env m of
                       None \<Rightarrow> None
                     | Some n \<Rightarrow>
                         (if on_name n = [] \<or> \<not> purge_receive_allowed label then None
                          else Some (''receive'', start_side (''receive '' @ singular label @ '' '' @ quoted (on_name n))
                            (ReadQueue ReadMode (on_name n)) m))))"

definition resolve_peek :: "bool \<Rightarrow> tui_env \<Rightarrow> nat \<Rightarrow> ai_tui \<Rightarrow> resolved" where
  "resolve_peek metadata_only env i m =
     (let hint = (if metadata_only then ''metadata'' else ''peek'');
          verb = (if metadata_only then ''peek metadata '' else ''peek '');
          mode = (if metadata_only then MetadataMode (ui_metadata m) else PeekMode)
      in if length (ui_windows m) \<le> i then None
         else let label = ow_label (ui_windows m ! i)
              in case selected_child_node env m of
                   Some (child, parent) \<Rightarrow>
                     (if \<not> subscription_eligible label (on_kind child) \<or> on_name child = [] then None
                      else Some (hint, start_side (verb @ ''Subscription '' @ quoted (on_name child))
                        (ReadSubscription mode parent (on_name child)) m))
                 | None \<Rightarrow>
                     (case selected_top_node env m of
                        None \<Rightarrow> None
                      | Some n \<Rightarrow>
                          (if on_name n = [] \<or> label \<notin> {''Queues'', ''Streams''} then None
                           else Some (hint, start_side (verb @ singular label @ '' '' @ quoted (on_name n))
                             (ReadQueue mode (on_name n)) m))))"

definition sidebar_actions :: "(string \<times> (tui_env \<Rightarrow> nat \<Rightarrow> ai_tui \<Rightarrow> resolved)) list" where
  "sidebar_actions =
     [(''c'', \<lambda>env. resolve_create), (''d'', resolve_delete), (''P'', resolve_purge_publish), (''p'', resolve_peek False),
      (''m'', resolve_peek True), (''S'', resolve_send), (''R'', resolve_receive)]"

text \<open>A window of broker objects.\<close>

definition change_window :: "nat \<Rightarrow> (obj_window \<Rightarrow> obj_window) \<Rightarrow> ai_tui \<Rightarrow> ai_tui" where
  "change_window i f m = m\<lparr>ui_windows := (ui_windows m)[i := f (ui_windows m ! i)]\<rparr>"

definition switch_metadata :: "tui_env \<Rightarrow> metadata_format \<Rightarrow> string \<Rightarrow> ai_tui \<Rightarrow> ai_tui" where
  "switch_metadata env fmt name m =
     (if ui_metadata m = fmt then m
      else tell DimText (''metadata format '' @ arrow_glyph @ '' '' @ name @ save_failed (te_save env ''metadata-format'' name))
        (m\<lparr>ui_metadata := fmt\<rparr>))"

definition handle_key_pane :: "tui_env \<Rightarrow> key \<Rightarrow> ai_tui \<Rightarrow> handled" where
  "handle_key_pane env k m =
     (let wi = ui_focus m - 1; srt = te_sort env
      in if \<not> (0 < ui_focus m \<and> wi < length (ui_windows m)) then (m, [])
         else if k = KeyEsc then (m\<lparr>ui_focus := 0\<rparr>, [])
         else if k = KeyUp \<or> k = KeyRunes ''k'' then (change_window wi (move_sel srt (-1)) m, [])
         else if k = KeyDown \<or> k = KeyRunes ''j'' then (change_window wi (move_sel srt 1) m, [])
         else if k = KeyEnter
         then (let name = selected_node_name env m in if name \<noteq> [] then m\<lparr>ui_input := name, ui_focus := 0\<rparr> else m, [])
         else if k = KeySpace then (toggle_window wi m, [])
         else if k = KeyTab then (cycle_focus True m, [])
         else if k = KeyShiftTab then (cycle_focus False m, [])
         else if k = KeyRunes ''/'' then (m\<lparr>ui_filtering := True\<rparr>, [])
         else if k = KeyRunes ''J'' then (switch_metadata env MetadataJSON ''json'' m, [])
         else if k = KeyRunes ''Y'' then (switch_metadata env MetadataYAML ''yaml'' m, [])
         else if k = KeyRunes ''s'' then (change_window wi cycle_sort m, [])
         else if k = KeyRunes ''r'' then (m\<lparr>ui_refresh := (ui_refresh m)\<lparr>rf_loading := True\<rparr>\<rparr>, [Call LoadObjects])
         else if k = KeyRunes ''x'' then (change_window wi (toggle_tree srt) m, [])
         else (case k of
                 KeyRunes s \<Rightarrow>
                   (case map_of sidebar_actions s of
                      Some resolve \<Rightarrow> (case resolve env wi m of Some (hint, r) \<Rightarrow> r | None \<Rightarrow> (m, []))
                    | None \<Rightarrow> (m, []))
               | _ \<Rightarrow> (m, [])))"

text \<open>The filter of the window; \<open>butlast\<close> takes off a byte, as the code does.\<close>

definition handle_key_filter :: "key \<Rightarrow> ai_tui \<Rightarrow> handled" where
  "handle_key_filter k m =
     (let wi = ui_focus m - 1; f = ow_filter (ui_windows m ! wi)
      in if \<not> (0 < ui_focus m \<and> wi < length (ui_windows m)) then (m, [])
         else (case k of
                 KeyEsc \<Rightarrow> (change_window wi (set_filter []) (m\<lparr>ui_filtering := False\<rparr>), [])
               | KeyEnter \<Rightarrow> (m\<lparr>ui_filtering := False\<rparr>, [])
               | KeyBackspace \<Rightarrow> (if f \<noteq> [] then change_window wi (set_filter (butlast f)) m else m, [])
               | KeyRunes s \<Rightarrow> (change_window wi (set_filter (f @ s)) m, [])
               | _ \<Rightarrow> (m, [])))"

definition close_prompt :: "ai_tui \<Rightarrow> ai_tui" where
  "close_prompt m = m\<lparr>ui_prompt := (ui_prompt m)\<lparr>sp_active := False\<rparr>\<rparr>"

text \<open>The prompt: what Enter confirms, and which keys edit the text.\<close>

definition prompt_enter :: "tui_env \<Rightarrow> obj_window \<Rightarrow> ai_tui \<Rightarrow> handled" where
  "prompt_enter env w m =
     (let p = ui_prompt m; name = sp_name p; kind = singular (ow_label w); m1 = close_prompt m
      in case sp_kind p of
           NoPrompt \<Rightarrow> (m, [])
         | PromptCreate \<Rightarrow>
             (let n = trim_space name
              in if n = [] then (m, [])
                 else (case ow_create w of
                         None \<Rightarrow> (m1, [])
                       | Some x \<Rightarrow> start_side (''create '' @ kind @ '' '' @ quoted n) (ManageCall x n) m1))
         | PromptDelete \<Rightarrow>
             (case ow_delete w of
                None \<Rightarrow> (m1, [])
              | Some x \<Rightarrow> start_side (''delete '' @ kind @ '' '' @ quoted name) (ManageCall x name) m1)
         | PromptPurge \<Rightarrow>
             (if can_purge env
              then start_side (''purge '' @ kind @ '' '' @ quoted name) (PurgeCall name) m1 else (m1, []))
         | PromptPurgeSubscription \<Rightarrow>
             (if can_purge_subscription env
              then start_side (''purge Subscription '' @ quoted name) (PurgeSubscriptionCall (sp_target p) name) m1 else (m1, []))
         | PromptSend \<Rightarrow>
             (if name = [] then (m, [])
              else if send_via_topic (ow_label w) (sp_node_kind p)
              then start_side (''publish '' @ kind @ '' '' @ quoted (sp_target p)) (PublishCall (sp_target p) name) m1
              else start_side (''send '' @ kind @ '' '' @ quoted (sp_target p)) (SendCall (sp_target p) name) m1)
         | PromptPublish \<Rightarrow>
             (if name = [] then (m, [])
              else start_side (''publish '' @ kind @ '' '' @ quoted (sp_target p)) (PublishCall (sp_target p) name) m1))"

definition edit_prompt :: "(string \<Rightarrow> string) \<Rightarrow> ai_tui \<Rightarrow> ai_tui" where
  "edit_prompt f m = m\<lparr>ui_prompt := (ui_prompt m)\<lparr>sp_name := f (sp_name (ui_prompt m))\<rparr>\<rparr>"

definition handle_key_prompt :: "tui_env \<Rightarrow> key \<Rightarrow> ai_tui \<Rightarrow> handled" where
  "handle_key_prompt env k m =
     (let p = ui_prompt m; payload = (sp_kind p = PromptSend \<or> sp_kind p = PromptPublish)
      in if length (ui_windows m) \<le> sp_window p then (close_prompt m, [])
         else if sp_kind p = NoPrompt then (m, [])
         else (case k of
                 KeyEsc \<Rightarrow> (close_prompt m, [])
               | KeyCtrlC \<Rightarrow> (close_prompt m, [])
               | KeyEnter \<Rightarrow> prompt_enter env (ui_windows m ! sp_window p) m
               | KeyBackspace \<Rightarrow> (if payload \<or> sp_kind p = PromptCreate then edit_prompt butlast m else m, [])
               | KeyRunes s \<Rightarrow> (if payload \<or> sp_kind p = PromptCreate then edit_prompt (\<lambda>n. n @ s) m else m, [])
               | KeySpace \<Rightarrow> (if payload then edit_prompt (\<lambda>n. n @ '' '') m else m, [])
               | _ \<Rightarrow> (m, [])))"

definition active_history :: "ai_tui \<Rightarrow> string list" where
  "active_history m = (case ui_mode m of ModeCmd \<Rightarrow> ui_cmd_hist m | ModeAI \<Rightarrow> ui_ask_hist m)"

definition history_prev :: "ai_tui \<Rightarrow> ai_tui" where
  "history_prev m =
     (let hist = active_history m
      in if hist = [] then m
         else let m1 = (if ui_hist_idx m = -1 then m\<lparr>ui_hist_draft := ui_input m, ui_hist_idx := int (length hist) - 1\<rparr>
                        else if 0 < ui_hist_idx m then m\<lparr>ui_hist_idx := ui_hist_idx m - 1\<rparr> else m)
              in m1\<lparr>ui_input := hist ! nat (ui_hist_idx m1)\<rparr>)"

definition history_next :: "ai_tui \<Rightarrow> ai_tui" where
  "history_next m =
     (let hist = active_history m
      in if ui_hist_idx m = -1 then m
         else if ui_hist_idx m < int (length hist) - 1
         then m\<lparr>ui_hist_idx := ui_hist_idx m + 1, ui_input := hist ! nat (ui_hist_idx m + 1)\<rparr>
         else m\<lparr>ui_hist_idx := -1, ui_input := ui_hist_draft m\<rparr>)"

definition toggle_input_mode :: "ai_tui \<Rightarrow> ai_tui" where
  "toggle_input_mode m =
     m\<lparr>ui_hist_idx := -1, ui_mode := (case ui_mode m of ModeAI \<Rightarrow> ModeCmd | ModeCmd \<Rightarrow> ModeAI)\<rparr>"

text \<open>The request is made of the conversation at this moment.\<close>

definition start_ai_request :: "ai_tui \<Rightarrow> handled" where
  "start_ai_request m = (m, [Start (AskTask (leading_user_history (ui_history m)))])"

definition start_execution :: "string \<Rightarrow> ai_tui \<Rightarrow> handled" where
  "start_execution command m = (remember ''assistant'' command (m\<lparr>ui_state := Executing\<rparr>), [Start (ExecTask command)])"

definition run_command :: "string \<Rightarrow> ai_tui \<Rightarrow> handled" where
  "run_command command m = (if command_has_for command then start_background_process command m else start_execution command m)"

definition quit :: "bool \<Rightarrow> ai_tui \<Rightarrow> handled" where
  "quit exit_all m = (m\<lparr>ui_exit_all := ui_exit_all m \<or> exit_all, ui_quitting := True\<rparr>, cancels (ui_procs m))"

text \<open>
  A level is set on the client, once the session has one (\<open>ui_effort\<close>); it is reported anyway.
\<close>

definition choose_effort :: "string \<Rightarrow> ai_tui \<Rightarrow> ai_tui" where
  "choose_effort effort m =
     tell DimText (''effort '' @ arrow_glyph @ '' '' @ effort) (m\<lparr>ui_effort := map_option (\<lambda>e. effort) (ui_effort m)\<rparr>)"

definition apply_effort :: "string \<Rightarrow> ai_tui \<Rightarrow> ai_tui" where
  "apply_effort arg m =
     (let a = lower_text arg
      in if a = ''low'' \<or> a = ''l'' then choose_effort ''low'' m
         else if a = ''medium'' \<or> a = ''med'' \<or> a = ''m'' then choose_effort ''medium'' m
         else if a = ''high'' \<or> a = ''h'' then choose_effort ''high'' m
         else tell WarnText ''effort must be low, medium, or high'' m)"

definition switch_model :: "tui_env \<Rightarrow> string \<Rightarrow> ai_tui \<Rightarrow> ai_tui" where
  "switch_model env name m =
     tell DimText (''model '' @ arrow_glyph @ '' '' @ name @ save_failed (te_save env ''model'' name)) (m\<lparr>ui_model := name\<rparr>)"

definition pick :: "picker \<Rightarrow> ai_tui \<Rightarrow> ai_tui" where
  "pick p m = m\<lparr>ui_picker := Some p, ui_state := Picking\<rparr>"

definition effort_levels :: "string list" where
  "effort_levels = [''low'', ''medium'', ''high'']"

definition index_of :: "string \<Rightarrow> string list \<Rightarrow> nat" where
  "index_of x xs = (if x \<in> set xs then length (takeWhile (\<lambda>y. y \<noteq> x) xs) else 0)"

definition help_text :: "string \<Rightarrow> string" where
  "help_text bin = concat (map (\<lambda>l. l @ newline)
     [''/model               pick a model from the provider'',
      ''/model <name>        switch to a model directly'',
      ''/effort              pick reasoning effort'',
      ''/effort low|med|high set effort directly'',
      ''/refresh             reload broker objects now'',
      ''/refresh off         disable periodic refresh'',
      ''/refresh <dur>       set refresh interval (e.g. 3s, 3m; min 1s)'',
      ''/connect             reconnect to the broker (enables auto-reconnect)'',
      ''/disconnect          stop auto-reconnect'',
      ''/reset               reset conversation history'',
      ''/clear               clear the display'',
      ''/exit                quit xmc'',
      ''/help                show this help'',
      [],
      ''Esc          toggle between ask> (AI) and '' @ bin @ ''> (command) mode'',
      ''Tab          autocomplete (command mode) '' @ mid_glyph @ '' browse sidebar forward (AI mode)'',
      ''Shift+Tab    browse sidebar backward'',
      ''Up/Down      recall history'',
      ''Space        collapse/expand selected sidebar window'',
      ''x            toggle hierarchical tree-view for broker objects'',
      ''r            refresh the selected sidebar window now'',
      ''m            peek metadata (where peek is available)'',
      ''J / Y        metadata output format (JSON / YAML)'',
      ''PgUp/PgDn    scroll conversation '' @ mid_glyph @ '' mouse wheel also works'',
      ''Home/End     jump to top/bottom'',
      ''             click '' @ copy_glyph @ '' in the transcript to copy any item''])"

definition connected :: "conn_state \<times> span list \<times> timer_call list \<Rightarrow> ai_tui \<Rightarrow> handled" where
  "connected r m = (case r of (c, out, cs) \<Rightarrow> (say out (m\<lparr>ui_conn := c\<rparr>), map Call cs))"

definition handle_slash :: "tui_env \<Rightarrow> int \<Rightarrow> string \<Rightarrow> ai_tui \<Rightarrow> handled" where
  "handle_slash env now input m =
     (let parts = text_fields input; cmd = lower_text (hd parts); arg = join '' '' (tl parts)
      in if cmd = ''/help'' then (say [(DimText, help_text (te_bin env)), (Plain, newline)] m, [])
         else if cmd = ''/exit'' then quit True m
         else if cmd = ''/reset''
         then (tell DimText ''(conversation reset)''
                 (m\<lparr>ui_history := [], ui_out := [], ui_total := no_usage, ui_turn := no_usage\<rparr>), [])
         else if cmd = ''/refresh''
         then (case slash_refresh (te_durations env) (te_save env ''refresh-interval'') (ui_windows m \<noteq> []) now arg (ui_refresh m) of
                 (r, out, cs) \<Rightarrow> (say out (m\<lparr>ui_refresh := r\<rparr>), map Call cs))
         else if cmd = ''/disconnect'' then connected (slash_disconnect (ui_conn m)) m
         else if cmd = ''/connect'' then connected (slash_connect (te_ping env) now (ui_conn m)) m
         else if cmd = ''/clear'' then (m\<lparr>ui_out := []\<rparr>, [])
         else if cmd = ''/model''
         then (if arg = []
               then (tell DimText (''fetching models'' @ dots_glyph)
                       (say [(DimText, ''current: '' @ ui_model m @ '' '' @ mid_glyph @ '' '' @ te_provider env), (Plain, newline)] m),
                     [Start ModelsTask])
               else (switch_model env arg m, []))
         else if cmd = ''/effort''
         then (if arg = []
               then (pick \<lparr>pk_kind = PickEffort, pk_items = effort_levels,
                       pk_sel = (case ui_effort m of Some e \<Rightarrow> index_of e effort_levels | None \<Rightarrow> 0)\<rparr> m, [])
               else (apply_effort arg m, []))
         else (tell WarnText (''unknown command: '' @ cmd @ '' (type /help)'') m, []))"

text \<open>Enter in the chat.\<close>

definition enter_prompt :: "tui_env \<Rightarrow> int \<Rightarrow> ai_tui \<Rightarrow> handled" where
  "enter_prompt env now m =
     (let prompt = trim_space (ui_input m)
      in if prompt = [] then (m, [])
         else if ui_mode m = ModeCmd \<and> \<not> has_prefix prompt ''/'' \<and> \<not> command_well_formed prompt
         then (tell WarnText (cross_glyph @ '' trailing & is not allowed '' @ dash_glyph @ '' use --for <duration> to run in the background'') m, [])
         else let m1 = m\<lparr>ui_input := [], ui_hist_idx := -1\<rparr>
              in if has_prefix prompt ''/'' then handle_slash env now prompt m1
                 else if ui_mode m = ModeCmd
                 then (if prompt = ''exit'' \<or> prompt = ''quit'' then quit True m1
                       else run_command prompt
                         (say [(CmdText, te_bin env @ ''> ''), (Plain, prompt @ newline)]
                           (m1\<lparr>ui_cmd_hist := ui_cmd_hist m1 @ [prompt], ui_proposed := prompt\<rparr>)))
                 else start_ai_request
                   ((trimmed (remember ''user'' prompt
                       (say [(UserText, ''you: ''), (Plain, prompt @ newline @ newline)]
                         (m1\<lparr>ui_ask_hist := ui_ask_hist m1 @ [prompt]\<rparr>))))
                    \<lparr>ui_fix := 0, ui_state := Thinking, ui_stream := [], ui_turn := no_usage\<rparr>))"

definition handle_key_idle :: "tui_env \<Rightarrow> int \<Rightarrow> key \<Rightarrow> ai_tui \<Rightarrow> handled" where
  "handle_key_idle env now k m =
     (if k = KeyShiftTab then (cycle_focus False m, [])
      else if ui_focus m \<noteq> 0
      then (if ui_filtering m then handle_key_filter k m
            else if proc_pane m then handle_key_process_pane k m else handle_key_pane env k m)
      else if k = KeyCtrlC then quit False m
      else if k = KeyEsc then (toggle_input_mode m, [])
      else if k = KeyTab
      then (case ui_mode m of
              ModeCmd \<Rightarrow> (case te_complete env (ui_input m) of (v, xs) \<Rightarrow> (say xs (m\<lparr>ui_input := v\<rparr>), []))
            | ModeAI \<Rightarrow> (cycle_focus True m, []))
      else if k = KeyUp then (history_prev m, [])
      else if k = KeyDown then (history_next m, [])
      else if k = KeyEnter then enter_prompt env now m
      else (m\<lparr>ui_input := te_edit env k (ui_input m)\<rparr>, []))"

definition cancel_task :: "ai_tui \<Rightarrow> effect list" where
  "cancel_task m = (case ui_cancel m of Some i \<Rightarrow> [CancelTask i] | None \<Rightarrow> [])"

definition handle_key_thinking :: "key \<Rightarrow> ai_tui \<Rightarrow> handled" where
  "handle_key_thinking k m =
     (if k = KeyEsc \<or> k = KeyCtrlC
      then (drop_last_user ((tell DimText ''(cancelled)'' m)\<lparr>ui_state := Idle\<rparr>), cancel_task m)
      else (m, []))"

definition freeze_proposal :: "string \<Rightarrow> string \<Rightarrow> bool \<Rightarrow> bool \<Rightarrow> span list" where
  "freeze_proposal cmd marker faint destructive =
     [(if faint then DimText else CmdText, run_glyph @ '' '' @ cmd)] @
     (if marker = check_glyph then [(Plain, '' ''), (CmdText, check_glyph)]
      else if marker = cross_glyph then [(Plain, '' ''), (WarnText, cross_glyph)]
      else if marker = ''?'' then [(Plain, '' ''), (InfoText, ''?'')] else []) @
     (if destructive \<and> marker \<noteq> cross_glyph
      then [(Plain, newline), (WarnText, ''  '' @ warn_glyph @ '' destructive '' @ dash_glyph @ '' review carefully'')] else []) @
     [(Plain, newline @ newline)]"

definition handle_key_proposing :: "key \<Rightarrow> ai_tui \<Rightarrow> handled" where
  "handle_key_proposing k m =
     (let cmd = ui_proposed m
      in if k = KeyEsc \<or> k = KeyCtrlC
         then ((remember ''user'' ''[user discarded the command]''
                  (remember ''assistant'' cmd (say (freeze_proposal cmd cross_glyph True False) m)))\<lparr>ui_state := Idle\<rparr>, [])
         else if k = KeyEnter
         then run_command cmd (say (freeze_proposal cmd check_glyph False (ui_destructive m)) m)
         else if k = KeyRunes ''e'' then (m\<lparr>ui_input := cmd, ui_state := Editing\<rparr>, [])
         else if k = KeyRunes ''c''
         then ((remember ''user'' (''[command NOT executed '' @ dash_glyph @ '' user wants to discuss or refine it before running]'')
                  (remember ''assistant'' cmd (say (freeze_proposal cmd ''?'' False (ui_destructive m)) m)))
               \<lparr>ui_input := [], ui_state := Idle\<rparr>, [])
         else (m, []))"

definition handle_key_editing :: "tui_env \<Rightarrow> key \<Rightarrow> ai_tui \<Rightarrow> handled" where
  "handle_key_editing env k m =
     (if k = KeyEnter
      then (let cmd = trim_space (ui_input m)
            in if cmd = [] then (m, [])
               else let m1 = m\<lparr>ui_proposed := cmd, ui_destructive := any_command cmd is_destructive\<rparr>
                    in run_command cmd ((say (freeze_proposal cmd check_glyph False (ui_destructive m1)) m1)\<lparr>ui_input := []\<rparr>))
      else if k = KeyEsc \<or> k = KeyCtrlC
      then ((say (freeze_proposal (ui_proposed m) cross_glyph True False) m)\<lparr>ui_input := [], ui_state := Idle\<rparr>, [])
      else (m\<lparr>ui_input := te_edit env k (ui_input m)\<rparr>, []))"

definition handle_key_executing :: "key \<Rightarrow> ai_tui \<Rightarrow> handled" where
  "handle_key_executing k m = (m, if k = KeyEsc \<or> k = KeyCtrlC then cancel_task m else [])"

definition picked :: "tui_env \<Rightarrow> picker \<Rightarrow> ai_tui \<Rightarrow> ai_tui" where
  "picked env p m =
     (let x = pk_items p ! pk_sel p
      in case pk_kind p of PickModel \<Rightarrow> switch_model env x m | PickEffort \<Rightarrow> choose_effort x m)"

definition handle_key_picking :: "tui_env \<Rightarrow> key \<Rightarrow> ai_tui \<Rightarrow> handled" where
  "handle_key_picking env k m =
     (case ui_picker m of
        None \<Rightarrow> (m\<lparr>ui_state := Idle\<rparr>, [])
      | Some p \<Rightarrow>
          (if k = KeyUp then (if 0 < pk_sel p then m\<lparr>ui_picker := Some (p\<lparr>pk_sel := pk_sel p - 1\<rparr>)\<rparr> else m, [])
           else if k = KeyDown
           then (if Suc (pk_sel p) < length (pk_items p) then m\<lparr>ui_picker := Some (p\<lparr>pk_sel := pk_sel p + 1\<rparr>)\<rparr> else m, [])
           else if k = KeyEnter then ((picked env p m)\<lparr>ui_picker := None, ui_state := Idle\<rparr>, [])
           else if k = KeyEsc \<or> k = KeyCtrlC
           then ((tell DimText ''(cancelled)'' m)\<lparr>ui_picker := None, ui_state := Idle\<rparr>, [])
           else (m, [])))"

definition handle_key :: "tui_env \<Rightarrow> int \<Rightarrow> key \<Rightarrow> ai_tui \<Rightarrow> handled" where
  "handle_key env now k m =
     (if sp_active (ui_prompt m) then handle_key_prompt env k m
      else case ui_state m of
        Idle \<Rightarrow> handle_key_idle env now k m
      | Thinking \<Rightarrow> handle_key_thinking k m
      | Proposing \<Rightarrow> handle_key_proposing k m
      | Editing \<Rightarrow> handle_key_editing env k m
      | Executing \<Rightarrow> handle_key_executing k m
      | Picking \<Rightarrow> handle_key_picking env k m)"

section \<open>Messages\<close>

definition add_usage :: "token_usage \<Rightarrow> ai_tui \<Rightarrow> ai_tui" where
  "add_usage u m =
     m\<lparr>ui_turn := u, ui_total := \<lparr>tu_input = tu_input (ui_total m) + tu_input u,
       tu_output = tu_output (ui_total m) + tu_output u\<rparr>\<rparr>"

text \<open>An answer that is a question or a refusal is remembered and shown.\<close>

definition ai_replied :: "string \<Rightarrow> string \<Rightarrow> ai_tui \<Rightarrow> ai_tui" where
  "ai_replied shown command m =
     (remember ''assistant'' command (tell InfoText shown m))\<lparr>ui_fix := 0, ui_state := Idle\<rparr>"

definition handle_ai_done :: "tui_env \<Rightarrow> string \<times> token_usage \<times> gerr option \<Rightarrow> ai_tui \<Rightarrow> ai_tui" where
  "handle_ai_done env r m =
     (case r of
        (text, usage, Some e) \<Rightarrow>
          (if contains (err_text e) ''context canceled'' then m
           else (drop_last_user (tell WarnText (''error: '' @ err_text e) m))\<lparr>ui_state := Idle\<rparr>)
      | (text, usage, None) \<Rightarrow>
          (let m1 = add_usage usage m; command = extract_command_with_verbs (te_bin env) (te_verbs env) text;
               ask = has_prefix command ''# ask:''; cannot = has_prefix command ''# cannot:''
           in if command = [] \<or> (has_prefix command ''#'' \<and> \<not> ask \<and> \<not> cannot)
              then (let raw = trim_space text
                    in (drop_last_user (tell DimText
                          (if raw \<noteq> [] then raw
                           else ''(empty response from '' @ ui_model m1 @ '' '' @ dash_glyph @ '' try rephrasing)'') m1))
                       \<lparr>ui_state := Idle\<rparr>)
              else if ask then ai_replied (''? '' @ trim_space (trim_prefix command ''# ask:'')) command m1
              else if cannot then ai_replied (cross_glyph @ '' '' @ trim_space (trim_prefix command ''# cannot:'')) command m1
              else let cmd = one_line_command command
                   in m1\<lparr>ui_proposed := cmd, ui_destructive := any_command cmd is_destructive, ui_state := Proposing\<rparr>))"

text \<open>Whether a command prints messages; \<open>filepath.Base\<close> is the one of Unix.\<close>

definition base_name :: "string \<Rightarrow> string" where
  "base_name p =
     (let q = rev (dropWhile (\<lambda>c. c = CHR ''/'') (rev p))
      in if p = [] then ''.'' else if q = [] then ''/'' else rev (takeWhile (\<lambda>c. c \<noteq> CHR ''/'') (rev q)))"

definition strip_known_binary_prefix :: "string \<Rightarrow> string" where
  "strip_known_binary_prefix command =
     (let cmd = trim_space command; fs = text_fields cmd
      in if length fs < 2 then cmd
         else if trim_prefix (base_name (hd fs)) ''./''
               \<in> {''xmc'', ''amc'', ''awsmc'', ''azmc'', ''gmc'', ''imc'', ''kmc'', ''mmc'', ''nmc'', ''pmc'', ''rmc'', ''redmc''}
         then join '' '' (tl fs) else cmd)"

definition is_message_read_command :: "string \<Rightarrow> bool" where
  "is_message_read_command command =
     list_ex (has_prefix (trim_space (strip_known_binary_prefix command))) [''receive'', ''get'', ''peek'', ''subscribe'']"

definition handle_exec_done :: "gerr option \<Rightarrow> string \<Rightarrow> string \<Rightarrow> ai_tui \<Rightarrow> handled" where
  "handle_exec_done err stdout stderr m =
     (let cmd = ui_proposed m; text = trim_newlines stdout; payload = (stdout \<noteq> [] \<and> is_message_read_command cmd);
          m1 = m\<lparr>ui_copy := ui_copy m @ [cmd] @ (if payload then [text] else []), ui_fix := (if err = None then 0 else ui_fix m)\<rparr>;
          m2 = say ([(HistText, run_glyph @ '' ran: '' @ cmd), (CopyHint, '' '' @ copy_glyph), (Plain, newline)] @
            (if stdout = [] then []
             else if payload then payload_spans text @ [(CopyHint, ''  '' @ copy_glyph), (Plain, newline)]
             else [(DimText, text), (Plain, newline)]) @
            (case err of Some e \<Rightarrow> [(WarnText, cross_glyph @ '' '' @ err_text e)] | None \<Rightarrow> [(OkText, check_glyph @ '' ok'')]) @
            [(Plain, newline), (Plain, newline)]) m1;
          m3 = trimmed (remember ''user'' (build_feedback err stdout stderr) m2)
      in if err \<noteq> None \<and> ui_fix m3 < max_fix_attempts \<and> ui_mode m3 = ModeAI
         then start_ai_request
           ((tell DimText (again_glyph @ '' auto-fixing'' @ dots_glyph) (m3\<lparr>ui_fix := ui_fix m3 + 1\<rparr>))
            \<lparr>ui_state := Thinking, ui_stream := []\<rparr>)
         else (m3\<lparr>ui_state := Idle\<rparr>, []))"

definition handle_models_done :: "gerr + string list \<Rightarrow> ai_tui \<Rightarrow> ai_tui" where
  "handle_models_done r m =
     (case r of
        Inl e \<Rightarrow> tell WarnText (''error listing models: '' @ err_text e) m
      | Inr [] \<Rightarrow> tell DimText ''(no models returned)'' m
      | Inr models \<Rightarrow> pick \<lparr>pk_kind = PickModel, pk_items = models, pk_sel = index_of (ui_model m) models\<rparr> m)"

text \<open>The end of an action of the sidebar; \<open>loads\<close> says whether it reloads the objects.\<close>

definition handle_side_action :: "bool \<Rightarrow> string \<Rightarrow> string \<Rightarrow> gerr option \<Rightarrow> ai_tui \<Rightarrow> handled" where
  "handle_side_action loads action copied err m =
     (let act = trim_newlines action;
          m1 = (case err of
                  Some e \<Rightarrow> tell WarnText (cross_glyph @ '' '' @ err_text e) m
                | None \<Rightarrow>
                    (if action \<noteq> []
                     then let m0 = (if act \<noteq> [] then say [(Plain, act @ newline)] m else m)
                          in if copied \<noteq> []
                             then say [(CopyHint, ''  '' @ copy_glyph), (Plain, newline @ newline)] (m0\<lparr>ui_copy := ui_copy m0 @ [copied]\<rparr>)
                             else say [(Plain, newline)] m0
                     else tell OkText (check_glyph @ '' ok'') m));
          m2 = (if loads then m1\<lparr>ui_refresh := (ui_refresh m1)\<lparr>rf_loading := True\<rparr>\<rparr> else m1)
      in (m2\<lparr>ui_state := Idle\<rparr>, if loads then [Call LoadObjects] else []))"

text \<open>A fetch of the objects that has ended; the window of the processes is the last one.\<close>

definition objects_stored :: "tui_env \<Rightarrow> (object_node list option \<times> gerr option) list \<Rightarrow> obj_window list \<Rightarrow> obj_window list" where
  "objects_stored env rs ws =
     map2 (\<lambda>i w. store_objects (te_sort env) (if i < length rs then rs ! i else (ow_nodes w, ow_err w)) w) [0..<length ws] ws"

text \<open>
  The messages of \<open>Update\<close> that change more than the layout.  \<open>ClientReady\<close> is no message: it is
  the moment at which a goroutine has run the \<open>init\<close> of the session.
\<close>

datatype tui_msg =
  KeyMsg key
| TokenMsg string
| AIDone string token_usage "gerr option"
| ExecDone "gerr option" string string
| SideAction bool string string "gerr option"
| SetCancel nat
| ProcCancel nat
| ProcDone nat "gerr option"
| ProcOutput nat bool string
| ModelsDone "gerr + string list"
| ObjectsDone "(object_node list option \<times> gerr option) list"
| ConnDone "gerr option"
| ReconnectTickMsg
| ReconnectProbeMsg "gerr option"
| RefreshTickMsg
| WatchdogMsg nat
| ClientReady string string

definition update :: "tui_env \<Rightarrow> int \<Rightarrow> tui_msg \<Rightarrow> ai_tui \<Rightarrow> handled" where
  "update env now mg m =
     (case mg of
        KeyMsg k \<Rightarrow> handle_key env now k m
      | TokenMsg t \<Rightarrow> (m\<lparr>ui_stream := ui_stream m @ t\<rparr>, [])
      | AIDone text usage err \<Rightarrow> (handle_ai_done env (text, usage, err) m, [])
      | ExecDone err stdout stderr \<Rightarrow> handle_exec_done err stdout stderr m
      | SideAction loads action copied err \<Rightarrow> handle_side_action loads action copied err m
      | SetCancel i \<Rightarrow> (m\<lparr>ui_cancel := Some i\<rparr>, [])
      | ProcCancel i \<Rightarrow> handle_proc_cancel i m
      | ProcDone i err \<Rightarrow> handle_proc_done now i err m
      | ProcOutput i stderr b \<Rightarrow> (m\<lparr>ui_procs := map (\<lambda>p. if bp_id p = i then proc_write stderr b p else p) (ui_procs m)\<rparr>, [])
      | ModelsDone r \<Rightarrow> (handle_models_done r m, [])
      | ObjectsDone rs \<Rightarrow> refreshed (handle_objects_done now (ui_refresh m)) (m\<lparr>ui_windows := objects_stored env rs (ui_windows m)\<rparr>)
      | ConnDone err \<Rightarrow> connected (handle_conn_done now err (ui_conn m)) m
      | ReconnectTickMsg \<Rightarrow> connected (handle_reconnect_tick now (ui_conn m)) m
      | ReconnectProbeMsg err \<Rightarrow> connected (handle_reconnect_probe now err (ui_conn m)) m
      | RefreshTickMsg \<Rightarrow> refreshed (handle_refresh_tick (ui_windows m \<noteq> []) now (ui_refresh m)) m
      | WatchdogMsg gen \<Rightarrow> refreshed (handle_watchdog (ui_windows m \<noteq> []) now gen (ui_refresh m)) m
      | ClientReady name effort \<Rightarrow> (m\<lparr>ui_model := name, ui_effort := Some effort\<rparr>, []))"

definition no_prompt :: side_prompt where
  "no_prompt = \<lparr>sp_active = False, sp_kind = NoPrompt, sp_window = 0, sp_name = [], sp_target = [], sp_node_kind = []\<rparr>"

definition spec_windows :: "manage_spec option \<Rightarrow> obj_window list" where
  "spec_windows spec = (case spec of None \<Rightarrow> [] | Some s \<Rightarrow> map (object_window s) (mg_objects s))"

text \<open>\<open>newAITUIModel\<close>, with the histories of the files and the settings of the configuration.\<close>

definition new_tui :: "manage_spec option \<Rightarrow> string list \<Rightarrow> string list \<Rightarrow> int \<Rightarrow> bool \<Rightarrow> metadata_format \<Rightarrow> ai_tui" where
  "new_tui spec commands asks period enabled fmt =
     \<lparr>ui_state = Idle, ui_mode = ModeAI, ui_input = [], ui_history = [], ui_proposed = [], ui_destructive = False,
      ui_cancel = None, ui_fix = 0, ui_turn = no_usage, ui_total = no_usage, ui_model = [], ui_effort = None, ui_stream = [],
      ui_out = [], ui_copy = [], ui_cmd_hist = commands, ui_ask_hist = asks, ui_hist_idx = -1, ui_hist_draft = [],
      ui_focus = 0, ui_windows = spec_windows spec, ui_proc_win = -1, ui_procs = [], ui_proc_next = 0, ui_proc_sel = 0,
      ui_saved_mode = ModeAI, ui_saved_input = [], ui_saved_hist = 0, ui_in_view = False, ui_picker = None,
      ui_filtering = False, ui_metadata = fmt, ui_prompt = no_prompt, ui_conn = new_conn,
      ui_refresh = \<lparr>rf_loading = (spec_windows spec \<noteq> []), rf_busy = False, rf_start = 0, rf_took = 0, rf_gen = 0, rf_period = period,
        rf_enabled = enabled\<rparr>, ui_quitting = False, ui_exit_all = False\<rparr>"

end
