(* ===== verification/Ai_System.thy ===== *)
theory Ai_System
  imports Ai_Shell
begin

text \<open>
  Runs of the AI shell: what may start a command, what is sent to the provider, the indices into
  the windows, processes and histories, and the background processes with their goroutines.
\<close>

section \<open>What the handlers leave alone\<close>

named_theorems tui_frame \<open>fields that a helper of the handlers does not touch\<close>

lemmas tui_text_defs = say_def tell_def remember_def trimmed_def

lemma drop_last_user_eq:
  "drop_last_user m =
    m\<lparr>ui_history := if ui_history m \<noteq> [] \<and> am_role (last (ui_history m)) = ''user'' then butlast (ui_history m) else ui_history m\<rparr>"
  by (simp add: drop_last_user_def)

lemma update_proc_prompt_eq:
  "update_proc_prompt m =
    m\<lparr>ui_proc_sel := ui_proc_sel (update_proc_prompt m), ui_input := ui_input (update_proc_prompt m)\<rparr>"
  by (simp add: update_proc_prompt_def Let_def)

lemma window_frame [tui_frame]:
  "ui_state (update_proc_prompt m) = ui_state m" "ui_state (enter_process_view m) = ui_state m"
  "ui_state (exit_process_view m) = ui_state m" "ui_state (ensure_proc_window m) = ui_state m"
  "ui_state (remove_proc_window m) = ui_state m" "ui_state (rebuild_process_nodes m) = ui_state m"
  "ui_proposed (update_proc_prompt m) = ui_proposed m" "ui_proposed (enter_process_view m) = ui_proposed m"
  "ui_proposed (exit_process_view m) = ui_proposed m" "ui_proposed (ensure_proc_window m) = ui_proposed m"
  "ui_proposed (remove_proc_window m) = ui_proposed m" "ui_proposed (rebuild_process_nodes m) = ui_proposed m"
  "ui_destructive (update_proc_prompt m) = ui_destructive m" "ui_destructive (enter_process_view m) = ui_destructive m"
  "ui_destructive (exit_process_view m) = ui_destructive m" "ui_destructive (ensure_proc_window m) = ui_destructive m"
  "ui_destructive (remove_proc_window m) = ui_destructive m" "ui_destructive (rebuild_process_nodes m) = ui_destructive m"
  "ui_out (ensure_proc_window m) = ui_out m" "ui_out (rebuild_process_nodes m) = ui_out m"
  "ui_history (ensure_proc_window m) = ui_history m" "ui_history (rebuild_process_nodes m) = ui_history m"
  by (simp_all add: update_proc_prompt_def enter_process_view_def exit_process_view_def ensure_proc_window_def
      remove_proc_window_def rebuild_process_nodes_def Let_def)

lemma focus_frame [tui_frame]:
  "ui_state (cycle_focus b m) = ui_state m" "ui_proposed (cycle_focus b m) = ui_proposed m"
  "ui_destructive (cycle_focus b m) = ui_destructive m"
  by (simp_all add: cycle_focus_def Let_def tui_frame)

lemma pane_frame [tui_frame]:
  "ui_state (procs_left ps m) = ui_state m" "ui_proposed (procs_left ps m) = ui_proposed m"
  "ui_destructive (procs_left ps m) = ui_destructive m"
  "ui_state (dump_process_output p m) = ui_state m" "ui_proposed (dump_process_output p m) = ui_proposed m"
  "ui_destructive (dump_process_output p m) = ui_destructive m"
  "ui_state (toggle_window i m) = ui_state m" "ui_proposed (toggle_window i m) = ui_proposed m"
  "ui_destructive (toggle_window i m) = ui_destructive m"
  "ui_state (history_prev m) = ui_state m" "ui_state (history_next m) = ui_state m" "ui_state (toggle_input_mode m) = ui_state m"
  by (simp_all add: procs_left_def dump_process_output_def toggle_window_def history_prev_def history_next_def
      toggle_input_mode_def Let_def tui_frame tui_text_defs)

section \<open>The sidebar\<close>

text \<open>
  What a key can do in a window of objects, in its filter or in the inline prompt: no window
  changes its kind, and an action runs in a goroutine.
\<close>

inductive side_change :: "ai_tui \<Rightarrow> handled \<Rightarrow> bool" where
  same: "side_change m (m, [])"
| leave: "side_change m (m\<lparr>ui_focus := 0\<rparr>, [])"
| enter_name: "side_change m (m\<lparr>ui_input := name, ui_focus := 0\<rparr>, [])"
| windows: "map ow_kind ws = map ow_kind (ui_windows m) \<Longrightarrow> side_change m (m\<lparr>ui_windows := ws, ui_filtering := b\<rparr>, [])"
| prompt: "side_change m (m\<lparr>ui_prompt := p\<rparr>, [])"
| metadata: "side_change m (m\<lparr>ui_metadata := fmt, ui_out := out\<rparr>, [])"
| reload: "side_change m (m\<lparr>ui_refresh := r\<rparr>, [Call LoadObjects])"
| cycle: "side_change m (cycle_focus b m, [])"
| act: "side_change m (m\<lparr>ui_prompt := p, ui_out := out, ui_state := Executing\<rparr>, [Start (SideTask job)])"

inductive offered :: "ai_tui \<Rightarrow> handled \<Rightarrow> bool" where
  offered_prompt: "offered m (m\<lparr>ui_prompt := p\<rparr>, [])"
| offered_start: "offered m (start_side desc job m)"

lemma offered_prompts:
  "offered m (start_prompt kind i name m, [])" "offered m (start_prompt kind i name (prompt_target target m), [])"
  "offered m (start_prompt kind i name ((prompt_target target m)\<lparr>ui_prompt := p\<rparr>), [])"
  using offered_prompt by (simp_all add: start_prompt_def prompt_target_def)

lemma resolve_offers:
  "resolve_create i m = Some (hint, r) \<Longrightarrow> offered m r" "resolve_delete env i m = Some (hint, r) \<Longrightarrow> offered m r"
  "resolve_purge_publish env i m = Some (hint, r) \<Longrightarrow> offered m r" "resolve_send env i m = Some (hint, r) \<Longrightarrow> offered m r"
  "resolve_receive env i m = Some (hint, r) \<Longrightarrow> offered m r" "resolve_peek b env i m = Some (hint, r) \<Longrightarrow> offered m r"
  by (auto simp: resolve_create_def resolve_delete_def resolve_purge_publish_def resolve_peek_def resolve_send_def resolve_receive_def
      Let_def intro: offered_prompts offered_start split: if_splits option.splits)

lemma actions_offer: "map_of sidebar_actions s = Some resolve \<Longrightarrow> resolve env i m = Some (hint, r) \<Longrightarrow> offered m r"
  by (auto simp: sidebar_actions_def resolve_offers split: if_splits)

lemma side_start: "side_change m (start_side desc job (m\<lparr>ui_prompt := p\<rparr>))" "side_change m (start_side desc job m)"
  using act [where m = m and p = p] act [where m = m and p = "ui_prompt m"] by (simp_all add: start_side_def say_def)

lemma side_offered: "offered m r \<Longrightarrow> side_change m r"
  by (auto elim!: offered.cases intro: prompt side_start(2))

lemma record_commute: "m\<lparr>ui_filtering := b, ui_windows := ws\<rparr> = m\<lparr>ui_windows := ws, ui_filtering := b\<rparr>"
  by simp

lemma side_window:
  "ow_kind (f (ui_windows m ! i)) = ow_kind (ui_windows m ! i) \<Longrightarrow> side_change m (change_window i f m, [])"
  "ow_kind (f (ui_windows m ! i)) = ow_kind (ui_windows m ! i) \<Longrightarrow> side_change m (change_window i f (m\<lparr>ui_filtering := b\<rparr>), [])"
proof -
  assume k: "ow_kind (f (ui_windows m ! i)) = ow_kind (ui_windows m ! i)"
  have w: "map ow_kind ((ui_windows m)[i := f (ui_windows m ! i)]) = map ow_kind (ui_windows m)"
    using k by (metis list_update_id map_update)
  show "side_change m (change_window i f m, [])"
    using windows [OF w, where b = "ui_filtering m"] by (simp add: change_window_def)
  show "side_change m (change_window i f (m\<lparr>ui_filtering := b\<rparr>), [])"
    using windows [OF w, where b = b] by (simp add: change_window_def record_commute)
qed

lemma window_kinds [simp]:
  "ow_kind (move_sel srt d w) = ow_kind w" "ow_kind (cycle_sort w) = ow_kind w" "ow_kind (toggle_tree srt w) = ow_kind w"
  "ow_kind (set_filter x w) = ow_kind w" "ow_kind (store_objects srt r w) = ow_kind w"
  by (simp_all add: move_sel_def cycle_sort_def toggle_tree_def set_filter_def store_objects_def Let_def)

lemma toggle_window_change: "toggle_window i m = change_window i (\<lambda>w. w\<lparr>ow_collapsed := \<not> ow_collapsed w\<rparr>) m"
  by (simp add: toggle_window_def change_window_def)

lemma pane_change: "side_change m (handle_key_pane env k m)"
proof -
  have keep: "side_change m (switch_metadata env fmt name m, [])" for fmt name
    using metadata [where m = m and fmt = fmt] same by (simp add: switch_metadata_def tui_text_defs)
  have filter_on: "side_change m (m\<lparr>ui_filtering := True\<rparr>, [])"
    using windows [where ws = "ui_windows m" and m = m and b = True] by simp
  have resolved: "side_change m (case map_of sidebar_actions s of
      Some resolve \<Rightarrow> (case resolve env i m of Some (hint, r) \<Rightarrow> r | None \<Rightarrow> (m, [])) | None \<Rightarrow> (m, []))" for s i
    using actions_offer [of s _ env i m] by (auto intro: same side_offered split: option.split prod.split)
  show ?thesis
    unfolding handle_key_pane_def Let_def toggle_window_change
    by (simp add: same leave enter_name side_window cycle reload keep filter_on resolved split: key.split)
qed

lemma filter_change: "side_change m (handle_key_filter k m)"
proof -
  have off: "side_change m (m\<lparr>ui_filtering := False\<rparr>, [])"
    using windows [where ws = "ui_windows m" and m = m and b = False] by simp
  show ?thesis
    unfolding handle_key_filter_def Let_def using off
    by (auto intro: same side_window split: key.split)
qed

inductive confirmed :: "ai_tui \<Rightarrow> handled \<Rightarrow> bool" where
  confirmed_prompt: "confirmed m (m\<lparr>ui_prompt := p\<rparr>, [])"
| confirmed_start: "confirmed m (start_side desc job (m\<lparr>ui_prompt := p\<rparr>))"

lemma confirmed_intros: "confirmed m (m, [])" "confirmed m (close_prompt m, [])" "confirmed m (start_side desc job (close_prompt m))"
  "confirmed m (edit_prompt f m, [])"
  using confirmed_prompt [of m "ui_prompt m"] confirmed_prompt confirmed_start by (simp_all add: close_prompt_def edit_prompt_def)

lemma prompt_enter_confirmed: "confirmed m (prompt_enter env w m)"
  unfolding prompt_enter_def Let_def
  by (simp add: confirmed_intros split: prompt_kind.split option.split)

lemma prompt_confirmed: "confirmed m (handle_key_prompt env k m)"
  unfolding handle_key_prompt_def Let_def
  by (simp add: confirmed_intros prompt_enter_confirmed split: key.split)

lemma prompt_change: "side_change m (handle_key_prompt env k m)"
  using prompt_confirmed [of m env k] by cases (simp_all add: prompt side_start(1))

section \<open>Commands\<close>

text \<open>The commands that a handler starts, in the foreground or as a process.\<close>

fun command_of :: "effect \<Rightarrow> string list" where
  "command_of (Start (ExecTask c)) = [c]"
| "command_of (Start (ProcTask i c)) = [c]"
| "command_of e = []"

definition commands_started :: "effect list \<Rightarrow> string list" where
  "commands_started es = concat (map command_of es)"

text \<open>The flag of the proposal that is shown is the one of the command.\<close>

definition proposal_ok :: "ai_tui \<Rightarrow> bool" where
  "proposal_ok m \<longleftrightarrow>
     (ui_state m = Proposing \<or> ui_state m = Editing \<longrightarrow> ui_destructive m = any_command (ui_proposed m) is_destructive)"

inductive tui_step :: "tui_env \<Rightarrow> ai_tui \<Rightarrow> ai_tui \<Rightarrow> bool" for env where
  "tui_step env m (fst (update env now mg m))"

lemma commands_started_simps [simp]:
  "commands_started [] = []" "commands_started (e # es) = command_of e @ commands_started es"
  "commands_started (map Call cs) = []" "commands_started (cancels ps) = []" "commands_started (cancel_task m) = []"
  by (auto simp: commands_started_def cancels_def cancel_task_def split: option.split)

lemma process_pane_frame [tui_frame]:
  "ui_state (fst (handle_key_process_pane k m)) = ui_state m"
  "commands_started (snd (handle_key_process_pane k m)) = []"
  by (simp_all add: handle_key_process_pane_def Let_def tui_frame)

lemma side_change_frame:
  assumes "side_change m r"
  shows "ui_state (fst r) = ui_state m \<or> ui_state (fst r) = Executing"
    "ui_proposed (fst r) = ui_proposed m" "ui_destructive (fst r) = ui_destructive m" "commands_started (snd r) = []"
  using assms by (cases; simp add: tui_frame)+

lemma side_change_quiet [tui_frame]:
  "commands_started (snd (handle_key_pane env k m)) = []" "commands_started (snd (handle_key_filter k m)) = []"
  "commands_started (snd (handle_key_prompt env k m)) = []"
  using pane_change filter_change prompt_change side_change_frame(4) by blast+

lemma run_command_parts:
  "commands_started (snd (run_command c m)) = [c]"
  "ui_state (fst (run_command c m)) = (if command_has_for c then Idle else Executing)"
  by (simp_all add: run_command_def start_background_process_def start_execution_def Let_def tui_frame tui_text_defs)

lemma run_command_out:
  "ui_out (fst (run_command c m)) =
    ui_out m @ (if command_has_for c then paragraph_of DimText (hook_glyph @ '' started background process: '' @ process_name c) else [])"
  by (simp add: run_command_def start_background_process_def start_execution_def Let_def tui_frame tui_text_defs)

lemma connected_frame [tui_frame]:
  "ui_state (fst (connected r m)) = ui_state m" "ui_proposed (fst (connected r m)) = ui_proposed m"
  "ui_destructive (fst (connected r m)) = ui_destructive m" "commands_started (snd (connected r m)) = []"
  "ui_state (fst (refreshed q m)) = ui_state m" "ui_proposed (fst (refreshed q m)) = ui_proposed m"
  "ui_destructive (fst (refreshed q m)) = ui_destructive m" "commands_started (snd (refreshed q m)) = []"
  by (simp_all add: connected_def refreshed_def tui_text_defs split: prod.split)

lemma slash_parts:
  "commands_started (snd (handle_slash env now input m)) = []"
  "ui_state (fst (handle_slash env now input m)) = ui_state m \<or> ui_state (fst (handle_slash env now input m)) = Picking"
  unfolding handle_slash_def Let_def
  by (simp_all add: Let_def quit_def switch_model_def choose_effort_def apply_effort_def pick_def tui_frame tui_text_defs split: prod.split)

lemma proc_done_frame [tui_frame]:
  "ui_state (fst (handle_proc_done now i err m)) = ui_state m"
  "ui_proposed (fst (handle_proc_done now i err m)) = ui_proposed m"
  "ui_destructive (fst (handle_proc_done now i err m)) = ui_destructive m"
  "commands_started (snd (handle_proc_done now i err m)) = []"
  by (simp_all add: handle_proc_done_def Let_def tui_frame split: option.split)

lemma idle_parts:
  assumes "ui_state m = Idle"
  shows "ui_state (fst (handle_key_idle env now k m)) \<notin> {Proposing, Editing}"
    and "commands_started (snd (handle_key_idle env now k m)) =
      (if k = KeyEnter \<and> ui_focus m = 0 \<and> ui_mode m = ModeCmd \<and> trim_space (ui_input m) \<noteq> [] \<and>
          \<not> has_prefix (trim_space (ui_input m)) ''/'' \<and> command_well_formed (trim_space (ui_input m)) \<and>
          trim_space (ui_input m) \<noteq> ''exit'' \<and> trim_space (ui_input m) \<noteq> ''quit''
       then [trim_space (ui_input m)] else [])"
proof -
  have slash: "ui_state (fst (handle_slash env now input (m\<lparr>ui_input := [], ui_hist_idx := - 1\<rparr>))) \<notin> {Proposing, Editing}" for input
    using slash_parts(2) [of env now input "m\<lparr>ui_input := [], ui_hist_idx := - 1\<rparr>"] assms by auto
  have side: "ui_state (fst (handle_key_filter k m)) \<notin> {Proposing, Editing}" "ui_state (fst (handle_key_pane env k m)) \<notin> {Proposing, Editing}" for k
    using side_change_frame(1) [OF filter_change, of k m] side_change_frame(1) [OF pane_change, of env k m] assms by auto
  show "ui_state (fst (handle_key_idle env now k m)) \<notin> {Proposing, Editing}"
    unfolding handle_key_idle_def enter_prompt_def Let_def
    using slash side assms
    by (simp add: tui_frame run_command_parts quit_def start_ai_request_def tui_text_defs split: input_mode.split prod.split)
  show "commands_started (snd (handle_key_idle env now k m)) =
      (if k = KeyEnter \<and> ui_focus m = 0 \<and> ui_mode m = ModeCmd \<and> trim_space (ui_input m) \<noteq> [] \<and>
          \<not> has_prefix (trim_space (ui_input m)) ''/'' \<and> command_well_formed (trim_space (ui_input m)) \<and>
          trim_space (ui_input m) \<noteq> ''exit'' \<and> trim_space (ui_input m) \<noteq> ''quit''
       then [trim_space (ui_input m)] else [])"
    unfolding handle_key_idle_def enter_prompt_def Let_def
    by (simp add: tui_frame run_command_parts slash_parts quit_def start_ai_request_def tui_text_defs split: input_mode.split prod.split)
qed

lemma proposal_ok_simps:
  "ui_state m \<notin> {Proposing, Editing} \<Longrightarrow> proposal_ok m"
  "ui_destructive m = any_command (ui_proposed m) is_destructive \<Longrightarrow> proposal_ok m"
  "ui_state m' = ui_state m \<Longrightarrow> ui_proposed m' = ui_proposed m \<Longrightarrow> ui_destructive m' = ui_destructive m \<Longrightarrow>
    proposal_ok m' = proposal_ok m"
  by (auto simp: proposal_ok_def)

lemma run_command_ok: "proposal_ok (fst (run_command c m))"
  by (rule proposal_ok_simps) (simp add: run_command_parts)

lemma prompted_ok: "proposal_ok m \<Longrightarrow> proposal_ok (fst (handle_key_prompt env k m))"
  using side_change_frame(1-3) [OF prompt_change, of env k m] by (auto simp: proposal_ok_def)

lemma free_key: "\<not> sp_active (ui_prompt m) \<Longrightarrow> handle_key env now k m =
    (case ui_state m of
        Idle \<Rightarrow> handle_key_idle env now k m
      | Thinking \<Rightarrow> handle_key_thinking k m
      | Proposing \<Rightarrow> handle_key_proposing k m
      | Editing \<Rightarrow> handle_key_editing env k m
      | Executing \<Rightarrow> handle_key_executing k m
      | Picking \<Rightarrow> handle_key_picking env k m)"
  by (simp add: handle_key_def)

lemma prompted_key: "sp_active (ui_prompt m) \<Longrightarrow> handle_key env now k m = handle_key_prompt env k m"
  by (simp add: handle_key_def)

lemma key_ok:
  assumes "proposal_ok m"
  shows "proposal_ok (fst (handle_key env now k m))"
proof (cases "sp_active (ui_prompt m)")
  case True
  then show ?thesis using prompted_ok [OF assms] by (simp add: prompted_key)
next
  case free: False
  show ?thesis
  proof (cases "ui_state m")
    case Idle
    then show ?thesis
      using idle_parts(1) [OF Idle] by (auto simp: free_key [OF free] intro: proposal_ok_simps)
  next
    case Thinking
    then show ?thesis
      by (intro proposal_ok_simps) (simp add: free_key [OF free] handle_key_thinking_def drop_last_user_eq tui_text_defs)
  next
    case Proposing
    then show ?thesis
      using assms unfolding free_key [OF free] handle_key_proposing_def Let_def
      by (simp add: run_command_parts proposal_ok_def tui_text_defs)
  next
    case Editing
    then show ?thesis
      using assms unfolding free_key [OF free] handle_key_editing_def Let_def
      by (simp add: run_command_parts proposal_ok_def tui_text_defs)
  next
    case Executing
    then show ?thesis
      by (intro proposal_ok_simps) (simp add: free_key [OF free] handle_key_executing_def)
  next
    case Picking
    then show ?thesis
      by (intro proposal_ok_simps(1)) (simp add: free_key [OF free] handle_key_picking_def split: option.split)
  qed
qed

lemma ai_replied_state: "ui_state (ai_replied shown c m) = Idle"
  by (simp add: ai_replied_def tui_text_defs)

lemma ai_done_ok: "proposal_ok m \<Longrightarrow> proposal_ok (handle_ai_done env r m)"
  unfolding handle_ai_done_def Let_def
  by (auto simp: proposal_ok_def ai_replied_state drop_last_user_eq tui_text_defs split: prod.splits option.splits)

lemma update_ok: "proposal_ok m \<Longrightarrow> proposal_ok (fst (update env now mg m))"
proof (cases mg)
  case (ExecDone err stdout stderr)
  then show "proposal_ok (fst (update env now mg m))"
    by (intro proposal_ok_simps(1))
      (simp add: update_def handle_exec_done_def start_ai_request_def Let_def tui_text_defs)
next
  case (SideAction loads action copied err)
  then show "proposal_ok (fst (update env now mg m))"
    by (intro proposal_ok_simps(1)) (simp add: update_def handle_side_action_def Let_def)
next
  case (ModelsDone r)
  assume ok: "proposal_ok m"
  show "proposal_ok (fst (update env now mg m))"
  proof (cases r)
    case (Inl e)
    then show ?thesis using ok ModelsDone by (simp add: update_def handle_models_done_def proposal_ok_def tui_text_defs)
  next
    case (Inr models)
    then show ?thesis using ok ModelsDone
      by (cases models) (simp_all add: update_def handle_models_done_def proposal_ok_def pick_def tui_text_defs)
  qed
next
  case (ProcCancel i)
  assume "proposal_ok m"
  with ProcCancel show "proposal_ok (fst (update env now mg m))"
    by (simp add: update_def handle_proc_cancel_def proposal_ok_def)
next
  case (KeyMsg k)
  assume "proposal_ok m"
  with KeyMsg show "proposal_ok (fst (update env now mg m))" by (simp add: update_def key_ok)
next
  case (AIDone answer usage err)
  assume "proposal_ok m"
  with AIDone show "proposal_ok (fst (update env now mg m))" by (simp add: update_def ai_done_ok)
qed (simp_all add: update_def proposal_ok_def tui_frame)

lemma reachable_ok: "(tui_step env)\<^sup>*\<^sup>* (new_tui spec commands asks period enabled fmt) m \<Longrightarrow> proposal_ok m"
proof (induction rule: rtranclp_induct)
  case base
  show ?case by (simp add: proposal_ok_def new_tui_def)
next
  case (step m m')
  then show ?case by (auto elim: tui_step.cases intro: update_ok)
qed

lemma quiet_messages:
  "\<nexists>k. mg = KeyMsg k \<Longrightarrow> commands_started (snd (update env now mg m)) = []"
  by (cases mg)
    (simp_all add: update_def handle_exec_done_def start_ai_request_def handle_side_action_def handle_proc_cancel_def tui_frame Let_def)

definition destructive_warning :: span where
  "destructive_warning = (WarnText, ''  '' @ warn_glyph @ '' destructive '' @ dash_glyph @ '' review carefully'')"

lemma warning_shown:
  "destructive_warning \<in> set (freeze_proposal c check_glyph False d) \<longleftrightarrow> d"
  "destructive_warning \<notin> set (paragraph_of DimText t)"
  by (auto simp: destructive_warning_def freeze_proposal_def paragraph_of_def check_glyph_def cross_glyph_def)

lemma accepted_out:
  "\<exists>xs. ui_out (fst (run_command c (m\<lparr>ui_out := ui_out m @ freeze_proposal c check_glyph False d\<rparr>))) = ui_out m @ xs \<and>
    (destructive_warning \<in> set xs \<longleftrightarrow> d)"
  unfolding run_command_out by (auto simp: warning_shown)

lemma command_keys:
  assumes "proposal_ok m" and "c \<in> set (commands_started (snd (handle_key env now k m)))"
  shows "k = KeyEnter \<and> commands_started (snd (handle_key env now k m)) = [c] \<and>
    (ui_state m = Proposing \<and> c = ui_proposed m \<and> ui_destructive m = any_command c is_destructive \<or>
     ui_state m = Editing \<and> c = trim_space (ui_input m) \<and> c \<noteq> [] \<or>
     ui_state m = Idle \<and> ui_focus m = 0 \<and> ui_mode m = ModeCmd \<and> c = trim_space (ui_input m) \<and> c \<noteq> [] \<and> command_well_formed c) \<and>
    (ui_state m \<noteq> Idle \<longrightarrow>
       (\<exists>xs. ui_out (fst (handle_key env now k m)) = ui_out m @ xs \<and> (destructive_warning \<in> set xs \<longleftrightarrow> any_command c is_destructive)))"
proof (cases "sp_active (ui_prompt m)")
  case True
  then show ?thesis using assms(2) by (simp add: prompted_key tui_frame)
next
  case free: False
  note free_key = free_key [OF free]
  show ?thesis
  proof (cases "ui_state m")
    case Idle
    then show ?thesis using assms(2) by (auto simp: free_key idle_parts(2) split: if_splits)
  next
    case Proposing
    then have "k = KeyEnter" "c = ui_proposed m"
      using assms(2) unfolding free_key handle_key_proposing_def Let_def
      by (auto simp: run_command_parts split: if_splits)
    then show ?thesis
      using Proposing assms(1) accepted_out [of "ui_proposed m" m "ui_destructive m"]
      by (simp add: free_key handle_key_proposing_def Let_def run_command_parts proposal_ok_def say_def)
  next
    case Editing
    then have *: "k = KeyEnter" "c = trim_space (ui_input m)" "c \<noteq> []"
      using assms(2) unfolding free_key handle_key_editing_def Let_def
      by (auto simp: run_command_parts split: if_splits)
    have "\<exists>xs. ui_out (fst (handle_key env now k m)) = ui_out m @ xs \<and> (destructive_warning \<in> set xs \<longleftrightarrow> any_command c is_destructive)"
      using Editing * by (auto simp: free_key handle_key_editing_def Let_def say_def run_command_out warning_shown)
    then show ?thesis
      using Editing * by (simp add: free_key handle_key_editing_def Let_def run_command_parts)
  qed (use assms(2) in \<open>auto simp: free_key handle_key_thinking_def handle_key_executing_def handle_key_picking_def
      split: if_splits option.splits\<close>)
qed

lemma update_key: "update env now (KeyMsg k) m = handle_key env now k m"
  by (simp add: update_def)


text \<open>A broker with a window of queues; \<open>sort.Slice\<close> sorts a few elements by insertion.\<close>

fun insert_by :: "('a \<Rightarrow> 'a \<Rightarrow> bool) \<Rightarrow> 'a \<Rightarrow> 'a list \<Rightarrow> 'a list" where
  "insert_by lt x [] = [x]"
| "insert_by lt x (y # ys) = (if lt x y then x # y # ys else y # insert_by lt x ys)"

definition insertion_sort :: "('a \<Rightarrow> 'a \<Rightarrow> bool) \<Rightarrow> 'a list \<Rightarrow> 'a list" where
  "insertion_sort lt xs = foldl (\<lambda>ys x. insert_by lt x ys) [] xs"

definition sample_manage :: manage_spec where
  "sample_manage =
     \<lparr>mg_objects = [\<lparr>ot_label = ''Queues'', ot_hierarchical = False\<rparr>], mg_ops = [CreateQueue, DeleteQueue], mg_purge = True,
      mg_purge_subscription = False\<rparr>"

definition sample_tui :: tui_env where
  "sample_tui =
     \<lparr>te_bin = ''rmc'', te_verbs = [''manage purge'', ''peek''], te_provider = ''openai'', te_ping = True,
      te_durations = \<lparr>dt_float = (\<lambda>s. None), dt_parse = (\<lambda>s. None), dt_seconds = (\<lambda>d. [])\<rparr>,
      te_save = (\<lambda>k v. None), te_edit = (\<lambda>k s. case k of KeyRunes t \<Rightarrow> s @ t | _ \<Rightarrow> s),
      te_complete = (\<lambda>s. (s, [])), te_sort = insertion_sort, te_manage = Some sample_manage\<rparr>"

abbreviation sample_start :: ai_tui where
  "sample_start \<equiv> new_tui (Some sample_manage) [] [] 0 False MetadataYAML"

definition proposed_tui :: ai_tui where
  "proposed_tui = fst (update sample_tui 0 (AIDone ''manage purge q'' no_usage None) sample_start)"

lemma proposed_tui_state:
  "ui_state proposed_tui = Proposing \<and> ui_proposed proposed_tui = ''manage purge q'' \<and> \<not> sp_active (ui_prompt proposed_tui)"
  by code_simp

lemma tui_run: "(tui_step env)\<^sup>*\<^sup>* a m \<Longrightarrow> (tui_step env)\<^sup>*\<^sup>* a (fst (update env now mg m))"
  by (erule rtranclp.rtrancl_into_rtrancl) (rule tui_step.intros)

lemma proposed_tui_reachable: "(tui_step sample_tui)\<^sup>*\<^sup>* sample_start proposed_tui"
  unfolding proposed_tui_def by (rule tui_run) simp

lemma proposed_tui_accepted:
  "commands_started (snd (update sample_tui 0 (KeyMsg KeyEnter) proposed_tui)) = [''manage purge q'']"
  using proposed_tui_state by (simp add: update_def handle_key_def handle_key_proposing_def run_command_parts Let_def)


section \<open>Requests\<close>

text \<open>The conversations that a handler sends to the provider.\<close>

fun request_of :: "effect \<Rightarrow> ai_message list list" where
  "request_of (Start (AskTask h)) = [h]"
| "request_of e = []"

definition requests_started :: "effect list \<Rightarrow> ai_message list list" where
  "requests_started es = concat (map request_of es)"

lemma requests_started_simps [simp]:
  "requests_started [] = []" "requests_started (e # es) = request_of e @ requests_started es"
  "requests_started (map Call cs) = []" "requests_started (cancels ps) = []" "requests_started (cancel_task m) = []"
  by (auto simp: requests_started_def cancels_def cancel_task_def split: option.split)

text \<open>A conversation that a provider accepts: it begins and ends with the user, and is short.\<close>

definition fit_request :: "ai_message list \<Rightarrow> bool" where
  "fit_request h \<longleftrightarrow>
     h \<noteq> [] \<and> am_role (hd h) = ''user'' \<and> am_role (last h) = ''user'' \<and> length h \<le> max_history"

lemma leading_user_parts:
  "\<exists>pre. h = pre @ leading_user_history h"
  "leading_user_history h \<noteq> [] \<Longrightarrow> am_role (hd (leading_user_history h)) = ''user''"
  "h \<noteq> [] \<Longrightarrow> am_role (last h) = ''user'' \<Longrightarrow> leading_user_history h \<noteq> []"
proof -
  show "\<exists>pre. h = pre @ leading_user_history h"
  proof (induction h)
    case (Cons a h)
    then show ?case by (auto intro: exI [of _ "[]"]) (metis append_Cons)
  qed simp
  show "leading_user_history h \<noteq> [] \<Longrightarrow> am_role (hd (leading_user_history h)) = ''user''"
    by (induction h) auto
  show "h \<noteq> [] \<Longrightarrow> am_role (last h) = ''user'' \<Longrightarrow> leading_user_history h \<noteq> []"
    by (induction h) (auto split: if_splits)
qed

lemma leading_user_last:
  assumes "h \<noteq> []" and "am_role (last h) = ''user''"
  shows "last (leading_user_history h) = last h"
  using leading_user_parts(1) [of h] leading_user_parts(3) [OF assms] by (metis last_appendR)

lemma leading_user_length: "length (leading_user_history h) \<le> length h"
  using leading_user_parts(1) [of h] by (metis length_append le_add2)

lemma trim_history_length: "length (trim_history h k) \<le> k"
  using leading_user_length [of "drop (length h - k) h"] by (auto simp: trim_history_def)

lemma trim_history_last:
  assumes "h \<noteq> []" and "am_role (last h) = ''user''" and "0 < k"
  shows "trim_history h k \<noteq> [] \<and> last (trim_history h k) = last h"
proof (cases "length h \<le> k")
  case False
  then have d: "drop (length h - k) h \<noteq> []" "last (drop (length h - k) h) = last h"
    using assms by simp_all
  with assms show ?thesis
    using False leading_user_parts(3) [of "drop (length h - k) h"] leading_user_last [of "drop (length h - k) h"]
    by (simp add: trim_history_def)
qed (use assms in \<open>simp add: trim_history_def\<close>)

text \<open>What is sent after the user's turn was remembered and the conversation trimmed.\<close>

lemma remembered_fit:
  "fit_request (leading_user_history (trim_history (h @ [\<lparr>am_role = ''user'', am_content = c\<rparr>]) max_history))"
proof -
  let ?t = "trim_history (h @ [\<lparr>am_role = ''user'', am_content = c\<rparr>]) max_history"
  have t: "?t \<noteq> []" "am_role (last ?t) = ''user''"
    using trim_history_last [of "h @ [\<lparr>am_role = ''user'', am_content = c\<rparr>]" max_history]
    by (simp_all add: max_history_def)
  show ?thesis
    unfolding fit_request_def
    using leading_user_parts(2,3) [of ?t] leading_user_last [OF t] t leading_user_length [of ?t]
      trim_history_length [of "h @ [\<lparr>am_role = ''user'', am_content = c\<rparr>]" max_history] by simp
qed

lemma remembered_last:
  "last (leading_user_history (trim_history (h @ [\<lparr>am_role = ''user'', am_content = c\<rparr>]) max_history)) =
    \<lparr>am_role = ''user'', am_content = c\<rparr>"
  using trim_history_last [of "h @ [\<lparr>am_role = ''user'', am_content = c\<rparr>]" max_history]
  by (simp add: leading_user_last max_history_def)

lemma side_change_requests: "side_change m r \<Longrightarrow> requests_started (snd r) = []"
  by (auto elim: side_change.cases)

lemma handlers_request [simp]:
  "requests_started (snd (handle_key_process_pane k m)) = []" "requests_started (snd (handle_key_pane env k m)) = []"
  "requests_started (snd (handle_key_filter k m)) = []" "requests_started (snd (handle_key_prompt env k m)) = []"
  "requests_started (snd (run_command c m)) = []" "requests_started (snd (connected r m)) = []"
  "requests_started (snd (refreshed q m)) = []" "requests_started (snd (handle_slash env now input m)) = []"
  "requests_started (snd (handle_proc_done now i err m)) = []" "requests_started (snd (handle_key_thinking k m)) = []"
  "requests_started (snd (handle_key_picking env k m)) = []" "requests_started (snd (handle_key_executing k m)) = []"
  "requests_started (snd (handle_key_proposing k m)) = []" "requests_started (snd (handle_key_editing env k m)) = []"
proof -
  show "requests_started (snd (handle_proc_done now i err m)) = []"
    by (simp add: handle_proc_done_def refreshed_def Let_def split: option.split)
  show "requests_started (snd (handle_slash env now input m)) = []"
    unfolding handle_slash_def Let_def by (simp add: connected_def quit_def split: prod.split)
  show run: "requests_started (snd (run_command c m)) = []" for c m
    by (simp add: run_command_def start_background_process_def start_execution_def Let_def)
  show "requests_started (snd (handle_key_proposing k m)) = []" "requests_started (snd (handle_key_editing env k m)) = []"
    by (simp_all add: handle_key_proposing_def handle_key_editing_def run Let_def)
qed (simp_all add: side_change_requests [OF pane_change] side_change_requests [OF filter_change] side_change_requests [OF prompt_change]
    handle_key_process_pane_def connected_def refreshed_def handle_key_thinking_def
    handle_key_picking_def handle_key_executing_def Let_def split: prod.split option.split)

lemma enter_prompt_request:
  assumes "h \<in> set (requests_started (snd (enter_prompt env now m)))"
  shows "fit_request h \<and> h = leading_user_history (ui_history (fst (enter_prompt env now m))) \<and>
    last h = \<lparr>am_role = ''user'', am_content = trim_space (ui_input m)\<rparr>"
  using assms unfolding enter_prompt_def Let_def
  by (auto simp: quit_def start_ai_request_def tui_text_defs remembered_fit remembered_last split: if_splits)

lemma exec_done_request:
  assumes "h \<in> set (requests_started (snd (handle_exec_done err stdout stderr m)))"
  shows "fit_request h \<and> h = leading_user_history (ui_history (fst (handle_exec_done err stdout stderr m))) \<and>
    last h = \<lparr>am_role = ''user'', am_content = build_feedback err stdout stderr\<rparr> \<and> err \<noteq> None \<and> ui_mode m = ModeAI \<and>
    ui_fix m < max_fix_attempts \<and> ui_fix (fst (handle_exec_done err stdout stderr m)) = ui_fix m + 1"
  using assms unfolding handle_exec_done_def Let_def
  by (auto simp: start_ai_request_def tui_text_defs remembered_fit remembered_last split: if_splits)



end
