(* ===== verification/Ai_Processes.thy ===== *)
theory Ai_Processes
  imports Ai_System
begin

text \<open>
  The windows, selections and histories of the AI shell as indices that stay in range
  (src/cmd/aiproc.go, aikeys.go).
\<close>

section \<open>Indices\<close>

definition windows_ok :: "ai_tui \<Rightarrow> bool" where
  "windows_ok m \<longleftrightarrow>
     (if ui_procs m = [] then ui_proc_win m = -1 \<and> (\<forall>w \<in> set (ui_windows m). ow_kind w = ObjectWindow)
      else (\<exists>ws w. ui_windows m = ws @ [w] \<and> ow_kind w = ProcWindow \<and> (\<forall>w \<in> set ws. ow_kind w = ObjectWindow) \<and>
              ui_proc_win m = int (length ws)) \<and> ui_proc_sel m < int (length (ui_procs m))) \<and>
     0 \<le> ui_proc_sel m \<and> ui_focus m \<le> length (ui_windows m)"

definition histories_ok :: "ai_tui \<Rightarrow> bool" where
  "histories_ok m \<longleftrightarrow>
     -1 \<le> ui_hist_idx m \<and> ui_hist_idx m < int (length (active_history m)) \<and>
     (ui_in_view m \<longrightarrow>
        int (ui_focus m) = ui_proc_win m + 1 \<and> 0 \<le> ui_proc_win m \<and> ui_saved_mode m = ui_mode m \<and>
        -1 \<le> ui_saved_hist m \<and> ui_saved_hist m < int (length (active_history m)))"

definition picker_ok :: "ai_tui \<Rightarrow> bool" where
  "picker_ok m \<longleftrightarrow> (case ui_picker m of Some p \<Rightarrow> pk_sel p < length (pk_items p) | None \<Rightarrow> True)"

definition tui_ok :: "ai_tui \<Rightarrow> bool" where
  "tui_ok m \<longleftrightarrow> windows_ok m \<and> histories_ok m \<and> picker_ok m"

lemma active_history_frame [simp]:
  "active_history (m\<lparr>ui_state := x_state\<rparr>) = active_history m" "active_history (m\<lparr>ui_input := x_input\<rparr>) = active_history m"
  "active_history (m\<lparr>ui_history := x_history\<rparr>) = active_history m" "active_history (m\<lparr>ui_proposed := x_proposed\<rparr>) = active_history m"
  "active_history (m\<lparr>ui_destructive := x_destructive\<rparr>) = active_history m" "active_history (m\<lparr>ui_cancel := x_cancel\<rparr>) = active_history m"
  "active_history (m\<lparr>ui_fix := x_fix\<rparr>) = active_history m" "active_history (m\<lparr>ui_turn := x_turn\<rparr>) = active_history m"
  "active_history (m\<lparr>ui_total := x_total\<rparr>) = active_history m" "active_history (m\<lparr>ui_model := x_model\<rparr>) = active_history m"
  "active_history (m\<lparr>ui_effort := x_effort\<rparr>) = active_history m" "active_history (m\<lparr>ui_stream := x_stream\<rparr>) = active_history m"
  "active_history (m\<lparr>ui_out := x_out\<rparr>) = active_history m" "active_history (m\<lparr>ui_copy := x_copy\<rparr>) = active_history m"
  "active_history (m\<lparr>ui_hist_idx := x_hist_idx\<rparr>) = active_history m" "active_history (m\<lparr>ui_hist_draft := x_hist_draft\<rparr>) = active_history m"
  "active_history (m\<lparr>ui_focus := x_focus\<rparr>) = active_history m" "active_history (m\<lparr>ui_windows := x_windows\<rparr>) = active_history m"
  "active_history (m\<lparr>ui_proc_win := x_proc_win\<rparr>) = active_history m" "active_history (m\<lparr>ui_procs := x_procs\<rparr>) = active_history m"
  "active_history (m\<lparr>ui_proc_next := x_proc_next\<rparr>) = active_history m" "active_history (m\<lparr>ui_proc_sel := x_proc_sel\<rparr>) = active_history m"
  "active_history (m\<lparr>ui_saved_mode := x_saved_mode\<rparr>) = active_history m" "active_history (m\<lparr>ui_saved_input := x_saved_input\<rparr>) = active_history m"
  "active_history (m\<lparr>ui_saved_hist := x_saved_hist\<rparr>) = active_history m" "active_history (m\<lparr>ui_in_view := x_in_view\<rparr>) = active_history m"
  "active_history (m\<lparr>ui_picker := x_picker\<rparr>) = active_history m" "active_history (m\<lparr>ui_conn := x_conn\<rparr>) = active_history m"
  "active_history (m\<lparr>ui_refresh := x_refresh\<rparr>) = active_history m" "active_history (m\<lparr>ui_quitting := x_quitting\<rparr>) = active_history m"
  "active_history (m\<lparr>ui_exit_all := x_exit_all\<rparr>) = active_history m" "active_history (m\<lparr>ui_filtering := x_filtering\<rparr>) = active_history m"
  "active_history (m\<lparr>ui_metadata := x_metadata\<rparr>) = active_history m" "active_history (m\<lparr>ui_prompt := x_prompt\<rparr>) = active_history m"
  by (simp_all add: active_history_def split: input_mode.split)

lemmas tui_ok_defs = tui_ok_def windows_ok_def histories_ok_def picker_ok_def

lemma tui_ok_inert [simp]:
  "tui_ok (m\<lparr>ui_state := x_state\<rparr>) = tui_ok m" "tui_ok (m\<lparr>ui_input := x_input\<rparr>) = tui_ok m"
  "tui_ok (m\<lparr>ui_history := x_history\<rparr>) = tui_ok m" "tui_ok (m\<lparr>ui_proposed := x_proposed\<rparr>) = tui_ok m"
  "tui_ok (m\<lparr>ui_destructive := x_destructive\<rparr>) = tui_ok m" "tui_ok (m\<lparr>ui_cancel := x_cancel\<rparr>) = tui_ok m"
  "tui_ok (m\<lparr>ui_fix := x_fix\<rparr>) = tui_ok m" "tui_ok (m\<lparr>ui_turn := x_turn\<rparr>) = tui_ok m"
  "tui_ok (m\<lparr>ui_total := x_total\<rparr>) = tui_ok m" "tui_ok (m\<lparr>ui_model := x_model\<rparr>) = tui_ok m"
  "tui_ok (m\<lparr>ui_effort := x_effort\<rparr>) = tui_ok m" "tui_ok (m\<lparr>ui_stream := x_stream\<rparr>) = tui_ok m"
  "tui_ok (m\<lparr>ui_out := x_out\<rparr>) = tui_ok m" "tui_ok (m\<lparr>ui_copy := x_copy\<rparr>) = tui_ok m"
  "tui_ok (m\<lparr>ui_hist_draft := x_hist_draft\<rparr>) = tui_ok m" "tui_ok (m\<lparr>ui_proc_next := x_proc_next\<rparr>) = tui_ok m"
  "tui_ok (m\<lparr>ui_saved_input := x_saved_input\<rparr>) = tui_ok m" "tui_ok (m\<lparr>ui_conn := x_conn\<rparr>) = tui_ok m"
  "tui_ok (m\<lparr>ui_refresh := x_refresh\<rparr>) = tui_ok m" "tui_ok (m\<lparr>ui_quitting := x_quitting\<rparr>) = tui_ok m"
  "tui_ok (m\<lparr>ui_exit_all := x_exit_all\<rparr>) = tui_ok m" "tui_ok (m\<lparr>ui_filtering := x_filtering\<rparr>) = tui_ok m"
  "tui_ok (m\<lparr>ui_metadata := x_metadata\<rparr>) = tui_ok m" "tui_ok (m\<lparr>ui_prompt := x_prompt\<rparr>) = tui_ok m"
  by (simp_all add: tui_ok_defs)

lemma proc_pane_iff:
  assumes "windows_ok m"
  shows "proc_pane m \<longleftrightarrow> 0 \<le> ui_proc_win m \<and> int (ui_focus m) = ui_proc_win m + 1"
  using assms unfolding windows_ok_def proc_pane_def
  by (auto simp: nth_append split: if_splits dest: nth_mem)

lemma update_proc_prompt_ok: "tui_ok m \<Longrightarrow> tui_ok (update_proc_prompt m)"
  unfolding update_proc_prompt_def Let_def by (auto simp: tui_ok_defs)

lemma enter_process_view_ok:
  assumes "tui_ok m" and "proc_pane m"
  shows "tui_ok (enter_process_view m)"
proof -
  have "tui_ok (m\<lparr>ui_in_view := True, ui_saved_mode := ui_mode m, ui_saved_input := ui_input m, ui_saved_hist := ui_hist_idx m\<rparr>)"
    using assms proc_pane_iff [of m] by (simp add: tui_ok_defs)
  from update_proc_prompt_ok [OF this] show ?thesis
    using assms(1) by (simp add: enter_process_view_def)
qed

lemma exit_process_view_ok: "tui_ok m \<Longrightarrow> tui_ok (exit_process_view m) \<and> \<not> ui_in_view (exit_process_view m)"
  by (auto simp: exit_process_view_def tui_ok_defs)

lemma exit_process_view_frame:
  "ui_procs (exit_process_view m) = ui_procs m" "ui_windows (exit_process_view m) = ui_windows m"
  "ui_proc_win (exit_process_view m) = ui_proc_win m" "ui_focus (exit_process_view m) = ui_focus m"
  "ui_proc_sel (exit_process_view m) = ui_proc_sel m"
  by (simp_all add: exit_process_view_def)

lemma unviewed_focus_ok:
  "tui_ok m \<Longrightarrow> \<not> ui_in_view m \<Longrightarrow> f \<le> length (ui_windows m) \<Longrightarrow> tui_ok (m\<lparr>ui_focus := f\<rparr>)"
  by (simp add: tui_ok_defs)

lemma view_is_pane: "tui_ok m \<Longrightarrow> ui_in_view m \<Longrightarrow> proc_pane m"
  using proc_pane_iff [of m] by (simp add: tui_ok_def histories_ok_def)

lemma cycle_focus_ok:
  assumes "tui_ok m"
  shows "tui_ok (cycle_focus b m)"
proof (cases "length (ui_windows m) + 1 \<le> 1")
  case False
  define f where "f = (if b then (ui_focus m + 1) mod (length (ui_windows m) + 1) else (ui_focus m + (length (ui_windows m) + 1) - 1) mod (length (ui_windows m) + 1))"
  have f: "f \<le> length (ui_windows m)" unfolding f_def using mod_less_divisor [of "length (ui_windows m) + 1"] by (auto simp: less_Suc_eq_le)
  define m2 where "m2 = (if proc_pane m then exit_process_view (m\<lparr>ui_focus := f\<rparr>) else m\<lparr>ui_focus := f\<rparr>)"
  have "m2 = (if proc_pane m then exit_process_view m else m)\<lparr>ui_focus := f\<rparr>"
    by (simp add: m2_def exit_process_view_def)
  then have "tui_ok m2"
    using assms exit_process_view_ok [OF assms] view_is_pane [OF assms] f
    by (auto intro!: unviewed_focus_ok simp: exit_process_view_frame)
  moreover have "cycle_focus b m = (if proc_pane m2 then enter_process_view m2 else m2)"
    using False unfolding cycle_focus_def Let_def m2_def f_def by simp
  ultimately show ?thesis by (simp add: enter_process_view_ok)
qed (use assms in \<open>simp add: cycle_focus_def\<close>)

text \<open>The list of processes may be replaced by another one that is as empty.\<close>

lemma rebuild_ok:
  assumes "tui_ok m" and "ps \<noteq> []" and "ui_procs m \<noteq> []"
  shows "tui_ok (rebuild_process_nodes (m\<lparr>ui_procs := ps\<rparr>))"
  using assms by (auto simp: rebuild_process_nodes_def Let_def tui_ok_defs)

lemma rebuild_same_ok: "tui_ok m \<Longrightarrow> length ps = length (ui_procs m) \<Longrightarrow> tui_ok (m\<lparr>ui_procs := ps\<rparr>)"
  by (cases "ui_procs m = []") (auto simp: tui_ok_defs)

lemma no_procs: "tui_ok m \<Longrightarrow> ui_procs m = [] \<Longrightarrow> ui_proc_win m = -1 \<and> \<not> ui_in_view m"
  by (auto simp: tui_ok_defs)

lemma rebuild_id: "tui_ok m \<Longrightarrow> ui_procs m \<noteq> [] \<Longrightarrow> rebuild_process_nodes m = m"
  by (simp add: rebuild_process_nodes_def Let_def tui_ok_defs)

lemma emptied_ok:
  assumes "tui_ok m" and "ui_procs m \<noteq> []" and "0 \<le> s"
  shows "tui_ok (remove_proc_window (m\<lparr>ui_procs := [], ui_proc_sel := s\<rparr>))"
proof -
  obtain ws w where ws: "ui_windows m = ws @ [w]" "ow_kind w = ProcWindow" "\<forall>w \<in> set ws. ow_kind w = ObjectWindow"
      "ui_proc_win m = int (length ws)"
    using assms(1,2) by (auto simp: tui_ok_def windows_ok_def)
  show ?thesis
  proof (cases "int (ui_focus m) - 1 = ui_proc_win m")
    case True
    then have "remove_proc_window (m\<lparr>ui_procs := [], ui_proc_sel := s\<rparr>) =
        (exit_process_view m)\<lparr>ui_procs := [], ui_proc_sel := s, ui_focus := 0, ui_windows := ws, ui_proc_win := -1\<rparr>"
      using ws by (simp add: remove_proc_window_def Let_def exit_process_view_def)
    then show ?thesis
      using ws assms(3) exit_process_view_ok [OF assms(1)] by (simp add: tui_ok_defs)
  next
    case False
    then have "remove_proc_window (m\<lparr>ui_procs := [], ui_proc_sel := s\<rparr>) =
        m\<lparr>ui_procs := [], ui_proc_sel := s, ui_windows := ws, ui_proc_win := -1\<rparr>"
      using ws by (simp add: remove_proc_window_def Let_def)
    then show ?thesis
      using ws assms False by (auto simp: tui_ok_defs)
  qed
qed

lemma procs_left_ok:
  assumes "tui_ok m" and "ui_procs m = [] \<Longrightarrow> ps = []"
  shows "tui_ok (procs_left ps m)"
proof (cases "ps = []")
  case True
  have left: "procs_left ps m = remove_proc_window (m\<lparr>ui_procs := [], ui_proc_sel := 0\<rparr>)"
    using True by (simp add: procs_left_def rebuild_process_nodes_def Let_def)
  show ?thesis
  proof (cases "ui_procs m = []")
    case True
    with assms(1) no_procs [OF assms(1) True] show ?thesis
      unfolding left by (simp add: remove_proc_window_def tui_ok_defs)
  qed (use assms(1) emptied_ok [of m 0] in \<open>simp add: left\<close>)
next
  case False
  then show ?thesis
    using assms rebuild_ok [of m ps] by (auto simp: procs_left_def Let_def intro: update_proc_prompt_ok)
qed

text \<open>Windows may be replaced by others of the same kinds.\<close>

lemma same_kinds_windows:
  assumes "map ow_kind ws = map ow_kind (ui_windows m)" "windows_ok m"
  shows "windows_ok (m\<lparr>ui_windows := ws\<rparr>)"
proof (cases "ui_procs m = []")
  case True
  have "set (map ow_kind ws) = set (map ow_kind (ui_windows m))" by (simp only: assms(1))
  then have "(\<forall>w \<in> set ws. ow_kind w = ObjectWindow) = (\<forall>w \<in> set (ui_windows m). ow_kind w = ObjectWindow)" by auto
  with assms True map_eq_imp_length_eq [OF assms(1)] show ?thesis by (simp add: windows_ok_def)
next
  case False
  then obtain us u where us: "ui_windows m = us @ [u]" "ow_kind u = ProcWindow" "\<forall>w \<in> set us. ow_kind w = ObjectWindow"
      "ui_proc_win m = int (length us)"
    using assms(2) by (auto simp: windows_ok_def)
  from assms(1) us(1) obtain vs v where vs: "ws = vs @ [v]" "map ow_kind vs = map ow_kind us" "ow_kind v = ow_kind u"
    by (auto simp: map_eq_append_conv)
  have "set (map ow_kind vs) = set (map ow_kind us)" by (simp only: vs(2))
  then have "\<forall>w \<in> set vs. ow_kind w = ObjectWindow" using us(3) by auto
  moreover have "length vs = length us" using map_eq_imp_length_eq [OF vs(2)] by simp
  ultimately show ?thesis using assms(2) us vs False by (auto simp: windows_ok_def)
qed

lemma same_kinds_ok: "map ow_kind ws = map ow_kind (ui_windows m) \<Longrightarrow> tui_ok m \<Longrightarrow> tui_ok (m\<lparr>ui_windows := ws\<rparr>)"
  using same_kinds_windows by (simp add: tui_ok_def histories_ok_def picker_ok_def)

lemma toggle_window_ok: "tui_ok m \<Longrightarrow> tui_ok (toggle_window i m)"
  unfolding toggle_window_def
  by (rule same_kinds_ok) (metis list_update_id map_update obj_window.select_convs(1) obj_window.surjective obj_window.update_convs(10))

lemma dump_ok: "tui_ok m \<Longrightarrow> tui_ok (dump_process_output p m)"
  unfolding dump_process_output_def Let_def say_def by (simp add: rebuild_same_ok)

lemma process_pane_ok:
  assumes "tui_ok m"
  shows "tui_ok (fst (handle_key_process_pane k m))"
proof -
  have sel: "tui_ok (m\<lparr>ui_proc_sel := s\<rparr>)" if "0 \<le> s" "ui_procs m \<noteq> [] \<Longrightarrow> s < int (length (ui_procs m))" for s
    using assms that by (auto simp: tui_ok_defs)
  have range: "0 \<le> ui_proc_sel m" "ui_procs m \<noteq> [] \<Longrightarrow> ui_proc_sel m < int (length (ui_procs m))"
    using assms by (auto simp: tui_ok_defs)
  have win: "nat (ui_proc_win m) < length (ui_windows m)" if "0 \<le> ui_proc_win m"
    using assms that by (auto simp: tui_ok_def windows_ok_def split: if_splits)
  have esc: "tui_ok ((exit_process_view m)\<lparr>ui_focus := 0\<rparr>)"
    using exit_process_view_ok [OF assms] by (intro unviewed_focus_ok) simp_all
  have gone: "tui_ok (remove_proc_window (m\<lparr>ui_procs := []\<rparr>))"
  proof (cases "ui_procs m = []")
    case True
    then show ?thesis using assms no_procs [OF assms True] by (simp add: remove_proc_window_def tui_ok_defs)
  next
    case False
    then show ?thesis using emptied_ok [OF assms False, of "ui_proc_sel m"] assms by (simp add: tui_ok_def windows_ok_def)
  qed
  show ?thesis
    unfolding handle_key_process_pane_def Let_def
    using assms sel win esc gone range
    by (auto simp: procs_left_ok cycle_focus_ok dump_ok intro!: update_proc_prompt_ok toggle_window_ok)
qed

lemma say_ok [simp]: "tui_ok (say xs m) = tui_ok m" "tui_ok (tell st t m) = tui_ok m" "tui_ok (remember r c m) = tui_ok m"
  "tui_ok (trimmed m) = tui_ok m" "tui_ok (drop_last_user m) = tui_ok m" "tui_ok (add_usage u m) = tui_ok m"
  "tui_ok (ai_replied shown c m) = tui_ok m"
  by (simp_all add: tui_text_defs drop_last_user_eq add_usage_def ai_replied_def)

lemma side_change_ok:
  assumes "side_change m r" "tui_ok m" "\<not> proc_pane m \<or> ui_focus (fst r) = ui_focus m"
  shows "tui_ok (fst r)"
proof -
  have "tui_ok (m\<lparr>ui_focus := 0\<rparr>)" "tui_ok (m\<lparr>ui_input := x, ui_focus := 0\<rparr>)" if "\<not> proc_pane m \<or> ui_focus m = 0" for x
    using that assms(2) view_is_pane [OF assms(2)] by (auto intro!: unviewed_focus_ok simp: proc_pane_def)
  with assms show ?thesis
    by cases (auto simp: cycle_focus_ok same_kinds_ok)
qed

lemma pane_ok: "tui_ok m \<Longrightarrow> \<not> proc_pane m \<Longrightarrow> tui_ok (fst (handle_key_pane env k m))"
  by (rule side_change_ok [OF pane_change]) auto

lemma filter_ok: "tui_ok m \<Longrightarrow> tui_ok (fst (handle_key_filter k m))"
  by (rule side_change_ok [OF filter_change])
    (auto simp: handle_key_filter_def change_window_def Let_def split: key.split)

lemma prompt_key_ok: "tui_ok m \<Longrightarrow> tui_ok (fst (handle_key_prompt env k m))"
  using prompt_confirmed [of m env k]
  by cases (simp_all add: start_side_def)

lemma history_ok:
  assumes "tui_ok m"
  shows "tui_ok (history_prev m)" and "tui_ok (history_next m)"
proof -
  have idx: "tui_ok (m\<lparr>ui_hist_idx := i\<rparr>)" if "-1 \<le> i" "i < int (length (active_history m))" for i
    using assms that by (simp add: tui_ok_defs)
  have draft: "tui_ok (m\<lparr>ui_hist_draft := d, ui_hist_idx := i\<rparr>)" if "-1 \<le> i" "i < int (length (active_history m))" for d i
    using assms that by (simp add: tui_ok_defs)
  have range: "-1 \<le> ui_hist_idx m" "ui_hist_idx m < int (length (active_history m))"
    using assms by (simp_all add: tui_ok_defs)
  show "tui_ok (history_prev m)"
    unfolding history_prev_def Let_def using assms range draft [of "int (length (active_history m)) - 1"] idx [of "ui_hist_idx m - 1"]
    by (auto simp: Suc_le_eq)
  show "tui_ok (history_next m)"
    unfolding history_next_def Let_def using assms range idx [of "ui_hist_idx m + 1"] idx [of "-1"]
    by auto
qed

lemma toggle_mode_ok: "tui_ok m \<Longrightarrow> ui_focus m = 0 \<Longrightarrow> tui_ok (toggle_input_mode m)"
  by (auto simp: toggle_input_mode_def tui_ok_defs active_history_def split: input_mode.split)

text \<open>A new process at the end of the list, with its window.\<close>

lemma started_ok:
  assumes "tui_ok m"
  shows "tui_ok (rebuild_process_nodes (ensure_proc_window (m\<lparr>ui_proc_next := i, ui_procs := ui_procs m @ [p]\<rparr>)))"
proof (cases "ui_procs m = []")
  case True
  then have "ensure_proc_window (m\<lparr>ui_proc_next := i, ui_procs := ui_procs m @ [p]\<rparr>) =
      m\<lparr>ui_proc_next := i, ui_procs := [p], ui_windows := ui_windows m @ [empty_window ProcWindow ''Processes''],
        ui_proc_win := int (length (ui_windows m))\<rparr>"
    using no_procs [OF assms True] by (simp add: ensure_proc_window_def)
  then show ?thesis
    using assms True no_procs [OF assms True] by (simp add: rebuild_process_nodes_def Let_def tui_ok_defs empty_window_def)
next
  case False
  then have "ensure_proc_window (m\<lparr>ui_proc_next := i, ui_procs := ui_procs m @ [p]\<rparr>) = m\<lparr>ui_proc_next := i, ui_procs := ui_procs m @ [p]\<rparr>"
    using assms by (auto simp: ensure_proc_window_def tui_ok_def windows_ok_def)
  then show ?thesis
    using rebuild_ok [of "m\<lparr>ui_proc_next := i\<rparr>" "ui_procs m @ [p]"] assms False by simp
qed

lemma run_command_tui_ok: "tui_ok m \<Longrightarrow> tui_ok (fst (run_command c m))"
  by (simp add: run_command_def start_background_process_def start_execution_def Let_def started_ok)

lemma slash_ok:
  assumes "tui_ok m"
  shows "tui_ok (fst (handle_slash env now input m))"
proof -
  have pick: "tui_ok (pick p m)" if "pk_sel p < length (pk_items p)" for p
    using assms that by (simp add: pick_def tui_ok_defs)
  have idx: "index_of x effort_levels < length effort_levels" for x by (simp add: index_of_def effort_levels_def)
  have effort: "(case ui_effort m of Some e \<Rightarrow> index_of e effort_levels | None \<Rightarrow> 0) < length effort_levels"
    using idx by (simp add: effort_levels_def split: option.split)
  show ?thesis
    unfolding handle_slash_def Let_def using assms pick effort
    by (simp add: quit_def switch_model_def choose_effort_def apply_effort_def connected_def Let_def split: prod.split)
qed

lemma prompt_ok:
  assumes "tui_ok m" and "ui_focus m = 0"
  shows "tui_ok (fst (enter_prompt env now m))"
proof -
  have view: "\<not> ui_in_view m" using assms by (auto simp: tui_ok_defs)
  have ask: "tui_ok (m\<lparr>ui_input := x, ui_hist_idx := -1, ui_ask_hist := ui_ask_hist m @ [y]\<rparr>)"
    and cmd: "tui_ok (m\<lparr>ui_input := x, ui_hist_idx := -1, ui_cmd_hist := ui_cmd_hist m @ [y], ui_proposed := z\<rparr>)"
    and reset: "tui_ok (m\<lparr>ui_input := x, ui_hist_idx := -1\<rparr>)" for x y z
    using assms(1) view by (simp_all add: tui_ok_defs)
  show ?thesis
    unfolding enter_prompt_def Let_def using assms(1) ask cmd reset
    by (simp add: quit_def start_ai_request_def slash_ok run_command_tui_ok)
qed

lemma key_tui_ok:
  assumes "tui_ok m"
  shows "tui_ok (fst (handle_key env now k m))"
proof (cases "sp_active (ui_prompt m)")
  case True
  then show ?thesis using prompt_key_ok [OF assms] by (simp add: prompted_key)
next
  case False
  note free_key = free_key [OF False]
  show ?thesis
  proof (cases "ui_state m")
    case Idle
    have "tui_ok (fst (handle_key_idle env now k m))"
      unfolding handle_key_idle_def
      using assms process_pane_ok pane_ok prompt_ok filter_ok
      by (auto simp: cycle_focus_ok quit_def toggle_mode_ok history_ok split: input_mode.split prod.split)
    then show ?thesis using Idle by (simp add: free_key)
  next
    case Picking
    have "tui_ok (fst (handle_key_picking env k m))"
      using assms unfolding handle_key_picking_def
      by (auto simp: tui_ok_defs picked_def switch_model_def choose_effort_def tui_text_defs Let_def split: option.splits picker_kind.splits)
    then show ?thesis using Picking by (simp add: free_key)
  qed (use assms in \<open>simp_all add: free_key handle_key_thinking_def handle_key_proposing_def handle_key_editing_def
      handle_key_executing_def run_command_tui_ok Let_def\<close>)
qed

lemma index_of_less: "xs \<noteq> [] \<Longrightarrow> index_of x xs < length xs"
proof -
  have "x \<in> set xs \<Longrightarrow> length (takeWhile (\<lambda>y. y \<noteq> x) xs) < length xs" by (induction xs) auto
  then show "xs \<noteq> [] \<Longrightarrow> index_of x xs < length xs" by (simp add: index_of_def)
qed

lemma proc_done_ok: "tui_ok m \<Longrightarrow> tui_ok (fst (handle_proc_done now i err m))"
proof -
  assume ok: "tui_ok m"
  let ?ps = "map (\<lambda>p. if bp_id p = i then p\<lparr>bp_done := True, bp_err := err\<rparr> else p) (ui_procs m)"
  have "tui_ok (rebuild_process_nodes (m\<lparr>ui_procs := ?ps\<rparr>))" if "ui_procs m \<noteq> []"
    using rebuild_ok [OF ok, of ?ps] that by simp
  then show ?thesis
    using ok by (cases "ui_procs m = []") (simp_all add: handle_proc_done_def refreshed_def Let_def split: option.split)
qed

lemma objects_stored_kinds: "map ow_kind (objects_stored env rs ws) = map ow_kind ws"
  by (rule nth_equalityI) (simp_all add: objects_stored_def)

lemma update_tui_ok:
  assumes "tui_ok m"
  shows "tui_ok (fst (update env now mg m))"
proof (cases mg)
  case (KeyMsg k)
  then show ?thesis using assms by (simp add: update_key key_tui_ok)
next
  case (AIDone answer usage err)
  then show ?thesis using assms
    by (simp add: update_def handle_ai_done_def Let_def split: option.split)
next
  case (ModelsDone r)
  have "tui_ok (pick \<lparr>pk_kind = PickModel, pk_items = models, pk_sel = index_of (ui_model m) models\<rparr> m)" if "models \<noteq> []" for models
    using assms index_of_less [OF that] by (simp add: pick_def tui_ok_defs)
  then show ?thesis using assms ModelsDone
    by (simp add: update_def handle_models_done_def split: sum.split list.split)
next
  case (ExecDone err stdout stderr)
  then show ?thesis using assms by (simp add: update_def handle_exec_done_def start_ai_request_def Let_def)
next
  case (SideAction loads action copied err)
  then show ?thesis using assms by (simp add: update_def handle_side_action_def Let_def split: option.split)
next
  case (ProcDone i err)
  then show ?thesis using assms by (simp add: update_def proc_done_ok)
next
  case (ObjectsDone rs)
  have "tui_ok (m\<lparr>ui_windows := objects_stored env rs (ui_windows m)\<rparr>)"
    using assms by (intro same_kinds_ok) (simp_all add: objects_stored_kinds)
  then show ?thesis using ObjectsDone by (simp add: update_def refreshed_def)
qed (use assms in \<open>simp_all add: update_def handle_proc_cancel_def refreshed_def connected_def rebuild_same_ok split: prod.split\<close>)

lemma reachable_tui_ok: "(tui_step env)\<^sup>*\<^sup>* (new_tui spec commands asks period enabled fmt) m \<Longrightarrow> tui_ok m"
proof (induction rule: rtranclp_induct)
  case base
  show ?case
    by (auto simp: tui_ok_defs new_tui_def active_history_def spec_windows_def object_window_def empty_window_def split: option.splits)
next
  case (step m m')
  then show ?case by (auto elim: tui_step.cases intro: update_tui_ok)
qed

text \<open>
  C36: Whatever keys and messages arrive, in whatever order, every index that the handlers use is in range:
  the window that has the focus, the row of a process, the window of the processes, which exists
  exactly when there is one and is the last window and the only one of its kind, the position in
  the command or prompt history, the one that leaving the process view restores, and the row of
  the picker.
\<close>

theorem tui_indices:
  assumes "(tui_step env)\<^sup>*\<^sup>* (new_tui spec commands asks period enabled fmt) m"
  shows "ui_focus m \<le> length (ui_windows m) \<and>
    (ui_procs m \<noteq> [] \<longrightarrow> 0 \<le> ui_proc_sel m \<and> ui_proc_sel m < int (length (ui_procs m))) \<and>
    (\<forall>i < length (ui_windows m).
       ow_kind (ui_windows m ! i) = ProcWindow \<longleftrightarrow> ui_procs m \<noteq> [] \<and> ui_proc_win m = int i \<and> Suc i = length (ui_windows m)) \<and>
    (ui_proc_win m = -1 \<longleftrightarrow> ui_procs m = []) \<and>
    -1 \<le> ui_hist_idx m \<and> ui_hist_idx m < int (length (active_history m)) \<and>
    (ui_in_view m \<longrightarrow> proc_pane m \<and> -1 \<le> ui_saved_hist m \<and>
       ui_saved_hist m < int (length (active_history (m\<lparr>ui_mode := ui_saved_mode m\<rparr>)))) \<and>
    (\<forall>p. ui_picker m = Some p \<longrightarrow> pk_sel p < length (pk_items p))"
proof -
  have ok: "tui_ok m" by (rule reachable_tui_ok [OF assms])
  have kinds: "\<forall>i < length (ui_windows m). ow_kind (ui_windows m ! i) = ProcWindow \<longleftrightarrow>
      ui_procs m \<noteq> [] \<and> ui_proc_win m = int i \<and> Suc i = length (ui_windows m)"
  proof (cases "ui_procs m = []")
    case True
    then show ?thesis using ok by (auto simp: tui_ok_def windows_ok_def dest: nth_mem)
  next
    case False
    then obtain ws w where ws: "ui_windows m = ws @ [w]" "ow_kind w = ProcWindow" "\<forall>w \<in> set ws. ow_kind w = ObjectWindow"
        "ui_proc_win m = int (length ws)"
      using ok by (auto simp: tui_ok_def windows_ok_def)
    show ?thesis
    proof (intro allI impI)
      fix i assume "i < length (ui_windows m)"
      then consider "i < length ws" | "i = length ws" using ws by fastforce
      then show "ow_kind (ui_windows m ! i) = ProcWindow \<longleftrightarrow>
          ui_procs m \<noteq> [] \<and> ui_proc_win m = int i \<and> Suc i = length (ui_windows m)"
        using ws False by cases (auto simp: nth_append)
    qed
  qed
  have "ui_proc_win m = -1 \<longleftrightarrow> ui_procs m = []"
    using ok by (auto simp: tui_ok_def windows_ok_def split: if_splits)
  moreover have "ui_in_view m \<longrightarrow> proc_pane m \<and> -1 \<le> ui_saved_hist m \<and>
       ui_saved_hist m < int (length (active_history (m\<lparr>ui_mode := ui_saved_mode m\<rparr>)))"
  proof
    assume view: "ui_in_view m"
    then have "ui_saved_mode m = ui_mode m" using ok by (simp add: tui_ok_def histories_ok_def)
    then have "m\<lparr>ui_mode := ui_saved_mode m\<rparr> = m" by simp
    then show "proc_pane m \<and> -1 \<le> ui_saved_hist m \<and> ui_saved_hist m < int (length (active_history (m\<lparr>ui_mode := ui_saved_mode m\<rparr>)))"
      using view view_is_pane [OF ok view] ok by (simp add: tui_ok_def histories_ok_def)
  qed
  ultimately show ?thesis
    using ok kinds by (auto simp: tui_ok_def windows_ok_def histories_ok_def picker_ok_def)
qed

text \<open>A run: a process is proposed and started, and its window is entered.\<close>

definition background_tui :: ai_tui where
  "background_tui = fst (update sample_tui 0 (AIDone ''peek q --for 1m'' no_usage None) sample_start)"

definition started_tui :: ai_tui where
  "started_tui = fst (update sample_tui 0 (KeyMsg KeyEnter) background_tui)"

definition viewing_tui :: ai_tui where
  "viewing_tui = fst (update sample_tui 0 (KeyMsg KeyShiftTab) started_tui)"

lemma viewing_tui_reachable: "(tui_step sample_tui)\<^sup>*\<^sup>* sample_start viewing_tui"
  unfolding viewing_tui_def started_tui_def background_tui_def by (intro tui_run) simp

lemma background_tui_state:
  "ui_state background_tui = Proposing \<and> ui_proposed background_tui = ''peek q --for 1m'' \<and> ui_procs background_tui = [] \<and>
   ui_proc_win background_tui = -1 \<and> length (ui_windows background_tui) = 1 \<and> ui_focus background_tui = 0 \<and> \<not> ui_in_view background_tui \<and>
   \<not> sp_active (ui_prompt background_tui)"
  by code_simp

lemma has_for: "command_has_for ''peek q --for 1m''"
  by code_simp

lemma started_tui_state:
  "ui_state started_tui = Idle" "ui_focus started_tui = 0" "\<not> ui_in_view started_tui" "\<not> sp_active (ui_prompt started_tui)" "length (ui_procs started_tui) = 1"
  "ui_windows started_tui = ui_windows background_tui @ [empty_window ProcWindow ''Processes'']"
  using background_tui_state has_for
  by (simp_all add: started_tui_def update_key handle_key_def handle_key_proposing_def run_command_def start_background_process_def
      ensure_proc_window_def rebuild_process_nodes_def Let_def tui_text_defs)

lemma viewing_tui_state: "ui_in_view viewing_tui \<and> length (ui_procs viewing_tui) = 1"
  using started_tui_state background_tui_state
  by (simp add: viewing_tui_def empty_window_def update_key handle_key_def handle_key_idle_def cycle_focus_def proc_pane_def enter_process_view_def
      update_proc_prompt_def Let_def nth_append)

theorem tui_indices_witness:
  "proc_pane viewing_tui \<and> ui_proc_sel viewing_tui = 0 \<and>
    ui_saved_hist viewing_tui < int (length (active_history (viewing_tui\<lparr>ui_mode := ui_saved_mode viewing_tui\<rparr>)))"
proof -
  have "ui_procs viewing_tui \<noteq> []" using viewing_tui_state by auto
  with tui_indices [OF viewing_tui_reachable] viewing_tui_state show ?thesis by auto
qed

end
