(* ===== verification/Ai_Goroutines.thy ===== *)
theory Ai_Goroutines
  imports Ai_Processes
begin

text \<open>
  The background processes of the AI shell with the goroutines that run them: what the handlers do
  to the list of processes, and that no goroutine runs on without being listed or cancelled
  (src/cmd/aiproc.go).
\<close>

section \<open>Goroutines\<close>

text \<open>What of a process decides about its goroutine.\<close>

definition proc_keys :: "ai_tui \<Rightarrow> (nat \<times> bool \<times> bool) list" where
  "proc_keys m = map (\<lambda>p. (bp_id p, bp_cancel p, bp_done p)) (ui_procs m)"

fun proc_of :: "effect \<Rightarrow> nat list" where
  "proc_of (Start (ProcTask i c)) = [i]"
| "proc_of e = []"

definition procs_started :: "effect list \<Rightarrow> nat list" where
  "procs_started es = concat (map proc_of es)"

definition cancelled_by :: "effect list \<Rightarrow> nat set" where
  "cancelled_by es = {i. CancelProc i \<in> set es}"

lemma procs_started_simps [simp]:
  "procs_started [] = []" "procs_started (e # es) = proc_of e @ procs_started es" "procs_started (map Call cs) = []"
  "procs_started (cancels ps) = []" "procs_started (cancel_task m) = []"
  "cancelled_by [] = {}" "cancelled_by (map Call cs) = {}" "cancelled_by (cancels ps) = bp_id ` {p \<in> set ps. bp_cancel p}"
  "cancelled_by (cancel_task m) = {}" "cancelled_by [Start t] = {}" "cancelled_by [CancelProc i] = {i}" "cancelled_by [Call c] = {}"
  by (auto simp: procs_started_def cancelled_by_def cancels_def cancel_task_def split: option.split)

lemma procs_frame [tui_frame]:
  "ui_procs (update_proc_prompt m) = ui_procs m" "ui_procs (enter_process_view m) = ui_procs m"
  "ui_procs (exit_process_view m) = ui_procs m" "ui_procs (ensure_proc_window m) = ui_procs m"
  "ui_procs (remove_proc_window m) = ui_procs m" "ui_procs (rebuild_process_nodes m) = ui_procs m"
  "ui_proc_next (update_proc_prompt m) = ui_proc_next m" "ui_proc_next (enter_process_view m) = ui_proc_next m"
  "ui_proc_next (exit_process_view m) = ui_proc_next m" "ui_proc_next (ensure_proc_window m) = ui_proc_next m"
  "ui_proc_next (remove_proc_window m) = ui_proc_next m" "ui_proc_next (rebuild_process_nodes m) = ui_proc_next m"
  "ui_quitting (update_proc_prompt m) = ui_quitting m" "ui_quitting (enter_process_view m) = ui_quitting m"
  "ui_quitting (exit_process_view m) = ui_quitting m" "ui_quitting (ensure_proc_window m) = ui_quitting m"
  "ui_quitting (remove_proc_window m) = ui_quitting m" "ui_quitting (rebuild_process_nodes m) = ui_quitting m"
  by (simp_all add: update_proc_prompt_def enter_process_view_def exit_process_view_def ensure_proc_window_def
      remove_proc_window_def rebuild_process_nodes_def Let_def)

lemma procs_frame2 [tui_frame]:
  "ui_procs (cycle_focus b m) = ui_procs m" "ui_proc_next (cycle_focus b m) = ui_proc_next m" "ui_quitting (cycle_focus b m) = ui_quitting m"
  "ui_procs (toggle_window i m) = ui_procs m" "ui_proc_next (toggle_window i m) = ui_proc_next m" "ui_quitting (toggle_window i m) = ui_quitting m"
  "ui_procs (history_prev m) = ui_procs m" "ui_proc_next (history_prev m) = ui_proc_next m" "ui_quitting (history_prev m) = ui_quitting m"
  "ui_procs (history_next m) = ui_procs m" "ui_proc_next (history_next m) = ui_proc_next m" "ui_quitting (history_next m) = ui_quitting m"
  "ui_procs (toggle_input_mode m) = ui_procs m" "ui_proc_next (toggle_input_mode m) = ui_proc_next m" "ui_quitting (toggle_input_mode m) = ui_quitting m"
  "ui_procs (procs_left ps m) = ps" "ui_proc_next (procs_left ps m) = ui_proc_next m" "ui_quitting (procs_left ps m) = ui_quitting m"
  "proc_keys (dump_process_output p m) = proc_keys m" "ui_proc_next (dump_process_output p m) = ui_proc_next m"
  "ui_quitting (dump_process_output p m) = ui_quitting m"
  by (simp_all add: cycle_focus_def toggle_window_def history_prev_def history_next_def toggle_input_mode_def procs_left_def
      dump_process_output_def proc_keys_def Let_def tui_frame tui_text_defs)

text \<open>
  What a handler does to the processes: it starts one at the end of the list, or it may take
  some out and then cancels the ones that run; and it quits with all of them cancelled.
\<close>

definition procs_change :: "ai_tui \<Rightarrow> handled \<Rightarrow> bool" where
  "procs_change m r \<longleftrightarrow>
     (case r of (m', es) \<Rightarrow>
       (if procs_started es = []
        then ui_proc_next m' = ui_proc_next m \<and> set (proc_keys m') \<subseteq> set (proc_keys m) \<and>
          (distinct (map fst (proc_keys m)) \<longrightarrow> distinct (map fst (proc_keys m'))) \<and>
          (\<forall>i d. (i, True, d) \<in> set (proc_keys m) - set (proc_keys m') \<longrightarrow> d \<or> i \<in> cancelled_by es) \<and>
          (ui_quitting m' \<longrightarrow> ui_quitting m \<or> (\<forall>i d. (i, True, d) \<in> set (proc_keys m) \<longrightarrow> i \<in> cancelled_by es))
        else procs_started es = [ui_proc_next m] \<and> ui_proc_next m' = Suc (ui_proc_next m) \<and>
          proc_keys m' = proc_keys m @ [(ui_proc_next m, False, False)] \<and> ui_quitting m' = ui_quitting m))"

lemma procs_same:
  "procs_started es = [] \<Longrightarrow> proc_keys m' = proc_keys m \<Longrightarrow> ui_proc_next m' = ui_proc_next m \<Longrightarrow> ui_quitting m' = ui_quitting m \<Longrightarrow>
   procs_change m (m', es)"
  by (simp add: procs_change_def)

lemma proc_keys_eq: "ui_procs m' = ui_procs m \<Longrightarrow> proc_keys m' = proc_keys m"
  by (simp add: proc_keys_def)

lemma procs_removed:
  assumes "set qs \<subseteq> set (ui_procs m)" and "distinct (map bp_id (ui_procs m)) \<Longrightarrow> distinct (map bp_id qs)"
    and "\<And>p. p \<in> set (ui_procs m) \<Longrightarrow> p \<notin> set qs \<Longrightarrow> bp_cancel p \<Longrightarrow> bp_done p \<or> bp_id p \<in> cancelled_by es"
    and "procs_started es = []" "ui_procs m' = qs" "ui_proc_next m' = ui_proc_next m" "ui_quitting m' = ui_quitting m"
  shows "procs_change m (m', es)"
  using assms by (fastforce simp: procs_change_def proc_keys_def comp_def)

lemma pane_procs: "procs_change m (handle_key_process_pane k m)"
proof -
  let ?n = "nat (ui_proc_sel m)" and ?ps = "ui_procs m"
  have d: "procs_change m (procs_left (take ?n ?ps @ drop (Suc ?n) ?ps) m, cancels [?ps ! ?n])" if "?ps \<noteq> []"
  proof (rule procs_removed)
    show "set (take ?n ?ps @ drop (Suc ?n) ?ps) \<subseteq> set ?ps"
      using set_take_subset [of ?n ?ps] set_drop_subset [of "Suc ?n" ?ps] by auto
    show "distinct (map bp_id (take ?n ?ps @ drop (Suc ?n) ?ps))" if "distinct (map bp_id ?ps)"
    proof -
      have "map bp_id (take ?n ?ps @ drop (Suc ?n) ?ps) = take ?n (map bp_id ?ps) @ drop (Suc ?n) (map bp_id ?ps)"
        by (simp add: take_map drop_map)
      then show ?thesis
        using that set_take_disj_set_drop_if_distinct [of "map bp_id ?ps" ?n "Suc ?n"] by simp
    qed
    fix p assume p: "p \<in> set ?ps" "p \<notin> set (take ?n ?ps @ drop (Suc ?n) ?ps)" "bp_cancel p"
    then have "p = ?ps ! ?n"
      by (metis Cons_nth_drop_Suc Un_iff append_take_drop_id drop_all leI list.set_intros(1) set_ConsD set_append take_all append_Nil2)
    with p(3) show "bp_done p \<or> bp_id p \<in> cancelled_by (cancels [?ps ! ?n])" by simp
  qed (simp_all add: tui_frame)
  have p: "procs_change m (procs_left (filter (\<lambda>p. \<not> bp_done p) ?ps) m, [])"
    by (rule procs_removed [where qs = "filter (\<lambda>p. \<not> bp_done p) ?ps"]) (auto simp: tui_frame distinct_map_filter)
  have all: "procs_change m (remove_proc_window (m\<lparr>ui_procs := []\<rparr>), cancels ?ps)"
    by (rule procs_removed [where qs = "[]"]) (auto simp: tui_frame)
  have same: "procs_change m (m', es)"
    if "procs_started es = []" "ui_procs m' = ui_procs m" "ui_proc_next m' = ui_proc_next m" "ui_quitting m' = ui_quitting m" for m' es
    using that by (intro procs_same proc_keys_eq)
  have dump: "procs_change m (dump_process_output p m, [])" for p
    by (rule procs_same) (simp_all add: tui_frame)
  show ?thesis
    unfolding handle_key_process_pane_def Let_def
    by (simp add: d p all dump same tui_frame)
qed

lemma run_command_procs: "procs_change m (run_command c m)"
  by (simp add: run_command_def start_background_process_def start_execution_def Let_def procs_change_def proc_keys_def
      tui_frame tui_text_defs)

lemma quit_procs: "procs_change m (quit b m)" "procs_change m (quit b (m\<lparr>ui_input := x, ui_hist_idx := y\<rparr>))"
  by (auto simp: quit_def procs_change_def proc_keys_def image_iff)

lemma procs_inert:
  "procs_started es = [] \<Longrightarrow> ui_procs m' = ui_procs m \<Longrightarrow> ui_proc_next m' = ui_proc_next m \<Longrightarrow> ui_quitting m' = ui_quitting m \<Longrightarrow>
   procs_change m (m', es)"
  by (intro procs_same proc_keys_eq)

lemma procs_change_cong:
  "ui_procs m' = ui_procs m \<Longrightarrow> ui_proc_next m' = ui_proc_next m \<Longrightarrow> ui_quitting m' = ui_quitting m \<Longrightarrow>
   procs_change m' r = procs_change m r"
  by (simp add: procs_change_def proc_keys_def)

lemma say_procs [tui_frame]:
  "ui_procs (say xs m) = ui_procs m" "ui_proc_next (say xs m) = ui_proc_next m" "ui_quitting (say xs m) = ui_quitting m"
  "ui_procs (tell st t m) = ui_procs m" "ui_proc_next (tell st t m) = ui_proc_next m" "ui_quitting (tell st t m) = ui_quitting m"
  "ui_procs (remember a c m) = ui_procs m" "ui_proc_next (remember a c m) = ui_proc_next m" "ui_quitting (remember a c m) = ui_quitting m"
  "ui_procs (trimmed m) = ui_procs m" "ui_proc_next (trimmed m) = ui_proc_next m" "ui_quitting (trimmed m) = ui_quitting m"
  "ui_procs (drop_last_user m) = ui_procs m" "ui_proc_next (drop_last_user m) = ui_proc_next m"
  "ui_quitting (drop_last_user m) = ui_quitting m"
  "ui_procs (add_usage u m) = ui_procs m" "ui_proc_next (add_usage u m) = ui_proc_next m" "ui_quitting (add_usage u m) = ui_quitting m"
  "ui_procs (ai_replied a c m) = ui_procs m" "ui_proc_next (ai_replied a c m) = ui_proc_next m" "ui_quitting (ai_replied a c m) = ui_quitting m"
  "ui_procs (switch_model env c m) = ui_procs m" "ui_proc_next (switch_model env c m) = ui_proc_next m"
  "ui_quitting (switch_model env c m) = ui_quitting m"
  "ui_procs (choose_effort c m) = ui_procs m" "ui_proc_next (choose_effort c m) = ui_proc_next m"
  "ui_quitting (choose_effort c m) = ui_quitting m"
  "ui_procs (apply_effort c m) = ui_procs m" "ui_proc_next (apply_effort c m) = ui_proc_next m"
  "ui_quitting (apply_effort c m) = ui_quitting m"
  "ui_procs (pick p m) = ui_procs m" "ui_proc_next (pick p m) = ui_proc_next m" "ui_quitting (pick p m) = ui_quitting m"
  "ui_procs (picked env p m) = ui_procs m" "ui_proc_next (picked env p m) = ui_proc_next m"
  "ui_quitting (picked env p m) = ui_quitting m"
  by (simp_all add: tui_text_defs drop_last_user_eq add_usage_def ai_replied_def switch_model_def choose_effort_def apply_effort_def
      pick_def picked_def Let_def split: picker_kind.split)

lemma slash_procs: "procs_change m (handle_slash env now input m)"
  unfolding handle_slash_def Let_def
  by (simp add: quit_procs procs_inert connected_def tui_frame split: prod.split)

lemma prompt_procs: "procs_change m (enter_prompt env now m)"
proof -
  have slash: "procs_change m (handle_slash env now input (m\<lparr>ui_input := x, ui_hist_idx := y\<rparr>))" for input x y
    using slash_procs [of "m\<lparr>ui_input := x, ui_hist_idx := y\<rparr>" env now input]
      procs_change_cong [of "m\<lparr>ui_input := x, ui_hist_idx := y\<rparr>" m] by simp
  have run: "procs_change m (run_command c m')"
    if "ui_procs m' = ui_procs m" "ui_proc_next m' = ui_proc_next m" "ui_quitting m' = ui_quitting m" for c m'
    using run_command_procs [of m' c] procs_change_cong [OF that] by simp
  show ?thesis
    unfolding enter_prompt_def Let_def
    by (simp add: slash run quit_procs procs_inert start_ai_request_def tui_frame)
qed

lemma key_procs: "procs_change m (handle_key env now k m)"
proof -
  have run: "procs_change m (run_command c m')"
    if "ui_procs m' = ui_procs m" "ui_proc_next m' = ui_proc_next m" "ui_quitting m' = ui_quitting m" for c m'
    using run_command_procs [of m' c] procs_change_cong [OF that] by simp
  have side: "procs_change m r" if "side_change m r" for r
    using that by cases (simp_all add: procs_inert tui_frame)
  note pane = side [OF pane_change] side [OF filter_change]
  have "procs_change m (handle_key_idle env now k m)"
    unfolding handle_key_idle_def
    by (simp add: pane pane_procs prompt_procs quit_procs procs_inert tui_frame split: input_mode.split prod.split)
  moreover have "procs_change m (handle_key_thinking k m)" "procs_change m (handle_key_executing k m)"
    by (simp_all add: handle_key_thinking_def handle_key_executing_def procs_inert tui_frame)
  moreover have "procs_change m (handle_key_proposing k m)" "procs_change m (handle_key_editing env k m)"
    unfolding handle_key_proposing_def handle_key_editing_def Let_def by (simp_all add: run procs_inert tui_frame)
  moreover have "procs_change m (handle_key_picking env k m)"
    unfolding handle_key_picking_def by (simp add: procs_inert tui_frame split: option.split)
  ultimately show ?thesis by (cases "ui_state m") (simp_all add: handle_key_def side [OF prompt_change])
qed

lemma update_procs:
  assumes "\<nexists>i. mg = ProcCancel i" and "\<nexists>i err. mg = ProcDone i err"
  shows "procs_change m (update env now mg m)"
proof (cases mg)
  case (ProcOutput i stderr b)
  have "proc_keys (m\<lparr>ui_procs := map (\<lambda>p. if bp_id p = i then proc_write stderr b p else p) (ui_procs m)\<rparr>) = proc_keys m"
    by (auto simp: proc_keys_def proc_write_def)
  then show ?thesis using ProcOutput by (simp add: update_def procs_same)
next
  case (AIDone answer usage err)
  then show ?thesis by (simp add: update_def handle_ai_done_def Let_def procs_inert tui_frame split: option.split)
next
  case (ExecDone err stdout stderr)
  then show ?thesis by (simp add: update_def handle_exec_done_def start_ai_request_def Let_def procs_inert tui_frame)
next
  case (SideAction loads action copied err)
  then show ?thesis by (simp add: update_def handle_side_action_def Let_def procs_inert tui_frame split: option.split)
next
  case (ModelsDone r)
  then show ?thesis
    by (simp add: update_def handle_models_done_def procs_inert tui_frame split: sum.split list.split)
qed (use assms in \<open>simp_all add: update_def key_procs refreshed_def connected_def procs_inert tui_frame split: prod.split\<close>)

section \<open>The shell and its processes\<close>

text \<open>
  The goroutines of background processes that have not yet announced their cancel function, those
  that run the command, and the processes whose cancel function was called.
\<close>

record proc_sys =
  sy_tui :: ai_tui
  sy_new :: "nat set"
  sy_run :: "nat set"
  sy_cancelled :: "nat set"

definition proc_after :: "handled \<Rightarrow> proc_sys \<Rightarrow> proc_sys" where
  "proc_after r s =
     s\<lparr>sy_tui := fst r, sy_new := sy_new s \<union> set (procs_started (snd r)), sy_cancelled := sy_cancelled s \<union> cancelled_by (snd r)\<rparr>"

text \<open>
  The program ends when the shell quits.  The other messages come at any time; the ones about a
  process come from its goroutine: first its cancel function, then, when the command has returned,
  the end.
\<close>

inductive proc_step :: "tui_env \<Rightarrow> proc_sys \<Rightarrow> proc_sys \<Rightarrow> bool" for env where
  other: "\<not> ui_quitting (sy_tui s) \<Longrightarrow> \<nexists>i. mg = ProcCancel i \<Longrightarrow> \<nexists>i err. mg = ProcDone i err \<Longrightarrow>
    proc_step env s (proc_after (update env now mg (sy_tui s)) s)"
| announce: "\<not> ui_quitting (sy_tui s) \<Longrightarrow> i \<in> sy_new s \<Longrightarrow>
    proc_step env s
      (proc_after (update env now (ProcCancel i) (sy_tui s)) (s\<lparr>sy_new := sy_new s - {i}, sy_run := insert i (sy_run s)\<rparr>))"
| finish: "\<not> ui_quitting (sy_tui s) \<Longrightarrow> i \<in> sy_run s \<Longrightarrow>
    proc_step env s (proc_after (update env now (ProcDone i err) (sy_tui s)) (s\<lparr>sy_run := sy_run s - {i}\<rparr>))"

definition proc_start :: "ai_tui \<Rightarrow> proc_sys" where
  "proc_start m = \<lparr>sy_tui = m, sy_new = {}, sy_run = {}, sy_cancelled = {}\<rparr>"

definition proc_invariant :: "proc_sys \<Rightarrow> bool" where
  "proc_invariant s \<longleftrightarrow>
     (let ks = proc_keys (sy_tui s)
      in distinct (map fst ks) \<and> (\<forall>i \<in> fst ` set ks \<union> sy_new s \<union> sy_run s. i < ui_proc_next (sy_tui s)) \<and>
         sy_new s \<inter> sy_run s = {} \<and>
         (\<forall>i c. (i, c, True) \<in> set ks \<longrightarrow> i \<notin> sy_new s \<union> sy_run s) \<and>
         (\<forall>i \<in> sy_run s. i \<in> sy_cancelled s \<or> (i, True, False) \<in> set ks) \<and>
         (ui_quitting (sy_tui s) \<longrightarrow> sy_run s \<subseteq> sy_cancelled s))"

lemma proc_invariantD:
  assumes "proc_invariant s"
  shows "distinct (map fst (proc_keys (sy_tui s)))"
    and "i \<in> fst ` set (proc_keys (sy_tui s)) \<or> i \<in> sy_new s \<or> i \<in> sy_run s \<Longrightarrow> i < ui_proc_next (sy_tui s)"
    and "i \<in> sy_new s \<Longrightarrow> i \<notin> sy_run s"
    and "(i, c, True) \<in> set (proc_keys (sy_tui s)) \<Longrightarrow> i \<notin> sy_new s \<and> i \<notin> sy_run s"
    and "i \<in> sy_run s \<Longrightarrow> i \<in> sy_cancelled s \<or> (i, True, False) \<in> set (proc_keys (sy_tui s))"
    and "ui_quitting (sy_tui s) \<Longrightarrow> i \<in> sy_run s \<Longrightarrow> i \<in> sy_cancelled s"
  using assms unfolding proc_invariant_def Let_def by blast+

lemma proc_invariantI:
  assumes "distinct (map fst (proc_keys (sy_tui s)))"
    and "\<And>i. i \<in> fst ` set (proc_keys (sy_tui s)) \<Longrightarrow> i < ui_proc_next (sy_tui s)"
    and "\<And>i. i \<in> sy_new s \<Longrightarrow> i < ui_proc_next (sy_tui s) \<and> i \<notin> sy_run s"
    and "\<And>i. i \<in> sy_run s \<Longrightarrow> i < ui_proc_next (sy_tui s)"
    and "\<And>i c. (i, c, True) \<in> set (proc_keys (sy_tui s)) \<Longrightarrow> i \<notin> sy_new s \<and> i \<notin> sy_run s"
    and "\<And>i. i \<in> sy_run s \<Longrightarrow> i \<in> sy_cancelled s \<or> (i, True, False) \<in> set (proc_keys (sy_tui s))"
    and "\<And>i. ui_quitting (sy_tui s) \<Longrightarrow> i \<in> sy_run s \<Longrightarrow> i \<in> sy_cancelled s"
  shows "proc_invariant s"
  using assms unfolding proc_invariant_def Let_def by blast

lemma other_invariant:
  assumes inv: "proc_invariant s" and change: "procs_change (sy_tui s) r" and going: "\<not> ui_quitting (sy_tui s)"
  shows "proc_invariant (proc_after r s)"
proof (cases "procs_started (snd r) = []")
  case True
  let ?ks = "proc_keys (sy_tui s)" and ?ks' = "proc_keys (fst r)"
  have c: "ui_proc_next (fst r) = ui_proc_next (sy_tui s)" "set ?ks' \<subseteq> set ?ks"
      "distinct (map fst ?ks) \<longrightarrow> distinct (map fst ?ks')"
      "\<And>i d. (i, True, d) \<in> set ?ks - set ?ks' \<Longrightarrow> d \<or> i \<in> cancelled_by (snd r)"
      "\<And>i d. ui_quitting (fst r) \<Longrightarrow> (i, True, d) \<in> set ?ks \<Longrightarrow> i \<in> cancelled_by (snd r)"
    using change True going by (auto simp: procs_change_def split: prod.splits)
  have tui: "sy_tui (proc_after r s) = fst r" "sy_new (proc_after r s) = sy_new s" "sy_run (proc_after r s) = sy_run s"
      "sy_cancelled (proc_after r s) = sy_cancelled s \<union> cancelled_by (snd r)"
    using True by (simp_all add: proc_after_def)
  show ?thesis
  proof (rule proc_invariantI, unfold tui c(1))
    show "distinct (map fst ?ks')" using c(3) proc_invariantD(1) [OF inv] by blast
    show "i < ui_proc_next (sy_tui s)" if "i \<in> fst ` set ?ks'" for i
      using that c(2) proc_invariantD(2) [OF inv] by blast
    show "i < ui_proc_next (sy_tui s) \<and> i \<notin> sy_run s" if "i \<in> sy_new s" for i
      using that proc_invariantD(2,3) [OF inv] by blast
    show "i < ui_proc_next (sy_tui s)" if "i \<in> sy_run s" for i
      using that proc_invariantD(2) [OF inv] by blast
    show "i \<notin> sy_new s \<and> i \<notin> sy_run s" if "(i, c, True) \<in> set ?ks'" for i c
      using that c(2) proc_invariantD(4) [OF inv] by blast
    show "i \<in> sy_cancelled s \<union> cancelled_by (snd r) \<or> (i, True, False) \<in> set ?ks'" if "i \<in> sy_run s" for i
      using proc_invariantD(5) [OF inv that] c(4) by blast
    show "i \<in> sy_cancelled s \<union> cancelled_by (snd r)" if "ui_quitting (fst r)" "i \<in> sy_run s" for i
      using proc_invariantD(5) [OF inv that(2)] c(5) [OF that(1)] by blast
  qed
next
  case False
  let ?n = "ui_proc_next (sy_tui s)"
  have c: "procs_started (snd r) = [?n]" "ui_proc_next (fst r) = Suc ?n"
      "proc_keys (fst r) = proc_keys (sy_tui s) @ [(?n, False, False)]" "\<not> ui_quitting (fst r)"
    using change False going by (auto simp: procs_change_def split: prod.splits)
  have fresh: "?n \<notin> fst ` set (proc_keys (sy_tui s))" "?n \<notin> sy_new s" "?n \<notin> sy_run s"
    using proc_invariantD(2) [OF inv, of ?n] by blast+
  have tui: "sy_tui (proc_after r s) = fst r" "sy_new (proc_after r s) = insert ?n (sy_new s)" "sy_run (proc_after r s) = sy_run s"
      "sy_cancelled (proc_after r s) = sy_cancelled s \<union> cancelled_by (snd r)"
    using c(1) by (simp_all add: proc_after_def)
  show ?thesis
  proof (rule proc_invariantI, unfold tui c(2,3))
    show "distinct (map fst (proc_keys (sy_tui s) @ [(?n, False, False)]))"
      using proc_invariantD(1) [OF inv] fresh(1) by simp
    show "i < Suc ?n" if "i \<in> fst ` set (proc_keys (sy_tui s) @ [(?n, False, False)])" for i
      using that proc_invariantD(2) [OF inv, of i] by (auto simp: less_Suc_eq image_iff)
    show "i < Suc ?n \<and> i \<notin> sy_run s" if "i \<in> insert ?n (sy_new s)" for i
      using that proc_invariantD(2,3) [OF inv, of i] fresh(3) by auto
    show "i < Suc ?n" if "i \<in> sy_run s" for i
      using that proc_invariantD(2) [OF inv, of i] by auto
    show "i \<notin> insert ?n (sy_new s) \<and> i \<notin> sy_run s" if "(i, c, True) \<in> set (proc_keys (sy_tui s) @ [(?n, False, False)])" for i c
      using that proc_invariantD(4) [OF inv, of i c] fresh(1) by (auto simp: image_iff)
    show "i \<in> sy_cancelled s \<union> cancelled_by (snd r) \<or> (i, True, False) \<in> set (proc_keys (sy_tui s) @ [(?n, False, False)])"
      if "i \<in> sy_run s" for i
      using proc_invariantD(5) [OF inv that] by auto
    show "i \<in> sy_cancelled s \<union> cancelled_by (snd r)" if "ui_quitting (fst r)" "i \<in> sy_run s" for i
      using that(1) c(4) by simp
  qed
qed

lemma cancel_keys:
  "proc_keys (fst (handle_proc_cancel i m)) = map (\<lambda>(j, c, d). (j, c \<or> j = i, d)) (proc_keys m)"
  "ui_proc_next (fst (handle_proc_cancel i m)) = ui_proc_next m" "ui_quitting (fst (handle_proc_cancel i m)) = ui_quitting m"
  "procs_started (snd (handle_proc_cancel i m)) = []"
  "cancelled_by (snd (handle_proc_cancel i m)) = (if i \<in> fst ` set (proc_keys m) then {} else {i})"
  by (auto simp: handle_proc_cancel_def proc_keys_def image_iff)

lemma done_keys:
  "proc_keys (fst (handle_proc_done now i err m)) = map (\<lambda>(j, c, d). (j, c, d \<or> j = i)) (proc_keys m)"
  "ui_proc_next (fst (handle_proc_done now i err m)) = ui_proc_next m"
  "ui_quitting (fst (handle_proc_done now i err m)) = ui_quitting m"
  "procs_started (snd (handle_proc_done now i err m)) = []"
  "cancelled_by (snd (handle_proc_done now i err m)) = {}"
  by (auto simp: handle_proc_done_def refreshed_def proc_keys_def tui_frame Let_def find_None_iff split: option.split)

lemma announce_invariant:
  assumes inv: "proc_invariant s" and going: "\<not> ui_quitting (sy_tui s)" and i: "i \<in> sy_new s"
  shows "proc_invariant (proc_after (handle_proc_cancel i (sy_tui s)) (s\<lparr>sy_new := sy_new s - {i}, sy_run := insert i (sy_run s)\<rparr>))"
    (is "proc_invariant ?t")
proof -
  let ?ks = "proc_keys (sy_tui s)"
  have tui: "proc_keys (sy_tui ?t) = map (\<lambda>(j, c, d). (j, c \<or> j = i, d)) ?ks" "ui_proc_next (sy_tui ?t) = ui_proc_next (sy_tui s)"
      "ui_quitting (sy_tui ?t) = ui_quitting (sy_tui s)" "sy_new ?t = sy_new s - {i}" "sy_run ?t = insert i (sy_run s)"
      "sy_cancelled ?t = sy_cancelled s \<union> (if i \<in> fst ` set ?ks then {} else {i})"
    by (simp_all add: proc_after_def cancel_keys)
  have fsts: "fst \<circ> (\<lambda>(j, c, d). (j, c \<or> j = i, d)) = fst" by auto
  have listed: "(i, True, False) \<in> set (map (\<lambda>(j, c, d). (j, c \<or> j = i, d)) ?ks)" if "i \<in> fst ` set ?ks"
  proof -
    from that obtain c d where k: "(i, c, d) \<in> set ?ks" by force
    then have "\<not> d" using proc_invariantD(4) [OF inv, of i c] i by (cases d) auto
    then show ?thesis using k by force
  qed
  show ?thesis
  proof (rule proc_invariantI, unfold tui)
    show "distinct (map fst (map (\<lambda>(j, c, d). (j, c \<or> j = i, d)) ?ks))"
      using proc_invariantD(1) [OF inv] by (simp add: fsts)
    show "j < ui_proc_next (sy_tui s)" if "j \<in> fst ` set (map (\<lambda>(j, c, d). (j, c \<or> j = i, d)) ?ks)" for j
      using that proc_invariantD(2) [OF inv, of j] by (force simp: image_iff)
    show "j < ui_proc_next (sy_tui s) \<and> j \<notin> insert i (sy_run s)" if "j \<in> sy_new s - {i}" for j
      using that proc_invariantD(2,3) [OF inv, of j] by blast
    show "j < ui_proc_next (sy_tui s)" if "j \<in> insert i (sy_run s)" for j
      using that i proc_invariantD(2) [OF inv, of j] by blast
    show "j \<notin> sy_new s - {i} \<and> j \<notin> insert i (sy_run s)"
      if "(j, c, True) \<in> set (map (\<lambda>(j, c, d). (j, c \<or> j = i, d)) ?ks)" for j c
    proof -
      from that obtain c' where "(j, c', True) \<in> set ?ks" by auto
      then show ?thesis using proc_invariantD(4) [OF inv, of j c'] i by blast
    qed
    show "j \<in> sy_cancelled s \<union> (if i \<in> fst ` set ?ks then {} else {i}) \<or> (j, True, False) \<in> set (map (\<lambda>(j, c, d). (j, c \<or> j = i, d)) ?ks)"
      if "j \<in> insert i (sy_run s)" for j
    proof (cases "j = i")
      case True
      then show ?thesis using listed by auto
    next
      case False
      then show ?thesis using that proc_invariantD(5) [OF inv, of j] by force
    qed
  qed (use going in simp)
qed

lemma finish_invariant:
  assumes inv: "proc_invariant s" and going: "\<not> ui_quitting (sy_tui s)" and i: "i \<in> sy_run s"
  shows "proc_invariant (proc_after (handle_proc_done now i err (sy_tui s)) (s\<lparr>sy_run := sy_run s - {i}\<rparr>))"
    (is "proc_invariant ?t")
proof -
  let ?ks = "proc_keys (sy_tui s)"
  have tui: "proc_keys (sy_tui ?t) = map (\<lambda>(j, c, d). (j, c, d \<or> j = i)) ?ks" "ui_proc_next (sy_tui ?t) = ui_proc_next (sy_tui s)"
      "ui_quitting (sy_tui ?t) = ui_quitting (sy_tui s)" "sy_new ?t = sy_new s" "sy_run ?t = sy_run s - {i}"
      "sy_cancelled ?t = sy_cancelled s"
    by (simp_all add: proc_after_def done_keys)
  have fsts: "fst \<circ> (\<lambda>(j, c, d). (j, c, d \<or> j = i)) = fst" by auto
  show ?thesis
  proof (rule proc_invariantI, unfold tui)
    show "distinct (map fst (map (\<lambda>(j, c, d). (j, c, d \<or> j = i)) ?ks))"
      using proc_invariantD(1) [OF inv] by (simp add: fsts)
    show "j < ui_proc_next (sy_tui s)" if "j \<in> fst ` set (map (\<lambda>(j, c, d). (j, c, d \<or> j = i)) ?ks)" for j
      using that proc_invariantD(2) [OF inv, of j] by (force simp: image_iff)
    show "j < ui_proc_next (sy_tui s) \<and> j \<notin> sy_run s - {i}" if "j \<in> sy_new s" for j
      using that proc_invariantD(2,3) [OF inv, of j] by blast
    show "j < ui_proc_next (sy_tui s)" if "j \<in> sy_run s - {i}" for j
      using that proc_invariantD(2) [OF inv, of j] by blast
    show "j \<notin> sy_new s \<and> j \<notin> sy_run s - {i}"
      if "(j, c, True) \<in> set (map (\<lambda>(j, c, d). (j, c, d \<or> j = i)) ?ks)" for j c
    proof (cases "j = i")
      case True
      then show ?thesis using i proc_invariantD(3) [OF inv, of i] by blast
    next
      case False
      with that obtain c' where "(j, c', True) \<in> set ?ks" by auto
      then show ?thesis using proc_invariantD(4) [OF inv, of j c'] by blast
    qed
    show "j \<in> sy_cancelled s \<or> (j, True, False) \<in> set (map (\<lambda>(j, c, d). (j, c, d \<or> j = i)) ?ks)"
      if "j \<in> sy_run s - {i}" for j
      using that proc_invariantD(5) [OF inv, of j] by force
  qed (use going in simp)
qed

lemma proc_reachable:
  "(proc_step env)\<^sup>*\<^sup>* (proc_start (new_tui spec commands asks period enabled fmt)) s \<Longrightarrow> proc_invariant s"
proof (induction rule: rtranclp_induct)
  case base
  show ?case by (simp add: proc_invariant_def proc_start_def new_tui_def proc_keys_def)
next
  case (step s t)
  from step.hyps(2) show ?case
  proof cases
    case (other mg now)
    then show ?thesis using other_invariant [OF step.IH] update_procs by blast
  next
    case (announce i now)
    then show ?thesis using announce_invariant [OF step.IH] by (simp add: update_def)
  next
    case (finish i now err)
    then show ?thesis using finish_invariant [OF step.IH] by (simp add: update_def)
  qed
qed


text \<open>A run in which a process is proposed, accepted and under way.\<close>

definition running_sys :: proc_sys where
  "running_sys =
     (let s1 = proc_after (update sample_tui 0 (AIDone ''peek q --for 1m'' no_usage None) sample_start)
            (proc_start sample_start);
          s2 = proc_after (update sample_tui 0 (KeyMsg KeyEnter) (sy_tui s1)) s1
      in proc_after (update sample_tui 0 (ProcCancel 0) (sy_tui s2)) (s2\<lparr>sy_new := sy_new s2 - {0}, sy_run := insert 0 (sy_run s2)\<rparr>))"

lemma background_tui_more: "ui_proc_next background_tui = 0 \<and> \<not> ui_quitting background_tui"
  by code_simp

lemma started_tui_more:
  "\<not> ui_quitting started_tui" "snd (update sample_tui 0 (KeyMsg KeyEnter) background_tui) = [Start (ProcTask 0 ''peek q --for 1m'')]"
  "proc_keys started_tui = [(0, False, False)]"
  using background_tui_state background_tui_more has_for
  by (simp_all add: started_tui_def update_key handle_key_def handle_key_proposing_def run_command_def start_background_process_def
      proc_keys_def tui_frame tui_text_defs Let_def)

lemma running_sys_reachable: "(proc_step sample_tui)\<^sup>*\<^sup>* (proc_start sample_start) running_sys"
proof -
  let ?s0 = "proc_start sample_start"
  let ?s1 = "proc_after (update sample_tui 0 (AIDone ''peek q --for 1m'' no_usage None) sample_start) ?s0"
  let ?s2 = "proc_after (update sample_tui 0 (KeyMsg KeyEnter) (sy_tui ?s1)) ?s1"
  have tui: "sy_tui ?s0 = sample_start" "sy_tui ?s1 = background_tui"
    by (simp_all add: proc_start_def proc_after_def background_tui_def)
  have tui2: "sy_tui ?s2 = started_tui" unfolding tui by (simp add: proc_after_def started_tui_def)
  have "proc_step sample_tui ?s0 ?s1"
    using proc_step.other [of ?s0 "AIDone ''peek q --for 1m'' no_usage None" sample_tui 0] unfolding tui by (simp add: new_tui_def)
  moreover have "proc_step sample_tui ?s1 ?s2"
    using proc_step.other [of ?s1 "KeyMsg KeyEnter" sample_tui 0] unfolding tui by (simp add: background_tui_more)
  moreover have "0 \<in> sy_new ?s2" unfolding tui by (simp add: proc_after_def started_tui_more)
  then have "proc_step sample_tui ?s2 running_sys"
    using proc_step.announce [of ?s2 0 sample_tui 0] unfolding running_sys_def Let_def tui2 by (simp add: started_tui_more)
  ultimately show ?thesis by (meson r_into_rtranclp rtranclp_trans)
qed

lemma running_sys_state: "0 \<in> sy_run running_sys \<and> sy_cancelled running_sys = {}"
proof -
  have "cancelled_by (snd (handle_proc_cancel 0 started_tui)) = {}"
    by (simp add: cancel_keys started_tui_more)
  moreover have "fst (update sample_tui 0 (AIDone ''peek q --for 1m'' no_usage None) sample_start) = background_tui"
    by (simp add: background_tui_def)
  moreover have "fst (update sample_tui 0 (KeyMsg KeyEnter) background_tui) = started_tui" by (simp add: started_tui_def)
  moreover have "snd (update sample_tui 0 (AIDone ''peek q --for 1m'' no_usage None) sample_start) = []"
    by (simp add: update_def)
  moreover have "snd (update sample_tui 0 (ProcCancel 0) started_tui) = snd (handle_proc_cancel 0 started_tui)"
    by (simp add: update_def)
  ultimately show ?thesis
    by (simp add: running_sys_def proc_after_def proc_start_def started_tui_more Let_def)
qed


end
