(* ===== verification/Ai_Selections.thy ===== *)
theory Ai_Selections
  imports Ai_Processes
begin

text \<open>
  The sidebar of the AI shell as the user sees it: in every state that the shell can reach the
  selected row of each window exists, the windows fit into the height of the screen, and the
  window that has the focus shows its selection (src/cmd/aituisidebar.go, aikeys.go).
\<close>

section \<open>Selections\<close>

definition sel_ok :: "node_sort \<Rightarrow> obj_window \<Rightarrow> bool" where
  "sel_ok srt w \<longleftrightarrow> 0 \<le> ow_sel w \<and> (sidebar_rows srt w \<noteq> [] \<longrightarrow> ow_sel w < int (length (sidebar_rows srt w)))"

lemma sel_ok_first: "ow_sel w = 0 \<Longrightarrow> sel_ok srt w"
  by (simp add: sel_ok_def)

lemma rows_frame [simp]:
  "sidebar_rows srt (w\<lparr>ow_sel := x\<rparr>) = sidebar_rows srt w" "sidebar_rows srt (w\<lparr>ow_collapsed := y\<rparr>) = sidebar_rows srt w"
  by (simp_all add: sidebar_rows_def filtered_sorted_nodes_def nodes_of_def)

lemma index_of_row_less: "rows \<noteq> [] \<Longrightarrow> 0 \<le> index_of_row_named rows name \<and> index_of_row_named rows name < int (length rows)"
proof -
  have "\<exists>r \<in> set rows. \<not> P r \<Longrightarrow> length (takeWhile P rows) < length rows" for P by (induction rows) auto
  then have "\<exists>r \<in> set rows. on_name (fst r) = name \<Longrightarrow> length (takeWhile (\<lambda>r. on_name (fst r) \<noteq> name) rows) < length rows" by auto
  then show "rows \<noteq> [] \<Longrightarrow> ?thesis" by (simp add: index_of_row_named_def)
qed

lemma index_of_row_nonneg: "0 \<le> index_of_row_named rows name"
  by (simp add: index_of_row_named_def)

lemma window_sel_ok:
  "sel_ok srt w \<Longrightarrow> sel_ok srt (move_sel srt d w)" "sel_ok srt (cycle_sort w)" "sel_ok srt w \<Longrightarrow> sel_ok srt (toggle_tree srt w)"
  "sel_ok srt (set_filter x w)" "sel_ok srt w \<Longrightarrow> sel_ok srt (store_objects srt r w)" "sel_ok srt (empty_window kind label)"
  "sel_ok srt w \<Longrightarrow> sel_ok srt (w\<lparr>ow_collapsed := y\<rparr>)"
proof -
  show "sel_ok srt w \<Longrightarrow> sel_ok srt (move_sel srt d w)"
    by (cases "sidebar_rows srt w") (auto simp: sel_ok_def move_sel_def clamp_int_def Let_def)
  show "sel_ok srt (cycle_sort w)" "sel_ok srt (set_filter x w)" "sel_ok srt (empty_window kind label)"
    by (simp_all add: sel_ok_first cycle_sort_def set_filter_def empty_window_def)
  show "sel_ok srt w \<Longrightarrow> sel_ok srt (toggle_tree srt w)"
    using index_of_row_less [of "sidebar_rows srt (w\<lparr>ow_tree := \<not> ow_tree w\<rparr>)" "selected_name srt w"]
    by (auto simp: sel_ok_def toggle_tree_def Let_def index_of_row_nonneg)
  show "sel_ok srt w \<Longrightarrow> sel_ok srt (store_objects srt r w)"
    by (cases "sidebar_rows srt (w\<lparr>ow_nodes := fst r, ow_err := snd r\<rparr>)") (auto simp: sel_ok_def store_objects_def Let_def)
  show "sel_ok srt w \<Longrightarrow> sel_ok srt (w\<lparr>ow_collapsed := y\<rparr>)" by (simp add: sel_ok_def)
qed

definition sels_ok :: "tui_env \<Rightarrow> ai_tui \<Rightarrow> bool" where
  "sels_ok env m \<longleftrightarrow> (\<forall>w \<in> set (ui_windows m). sel_ok (te_sort env) w)"

lemma sels_same: "ui_windows m' = ui_windows m \<Longrightarrow> sels_ok env m' = sels_ok env m"
  by (simp add: sels_ok_def)

lemma sels_inert [simp]:
  "sels_ok env (m\<lparr>ui_state := x_state\<rparr>) = sels_ok env m" "sels_ok env (m\<lparr>ui_input := x_input\<rparr>) = sels_ok env m"
  "sels_ok env (m\<lparr>ui_history := x_history\<rparr>) = sels_ok env m" "sels_ok env (m\<lparr>ui_proposed := x_proposed\<rparr>) = sels_ok env m"
  "sels_ok env (m\<lparr>ui_destructive := x_destructive\<rparr>) = sels_ok env m" "sels_ok env (m\<lparr>ui_cancel := x_cancel\<rparr>) = sels_ok env m"
  "sels_ok env (m\<lparr>ui_fix := x_fix\<rparr>) = sels_ok env m" "sels_ok env (m\<lparr>ui_turn := x_turn\<rparr>) = sels_ok env m"
  "sels_ok env (m\<lparr>ui_total := x_total\<rparr>) = sels_ok env m" "sels_ok env (m\<lparr>ui_model := x_model\<rparr>) = sels_ok env m"
  "sels_ok env (m\<lparr>ui_effort := x_effort\<rparr>) = sels_ok env m" "sels_ok env (m\<lparr>ui_stream := x_stream\<rparr>) = sels_ok env m"
  "sels_ok env (m\<lparr>ui_out := x_out\<rparr>) = sels_ok env m" "sels_ok env (m\<lparr>ui_copy := x_copy\<rparr>) = sels_ok env m"
  "sels_ok env (m\<lparr>ui_cmd_hist := x_cmd_hist\<rparr>) = sels_ok env m" "sels_ok env (m\<lparr>ui_ask_hist := x_ask_hist\<rparr>) = sels_ok env m"
  "sels_ok env (m\<lparr>ui_hist_idx := x_hist_idx\<rparr>) = sels_ok env m" "sels_ok env (m\<lparr>ui_hist_draft := x_hist_draft\<rparr>) = sels_ok env m"
  "sels_ok env (m\<lparr>ui_focus := x_focus\<rparr>) = sels_ok env m" "sels_ok env (m\<lparr>ui_mode := x_mode\<rparr>) = sels_ok env m"
  "sels_ok env (m\<lparr>ui_proc_win := x_proc_win\<rparr>) = sels_ok env m" "sels_ok env (m\<lparr>ui_procs := x_procs\<rparr>) = sels_ok env m"
  "sels_ok env (m\<lparr>ui_proc_next := x_proc_next\<rparr>) = sels_ok env m" "sels_ok env (m\<lparr>ui_proc_sel := x_proc_sel\<rparr>) = sels_ok env m"
  "sels_ok env (m\<lparr>ui_saved_mode := x_saved_mode\<rparr>) = sels_ok env m" "sels_ok env (m\<lparr>ui_saved_input := x_saved_input\<rparr>) = sels_ok env m"
  "sels_ok env (m\<lparr>ui_saved_hist := x_saved_hist\<rparr>) = sels_ok env m" "sels_ok env (m\<lparr>ui_in_view := x_in_view\<rparr>) = sels_ok env m"
  "sels_ok env (m\<lparr>ui_picker := x_picker\<rparr>) = sels_ok env m" "sels_ok env (m\<lparr>ui_conn := x_conn\<rparr>) = sels_ok env m"
  "sels_ok env (m\<lparr>ui_refresh := x_refresh\<rparr>) = sels_ok env m" "sels_ok env (m\<lparr>ui_quitting := x_quitting\<rparr>) = sels_ok env m"
  "sels_ok env (m\<lparr>ui_exit_all := x_exit_all\<rparr>) = sels_ok env m" "sels_ok env (m\<lparr>ui_filtering := x_filtering\<rparr>) = sels_ok env m"
  "sels_ok env (m\<lparr>ui_metadata := x_metadata\<rparr>) = sels_ok env m" "sels_ok env (m\<lparr>ui_prompt := x_prompt\<rparr>) = sels_ok env m"
  by (simp_all add: sels_ok_def)

lemma sels_texts [simp]:
  "sels_ok env (say xs m) = sels_ok env m" "sels_ok env (tell st t m) = sels_ok env m" "sels_ok env (remember r c m) = sels_ok env m"
  "sels_ok env (trimmed m) = sels_ok env m" "sels_ok env (drop_last_user m) = sels_ok env m" "sels_ok env (add_usage u m) = sels_ok env m"
  "sels_ok env (ai_replied shown c m) = sels_ok env m"
  by (simp_all add: tui_text_defs drop_last_user_eq add_usage_def ai_replied_def)

lemma sels_views [simp]:
  "sels_ok env (update_proc_prompt m) = sels_ok env m" "sels_ok env (enter_process_view m) = sels_ok env m"
  "sels_ok env (exit_process_view m) = sels_ok env m" "sels_ok env (rebuild_process_nodes m) = sels_ok env m"
  "sels_ok env (cycle_focus b m) = sels_ok env m" "sels_ok env (dump_process_output p m) = sels_ok env m"
  "sels_ok env (history_prev m) = sels_ok env m" "sels_ok env (history_next m) = sels_ok env m"
  "sels_ok env (toggle_input_mode m) = sels_ok env m"
proof -
  show prompt [simp]: "sels_ok env (update_proc_prompt m) = sels_ok env m" for m
    by (simp add: update_proc_prompt_def Let_def)
  show enter [simp]: "sels_ok env (enter_process_view m) = sels_ok env m" for m
    by (simp add: enter_process_view_def)
  show exit [simp]: "sels_ok env (exit_process_view m) = sels_ok env m" for m
    by (simp add: exit_process_view_def)
  show "sels_ok env (rebuild_process_nodes m) = sels_ok env m" "sels_ok env (cycle_focus b m) = sels_ok env m"
    "sels_ok env (dump_process_output p m) = sels_ok env m" "sels_ok env (history_prev m) = sels_ok env m"
    "sels_ok env (history_next m) = sels_ok env m" "sels_ok env (toggle_input_mode m) = sels_ok env m"
    by (simp_all add: rebuild_process_nodes_def cycle_focus_def dump_process_output_def history_prev_def history_next_def
        toggle_input_mode_def Let_def)
qed

text \<open>The handlers that change windows.\<close>

lemma sels_change:
  assumes "sels_ok env m" "\<And>w. sel_ok (te_sort env) w \<Longrightarrow> sel_ok (te_sort env) (f w)"
  shows "sels_ok env (change_window i f m)"
proof (cases "i < length (ui_windows m)")
  case True
  then have "sel_ok (te_sort env) (ui_windows m ! i)" using assms(1) by (simp add: sels_ok_def)
  then show ?thesis
    using assms by (auto simp: sels_ok_def change_window_def dest!: subsetD [OF set_update_subset_insert])
qed (use assms(1) in \<open>simp add: sels_ok_def change_window_def list_update_beyond\<close>)

lemma sels_toggle: "sels_ok env m \<Longrightarrow> sels_ok env (toggle_window i m)"
  unfolding toggle_window_change by (rule sels_change) (simp_all add: window_sel_ok)

lemma sels_ensure: "sels_ok env m \<Longrightarrow> sels_ok env (ensure_proc_window m)"
  by (auto simp: sels_ok_def ensure_proc_window_def window_sel_ok)

lemma sels_remove: "sels_ok env m \<Longrightarrow> sels_ok env (remove_proc_window m)"
  by (auto simp: sels_ok_def remove_proc_window_def exit_process_view_def Let_def dest: in_set_butlastD)

lemma sels_left: "sels_ok env m \<Longrightarrow> sels_ok env (procs_left ps m)"
  by (simp add: procs_left_def sels_remove Let_def)

lemma sels_process_pane: "sels_ok env m \<Longrightarrow> sels_ok env (fst (handle_key_process_pane k m))"
  unfolding handle_key_process_pane_def Let_def by (simp add: sels_left sels_remove sels_toggle)

lemma sels_run: "sels_ok env m \<Longrightarrow> sels_ok env (fst (run_command c m))"
  by (simp add: run_command_def start_background_process_def start_execution_def sels_ensure Let_def)

lemma sels_slash: "sels_ok env m \<Longrightarrow> sels_ok env (fst (handle_slash env' now input m))"
  unfolding handle_slash_def Let_def
  by (simp add: quit_def switch_model_def choose_effort_def apply_effort_def connected_def pick_def Let_def split: prod.split)

lemma sels_enter: "sels_ok env m \<Longrightarrow> sels_ok env (fst (enter_prompt env' now m))"
  unfolding enter_prompt_def Let_def by (simp add: quit_def start_ai_request_def sels_slash sels_run)

lemma sels_pane: "sels_ok env m \<Longrightarrow> sels_ok env (fst (handle_key_pane env k m))"
proof -
  assume ok: "sels_ok env m"
  have "sels_ok env r" if "offered m (r, es)" for r es
    using that ok by cases (simp_all add: start_side_def)
  then have resolved: "sels_ok env (fst (case map_of sidebar_actions s of
      Some resolve \<Rightarrow> (case resolve env i m of Some (hint, r) \<Rightarrow> r | None \<Rightarrow> (m, [])) | None \<Rightarrow> (m, [])))" for s i
    using ok actions_offer [of s _ env i m] by (fastforce split: option.split prod.split)
  show ?thesis
    unfolding handle_key_pane_def Let_def using ok
    by (simp add: resolved sels_change window_sel_ok sels_toggle switch_metadata_def split: key.split)
qed

lemma sels_filter: "sels_ok env m \<Longrightarrow> sels_ok env (fst (handle_key_filter k m))"
  unfolding handle_key_filter_def Let_def by (simp add: sels_change window_sel_ok split: key.split)

lemma sels_prompt: "sels_ok env m \<Longrightarrow> sels_ok env (fst (handle_key_prompt env k m))"
  using prompt_confirmed [of m env k] by cases (simp_all add: start_side_def)

lemma sels_key:
  assumes "sels_ok env m"
  shows "sels_ok env (fst (handle_key env now k m))"
proof (cases "sp_active (ui_prompt m)")
  case True
  then show ?thesis using sels_prompt [OF assms] by (simp add: prompted_key)
next
  case False
  have "sels_ok env (fst (handle_key_idle env now k m))"
    unfolding handle_key_idle_def using assms
    by (simp add: sels_filter sels_pane sels_process_pane sels_enter quit_def split: input_mode.split prod.split)
  moreover have "sels_ok env (fst (handle_key_picking env k m))"
    unfolding handle_key_picking_def using assms
    by (simp add: picked_def switch_model_def choose_effort_def Let_def split: option.split picker_kind.split)
  ultimately show ?thesis
    unfolding free_key [OF False] using assms
    by (simp add: handle_key_thinking_def handle_key_proposing_def handle_key_editing_def handle_key_executing_def sels_run Let_def
        split: tui_state.split)
qed

lemma sels_stored: "\<forall>w \<in> set ws. sel_ok (te_sort env) w \<Longrightarrow> \<forall>w \<in> set (objects_stored env rs ws). sel_ok (te_sort env) w"
  by (auto simp: objects_stored_def set_zip window_sel_ok)

lemma sels_update:
  assumes "sels_ok env m"
  shows "sels_ok env (fst (update env now mg m))"
proof (cases mg)
  case (ObjectsDone rs)
  have "sels_ok env (m\<lparr>ui_windows := objects_stored env rs (ui_windows m)\<rparr>)"
    using assms sels_stored by (simp add: sels_ok_def)
  then show ?thesis using ObjectsDone by (simp add: update_def refreshed_def)
next
  case (KeyMsg k)
  then show ?thesis using sels_key [OF assms] by (simp add: update_key)
next
  case (AIDone answer usage err)
  then show ?thesis using assms by (simp add: update_def handle_ai_done_def Let_def split: option.split)
next
  case (ExecDone err stdout stderr)
  then show ?thesis using assms by (simp add: update_def handle_exec_done_def start_ai_request_def Let_def)
next
  case (SideAction loads action copied err)
  then show ?thesis using assms by (simp add: update_def handle_side_action_def Let_def split: option.split)
next
  case (ModelsDone r)
  then show ?thesis using assms by (simp add: update_def handle_models_done_def pick_def split: sum.split list.split)
next
  case (ProcDone i err)
  then show ?thesis using assms by (simp add: update_def handle_proc_done_def refreshed_def Let_def split: option.split)
qed (use assms in \<open>simp_all add: update_def handle_proc_cancel_def refreshed_def connected_def split: prod.split\<close>)

lemma reachable_sels_ok: "(tui_step env)\<^sup>*\<^sup>* (new_tui spec commands asks period enabled fmt) m \<Longrightarrow> sels_ok env m"
proof (induction rule: rtranclp_induct)
  case base
  show ?case
    by (auto simp: sels_ok_def new_tui_def spec_windows_def object_window_def empty_window_def sel_ok_first split: option.splits)
next
  case (step m m')
  then show ?case by (auto elim: tui_step.cases intro: sels_update)
qed

section \<open>The sidebar on the screen\<close>

definition view_of :: "ai_tui \<Rightarrow> sidebar_view" where
  "view_of m =
     \<lparr>sv_loading = rf_loading (ui_refresh m), sv_filtering = ui_filtering m, sv_focus = ui_focus m,
      sv_procs = length (ui_procs m), sv_proc_sel = ui_proc_sel m, sv_windows = ui_windows m\<rparr>"

lemma view_of_simps:
  "sv_loading (view_of m) = rf_loading (ui_refresh m)" "sv_filtering (view_of m) = ui_filtering m" "sv_focus (view_of m) = ui_focus m"
  "sv_procs (view_of m) = length (ui_procs m)" "sv_proc_sel (view_of m) = ui_proc_sel m" "sv_windows (view_of m) = ui_windows m"
  by (simp_all add: view_of_def)

lemma reachable_view_ok:
  assumes "(tui_step env)\<^sup>*\<^sup>* (new_tui spec commands asks period enabled fmt) m"
  shows "view_ok (te_sort env) (view_of m)"
  using reachable_sels_ok [OF assms] reachable_tui_ok [OF assms]
  by (auto simp: view_ok_def view_of_def sels_ok_def sel_ok_def tui_ok_defs split: if_splits)

lemma proc_window_procs: "tui_ok m \<Longrightarrow> i < length (ui_windows m) \<Longrightarrow> ow_kind (ui_windows m ! i) = ProcWindow \<Longrightarrow> ui_procs m \<noteq> []"
  by (force simp: tui_ok_def windows_ok_def)

text \<open>
  C40: In every state that the shell can reach, whatever the height of the screen and the order of
  \<open>sort.Slice\<close>: while no filter is typed, the lines of the sidebar are exactly as many as the screen has, unless
  they do not fit although every window but the one with the focus is collapsed; no window that is
  shown open has fewer than three rows if it has that many; and the window that has the focus, unless the
  user has collapsed it, is open and shows the selected row.
\<close>

theorem sidebar_fits:
  assumes "(tui_step env)\<^sup>*\<^sup>* (new_tui spec commands asks period enabled fmt) m" and "1 \<le> height"
    and "window_heights (te_sort env) height (view_of m) = (alloc, auto)"
  shows "(\<not> ui_filtering m \<longrightarrow>
      int (length (fst (render_sidebar (te_sort env) height (view_of m)))) = height \<or>
      (\<forall>i < length (ui_windows m). ui_focus m = Suc i \<or> ow_collapsed (ui_windows m ! i) \<or> auto ! i)) \<and>
    (\<forall>i < length (ui_windows m). \<not> auto ! i \<longrightarrow>
      min 3 (natural_rows (te_sort env) (rf_loading (ui_refresh m)) (length (ui_procs m)) (ui_windows m ! i)) \<le> alloc ! i) \<and>
    (\<forall>i < length (ui_windows m). ui_focus m = Suc i \<and> \<not> ow_collapsed (ui_windows m ! i) \<longrightarrow>
      \<not> auto ! i \<and>
      (ow_kind (ui_windows m ! i) = ProcWindow \<longrightarrow>
         RowLine (ui_proc_sel m) \<in> set (window_section (te_sort env) height (view_of m) i)) \<and>
      (ow_kind (ui_windows m ! i) = ObjectWindow \<and> ow_nodes (ui_windows m ! i) \<noteq> None \<and> ow_err (ui_windows m ! i) = None \<and>
         sidebar_rows (te_sort env) (ui_windows m ! i) \<noteq> [] \<longrightarrow>
         RowLine (ow_sel (ui_windows m ! i)) \<in> set (window_section (te_sort env) height (view_of m) i) \<and>
         selected_row (te_sort env) (ui_windows m ! i) \<noteq> None))"
proof -
  note ok = reachable_view_ok [OF assms(1)]
  have focus: "focused_window (view_of m) = Some i \<longleftrightarrow> ui_focus m = Suc i" if "i < length (ui_windows m)" for i
    using that by (auto simp: focused_window_def view_of_simps)
  note heights = window_heights_fit [OF assms(3)]
  have "int (length (fst (render_sidebar (te_sort env) height (view_of m)))) = height \<or>
      (\<forall>i < length (ui_windows m). ui_focus m = Suc i \<or> ow_collapsed (ui_windows m ! i) \<or> auto ! i)" if "\<not> ui_filtering m"
    using render_sidebar_fits [OF ok _ assms(2,3)] that focus by (auto simp: view_of_simps)
  moreover have "min 3 (natural_rows (te_sort env) (rf_loading (ui_refresh m)) (length (ui_procs m)) (ui_windows m ! i)) \<le> alloc ! i"
    if "i < length (ui_windows m)" "\<not> auto ! i" for i
    using heights(4) [of i] that by (auto simp: view_of_simps floor_rows_def min_def split: if_splits)
  moreover have "\<not> auto ! i \<and>
      (ow_kind (ui_windows m ! i) = ProcWindow \<longrightarrow>
         RowLine (ui_proc_sel m) \<in> set (window_section (te_sort env) height (view_of m) i)) \<and>
      (ow_kind (ui_windows m ! i) = ObjectWindow \<and> ow_nodes (ui_windows m ! i) \<noteq> None \<and> ow_err (ui_windows m ! i) = None \<and>
         sidebar_rows (te_sort env) (ui_windows m ! i) \<noteq> [] \<longrightarrow>
         RowLine (ow_sel (ui_windows m ! i)) \<in> set (window_section (te_sort env) height (view_of m) i) \<and>
         selected_row (te_sort env) (ui_windows m ! i) \<noteq> None)"
    if i: "i < length (ui_windows m)" "ui_focus m = Suc i" "\<not> ow_collapsed (ui_windows m ! i)" for i
  proof -
    have f: "focused_window (view_of m) = Some i" using focus i by simp
    have "ow_kind (ui_windows m ! i) = ProcWindow \<Longrightarrow> ui_procs m \<noteq> []"
      using proc_window_procs [OF reachable_tui_ok [OF assms(1)] i(1)] .
    moreover have "sidebar_rows (te_sort env) (ui_windows m ! i) \<noteq> [] \<Longrightarrow> selected_row (te_sort env) (ui_windows m ! i) \<noteq> None"
      using reachable_sels_ok [OF assms(1)] i(1) by (auto simp: sels_ok_def sel_ok_def selected_row_def Let_def)
    ultimately show ?thesis
      using focus_shows_selection [OF ok f, of height] heights(3) [of i] i by (auto simp: view_of_simps f)
  qed
  ultimately show ?thesis by blast
qed

text \<open>Five queues on a screen of five lines.\<close>

definition five_queues :: ai_tui where
  "five_queues =
     fst (update sample_tui 0 (ObjectsDone [(Some (map (\<lambda>n. ObjectNode n [] [] []) [''c'', ''a'', ''b'', ''d'', ''e'']), None)])
       (fst (update sample_tui 0 (KeyMsg KeyTab) sample_start)))"

lemma five_queues_reachable: "(tui_step sample_tui)\<^sup>*\<^sup>* sample_start five_queues"
  unfolding five_queues_def by (intro tui_run) simp

lemma five_queues_state:
  "ui_focus five_queues = 1 \<and> map ow_sel (ui_windows five_queues) = [0] \<and> map ow_collapsed (ui_windows five_queues) = [False] \<and>
   map ow_kind (ui_windows five_queues) = [ObjectWindow] \<and> map ow_err (ui_windows five_queues) = [None] \<and>
   map (\<lambda>w. ow_nodes w \<noteq> None) (ui_windows five_queues) = [True] \<and>
   map (\<lambda>w. map (on_name o fst) (sidebar_rows insertion_sort w)) (ui_windows five_queues) = [[''a'', ''b'', ''c'', ''d'', ''e'']]"
  by code_simp

theorem sidebar_fits_witness:
  "RowLine 0 \<in> set (window_section insertion_sort 5 (view_of five_queues) 0)"
proof -
  obtain alloc auto where h: "window_heights (te_sort sample_tui) 5 (view_of five_queues) = (alloc, auto)" by (metis surj_pair)
  obtain w where w: "ui_windows five_queues = [w]" using five_queues_state by (auto simp: map_eq_Cons_conv)
  have "sidebar_rows insertion_sort w \<noteq> []" "ow_sel w = 0" "\<not> ow_collapsed w" "ow_kind w = ObjectWindow" "ow_err w = None"
    "ow_nodes w \<noteq> None" "ui_focus five_queues = 1"
    using five_queues_state by (auto simp: w)
  moreover have "te_sort sample_tui = insertion_sort" by (simp add: sample_tui_def)
  ultimately show ?thesis
    using sidebar_fits [OF five_queues_reachable _ h] by (simp add: w)
qed

end
