(* ===== verification/Ai_Confirm.thy ===== *)
theory Ai_Confirm
  imports Ai_Selections
begin

text \<open>
  The actions of the sidebar of the AI shell: which key starts them, and what the prompt that
  precedes the ones that change the broker was opened for (src/cmd/aisidebaractions.go, aikeys.go).
\<close>

section \<open>The prompt\<close>

text \<open>
  A key that opens a prompt: the state in which it was pressed has the prompt's window in focus and
  its object selected.
\<close>

definition opens_prompt :: "tui_env \<Rightarrow> ai_tui \<Rightarrow> key \<Rightarrow> side_prompt \<Rightarrow> bool" where
  "opens_prompt env m k p \<longleftrightarrow>
     \<not> sp_active (ui_prompt m) \<and> ui_state m = Idle \<and> ui_focus m = Suc (sp_window p) \<and> sp_window p < length (ui_windows m) \<and>
     (let w = ui_windows m ! sp_window p; row = selected_row (te_sort env) w
      in case sp_kind p of
           NoPrompt \<Rightarrow> False
         | PromptCreate \<Rightarrow> k = KeyRunes ''c'' \<and> ow_create w \<noteq> None
         | PromptDelete \<Rightarrow> k = KeyRunes ''d'' \<and> ow_delete w \<noteq> None \<and> map_option (\<lambda>r. (on_name (fst r), snd r)) row = Some (sp_name p, []) \<and>
             sp_name p \<noteq> []
         | PromptPurge \<Rightarrow> k = KeyRunes ''P'' \<and> can_purge env \<and> ow_label w \<in> {''Queues'', ''Streams''} \<and>
             map_option (\<lambda>r. (on_name (fst r), snd r)) row = Some (sp_name p, []) \<and> sp_name p \<noteq> []
         | PromptPurgeSubscription \<Rightarrow> k = KeyRunes ''P'' \<and> can_purge_subscription env \<and> ow_label w = ''Topics'' \<and>
             map_option (\<lambda>r. (on_kind (fst r), on_name (fst r), snd r)) row = Some (''subscription'', sp_name p, sp_target p) \<and>
             sp_name p \<noteq> [] \<and> sp_target p \<noteq> []
         | PromptSend \<Rightarrow> k = KeyRunes ''S'' \<and> supports_srp (ow_label w) \<and>
             map_option (\<lambda>r. (on_kind (fst r), on_name (fst r), snd r)) row = Some (sp_node_kind p, sp_target p, []) \<and> sp_target p \<noteq> []
         | PromptPublish \<Rightarrow> k = KeyRunes ''P'' \<and> ow_label w = ''Topics'' \<and>
             map_option (\<lambda>r. (on_name (fst r), snd r)) row = Some (sp_target p, []) \<and> sp_target p \<noteq> [])"

lemma prompt_frame [simp]:
  "ui_prompt (say xs m) = ui_prompt m" "ui_prompt (tell st t m) = ui_prompt m" "ui_prompt (remember r c m) = ui_prompt m"
  "ui_prompt (trimmed m) = ui_prompt m" "ui_prompt (drop_last_user m) = ui_prompt m" "ui_prompt (add_usage u m) = ui_prompt m"
  "ui_prompt (ai_replied shown c m) = ui_prompt m"
  by (simp_all add: tui_text_defs drop_last_user_eq add_usage_def ai_replied_def)

lemma prompt_views [simp]:
  "ui_prompt (update_proc_prompt m) = ui_prompt m" "ui_prompt (enter_process_view m) = ui_prompt m"
  "ui_prompt (exit_process_view m) = ui_prompt m" "ui_prompt (rebuild_process_nodes m) = ui_prompt m"
  "ui_prompt (cycle_focus b m) = ui_prompt m" "ui_prompt (dump_process_output p m) = ui_prompt m"
  "ui_prompt (history_prev m) = ui_prompt m" "ui_prompt (history_next m) = ui_prompt m"
  "ui_prompt (toggle_input_mode m) = ui_prompt m" "ui_prompt (ensure_proc_window m) = ui_prompt m"
  "ui_prompt (remove_proc_window m) = ui_prompt m" "ui_prompt (procs_left ps m) = ui_prompt m"
  "ui_prompt (toggle_window i m) = ui_prompt m" "ui_prompt (change_window i f m) = ui_prompt m"
proof -
  show prompt [simp]: "ui_prompt (update_proc_prompt m) = ui_prompt m" for m
    by (simp add: update_proc_prompt_def Let_def)
  show enter [simp]: "ui_prompt (enter_process_view m) = ui_prompt m" for m
    by (simp add: enter_process_view_def)
  show exit [simp]: "ui_prompt (exit_process_view m) = ui_prompt m" for m
    by (simp add: exit_process_view_def)
  show rebuild [simp]: "ui_prompt (rebuild_process_nodes m) = ui_prompt m" for m
    by (simp add: rebuild_process_nodes_def Let_def)
  show remove [simp]: "ui_prompt (remove_proc_window m) = ui_prompt m" for m
    by (simp add: remove_proc_window_def Let_def)
  show "ui_prompt (cycle_focus b m) = ui_prompt m" "ui_prompt (dump_process_output p m) = ui_prompt m"
    "ui_prompt (history_prev m) = ui_prompt m" "ui_prompt (history_next m) = ui_prompt m"
    "ui_prompt (toggle_input_mode m) = ui_prompt m" "ui_prompt (ensure_proc_window m) = ui_prompt m"
    "ui_prompt (procs_left ps m) = ui_prompt m" "ui_prompt (toggle_window i m) = ui_prompt m" "ui_prompt (change_window i f m) = ui_prompt m"
    by (simp_all add: cycle_focus_def dump_process_output_def history_prev_def history_next_def toggle_input_mode_def ensure_proc_window_def
        procs_left_def toggle_window_def change_window_def Let_def)
qed

lemma prompt_handlers [simp]:
  "ui_prompt (fst (run_command c m)) = ui_prompt m" "ui_prompt (fst (handle_slash env now input m)) = ui_prompt m"
  "ui_prompt (fst (handle_key_process_pane k m)) = ui_prompt m" "ui_prompt (fst (handle_key_filter k m)) = ui_prompt m"
  "ui_prompt (fst (handle_key_picking env k m)) = ui_prompt m"
proof -
  show "ui_prompt (fst (run_command c m)) = ui_prompt m"
    by (simp add: run_command_def start_background_process_def start_execution_def Let_def)
  show "ui_prompt (fst (handle_slash env now input m)) = ui_prompt m"
    unfolding handle_slash_def Let_def
    by (simp add: quit_def switch_model_def choose_effort_def apply_effort_def connected_def pick_def Let_def split: prod.split)
  show "ui_prompt (fst (handle_key_process_pane k m)) = ui_prompt m"
    unfolding handle_key_process_pane_def Let_def by simp
  show "ui_prompt (fst (handle_key_filter k m)) = ui_prompt m"
    unfolding handle_key_filter_def Let_def by (simp split: key.split)
  show "ui_prompt (fst (handle_key_picking env k m)) = ui_prompt m"
    unfolding handle_key_picking_def
    by (simp add: picked_def switch_model_def choose_effort_def Let_def split: option.split picker_kind.split)
qed

lemma prompt_messages [simp]:
  "ui_prompt (fst (connected r m)) = ui_prompt m" "ui_prompt (fst (refreshed q m)) = ui_prompt m"
  "ui_prompt (fst (handle_proc_done now i err m)) = ui_prompt m"
  by (simp_all add: connected_def refreshed_def handle_proc_done_def Let_def split: prod.split option.split)

lemma prompt_enter_frame [simp]: "ui_prompt (fst (enter_prompt env now m)) = ui_prompt m"
  unfolding enter_prompt_def Let_def by (simp add: quit_def start_ai_request_def)

text \<open>The actions of the sidebar among the effects of a handler.\<close>

fun job_of :: "effect \<Rightarrow> side_job list" where
  "job_of (Start (SideTask job)) = [job]"
| "job_of e = []"

definition jobs_started :: "effect list \<Rightarrow> side_job list" where
  "jobs_started es = concat (map job_of es)"

lemma jobs_started_simps [simp]:
  "jobs_started [] = []" "jobs_started (e # es) = job_of e @ jobs_started es"
  "jobs_started (map Call cs) = []" "jobs_started (cancels ps) = []" "jobs_started (cancel_task m) = []"
  by (auto simp: jobs_started_def cancels_def cancel_task_def split: option.split)

section \<open>What the table offers\<close>

text \<open>A read that the key starts at once.\<close>

definition direct_read :: "tui_env \<Rightarrow> ai_tui \<Rightarrow> key \<Rightarrow> side_job \<Rightarrow> bool" where
  "direct_read env m k job \<longleftrightarrow>
     (\<exists>w n parent mode. focus_window m = Some w \<and> selected_row (te_sort env) w = Some (n, parent) \<and> on_name n \<noteq> [] \<and>
        k = KeyRunes (case mode of ReadMode \<Rightarrow> ''R'' | PeekMode \<Rightarrow> ''p'' | MetadataMode fmt \<Rightarrow> ''m'') \<and>
        (parent = [] \<and> ow_label w \<in> {''Queues'', ''Streams''} \<and> job = ReadQueue mode (on_name n) \<or>
         parent \<noteq> [] \<and> ow_label w = ''Topics'' \<and> on_kind n = ''subscription'' \<and> job = ReadSubscription mode parent (on_name n)))"

lemma selected_nodes:
  "focus_window m = Some w \<Longrightarrow> selected_top_node env m = Some n \<longleftrightarrow> selected_row (te_sort env) w = Some (n, [])"
  "focus_window m = Some w \<Longrightarrow> selected_child_node env m = Some (n, parent) \<longleftrightarrow> selected_row (te_sort env) w = Some (n, parent) \<and> parent \<noteq> []"
  by (auto simp: selected_top_node_def selected_child_node_def selected_top_level_def selected_child_def split: option.splits if_splits)

lemma focus_window_nth: "0 < ui_focus m \<Longrightarrow> ui_focus m - 1 < length (ui_windows m) \<Longrightarrow> focus_window m = Some (ui_windows m ! (ui_focus m - 1))"
  by (simp add: focus_window_def)

text \<open>What a key of the table does: it opens a prompt for the selection, or reads from it.\<close>

definition acts :: "tui_env \<Rightarrow> ai_tui \<Rightarrow> key \<Rightarrow> handled \<Rightarrow> bool" where
  "acts env m k r \<longleftrightarrow>
     (\<exists>p. r = (m\<lparr>ui_prompt := p\<rparr>, []) \<and> opens_prompt env m k p) \<or> (\<exists>desc job. r = start_side desc job m \<and> direct_read env m k job)"

lemma read_acts:
  "direct_read env m k job \<Longrightarrow> acts env m k (start_side desc job m)"
  by (auto simp: acts_def)

lemma prompt_acts: "opens_prompt env m k p \<Longrightarrow> acts env m k (m\<lparr>ui_prompt := p\<rparr>, [])"
  by (auto simp: acts_def)

text \<open>The state in which a key of the table is handled, with the window \<open>w\<close> in focus.\<close>

definition acting :: "ai_tui \<Rightarrow> obj_window \<Rightarrow> bool" where
  "acting m w \<longleftrightarrow> focus_window m = Some w \<and> ui_state m = Idle \<and> \<not> sp_active (ui_prompt m)"

lemma actingD:
  assumes "acting m w"
  shows "0 < ui_focus m" "ui_focus m - 1 < length (ui_windows m)" "ui_windows m ! (ui_focus m - Suc 0) = w" "ui_state m = Idle"
    "\<not> sp_active (ui_prompt m)" "ui_focus m = Suc (ui_focus m - 1)"
  using assms by (auto simp: acting_def focus_window_def split: if_splits)

lemma child_read:
  assumes "acting m w" "selected_child_node env m = Some (n, parent)" "subscription_eligible (ow_label w) (on_kind n)" "on_name n \<noteq> []"
    and "k = KeyRunes (case mode of ReadMode \<Rightarrow> ''R'' | PeekMode \<Rightarrow> ''p'' | MetadataMode fmt \<Rightarrow> ''m'')"
  shows "acts env m k (start_side desc (ReadSubscription mode parent (on_name n)) m)"
proof (rule read_acts)
  have w: "focus_window m = Some w" using assms(1) by (simp add: acting_def)
  from assms selected_nodes(2) [OF w, of env n parent]
  show "direct_read env m k (ReadSubscription mode parent (on_name n))"
    unfolding direct_read_def
    by (intro exI [of _ w] exI [of _ n] exI [of _ parent] exI [of _ mode]) (simp add: w subscription_eligible_def)
qed

lemma top_read:
  assumes "acting m w" "selected_top_node env m = Some n" "ow_label w \<in> {''Queues'', ''Streams''}" "on_name n \<noteq> []"
    and "k = KeyRunes (case mode of ReadMode \<Rightarrow> ''R'' | PeekMode \<Rightarrow> ''p'' | MetadataMode fmt \<Rightarrow> ''m'')"
  shows "acts env m k (start_side desc (ReadQueue mode (on_name n)) m)"
proof (rule read_acts)
  have w: "focus_window m = Some w" using assms(1) by (simp add: acting_def)
  from assms selected_nodes(1) [OF w, of env n]
  show "direct_read env m k (ReadQueue mode (on_name n))"
    unfolding direct_read_def
    by (intro exI [of _ w] exI [of _ n] exI [of _ "[]"] exI [of _ mode]) (simp add: w)
qed

lemma create_acts:
  assumes "acting m w" "resolve_create (ui_focus m - 1) m = Some (hint, r)"
  shows "acts env m (KeyRunes ''c'') r"
  using assms(2) actingD [OF assms(1)]
  by (auto simp: resolve_create_def start_prompt_def opens_prompt_def intro!: prompt_acts split: if_splits)

lemma delete_acts:
  assumes "acting m w" "resolve_delete env (ui_focus m - 1) m = Some (hint, r)"
  shows "acts env m (KeyRunes ''d'') r"
proof -
  note d = actingD [OF assms(1)]
  from assms(2) obtain n where n: "selected_top_node env m = Some n" "on_name n \<noteq> []" "ow_delete w \<noteq> None"
      "r = (start_prompt PromptDelete (ui_focus m - 1) (on_name n) m, [])"
    by (auto simp: resolve_delete_def d(3) split: if_splits option.splits)
  with selected_nodes(1) [of m w env n] assms(1) d show ?thesis
    by (simp add: start_prompt_def acting_def, intro prompt_acts) (simp add: opens_prompt_def)
qed

lemma send_acts:
  assumes "acting m w" "resolve_send env (ui_focus m - 1) m = Some (hint, r)"
  shows "acts env m (KeyRunes ''S'') r"
proof -
  note d = actingD [OF assms(1)]
  from assms(2) obtain n where n: "selected_top_node env m = Some n" "on_name n \<noteq> []" "supports_srp (ow_label w)"
      "r = (m\<lparr>ui_prompt := (ui_prompt m)\<lparr>sp_active := True, sp_kind := PromptSend, sp_window := ui_focus m - 1, sp_name := [],
        sp_target := on_name n, sp_node_kind := on_kind n\<rparr>\<rparr>, [])"
    by (auto simp: resolve_send_def start_prompt_def prompt_target_def d(3) Let_def split: if_splits option.splits)
  with selected_nodes(1) [of m w env n] assms(1) d show ?thesis
    by (simp add: acting_def, intro prompt_acts) (simp add: opens_prompt_def)
qed

lemma purge_publish_acts:
  assumes "acting m w" "resolve_purge_publish env (ui_focus m - 1) m = Some (hint, r)"
  shows "acts env m (KeyRunes ''P'') r"
proof -
  note d = actingD [OF assms(1)]
  have w: "focus_window m = Some w" using assms(1) by (simp add: acting_def)
  show ?thesis
  proof (cases "ow_label w = ''Topics''")
    case True
    show ?thesis
    proof (cases "selected_child_node env m")
      case None
      from assms(2) True None obtain n where n: "selected_top_node env m = Some n" "on_name n \<noteq> []"
          "r = (m\<lparr>ui_prompt := (ui_prompt m)\<lparr>sp_active := True, sp_kind := PromptPublish, sp_window := ui_focus m - 1, sp_name := [],
            sp_target := on_name n\<rparr>\<rparr>, [])"
        by (auto simp: resolve_purge_publish_def start_prompt_def prompt_target_def d(3) Let_def split: if_splits option.splits)
      with selected_nodes(1) [OF w, of env n] d True show ?thesis
        by (simp, intro prompt_acts) (simp add: opens_prompt_def)
    next
      case (Some row)
      obtain n parent where row: "row = (n, parent)" by (cases row)
      from assms(2) True Some row have n: "subscription_eligible (ow_label w) (on_kind n)" "on_name n \<noteq> []" "can_purge_subscription env"
          "r = (m\<lparr>ui_prompt := (ui_prompt m)\<lparr>sp_active := True, sp_kind := PromptPurgeSubscription, sp_window := ui_focus m - 1,
            sp_name := on_name n, sp_target := parent\<rparr>\<rparr>, [])"
        by (auto simp: resolve_purge_publish_def start_prompt_def prompt_target_def d(3) Let_def split: if_splits)
      with selected_nodes(2) [OF w, of env n parent] d True Some row show ?thesis
        by (simp, intro prompt_acts) (simp add: opens_prompt_def subscription_eligible_def)
    qed
  next
    case False
    with assms(2) obtain n where n: "selected_top_node env m = Some n" "on_name n \<noteq> []" "can_purge env"
        "supports_srp (ow_label w)" "purge_receive_allowed (ow_label w)"
        "r = (m\<lparr>ui_prompt := (ui_prompt m)\<lparr>sp_active := True, sp_kind := PromptPurge, sp_window := ui_focus m - 1,
          sp_name := on_name n\<rparr>\<rparr>, [])"
      by (auto simp: resolve_purge_publish_def start_prompt_def d(3) Let_def split: if_splits option.splits)
    with selected_nodes(1) [OF w, of env n] d show ?thesis
      by (simp, intro prompt_acts) (auto simp: opens_prompt_def supports_srp_def purge_receive_allowed_def)
  qed
qed

lemma receive_acts:
  assumes "acting m w" "resolve_receive env (ui_focus m - 1) m = Some (hint, r)"
  shows "acts env m (KeyRunes ''R'') r"
proof (cases "selected_child_node env m")
  case None
  with assms(2) obtain n where "selected_top_node env m = Some n" "on_name n \<noteq> []" "supports_srp (ow_label w)"
      "purge_receive_allowed (ow_label w)"
      "r = start_side (''receive '' @ singular (ow_label w) @ '' '' @ quoted (on_name n)) (ReadQueue ReadMode (on_name n)) m"
    by (auto simp: resolve_receive_def actingD(3) [OF assms(1)] Let_def split: if_splits option.splits)
  then show ?thesis by (auto simp: supports_srp_def purge_receive_allowed_def intro!: top_read [OF assms(1)])
next
  case (Some row)
  with assms(2) show ?thesis
    by (cases row) (auto simp: resolve_receive_def actingD(3) [OF assms(1)] Let_def intro!: child_read [OF assms(1)] split: if_splits)
qed

lemma peek_acts:
  assumes "acting m w" "resolve_peek b env (ui_focus m - 1) m = Some (hint, r)" "k = KeyRunes (if b then ''m'' else ''p'')"
  shows "acts env m k r"
proof (cases "selected_child_node env m")
  case None
  with assms(2) obtain n desc where "selected_top_node env m = Some n" "on_name n \<noteq> []" "ow_label w \<in> {''Queues'', ''Streams''}"
      "r = start_side desc (ReadQueue (if b then MetadataMode (ui_metadata m) else PeekMode) (on_name n)) m"
    by (auto simp: resolve_peek_def actingD(3) [OF assms(1)] Let_def split: if_splits option.splits)
  then show ?thesis using assms(3) by (cases b) (auto intro!: top_read [OF assms(1)])
next
  case (Some row)
  obtain n parent where row: "row = (n, parent)" by (cases row)
  with Some assms(2) obtain desc where "subscription_eligible (ow_label w) (on_kind n)" "on_name n \<noteq> []"
      "r = start_side desc (ReadSubscription (if b then MetadataMode (ui_metadata m) else PeekMode) parent (on_name n)) m"
    by (auto simp: resolve_peek_def actingD(3) [OF assms(1)] Let_def split: if_splits)
  then show ?thesis using assms(3) Some row by (cases b) (auto intro!: child_read [OF assms(1)])
qed

lemma action_acts:
  assumes "acting m w" "map_of sidebar_actions s = Some resolve" "resolve env (ui_focus m - 1) m = Some (hint, r)"
  shows "acts env m (KeyRunes s) r"
  using assms(2,3) create_acts [OF assms(1)] delete_acts [OF assms(1)] send_acts [OF assms(1)] purge_publish_acts [OF assms(1)]
    receive_acts [OF assms(1)] peek_acts [OF assms(1), of True] peek_acts [OF assms(1), of False]
  by (simp add: sidebar_actions_def split: if_splits) blast+

text \<open>A key in a window of objects either acts, or leaves the prompt alone and starts nothing.\<close>

lemma pane_acts:
  assumes "ui_state m = Idle" "\<not> sp_active (ui_prompt m)"
  shows "acts env m k (handle_key_pane env k m) \<or>
    ui_prompt (fst (handle_key_pane env k m)) = ui_prompt m \<and> jobs_started (snd (handle_key_pane env k m)) = []"
proof -
  let ?quiet = "\<lambda>r. acts env m k r \<or> ui_prompt (fst r) = ui_prompt m \<and> jobs_started (snd r) = []"
  have resolved: "?quiet (case map_of sidebar_actions s of
      Some resolve \<Rightarrow> (case resolve env (ui_focus m - 1) m of Some (hint, r) \<Rightarrow> r | None \<Rightarrow> (m, [])) | None \<Rightarrow> (m, []))"
    if "k = KeyRunes s" "0 < ui_focus m" "ui_focus m - 1 < length (ui_windows m)" for s
  proof -
    have "acting m (ui_windows m ! (ui_focus m - 1))"
      using that assms by (simp add: acting_def focus_window_def)
    from action_acts [OF this, of s] that(1) show ?thesis by (simp split: option.split prod.split)
  qed
  show ?thesis
    unfolding handle_key_pane_def Let_def
    using resolved by (simp add: switch_metadata_def split: key.split)
qed

section \<open>One step\<close>

lemma jobs_quiet [simp]:
  "jobs_started (snd (handle_key_process_pane k m)) = []" "jobs_started (snd (handle_key_filter k m)) = []"
  "jobs_started (snd (run_command c m)) = []" "jobs_started (snd (connected r m)) = []" "jobs_started (snd (refreshed q m)) = []"
  "jobs_started (snd (handle_slash env now input m)) = []" "jobs_started (snd (handle_proc_done now i err m)) = []"
  "jobs_started (snd (handle_key_thinking k m)) = []" "jobs_started (snd (handle_key_picking env k m)) = []"
  "jobs_started (snd (handle_key_executing k m)) = []" "jobs_started (snd (handle_key_proposing k m)) = []"
  "jobs_started (snd (handle_key_editing env k m)) = []" "jobs_started (snd (enter_prompt env now m)) = []"
proof -
  show "jobs_started (snd (handle_proc_done now i err m)) = []"
    by (simp add: handle_proc_done_def refreshed_def Let_def split: option.split)
  show slash: "jobs_started (snd (handle_slash env now input m)) = []" for input m
    unfolding handle_slash_def Let_def by (simp add: connected_def quit_def split: prod.split)
  show run: "jobs_started (snd (run_command c m)) = []" for c m
    by (simp add: run_command_def start_background_process_def start_execution_def Let_def)
  show "jobs_started (snd (handle_key_filter k m)) = []"
    unfolding handle_key_filter_def Let_def by (simp split: key.split)
  show "jobs_started (snd (enter_prompt env now m)) = []"
    unfolding enter_prompt_def Let_def by (simp add: slash run quit_def start_ai_request_def)
  show "jobs_started (snd (handle_key_proposing k m)) = []" "jobs_started (snd (handle_key_editing env k m)) = []"
    by (simp_all add: handle_key_proposing_def handle_key_editing_def run Let_def)
qed (simp_all add: handle_key_process_pane_def connected_def refreshed_def handle_key_thinking_def
    handle_key_picking_def handle_key_executing_def Let_def split: prod.split option.split)

text \<open>A key without a prompt.\<close>

lemma free_key_acts:
  assumes "\<not> sp_active (ui_prompt m)"
  shows "acts env m k (handle_key env now k m) \<or>
    ui_prompt (fst (handle_key env now k m)) = ui_prompt m \<and> jobs_started (snd (handle_key env now k m)) = []"
proof (cases "ui_state m")
  case Idle
  note pane = pane_acts [OF Idle assms, of env]
  show ?thesis
    unfolding free_key [OF assms] Idle handle_key_idle_def
    using pane by (simp add: quit_def split: input_mode.split prod.split)
qed (simp_all add: free_key [OF assms] handle_key_thinking_def handle_key_proposing_def handle_key_editing_def
    handle_key_executing_def Let_def)

text \<open>A prompt keeps what it was opened for; the text is typed unless it is a name to confirm.\<close>

definition same_request :: "side_prompt \<Rightarrow> side_prompt \<Rightarrow> bool" where
  "same_request p q \<longleftrightarrow>
     sp_kind p = sp_kind q \<and> sp_window p = sp_window q \<and> sp_target p = sp_target q \<and> sp_node_kind p = sp_node_kind q \<and>
     (sp_kind q \<in> {PromptDelete, PromptPurge, PromptPurgeSubscription} \<longrightarrow> sp_name p = sp_name q)"

lemma same_request_refl [simp]: "same_request p p"
  by (simp add: same_request_def)

lemma same_request_trans: "same_request p q \<Longrightarrow> same_request q r \<Longrightarrow> same_request p r"
  by (simp add: same_request_def)

text \<open>The action that a prompt stands for.\<close>

definition confirms :: "tui_env \<Rightarrow> ai_tui \<Rightarrow> side_job \<Rightarrow> bool" where
  "confirms env m job \<longleftrightarrow>
     (let p = ui_prompt m; w = ui_windows m ! sp_window p; name = sp_name p
      in case sp_kind p of
           NoPrompt \<Rightarrow> False
         | PromptCreate \<Rightarrow> trim_space name \<noteq> [] \<and> (\<exists>x. ow_create w = Some x \<and> job = ManageCall x (trim_space name))
         | PromptDelete \<Rightarrow> (\<exists>x. ow_delete w = Some x \<and> job = ManageCall x name)
         | PromptPurge \<Rightarrow> can_purge env \<and> job = PurgeCall name
         | PromptPurgeSubscription \<Rightarrow> can_purge_subscription env \<and> job = PurgeSubscriptionCall (sp_target p) name
         | PromptSend \<Rightarrow> name \<noteq> [] \<and> job = (if send_via_topic (ow_label w) (sp_node_kind p) then PublishCall else SendCall) (sp_target p) name
         | PromptPublish \<Rightarrow> name \<noteq> [] \<and> job = PublishCall (sp_target p) name)"

lemma start_side_parts [simp]:
  "ui_prompt (fst (start_side desc job m)) = ui_prompt m" "jobs_started (snd (start_side desc job m)) = [job]"
  by (simp_all add: start_side_def)

lemma close_prompt_inactive [simp]: "\<not> sp_active (ui_prompt (close_prompt m))"
  by (simp add: close_prompt_def)

lemma prompt_enter_acts:
  "(sp_active (ui_prompt (fst (prompt_enter env (ui_windows m ! sp_window (ui_prompt m)) m))) \<longrightarrow>
      fst (prompt_enter env (ui_windows m ! sp_window (ui_prompt m)) m) = m) \<and>
   (\<forall>job \<in> set (jobs_started (snd (prompt_enter env (ui_windows m ! sp_window (ui_prompt m)) m))). confirms env m job)"
  by (cases "sp_kind (ui_prompt m)") (auto simp: prompt_enter_def confirms_def Let_def split: option.split)

lemma prompt_key_acts:
  "(sp_active (ui_prompt (fst (handle_key_prompt env k m))) \<longrightarrow> same_request (ui_prompt m) (ui_prompt (fst (handle_key_prompt env k m)))) \<and>
   (\<forall>job \<in> set (jobs_started (snd (handle_key_prompt env k m))). k = KeyEnter \<and> confirms env m job)"
  using prompt_enter_acts [of env m]
  by (cases k) (auto simp: handle_key_prompt_def same_request_def edit_prompt_def Let_def)

lemma other_messages_quiet:
  assumes "\<And>k. mg \<noteq> KeyMsg k"
  shows "ui_prompt (fst (update env now mg m)) = ui_prompt m \<and> jobs_started (snd (update env now mg m)) = []"
proof (cases mg)
  case (AIDone answer usage err)
  then show ?thesis
    by (simp add: update_def handle_ai_done_def Let_def split: option.split)
next
  case (ModelsDone r)
  then show ?thesis
    by (simp add: update_def handle_models_done_def pick_def split: sum.split list.split)
qed (use assms in \<open>simp_all add: update_def handle_exec_done_def handle_side_action_def handle_proc_cancel_def
    start_ai_request_def Let_def split: option.split\<close>)

section \<open>Runs\<close>

text \<open>The prompt was opened by a key in an earlier state, and only its text has changed since.\<close>

definition opened :: "tui_env \<Rightarrow> ai_tui \<Rightarrow> ai_tui \<Rightarrow> bool" where
  "opened env start m \<longleftrightarrow>
     (\<exists>m0 k now. (tui_step env)\<^sup>*\<^sup>* start m0 \<and> (tui_step env)\<^sup>*\<^sup>* (fst (update env now (KeyMsg k) m0)) m \<and>
        opens_prompt env m0 k (ui_prompt (fst (update env now (KeyMsg k) m0))) \<and>
        same_request (ui_prompt (fst (update env now (KeyMsg k) m0))) (ui_prompt m))"

lemma opened_step:
  assumes "(tui_step env)\<^sup>*\<^sup>* start m" "sp_active (ui_prompt m) \<Longrightarrow> opened env start m"
    and "sp_active (ui_prompt (fst (update env now mg m)))"
  shows "opened env start (fst (update env now mg m))"
proof -
  let ?m' = "fst (update env now mg m)"
  have keep: "opened env start ?m'" if "sp_active (ui_prompt m)" "same_request (ui_prompt m) (ui_prompt ?m')"
  proof -
    from assms(2) [OF that(1)] obtain m0 k t where
      "(tui_step env)\<^sup>*\<^sup>* start m0" and run: "(tui_step env)\<^sup>*\<^sup>* (fst (update env t (KeyMsg k) m0)) m" and
      "opens_prompt env m0 k (ui_prompt (fst (update env t (KeyMsg k) m0)))" and
      same: "same_request (ui_prompt (fst (update env t (KeyMsg k) m0))) (ui_prompt m)"
      unfolding opened_def by blast
    moreover note tui_run [OF run, of now mg] same_request_trans [OF same that(2)]
    ultimately show ?thesis unfolding opened_def by blast
  qed
  have kept: "opened env start ?m'" if "ui_prompt ?m' = ui_prompt m"
    using keep assms(3) that by simp
  show ?thesis
  proof (cases "\<exists>k. mg = KeyMsg k")
    case True
    then obtain k where k: "mg = KeyMsg k" by blast
    show ?thesis
    proof (cases "sp_active (ui_prompt m)")
      case True
      then show ?thesis
        using keep prompt_key_acts [of env k m] assms(3) by (simp add: k update_key prompted_key)
    next
      case False
      from free_key_acts [OF False, of env k now] consider
          (prompt) p where "handle_key env now k m = (m\<lparr>ui_prompt := p\<rparr>, [])" "opens_prompt env m k p"
        | (quiet) "ui_prompt ?m' = ui_prompt m"
        by (auto simp: acts_def k update_key)
      then show ?thesis
      proof cases
        case prompt
        then show ?thesis
          unfolding opened_def
          by (intro exI [of _ m] exI [of _ k] exI [of _ now]) (simp add: k update_key assms(1))
      qed (rule kept)
    qed
  next
    case False
    then show ?thesis using other_messages_quiet [of mg env now m] by (intro kept) simp
  qed
qed

lemma reachable_opened:
  assumes "(tui_step env)\<^sup>*\<^sup>* start m" "\<not> sp_active (ui_prompt start)" "sp_active (ui_prompt m)"
  shows "opened env start m"
  using assms(1,3)
proof (induction rule: rtranclp_induct)
  case (step m m')
  from step.hyps(2) show ?case
  proof cases
    case (1 now mg)
    then show ?thesis using opened_step [OF step.hyps(1), of now mg] step by simp
  qed
qed (use assms(2) in simp)

lemma new_tui_prompt: "\<not> sp_active (ui_prompt (new_tui spec commands asks period enabled fmt))"
  by (simp add: new_tui_def no_prompt_def)

text \<open>Where an action of the sidebar comes from.\<close>

lemma job_started:
  assumes "Start (SideTask job) \<in> set (snd (update env now mg m))"
  shows "\<exists>k. mg = KeyMsg k \<and> (if sp_active (ui_prompt m) then k = KeyEnter \<and> confirms env m job else direct_read env m k job)"
proof -
  have job: "job \<in> set (jobs_started (snd (update env now mg m)))"
    using assms by (auto simp: jobs_started_def intro!: bexI [of _ "Start (SideTask job)"])
  then obtain k where k: "mg = KeyMsg k"
    using other_messages_quiet [of mg env now m] by (cases "\<exists>k. mg = KeyMsg k") auto
  show ?thesis
  proof (cases "sp_active (ui_prompt m)")
    case True
    then show ?thesis using prompt_key_acts [of env k m] job by (simp add: k update_key prompted_key)
  next
    case False
    from free_key_acts [OF False, of env k now] job have "direct_read env m k job"
      by (auto simp: k update_key acts_def)
    with False k show ?thesis by simp
  qed
qed

text \<open>
  C7: The AI shell acts on the broker from the sidebar only when a key asks for it.  A read starts
  at once on the object that is selected, with \<open>R\<close>, \<open>p\<close> or \<open>m\<close>, in a window that has such reads.
  Every action that changes the broker (create, delete, purge, send, publish) needs a prompt and Enter: it is
  the action of that prompt, on the object for which an earlier key opened it, with that object
  selected and its window in focus; for a deletion or a purge the name is the one that was shown
  then, whatever happened to the objects, the windows and the conversation in between.
\<close>

theorem sidebar_confirms:
  assumes "(tui_step env)\<^sup>*\<^sup>* (new_tui spec commands asks period enabled fmt) m"
    and "Start (SideTask job) \<in> set (snd (update env now mg m))"
  shows "if sp_active (ui_prompt m)
    then mg = KeyMsg KeyEnter \<and> confirms env m job \<and>
      (\<exists>m0 k t. (tui_step env)\<^sup>*\<^sup>* (new_tui spec commands asks period enabled fmt) m0 \<and>
        (tui_step env)\<^sup>*\<^sup>* (fst (update env t (KeyMsg k) m0)) m \<and>
        opens_prompt env m0 k (ui_prompt (fst (update env t (KeyMsg k) m0))) \<and>
        same_request (ui_prompt (fst (update env t (KeyMsg k) m0))) (ui_prompt m))
    else \<exists>k. mg = KeyMsg k \<and> direct_read env m k job"
  using job_started [OF assms(2)] reachable_opened [OF assms(1) new_tui_prompt] by (auto simp: opened_def)

text \<open>Deleting the second of the five queues, while a message arrives.\<close>

definition delete_asked :: ai_tui where
  "delete_asked =
     fst (update sample_tui 0 (TokenMsg ''hello'')
       (fst (update sample_tui 0 (KeyMsg (KeyRunes ''d'')) (fst (update sample_tui 0 (KeyMsg KeyDown) five_queues)))))"

lemma delete_asked_reachable: "(tui_step sample_tui)\<^sup>*\<^sup>* sample_start delete_asked"
  unfolding delete_asked_def by (intro tui_run five_queues_reachable)

lemma delete_asked_state:
  "sp_active (ui_prompt delete_asked)"
  "jobs_started (snd (update sample_tui 0 (KeyMsg KeyEnter) delete_asked)) = [ManageCall DeleteQueue ''b'']"
  "sp_kind (ui_prompt delete_asked) = PromptDelete \<and> sp_name (ui_prompt delete_asked) = ''b''"
  by code_simp+

theorem sidebar_confirms_witness:
  "\<exists>m0 k t. (tui_step sample_tui)\<^sup>*\<^sup>* sample_start m0 \<and>
     opens_prompt sample_tui m0 k (ui_prompt (fst (update sample_tui t (KeyMsg k) m0))) \<and>
     sp_name (ui_prompt (fst (update sample_tui t (KeyMsg k) m0))) = ''b''"
proof -
  have "Start (SideTask (ManageCall DeleteQueue ''b'')) \<in> set (snd (update sample_tui 0 (KeyMsg KeyEnter) delete_asked))"
    by code_simp
  from sidebar_confirms [OF delete_asked_reachable this] show ?thesis
    using delete_asked_state by (auto simp: same_request_def)
qed

end
