(* ===== verification/Ai_Actions.thy ===== *)
theory Ai_Actions
  imports Ai_Confirm Shell_Verbs
begin

text \<open>
  How the goroutines of the AI shell carry out the actions of the sidebar, on the adapters that the
  session shares (src/cmd/aikeys.go, aisidebaractions.go), and what a broker sees of them.
\<close>

section \<open>Carrying out an action\<close>

text \<open>
  Around a session: the closures of the \<open>ManageSpec\<close>, the context of five seconds, and the rendering of the
  metadata of a message as JSON or as YAML, by \<open>encoding/json\<close> and a YAML library.
\<close>

record 'w side_env =
  se_manage :: "manage_op \<Rightarrow> string \<Rightarrow> 'w \<Rightarrow> gerr option \<times> 'w"
  se_purge :: "string \<Rightarrow> 'w \<Rightarrow> (gerr + int) \<times> 'w"
  se_purge_subscription :: "string \<Rightarrow> string \<Rightarrow> 'w \<Rightarrow> (gerr + int) \<times> 'w"
  se_context :: "'w ctx"
  se_json :: "message_record \<Rightarrow> gerr + string"
  se_yaml :: "message_record \<Rightarrow> gerr + string"

text \<open>A result: the text for the transcript, the text for the clipboard, and the error.\<close>

type_synonym side_result = "string \<times> string \<times> gerr option"

definition is_no_message :: "gerr \<Rightarrow> bool" where
  "is_no_message e \<longleftrightarrow> errors_is e ENoMessageAvailable \<or> errors_is e EDeadlineExceeded"

definition branch_glyph :: string where "branch_glyph = [CHR 0xE2, CHR 0x94, CHR 0x94]"

definition branch :: "string \<Rightarrow> side_result" where
  "branch t = (''   '' @ branch_glyph @ '' '' @ t, [], None)"

definition side_failed :: "gerr \<Rightarrow> side_result" where
  "side_failed e = ([], [], Some e)"

definition purged :: "gerr + int \<Rightarrow> side_result" where
  "purged r =
     (case r of
        Inl e \<Rightarrow> side_failed e
      | Inr n \<Rightarrow> branch (if 0 < n then ''purged '' @ int_text n @ '' messages'' else ''purged''))"

text \<open>A payload behind its border, and the white space that is cut off at its end.\<close>

definition render_payload :: "string \<Rightarrow> string" where
  "render_payload content = concat (map snd (payload_spans content))"

definition trim_payload :: "string \<Rightarrow> string" where
  "trim_payload s = rev (dropWhile (\<lambda>c. c \<in> {CHR 0x0A, CHR 0x0D, CHR 0x09, CHR '' ''}) (rev s))"

definition format_payload :: "message \<Rightarrow> side_result" where
  "format_payload m =
     (let payload = trim_payload (m_data m)
      in if payload = [] then branch ''(empty payload)'' else (render_payload payload, payload, None))"

definition format_metadata :: "'w side_env \<Rightarrow> metadata_format \<Rightarrow> message \<Rightarrow> side_result" where
  "format_metadata env fmt m =
     (let rec = record_for_display m False True
      in case (case fmt of
                 MetadataJSON \<Rightarrow> se_json env rec
               | MetadataYAML \<Rightarrow> map_sum id trim_newlines (se_yaml env rec)) of
           Inl e \<Rightarrow> side_failed e
         | Inr t \<Rightarrow> (render_payload t, t, None))"

text \<open>A driver returns a message or an error; for neither of them the code panics.\<close>

definition read_side_result :: "'w side_env \<Rightarrow> read_mode \<Rightarrow> read_result \<Rightarrow> side_result" where
  "read_side_result env mode r =
     (case r of
        (_, Some e) \<Rightarrow> (if is_no_message e then branch ''(no messages available)'' else side_failed e)
      | (None, None) \<Rightarrow> side_failed (ENew ''invalid memory address or nil pointer dereference'')
      | (Some m, None) \<Rightarrow> (case mode of MetadataMode fmt \<Rightarrow> format_metadata env fmt m | _ \<Rightarrow> format_payload m))"

definition verbosity_of :: "read_mode \<Rightarrow> verbosity" where
  "verbosity_of mode = (case mode of MetadataMode fmt \<Rightarrow> VerbosityVerbose | _ \<Rightarrow> VerbosityQuiet)"

definition side_receive_options :: "read_mode \<Rightarrow> string \<Rightarrow> receive_options" where
  "side_receive_options mode queue =
     receive_options0\<lparr>ro_queue := queue, ro_acknowledge := (mode = ReadMode), ro_verbosity := verbosity_of mode, ro_timeout := 1\<rparr>"

definition side_subscribe_options :: "read_mode \<Rightarrow> string \<Rightarrow> string \<Rightarrow> subscribe_options" where
  "side_subscribe_options mode topic sub =
     subscribe_options0\<lparr>uo_topic := topic, uo_extra := [(''subscription'', sub)], uo_acknowledge := (mode = ReadMode),
       uo_verbosity := verbosity_of mode, uo_timeout := 1\<rparr>"

text \<open>An action that uses the queue or the topic adapter of the session.\<close>

definition with_session_queue ::
    "'w shell_env \<Rightarrow> ('w queue_backend \<Rightarrow> 'w \<Rightarrow> side_result \<times> 'w) \<Rightarrow> 'w session \<Rightarrow> side_result \<times> 'w session" where
  "with_session_queue sh f s =
     (case get_queue_adapter sh s of
        (Inl e, s1) \<Rightarrow> (side_failed (EWrap ''adapter: '' e []), s1)
      | (Inr qa, s1) \<Rightarrow> (case f qa (sn_world s1) of (r, w) \<Rightarrow> (r, s1\<lparr>sn_world := w\<rparr>)))"

definition with_session_topic ::
    "'w shell_env \<Rightarrow> ('w topic_backend \<Rightarrow> 'w \<Rightarrow> side_result \<times> 'w) \<Rightarrow> 'w session \<Rightarrow> side_result \<times> 'w session" where
  "with_session_topic sh f s =
     (case get_topic_adapter sh s of
        (Inl e, s1) \<Rightarrow> (side_failed (EWrap ''adapter: '' e []), s1)
      | (Inr ta, s1) \<Rightarrow> (case f ta (sn_world s1) of (r, w) \<Rightarrow> (r, s1\<lparr>sn_world := w\<rparr>)))"

definition manage_session :: "('w \<Rightarrow> side_result \<times> 'w) \<Rightarrow> 'w session \<Rightarrow> side_result \<times> 'w session" where
  "manage_session f s = (case f (sn_world s) of (r, w) \<Rightarrow> (r, s\<lparr>sn_world := w\<rparr>))"

definition told :: "string \<Rightarrow> gerr option \<times> 'w \<Rightarrow> side_result \<times> 'w" where
  "told t r = (case r of (Some e, w) \<Rightarrow> (side_failed e, w) | (None, w) \<Rightarrow> (branch t, w))"

definition run_side_job :: "'w shell_env \<Rightarrow> 'w side_env \<Rightarrow> side_job \<Rightarrow> 'w session \<Rightarrow> side_result \<times> 'w session" where
  "run_side_job sh env job s =
     (case job of
        ManageCall x name \<Rightarrow> manage_session (\<lambda>w. case se_manage env x name w of (e, w') \<Rightarrow> (([], [], e), w')) s
      | PurgeCall queue \<Rightarrow> manage_session (\<lambda>w. case se_purge env queue w of (r, w') \<Rightarrow> (purged r, w')) s
      | PurgeSubscriptionCall topic sub \<Rightarrow>
          manage_session (\<lambda>w. case se_purge_subscription env topic sub w of (r, w') \<Rightarrow> (purged r, w')) s
      | SendCall queue payload \<Rightarrow>
          with_session_queue sh (\<lambda>qa w. told ''sent''
            (qb_send qa (se_context env) (send_options0\<lparr>so_queue := queue, so_message := payload\<rparr>) w)) s
      | PublishCall topic payload \<Rightarrow>
          with_session_topic sh (\<lambda>ta w. told ''published''
            (tb_publish ta (se_context env) (publish_options0\<lparr>po_topic := topic, po_message := payload\<rparr>) w)) s
      | ReadQueue mode queue \<Rightarrow>
          with_session_queue sh (\<lambda>qa w. case qb_receive qa (se_context env) (side_receive_options mode queue) w of
            (r, w') \<Rightarrow> (read_side_result env mode r, w')) s
      | ReadSubscription mode topic sub \<Rightarrow>
          with_session_topic sh (\<lambda>ta w. case tb_subscribe ta (se_context env) (side_subscribe_options mode topic sub) w of
            (r, w') \<Rightarrow> (read_side_result env mode r, w')) s)"

section \<open>What a broker sees\<close>

text \<open>The surroundings of the session on traced backends.\<close>

definition traced_side :: "'w side_env \<Rightarrow> 'w traced side_env" where
  "traced_side env =
     \<lparr>se_manage = (\<lambda>x name s. case se_manage env x name (fst s) of (e, w) \<Rightarrow> (e, (w, snd s))),
      se_purge = (\<lambda>q s. case se_purge env q (fst s) of (r, w) \<Rightarrow> (r, (w, snd s))),
      se_purge_subscription = (\<lambda>t q s. case se_purge_subscription env t q (fst s) of (r, w) \<Rightarrow> (r, (w, snd s))),
      se_context = (\<lambda>s. se_context env (fst s)), se_json = se_json env, se_yaml = se_yaml env\<rparr>"

definition written :: "string \<Rightarrow> gerr option \<Rightarrow> side_result" where
  "written t e = (case e of None \<Rightarrow> branch t | Some x \<Rightarrow> side_failed x)"

text \<open>
  The calls of the adapters for an action, and what is shown of them: nothing and an error when there is no
  adapter, else one call.
\<close>

definition reported :: "'w side_env \<Rightarrow> side_job \<Rightarrow> side_result \<Rightarrow> event list \<Rightarrow> bool" where
  "reported env job r evs \<longleftrightarrow>
     (case job of
        ManageCall x name \<Rightarrow> evs = []
      | PurgeCall q \<Rightarrow> evs = []
      | PurgeSubscriptionCall t q \<Rightarrow> evs = []
      | SendCall q b \<Rightarrow>
          evs = [] \<and> snd (snd r) \<noteq> None \<or>
          (\<exists>x e. evs = [EvSend x e] \<and> so_queue x = q \<and> so_message x = b \<and> r = written ''sent'' e)
      | PublishCall t b \<Rightarrow>
          evs = [] \<and> snd (snd r) \<noteq> None \<or>
          (\<exists>x e. evs = [EvPublish x e] \<and> po_topic x = t \<and> po_message x = b \<and> r = written ''published'' e)
      | ReadQueue mode q \<Rightarrow>
          evs = [] \<and> snd (snd r) \<noteq> None \<or>
          (\<exists>x rr. evs = [EvReceive x rr] \<and> ro_queue x = q \<and> (ro_acknowledge x \<longleftrightarrow> mode = ReadMode) \<and> r = read_side_result env mode rr)
      | ReadSubscription mode t q \<Rightarrow>
          evs = [] \<and> snd (snd r) \<noteq> None \<or>
          (\<exists>x rr. evs = [EvSubscribe x rr] \<and> uo_topic x = t \<and> map_of (uo_extra x) ''subscription'' = Some q \<and>
             (uo_acknowledge x \<longleftrightarrow> mode = ReadMode) \<and> r = read_side_result env mode rr))"

text \<open>The session keeps adapters of its own making, and what is opened is in the trace.\<close>

definition grown :: "'w traced session \<Rightarrow> event list \<Rightarrow> 'w traced session \<Rightarrow> bool" where
  "grown s evs s' \<longleftrightarrow> (\<exists>calls. snd (sn_world s') = snd (sn_world s) @ calls \<and> filter (\<lambda>e. e \<noteq> EvOpen) calls = evs)"

abbreviation traced_session :: "'w traced session \<Rightarrow> bool" where
  "traced_session s \<equiv> pred_option is_traced_queue (sn_queue s) \<and> pred_option is_traced_topic (sn_topic s)"

lemma grown_trans: "grown s xs t \<Longrightarrow> grown t ys u \<Longrightarrow> grown s (xs @ ys) u"
  by (fastforce simp: grown_def)

lemma opened_queue:
  assumes "get_queue_adapter (traced_session_env qf tf al mg shell pipe v) s = (r, s')" "traced_session s"
  shows "grown s [] s' \<and> traced_session s' \<and> (\<forall>a. r = Inr a \<longrightarrow> is_traced_queue a)"
  using assms
  by (auto simp: get_queue_adapter_def traced_session_env_def verbs_env_def traced_factory_def grown_def
      split: option.splits prod.splits sum.splits)

lemma opened_topic:
  assumes "get_topic_adapter (traced_session_env qf tf al mg shell pipe v) s = (r, s')" "traced_session s"
  shows "grown s [] s' \<and> traced_session s' \<and> (\<forall>a. r = Inr a \<longrightarrow> is_traced_topic a)"
  using assms
  by (auto simp: get_topic_adapter_def traced_session_env_def verbs_env_def traced_factory_def grown_def
      split: option.splits prod.splits sum.splits)

text \<open>An action on an adapter of the session: what the adapter's call adds to the trace.\<close>

lemma with_session_queue_grows:
  assumes "with_session_queue (traced_session_env qf tf al mg shell pipe v) f s = (r, s')" "traced_session s"
    and call: "\<And>qa w r w'. is_traced_queue qa \<Longrightarrow> f qa w = (r, w') \<Longrightarrow> \<exists>ev. snd w' = snd w @ [ev] \<and> ev \<noteq> EvOpen \<and> P ev r"
  shows "\<exists>evs. grown s evs s' \<and> traced_session s' \<and> (evs = [] \<and> snd (snd r) \<noteq> None \<or> (\<exists>ev. evs = [ev] \<and> P ev r))"
proof -
  obtain x s1 where x: "get_queue_adapter (traced_session_env qf tf al mg shell pipe v) s = (x, s1)" by (metis surj_pair)
  note g = opened_queue [OF x assms(2)]
  show ?thesis
  proof (cases x)
    case (Inl e)
    then show ?thesis using assms(1) x g by (intro exI [of _ "[]"]) (auto simp: with_session_queue_def side_failed_def)
  next
    case (Inr qa)
    obtain r1 w1 where f: "f qa (sn_world s1) = (r1, w1)" by (metis surj_pair)
    from call [OF _ f] Inr g obtain ev where ev: "snd w1 = snd (sn_world s1) @ [ev]" "ev \<noteq> EvOpen" "P ev r1" by blast
    have s': "r = r1" "s' = s1\<lparr>sn_world := w1\<rparr>" using assms(1) x f Inr by (auto simp: with_session_queue_def)
    then have "grown s1 [ev] s'" using ev by (auto simp: grown_def intro!: exI [of _ "[ev]"])
    with g s' ev grown_trans [of s "[]" s1 "[ev]" s'] show ?thesis by (intro exI [of _ "[ev]"]) auto
  qed
qed

lemma with_session_topic_grows:
  assumes "with_session_topic (traced_session_env qf tf al mg shell pipe v) f s = (r, s')" "traced_session s"
    and call: "\<And>ta w r w'. is_traced_topic ta \<Longrightarrow> f ta w = (r, w') \<Longrightarrow> \<exists>ev. snd w' = snd w @ [ev] \<and> ev \<noteq> EvOpen \<and> P ev r"
  shows "\<exists>evs. grown s evs s' \<and> traced_session s' \<and> (evs = [] \<and> snd (snd r) \<noteq> None \<or> (\<exists>ev. evs = [ev] \<and> P ev r))"
proof -
  obtain x s1 where x: "get_topic_adapter (traced_session_env qf tf al mg shell pipe v) s = (x, s1)" by (metis surj_pair)
  note g = opened_topic [OF x assms(2)]
  show ?thesis
  proof (cases x)
    case (Inl e)
    then show ?thesis using assms(1) x g by (intro exI [of _ "[]"]) (auto simp: with_session_topic_def side_failed_def)
  next
    case (Inr ta)
    obtain r1 w1 where f: "f ta (sn_world s1) = (r1, w1)" by (metis surj_pair)
    from call [OF _ f] Inr g obtain ev where ev: "snd w1 = snd (sn_world s1) @ [ev]" "ev \<noteq> EvOpen" "P ev r1" by blast
    have s': "r = r1" "s' = s1\<lparr>sn_world := w1\<rparr>" using assms(1) x f Inr by (auto simp: with_session_topic_def)
    then have "grown s1 [ev] s'" using ev by (auto simp: grown_def intro!: exI [of _ "[ev]"])
    with g s' ev grown_trans [of s "[]" s1 "[ev]" s'] show ?thesis by (intro exI [of _ "[ev]"]) auto
  qed
qed

lemma manage_grows: "snd (snd (f (sn_world s))) = snd (sn_world s) \<Longrightarrow> manage_session f s = (r, s') \<Longrightarrow> traced_session s \<Longrightarrow>
    grown s [] s' \<and> traced_session s'"
  by (auto simp: manage_session_def grown_def split: prod.splits)

lemma traced_calls:
  "snd (snd (qb_send (traced_queue qb) c x w)) = snd w @ [EvSend x (fst (qb_send (traced_queue qb) c x w))]"
  "snd (snd (qb_receive (traced_queue qb) c y w)) = snd w @ [EvReceive y (fst (qb_receive (traced_queue qb) c y w))]"
  "snd (snd (tb_publish (traced_topic tb) c u w)) = snd w @ [EvPublish u (fst (tb_publish (traced_topic tb) c u w))]"
  "snd (snd (tb_subscribe (traced_topic tb) c v w)) = snd w @ [EvSubscribe v (fst (tb_subscribe (traced_topic tb) c v w))]"
  by (cases w; simp add: traced_queue_def traced_topic_def split: prod.split)+

lemma told_written: "told t r = (written t (fst r), snd r)"
  by (auto simp: told_def written_def split: prod.splits option.splits)

lemma job_reported:
  assumes "run_side_job (traced_session_env qf tf al mg shell pipe v) (traced_side env) job s = (r, s')" "traced_session s"
  shows "\<exists>evs. grown s evs s' \<and> traced_session s' \<and> reported (traced_side env) job r evs"
proof (cases job)
  case (ManageCall x name)
  with assms show ?thesis
    by (intro exI [of _ "[]"]) (auto simp: run_side_job_def reported_def traced_side_def split: prod.splits dest!: manage_grows [rotated])
next
  case (PurgeCall q)
  with assms show ?thesis
    by (intro exI [of _ "[]"]) (auto simp: run_side_job_def reported_def traced_side_def split: prod.splits dest!: manage_grows [rotated])
next
  case (PurgeSubscriptionCall t q)
  with assms show ?thesis
    by (intro exI [of _ "[]"]) (auto simp: run_side_job_def reported_def traced_side_def split: prod.splits dest!: manage_grows [rotated])
next
  case (SendCall q b)
  let ?x = "send_options0\<lparr>so_queue := q, so_message := b\<rparr>"
  have "\<exists>evs. grown s evs s' \<and> traced_session s' \<and>
      (evs = [] \<and> snd (snd r) \<noteq> None \<or> (\<exists>ev. evs = [ev] \<and> (\<exists>e. ev = EvSend ?x e \<and> r = written ''sent'' e)))"
    by (rule with_session_queue_grows [OF assms(1) [unfolded SendCall run_side_job_def side_job.case] assms(2)])
       (auto simp: told_written traced_calls case_prod_beta)
  then show ?thesis
    unfolding SendCall reported_def side_job.case by (elim ex_forward) (auto)
next
  case (PublishCall t b)
  let ?x = "publish_options0\<lparr>po_topic := t, po_message := b\<rparr>"
  have "\<exists>evs. grown s evs s' \<and> traced_session s' \<and>
      (evs = [] \<and> snd (snd r) \<noteq> None \<or> (\<exists>ev. evs = [ev] \<and> (\<exists>e. ev = EvPublish ?x e \<and> r = written ''published'' e)))"
    by (rule with_session_topic_grows [OF assms(1) [unfolded PublishCall run_side_job_def side_job.case] assms(2)])
       (auto simp: told_written traced_calls case_prod_beta)
  then show ?thesis
    unfolding PublishCall reported_def side_job.case by (elim ex_forward) (auto)
next
  case (ReadQueue mode q)
  have "\<exists>evs. grown s evs s' \<and> traced_session s' \<and>
      (evs = [] \<and> snd (snd r) \<noteq> None \<or> (\<exists>ev. evs = [ev] \<and> (\<exists>e. ev = EvReceive (side_receive_options mode q) e \<and> r = read_side_result (traced_side env) mode e)))"
    by (rule with_session_queue_grows [OF assms(1) [unfolded ReadQueue run_side_job_def side_job.case] assms(2)])
       (auto simp: traced_calls case_prod_beta; metis prod.collapse)
  then show ?thesis
    unfolding ReadQueue reported_def side_job.case by (elim ex_forward) (auto simp: side_receive_options_def)
next
  case (ReadSubscription mode t q)
  have "\<exists>evs. grown s evs s' \<and> traced_session s' \<and>
      (evs = [] \<and> snd (snd r) \<noteq> None \<or> (\<exists>ev. evs = [ev] \<and> (\<exists>e. ev = EvSubscribe (side_subscribe_options mode t q) e \<and> r = read_side_result (traced_side env) mode e)))"
    by (rule with_session_topic_grows [OF assms(1) [unfolded ReadSubscription run_side_job_def side_job.case] assms(2)])
       (auto simp: traced_calls case_prod_beta; metis prod.collapse)
  then show ?thesis
    unfolding ReadSubscription reported_def side_job.case by (elim ex_forward) (auto simp: side_subscribe_options_def)
qed

text \<open>The call that a key in a state of the shell asks for.\<close>

fun asked :: "tui_env \<Rightarrow> ai_tui \<Rightarrow> key \<Rightarrow> event \<Rightarrow> bool" where
  "asked env m k (EvReceive x rr) \<longleftrightarrow>
     \<not> sp_active (ui_prompt m) \<and> (ro_acknowledge x \<longleftrightarrow> k = KeyRunes ''R'') \<and>
     (\<exists>w n. focus_window m = Some w \<and> selected_row (te_sort env) w = Some (n, []) \<and> ro_queue x = on_name n)"
| "asked env m k (EvSubscribe x rr) \<longleftrightarrow>
     \<not> sp_active (ui_prompt m) \<and> (uo_acknowledge x \<longleftrightarrow> k = KeyRunes ''R'') \<and>
     (\<exists>w n. focus_window m = Some w \<and> selected_row (te_sort env) w = Some (n, uo_topic x) \<and>
        map_of (uo_extra x) ''subscription'' = Some (on_name n))"
| "asked env m k (EvSend x e) \<longleftrightarrow>
     k = KeyEnter \<and> sp_active (ui_prompt m) \<and> so_queue x = sp_target (ui_prompt m) \<and> so_message x = sp_name (ui_prompt m)"
| "asked env m k (EvPublish x e) \<longleftrightarrow>
     k = KeyEnter \<and> sp_active (ui_prompt m) \<and> po_topic x = sp_target (ui_prompt m) \<and> po_message x = sp_name (ui_prompt m)"
| "asked env m k e \<longleftrightarrow> False"

lemma reported_asked:
  assumes "reported env job r evs" and "ev \<in> set evs"
    and "if sp_active (ui_prompt m) then k = KeyEnter \<and> confirms tui m job else direct_read tui m k job"
  shows "asked tui m k ev"
proof (cases "sp_active (ui_prompt m)")
  case True
  with assms show ?thesis
    by (auto simp: confirms_def reported_def Let_def split: prompt_kind.splits if_splits)
next
  case False
  with assms obtain w n parent mode where *: "focus_window m = Some w" "selected_row (te_sort tui) w = Some (n, parent)"
    "k = KeyRunes (case mode of ReadMode \<Rightarrow> ''R'' | PeekMode \<Rightarrow> ''p'' | MetadataMode fmt \<Rightarrow> ''m'')"
    "parent = [] \<and> job = ReadQueue mode (on_name n) \<or> job = ReadSubscription mode parent (on_name n)"
    by (auto simp: direct_read_def)
  then have "mode = ReadMode \<longleftrightarrow> k = KeyRunes ''R''" by (cases mode) auto
  with * False assms(1,2) show ?thesis by (auto simp: reported_def)
qed

text \<open>
  C8: From the key to the broker: an action of the sidebar makes at most one call on the adapters that
  the session shares (beside opening one), and it is the one that the key asked for.  A message is taken
  only with \<open>R\<close>, from the queue or the subscription that is selected; \<open>p\<close> and \<open>m\<close> read without
  acknowledging; a message is sent or published only with Enter in a prompt, to the object of the
  prompt, and it is the text of the prompt.  What the shell reports is what the call returned: it says
  that a message was sent only when the broker has confirmed it, and that there is no message only
  when the read has found none.
\<close>

theorem sidebar_effects:
  assumes "Start (SideTask job) \<in> set (snd (update tui now mg m))"
    and "run_side_job (traced_session_env qf tf al mng shell pipe v) (traced_side env) job s = (r, s')"
    and "traced_session s"
  shows "\<exists>k evs. mg = KeyMsg k \<and> grown s evs s' \<and> reported (traced_side env) job r evs \<and> (\<forall>ev \<in> set evs. asked tui m k ev)"
proof -
  obtain k where k: "mg = KeyMsg k"
      "if sp_active (ui_prompt m) then k = KeyEnter \<and> confirms tui m job else direct_read tui m k job"
    using job_started [OF assms(1)] by blast
  obtain evs where "grown s evs s'" "reported (traced_side env) job r evs"
    using job_reported [OF assms(2,3)] by blast
  with k reported_asked [OF _ _ k(2)] show ?thesis by blast
qed

text \<open>Sending a message to the first of the five queues.\<close>

definition send_asked :: ai_tui where
  "send_asked =
     fst (update sample_tui 0 (KeyMsg (KeyRunes ''hi'')) (fst (update sample_tui 0 (KeyMsg (KeyRunes ''S'')) five_queues)))"

definition sample_side :: "script side_env" where
  "sample_side =
     \<lparr>se_manage = (\<lambda>x n w. (None, w)), se_purge = (\<lambda>q w. (Inr 0, w)), se_purge_subscription = (\<lambda>t q w. (Inr 0, w)),
      se_context = (\<lambda>w. None), se_json = (\<lambda>m. Inr ''{}''), se_yaml = (\<lambda>m. Inr ''{}'')\<rparr>"

lemma send_started: "snd (update sample_tui 0 (KeyMsg KeyEnter) send_asked) = [Start (SideTask (SendCall ''a'' ''hi''))]"
  by code_simp

lemma send_run:
  "\<exists>s. run_side_job sample_session_env (traced_side sample_side) (SendCall ''a'' ''hi'') (new_session (script_of [] [None], [])) =
     (branch ''sent'', s)"
  by (simp add: run_side_job_def with_session_queue_def get_queue_adapter_def new_session_def traced_session_env_def verbs_env_def
      traced_factory_def traced_queue_def script_defs script_write_def told_def)

theorem sidebar_effects_witness:
  "\<exists>s x e. grown (new_session (script_of [] [None], [])) [EvSend x e] s \<and> so_queue x = ''a'' \<and> so_message x = ''hi'' \<and> e = None"
proof -
  obtain s where s: "run_side_job sample_session_env (traced_side sample_side) (SendCall ''a'' ''hi'')
      (new_session (script_of [] [None], [])) = (branch ''sent'', s)" using send_run by blast
  have start: "Start (SideTask (SendCall ''a'' ''hi'')) \<in> set (snd (update sample_tui 0 (KeyMsg KeyEnter) send_asked))"
    by (simp add: send_started)
  from sidebar_effects [OF start s] obtain evs where
    "grown (new_session (script_of [] [None], [])) evs s" "reported (traced_side sample_side) (SendCall ''a'' ''hi'') (branch ''sent'') evs"
    by (auto simp: new_session_def)
  then show ?thesis
    by (auto simp: reported_def branch_def written_def side_failed_def split: option.splits)
qed

end
